(* ===== verification/EP_Prelude.thy ===== *)
theory EP_Prelude
  imports Main "HOL-Library.Word" "HOL-Library.Multiset"
begin

text \<open>
  Shared vocabulary of the development: the machine-integer types of the C++ and CUDA sources,
  the \<^verbatim>\<open>errno\<close> values they set, the collections of simplification rules the component theories
  fill, and the generic facts on words, lists and arithmetic that several components use.
\<close>

unbundle bit_operations_syntax

section \<open>Machine integers\<close>

text \<open>
  \<^verbatim>\<open>uint8_t\<close> to \<^verbatim>\<open>uint64_t\<close> and \<^verbatim>\<open>size_t\<close> are words. A C \<^verbatim>\<open>int\<close> is a 32-bit word read with
  \<^term>\<open>sint\<close> where its sign matters; conversions between widths are written out with
  \<^term>\<open>ucast\<close> (unsigned) and \<^term>\<open>scast\<close> (sign extension).
\<close>

type_synonym u8 = "8 word"
type_synonym u16 = "16 word"
type_synonym u32 = "32 word"
type_synonym u64 = "64 word"
type_synonym size_t = "64 word"
type_synonym cint = "32 word"

abbreviation SIZE_MAX :: size_t where
  "SIZE_MAX \<equiv> - 1"

datatype errno = EINVAL | ENOMEM | EIO | ENOTSUP

named_theorems word_nat "unsigned values of word operations that do not wrap around"
named_theorems heap_simps "record updates and projections of the allocator model"

section \<open>Unsigned arithmetic without wrap-around\<close>

lemma unat_add_64 [word_nat]:
  fixes a b :: u64
  assumes "unat a + unat b < 2 ^ 64"
  shows "unat (a + b) = unat a + unat b"
  using assms by (simp add: unat_word_ariths)

lemma unat_sub_le [word_nat]:
  fixes a b :: "'a::len word"
  assumes "unat b \<le> unat a"
  shows "unat (a - b) = unat a - unat b"
  using assms by (simp add: unat_sub word_le_nat_alt)

lemma unat_mult_64 [word_nat]:
  fixes a b :: u64
  assumes "unat a * unat b < 2 ^ 64"
  shows "unat (a * b) = unat a * unat b"
  using assms by (simp add: unat_word_ariths)

lemma unat_mult_32 [word_nat]:
  fixes a b :: u32
  assumes "unat a * unat b < 2 ^ 32"
  shows "unat (a * b) = unat a * unat b"
  using assms by (simp add: unat_word_ariths)

lemma unat_pow2_32: "i < 32 \<Longrightarrow> unat (2 ^ i :: u32) = 2 ^ i"
proof -
  assume "i < 32"
  then have "(2::nat) ^ i < 2 ^ 32" by (intro power_strict_increasing) simp_all
  moreover have "(2 ^ i :: u32) = of_nat (2 ^ i)" by simp
  ultimately show ?thesis by (simp only: unat_of_nat) (simp add: take_bit_nat_eq_self)
qed

lemma unat_of_nat_64: "n < 2 ^ 64 \<Longrightarrow> unat (of_nat n :: u64) = n"
  by (simp add: unat_of_nat take_bit_nat_eq_self)

lemma unat_less_64: "unat (a :: u64) < 2 ^ 64"
  using unsigned_less [of a] by simp

lemma unat_SIZE_MAX [simp]: "unat SIZE_MAX = 2 ^ 64 - 1"
  by (simp add: unsigned_minus_1_eq_mask mask_eq_exp_minus_1)

lemma not_SIZE_MAX:
  fixes a :: u64
  assumes "unat a < 2 ^ 64 - 1"
  shows "a \<noteq> SIZE_MAX"
  using assms by auto

section \<open>Powers of two as masks\<close>

lemma unat_and_mask:
  fixes x a :: "'a::len word"
  assumes a: "unat a = 2 ^ k"
  shows "unat (x AND (a - 1)) = unat x mod 2 ^ k"
proof -
  have "a - 1 = mask k"
  proof -
    have "a = of_nat (unat a)" by simp
    also have "\<dots> = 2 ^ k" unfolding a by simp
    finally have "a = 2 ^ k" .
    then show ?thesis by (simp add: mask_eq_decr_exp)
  qed
  then show ?thesis
    by (simp add: take_bit_eq_mask [symmetric] unsigned_take_bit_eq
          take_bit_eq_mod [of k "unat x"])
qed

lemma word_and_plus_or: "(x AND y) + (x OR y) = x + (y :: 'a::len word)"
proof -
  have "word_of_int (uint (x AND y) + uint (x OR y)) = (word_of_int (uint x + uint y) :: 'a word)"
    by (simp only: unsigned_and_eq unsigned_or_eq plus_and_or)
  then show ?thesis by simp
qed

lemma unat_and_not_mask:
  fixes x a :: "'a::len word"
  assumes "unat a = 2 ^ k"
  shows "unat (x AND NOT (a - 1)) = unat x div 2 ^ k * 2 ^ k"
proof -
  let ?l = "x AND (a - 1)" and ?h = "x AND NOT (a - 1)"
  have "?h AND ?l = 0" "?h OR ?l = x" by (rule bit_word_eqI, auto simp: bit_simps)+
  then have "?h + ?l = x" using word_and_plus_or [of ?h ?l] by simp
  then have "?h = x - ?l" by (simp add: eq_diff_eq)
  moreover have "unat ?l = unat x mod 2 ^ k" using assms by (rule unat_and_mask)
  moreover have "unat (x - ?l) = unat x - unat ?l" using calculation(2) by (intro unat_sub_le) simp
  ultimately show ?thesis by (simp only: minus_mod_eq_div_mult)
qed

lemma nat_and_pred_power2: "0 < n \<Longrightarrow> n AND (n - 1) = 0 \<Longrightarrow> \<exists>k. n = 2 ^ k" for n :: nat
proof (induction n rule: less_induct)
  case (less n)
  show ?case
  proof (cases "even n")
    case True
    then obtain m where m: "n = 2 * m" by blast
    with less.prems have "0 < m" by simp
    have "n AND (n - 1) = 2 * (m AND (m - 1))"
    proof -
      have "(n - 1) div 2 = m - 1" using m \<open>0 < m\<close> by arith
      then show ?thesis using m by (subst and_nat_rec) simp
    qed
    with less.prems have "m AND (m - 1) = 0" by simp
    with less.IH [of m] m \<open>0 < m\<close> obtain k where "m = 2 ^ k" by auto
    with m have "n = 2 ^ Suc k" by simp
    then show ?thesis ..
  next
    case False
    then obtain m where m: "n = 2 * m + 1" by (blast elim: oddE)
    have "n AND (n - 1) = 2 * m"
      using m by (subst and_nat_rec) simp
    with less.prems m have "n = 2 ^ 0" by simp
    then show ?thesis ..
  qed
qed

lemma word_and_pred_power2:
  fixes a :: "'a::len word"
  assumes "a \<noteq> 0" "a AND (a - 1) = 0"
  shows "\<exists>k. unat a = 2 ^ k"
proof (rule nat_and_pred_power2)
  show "0 < unat a" using assms(1) by (simp add: unat_gt_0)
  have "unat (a - 1) = unat a - 1"
    using assms(1) by (simp add: unat_minus_one)
  then show "unat a AND (unat a - 1) = 0"
    using assms(2) by (metis unsigned_0 unsigned_and_eq)
qed

lemma word_and_pred_of_power2:
  fixes a :: "'a::len word"
  assumes "unat a = 2 ^ k"
  shows "a AND (a - 1) = 0"
  using unat_and_mask [OF assms, of a] assms by (simp add: unat_eq_0)

section \<open>Sums over updated lists\<close>

lemma sum_list_map_update:
  fixes f :: "'a \<Rightarrow> nat"
  assumes "i < length xs"
  shows "sum_list (map f (xs[i := x])) + f (xs ! i) = sum_list (map f xs) + f x"
  using assms
proof (induction xs arbitrary: i)
  case Nil
  then show ?case by simp
next
  case (Cons y ys)
  then show ?case by (cases i) (auto simp: add.assoc add.left_commute)
qed

lemma member_le_sum_list_map:
  fixes f :: "'a \<Rightarrow> nat"
  assumes "i < length xs"
  shows "f (xs ! i) \<le> sum_list (map f xs)"
  using assms by (simp add: member_le_sum_list)

section \<open>Rounding up to a multiple\<close>

definition round_up :: "nat \<Rightarrow> nat \<Rightarrow> nat" where
  "round_up n a = (n + a - 1) div a * a"

lemma round_up_ge: "0 < a \<Longrightarrow> n \<le> round_up n a"
proof -
  assume a: "0 < a"
  have "(n + a - 1) mod a < a" using a by simp
  moreover have "(n + a - 1) div a * a + (n + a - 1) mod a = n + a - 1" by simp
  ultimately show ?thesis using a unfolding round_up_def by linarith
qed

lemma round_up_less: "0 < a \<Longrightarrow> round_up n a < n + a"
proof -
  assume a: "0 < a"
  have "round_up n a \<le> n + a - 1" by (simp add: round_up_def)
  with a show ?thesis by simp
qed

lemma round_up_dvd: "a dvd round_up n a"
  by (simp add: round_up_def)

lemma round_up_dvd_eq: "0 < a \<Longrightarrow> a dvd n \<Longrightarrow> round_up n a = n"
proof -
  assume a: "0 < a" and "a dvd n"
  then obtain q where q: "n = a * q" by blast
  have "n + a - 1 = (a - 1) + q * a" using a q by (simp add: mult.commute)
  then have "(n + a - 1) div a = q + (a - 1) div a"
    using a div_mult_self1 [of a "a - 1" q] by simp
  then have "(n + a - 1) div a = q" using a by simp
  with q show ?thesis by (simp add: round_up_def)
qed

lemma round_up_not_dvd: "0 < a \<Longrightarrow> n mod a \<noteq> 0 \<Longrightarrow> round_up n a = n - n mod a + a"
proof -
  assume a: "0 < a" and m: "n mod a \<noteq> 0"
  have "n + a - 1 = (n mod a - 1) + (n div a + 1) * a"
  proof -
    have "n + a - 1 = (n mod a - 1) + n div a * a + a"
      using m div_mult_mod_eq [of n a] by linarith
    then show ?thesis by simp
  qed
  moreover have "(n mod a - 1) div a = 0"
    using a by (simp add: less_imp_diff_less)
  ultimately have "(n + a - 1) div a = n div a + 1"
    using a div_mult_self1 [of a "n mod a - 1" "n div a + 1"] by simp
  then show ?thesis
    by (simp add: round_up_def minus_mod_eq_div_mult)
qed

end
