(* ===== verification/Memheap.thy ===== *)
theory Memheap
  imports EP_Prelude
begin

text \<open>
  The control-buffer allocator of \<^verbatim>\<open>include/ep_ibgda/memheap.h\<close>: a first-fit scan over at most
  1024 recorded blocks, then a bump allocation at the offset \<^verbatim>\<open>allocated\<close>. The array
  \<^verbatim>\<open>allocs[0..alloc_count)\<close> is the list \<open>allocs\<close>, so \<^verbatim>\<open>alloc_count\<close> is its length; entries
  beyond \<^verbatim>\<open>alloc_count\<close> are never read by the code. Every operation runs under the heap's mutex
  from its first access to its last, so each is one atomic state transformation.
\<close>

section \<open>State\<close>

abbreviation MEMHEAP_MAX_ALLOCATIONS :: nat where
  "MEMHEAP_MAX_ALLOCATIONS \<equiv> 1024"

record memheap_allocation =
  a_offset :: size_t
  a_size :: size_t
  a_used :: bool

record memheap =
  heap_size :: size_t
  allocated :: size_t
  allocs :: "memheap_allocation list"

section \<open>Operations\<close>

text \<open>\<^verbatim>\<open>malloc_ok\<close> says whether the \<^verbatim>\<open>malloc\<close> of the header succeeded.\<close>

definition memheap_create :: "bool \<Rightarrow> size_t \<Rightarrow> memheap option" where
  "memheap_create malloc_ok sz =
     (if \<not> malloc_ok then None
      else Some \<lparr>heap_size = sz, allocated = 0, allocs = []\<rparr>)"

text \<open>The rounding both phases of the allocator use: \<^verbatim>\<open>if (off & (align-1)) off = (off | (align-1)) + 1\<close>.\<close>

definition align_offset :: "size_t \<Rightarrow> size_t \<Rightarrow> size_t" where
  "align_offset off align =
     (if off AND (align - 1) \<noteq> 0 then (off OR (align - 1)) + 1 else off)"

text \<open>Appending a record, dropped silently once the array is full.\<close>

definition push_alloc :: "memheap \<Rightarrow> size_t \<Rightarrow> size_t \<Rightarrow> bool \<Rightarrow> memheap" where
  "push_alloc h off sz used =
     (if length (allocs h) < MEMHEAP_MAX_ALLOCATIONS
      then h\<lparr>allocs := allocs h @ [\<lparr>a_offset = off, a_size = sz, a_used = used\<rparr>]\<rparr>
      else h)"

definition block_fits :: "memheap_allocation \<Rightarrow> size_t \<Rightarrow> size_t \<Rightarrow> bool" where
  "block_fits b sz align \<longleftrightarrow>
     align_offset (a_offset b) align + sz \<le> a_offset b + a_size b"

text \<open>
  Reusing block \<open>i\<close>: the gap before the aligned offset and the rest behind it become free blocks
  (while records last), and block \<open>i\<close> becomes the allocation.
\<close>

definition take_block :: "memheap \<Rightarrow> nat \<Rightarrow> size_t \<Rightarrow> size_t \<Rightarrow> memheap \<times> size_t" where
  "take_block h i sz align =
     (let b = allocs h ! i;
          offset = a_offset b;
          block_size = a_size b;
          aligned_offset = align_offset offset align;
          h1 = (if aligned_offset > offset
                then push_alloc h offset (aligned_offset - offset) False else h);
          h2 = (if aligned_offset + sz < offset + block_size
                then push_alloc h1 (aligned_offset + sz)
                       (offset + block_size - (aligned_offset + sz)) False
                else h1);
          h3 = h2\<lparr>allocs := (allocs h2)[i := \<lparr>a_offset = aligned_offset, a_size = sz, a_used = True\<rparr>]\<rparr>
      in (h3\<lparr>allocated := allocated h3 + sz\<rparr>, aligned_offset))"

text \<open>The \<^verbatim>\<open>for\<close> loop over the records, from index \<open>i\<close>.\<close>

function alloc_scan :: "memheap \<Rightarrow> size_t \<Rightarrow> size_t \<Rightarrow> nat \<Rightarrow> memheap \<times> size_t" where
  "alloc_scan h sz align i =
     (if i < length (allocs h) then
        if \<not> a_used (allocs h ! i) \<and> block_fits (allocs h ! i) sz align
        then take_block h i sz align
        else alloc_scan h sz align (Suc i)
      else (h, SIZE_MAX))"
  by pat_completeness auto
termination
  by (relation "measure (\<lambda>(h, sz, align, i). length (allocs h) - i)") auto

declare alloc_scan.simps [simp del]

text \<open>
  The result is the heap, the returned \<^verbatim>\<open>size_t\<close> and the value written to \<^verbatim>\<open>errno\<close>
  (\<open>None\<close>: left as it was).
\<close>

definition memheap_aligned_alloc ::
  "memheap \<Rightarrow> size_t \<Rightarrow> size_t \<Rightarrow> memheap \<times> size_t \<times> errno option" where
  "memheap_aligned_alloc h sz align =
     (if sz = 0 then (h, SIZE_MAX, None)
      else if align = 0 \<or> align AND (align - 1) \<noteq> 0 then (h, SIZE_MAX, Some EINVAL)
      else
        let (h1, ret) = alloc_scan h sz align 0 in
        if ret = SIZE_MAX then
          let offset = align_offset (allocated h1) align in
          if offset + sz \<le> heap_size h1
          then ((push_alloc h1 offset sz True)\<lparr>allocated := offset + sz\<rparr>, offset, None)
          else (h1, SIZE_MAX, Some ENOMEM)
        else (h1, ret, None))"

text \<open>\<^verbatim>\<open>alignof(max_align_t)\<close> is 16 on the x86-64 ABI the build targets.\<close>

definition memheap_alloc_align :: "size_t \<Rightarrow> size_t" where
  "memheap_alloc_align sz =
     (let align = sz AND (- sz);
          align = (if align > 16 then 16 else align)
      in if align < 8 then 8 else align)"

definition memheap_alloc :: "memheap \<Rightarrow> size_t \<Rightarrow> memheap \<times> size_t \<times> errno option" where
  "memheap_alloc h sz = memheap_aligned_alloc h sz (memheap_alloc_align sz)"

text \<open>The scan of \<^verbatim>\<open>memheap_free\<close>: the first used record with that offset is released.\<close>

function free_scan :: "memheap \<Rightarrow> size_t \<Rightarrow> nat \<Rightarrow> memheap" where
  "free_scan h off i =
     (if i < length (allocs h) then
        if a_used (allocs h ! i) \<and> a_offset (allocs h ! i) = off
        then h\<lparr>allocs := (allocs h)[i := (allocs h ! i)\<lparr>a_used := False\<rparr>],
               allocated := allocated h - a_size (allocs h ! i)\<rparr>
        else free_scan h off (Suc i)
      else h)"
  by pat_completeness auto
termination
  by (relation "measure (\<lambda>(h, off, i). length (allocs h) - i)") auto

declare free_scan.simps [simp del]

text \<open>A null heap is handled by the caller's \<open>option\<close>: \<^verbatim>\<open>memheap_free(NULL, off)\<close> returns at once.\<close>

definition memheap_free :: "memheap \<Rightarrow> size_t \<Rightarrow> memheap" where
  "memheap_free h off = (if off = SIZE_MAX then h else free_scan h off 0)"

section \<open>Alignment\<close>

lemma align_offset_nat:
  assumes a: "unat align = 2 ^ k" and ov: "unat off + 2 ^ k < 2 ^ 64"
  shows "unat (align_offset off align) = round_up (unat off) (2 ^ k)"
proof (cases "unat off mod 2 ^ k = 0")
  case True
  then have "off AND (align - 1) = 0"
    using unat_and_mask [OF a, of off] by (simp add: unat_eq_0)
  moreover have "round_up (unat off) (2 ^ k) = unat off"
    using True by (intro round_up_dvd_eq) (auto simp: dvd_eq_mod_eq_0)
  ultimately show ?thesis by (simp add: align_offset_def)
next
  case False
  then have ne: "off AND (align - 1) \<noteq> 0"
    using unat_and_mask [OF a, of off] by auto
  have "(off OR (align - 1)) + 1 = off + align - (off AND (align - 1))"
    using word_and_plus_or [of off "align - 1"] by (simp add: algebra_simps)
  moreover have "unat (off + align) = unat off + 2 ^ k"
    using a ov by (simp add: unat_add_64)
  moreover from calculation have "unat (off AND (align - 1)) \<le> unat (off + align)"
    using unat_and_mask [OF a, of off] by (simp add: trans_le_add1)
  ultimately have "unat ((off OR (align - 1)) + 1) = unat off + 2 ^ k - unat off mod 2 ^ k"
    using unat_and_mask [OF a, of off] by (simp add: unat_sub_le)
  also have "\<dots> = round_up (unat off) (2 ^ k)"
    using False by (simp add: round_up_not_dvd)
  finally show ?thesis using ne by (simp add: align_offset_def)
qed

lemma align_offset_bounds:
  assumes "unat align = 2 ^ k" and "unat off + 2 ^ k < 2 ^ 64"
  shows "unat off \<le> unat (align_offset off align)"
    and "unat (align_offset off align) < unat off + 2 ^ k"
    and "2 ^ k dvd unat (align_offset off align)"
  using align_offset_nat [OF assms] by (simp_all add: round_up_ge round_up_less round_up_dvd)

lemma align_offset_aligned:
  assumes "unat align = 2 ^ k" and "2 ^ k dvd unat off"
  shows "align_offset off align = off"
  using unat_and_mask [OF assms(1), of off] assms(2)
  by (simp add: align_offset_def unat_eq_0 dvd_eq_mod_eq_0)

section \<open>The allocator's invariant\<close>

text \<open>
  \<open>heap_wf\<close>: every record is a non-empty range inside the heap; \<^verbatim>\<open>allocated\<close> is at least the sum
  of the used sizes, so \<^verbatim>\<open>heap->allocated -= size\<close> never wraps below zero; and \<^verbatim>\<open>allocated\<close> plus
  the free bytes stays below \<open>1025\<close> heaps, so \<^verbatim>\<open>heap->allocated += size\<close> never wraps above
  \<open>2^64\<close>. It holds for heaps of at most \<open>2^48\<close> bytes; the program uses one of \<open>2^30\<close>.
\<close>

definition blk_end :: "memheap_allocation \<Rightarrow> nat" where
  "blk_end b = unat (a_offset b) + unat (a_size b)"

definition used_bytes :: "memheap_allocation list \<Rightarrow> nat" where
  "used_bytes bs = sum_list (map (\<lambda>b. if a_used b then unat (a_size b) else 0) bs)"

definition free_bytes :: "memheap_allocation list \<Rightarrow> nat" where
  "free_bytes bs = sum_list (map (\<lambda>b. if a_used b then 0 else unat (a_size b)) bs)"

definition block_ok :: "nat \<Rightarrow> memheap_allocation \<Rightarrow> bool" where
  "block_ok cap b \<longleftrightarrow> 0 < unat (a_size b) \<and> blk_end b \<le> cap"

definition heap_wf :: "memheap \<Rightarrow> bool" where
  "heap_wf h \<longleftrightarrow>
     unat (heap_size h) \<le> 2 ^ 48 \<and>
     length (allocs h) \<le> MEMHEAP_MAX_ALLOCATIONS \<and>
     list_all (block_ok (unat (heap_size h))) (allocs h) \<and>
     used_bytes (allocs h) \<le> unat (allocated h) \<and>
     unat (allocated h) + free_bytes (allocs h) \<le> 1025 * unat (heap_size h)"

lemma heap_wf_create:
  "unat sz \<le> 2 ^ 48 \<Longrightarrow> memheap_create ok sz = Some h \<Longrightarrow> heap_wf h"
  by (auto simp: memheap_create_def heap_wf_def used_bytes_def free_bytes_def split: if_splits)

lemma heap_wf_block:
  assumes "heap_wf h" and "i < length (allocs h)"
  shows "0 < unat (a_size (allocs h ! i))"
    and "unat (a_offset (allocs h ! i)) + unat (a_size (allocs h ! i)) \<le> unat (heap_size h)"
  using assms by (auto simp: heap_wf_def list_all_length block_ok_def blk_end_def)

text \<open>Appending a free record: every field of the result, in one lemma.\<close>

lemma push_free:
  assumes "list_all (block_ok cap) (allocs h)" and "length (allocs h) \<le> MEMHEAP_MAX_ALLOCATIONS"
    and "0 < unat sz" and "unat off + unat sz \<le> cap"
  defines "h' \<equiv> push_alloc h off sz False"
  shows "heap_size h' = heap_size h" and "allocated h' = allocated h"
    and "length (allocs h) \<le> length (allocs h')" and "length (allocs h') \<le> MEMHEAP_MAX_ALLOCATIONS"
    and "list_all (block_ok cap) (allocs h')"
    and "used_bytes (allocs h') = used_bytes (allocs h)"
    and "free_bytes (allocs h') \<le> free_bytes (allocs h) + unat sz"
  using assms(1-4) unfolding h'_def push_alloc_def
  by (auto simp: used_bytes_def free_bytes_def block_ok_def blk_end_def)

lemma push_alloc_nth [simp]:
  "i < length (allocs h) \<Longrightarrow> allocs (push_alloc h off sz u) ! i = allocs h ! i"
  by (simp add: push_alloc_def nth_append)

lemma push_alloc_sel [simp]:
  "heap_size (push_alloc h off sz u) = heap_size h"
  "allocated (push_alloc h off sz u) = allocated h"
  by (simp_all add: push_alloc_def)

lemma bytes_update:
  assumes "i < length bs"
  shows "used_bytes (bs[i := b]) + (if a_used (bs ! i) then unat (a_size (bs ! i)) else 0) =
           used_bytes bs + (if a_used b then unat (a_size b) else 0)"
    and "free_bytes (bs[i := b]) + (if a_used (bs ! i) then 0 else unat (a_size (bs ! i))) =
           free_bytes bs + (if a_used b then 0 else unat (a_size b))"
  using sum_list_map_update [OF assms, of "\<lambda>b. if a_used b then unat (a_size b) else 0" b]
    sum_list_map_update [OF assms, of "\<lambda>b. if a_used b then 0 else unat (a_size b)" b]
  by (simp_all only: used_bytes_def free_bytes_def)

lemma free_bytes_ge:
  "i < length bs \<Longrightarrow> \<not> a_used (bs ! i) \<Longrightarrow> unat (a_size (bs ! i)) \<le> free_bytes bs"
  using member_le_sum_list_map [of i bs "\<lambda>b. if a_used b then 0 else unat (a_size b)"]
  by (simp add: free_bytes_def)

lemma used_bytes_ge:
  "i < length bs \<Longrightarrow> a_used (bs ! i) \<Longrightarrow> unat (a_size (bs ! i)) \<le> used_bytes bs"
  using member_le_sum_list_map [of i bs "\<lambda>b. if a_used b then unat (a_size b) else 0"]
  by (simp add: used_bytes_def)

text \<open>The conditions on a request under which the offsets computed for it cannot wrap around.\<close>

definition request_ok :: "size_t \<Rightarrow> size_t \<Rightarrow> bool" where
  "request_ok sz align \<longleftrightarrow> unat sz \<le> 2 ^ 48 \<and> unat align \<le> 2 ^ 48"

lemma block_fits_nat:
  assumes wf: "heap_wf h" and i: "i < length (allocs h)" and fits: "block_fits (allocs h ! i) sz align"
    and a: "unat align = 2 ^ k" and req: "request_ok sz align"
  defines "off \<equiv> a_offset (allocs h ! i)" and "al \<equiv> align_offset (a_offset (allocs h ! i)) align"
  shows "unat (al + sz) = unat al + unat sz"
    and "unat (off + a_size (allocs h ! i)) = unat off + unat (a_size (allocs h ! i))"
    and "unat off \<le> unat al" and "2 ^ k dvd unat al"
    and "unat al + unat sz \<le> unat off + unat (a_size (allocs h ! i))"
proof -
  have cap: "unat off + unat (a_size (allocs h ! i)) \<le> 2 ^ 48"
    using heap_wf_block [OF wf i] wf by (simp add: off_def heap_wf_def)
  have sz: "unat sz \<le> 2 ^ 48" and k: "(2::nat) ^ k \<le> 2 ^ 48"
    using req a by (simp_all add: request_ok_def)
  have "unat off + 2 ^ k < 2 ^ 64" using cap k by simp
  note al = align_offset_bounds [OF a this]
  have al': "unat al < unat off + 2 ^ k" using al by (simp add: al_def off_def)
  show 1: "unat (al + sz) = unat al + unat sz"
    using al' cap sz k by (intro unat_add_64) simp
  show 2: "unat (off + a_size (allocs h ! i)) = unat off + unat (a_size (allocs h ! i))"
    using cap by (intro unat_add_64) simp
  show "unat off \<le> unat al" "2 ^ k dvd unat al"
    using al by (simp_all add: al_def off_def)
  show "unat al + unat sz \<le> unat off + unat (a_size (allocs h ! i))"
    using fits 1 2 by (simp add: block_fits_def al_def off_def word_le_nat_alt)
qed

text \<open>
  Reusing a free block keeps the invariant and returns an aligned range inside the old block.
\<close>

lemma take_block_wf:
  assumes wf: "heap_wf h" and i: "i < length (allocs h)" and free: "\<not> a_used (allocs h ! i)"
    and fits: "block_fits (allocs h ! i) sz align" and sz: "sz \<noteq> 0"
    and a: "unat align = 2 ^ k" and req: "request_ok sz align"
    and res: "take_block h i sz align = (h', ret)"
  shows "heap_wf h'" and "heap_size h' = heap_size h" and "2 ^ k dvd unat ret"
    and "unat ret + unat sz \<le> unat (heap_size h)"
proof -
  define off bs al cap where "off = a_offset (allocs h ! i)" and "bs = a_size (allocs h ! i)"
    and "al = align_offset off align" and "cap = unat (heap_size h)"
  note nat = block_fits_nat [OF wf i fits a req, folded off_def bs_def, folded al_def]
  have blk: "0 < unat bs" "unat off + unat bs \<le> cap"
    using heap_wf_block [OF wf i] by (simp_all add: off_def bs_def cap_def)
  have sz0: "0 < unat sz" using sz by (simp add: unat_gt_0)
  note wfs = wf [unfolded heap_wf_def, folded cap_def]
  define h1 where "h1 = (if al > off then push_alloc h off (al - off) False else h)"
  define h2 where "h2 = (if al + sz < off + bs
     then push_alloc h1 (al + sz) (off + bs - (al + sz)) False else h1)"
  have gap: "unat (al - off) = unat al - unat off" using nat by (simp add: unat_sub_le)
  have rest: "unat (off + bs - (al + sz)) = unat off + unat bs - (unat al + unat sz)"
    using nat by (simp add: unat_sub_le)
  have h1: "heap_size h1 = heap_size h" "allocated h1 = allocated h"
    "length (allocs h) \<le> length (allocs h1)" "length (allocs h1) \<le> MEMHEAP_MAX_ALLOCATIONS"
    "list_all (block_ok cap) (allocs h1)" "used_bytes (allocs h1) = used_bytes (allocs h)"
    "free_bytes (allocs h1) \<le> free_bytes (allocs h) + (unat al - unat off)"
    "allocs h1 ! i = allocs h ! i"
    using push_free [of cap h "al - off" off] wfs i gap nat blk
    by (auto simp: h1_def word_less_nat_alt)
  have h2: "heap_size h2 = heap_size h" "allocated h2 = allocated h"
    "length (allocs h) \<le> length (allocs h2)" "length (allocs h2) \<le> MEMHEAP_MAX_ALLOCATIONS"
    "list_all (block_ok cap) (allocs h2)" "used_bytes (allocs h2) = used_bytes (allocs h)"
    "free_bytes (allocs h2) + unat sz \<le> free_bytes (allocs h) + unat bs"
    "allocs h2 ! i = allocs h ! i"
    using push_free [of cap h1 "off + bs - (al + sz)" "al + sz"] h1 i rest nat blk
    by (auto simp: h2_def word_less_nat_alt)
  define b' where "b' = \<lparr>a_offset = al, a_size = sz, a_used = True\<rparr>"
  have h': "h' = h2\<lparr>allocs := (allocs h2)[i := b'], allocated := allocated h + sz\<rparr>" "ret = al"
    using res h2(2) unfolding take_block_def Let_def off_def [symmetric] bs_def [symmetric]
      al_def [symmetric] h1_def [symmetric] h2_def [symmetric] b'_def [symmetric]
    by simp_all
  have i2: "i < length (allocs h2)" using i h2(3) by simp
  note upd = bytes_update [OF i2, of b', unfolded h2(8)]
  have fb: "unat bs \<le> free_bytes (allocs h)" using free_bytes_ge [OF i free] by (simp add: bs_def)
  have used': "used_bytes ((allocs h2)[i := b']) = used_bytes (allocs h) + unat sz"
    and free': "free_bytes ((allocs h2)[i := b']) + unat sz \<le> free_bytes (allocs h)"
    using upd free h2(6,7) by (simp_all add: b'_def bs_def [symmetric])
  have alloc': "unat (allocated h + sz) = unat (allocated h) + unat sz"
    using wfs fb free' by (intro unat_add_64) (simp add: cap_def)
  have "list_all (block_ok cap) ((allocs h2)[i := b'])"
    using h2(5) nat blk sz0 i2
    by (auto simp: list_all_iff b'_def block_ok_def blk_end_def dest!: set_update_subset_insert [THEN subsetD])
  then show "heap_wf h'"
    using wfs h2 used' free' alloc' by (simp add: heap_wf_def h' cap_def)
  show "heap_size h' = heap_size h" using h' h2 by simp
  show "2 ^ k dvd unat ret" "unat ret + unat sz \<le> unat (heap_size h)"
    using h' nat blk by (simp_all add: cap_def)
qed

lemma take_block_not_max:
  assumes "heap_wf h" and "i < length (allocs h)" and "\<not> a_used (allocs h ! i)"
    and "block_fits (allocs h ! i) sz align" and "sz \<noteq> 0"
    and "unat align = 2 ^ k" and "request_ok sz align"
  shows "snd (take_block h i sz align) \<noteq> SIZE_MAX"
proof -
  obtain h' ret where tb: "take_block h i sz align = (h', ret)" by fastforce
  have "unat ret + unat sz \<le> unat (heap_size h)" "unat (heap_size h) \<le> 2 ^ 48"
    using take_block_wf [OF assms tb] assms(1) by (simp_all add: heap_wf_def)
  then have "ret \<noteq> SIZE_MAX" by (intro not_SIZE_MAX) simp
  with tb show ?thesis by simp
qed

lemma all_ge_step: "(\<forall>j. i \<le> j \<longrightarrow> P j) \<longleftrightarrow> P i \<and> (\<forall>j. Suc i \<le> j \<longrightarrow> P j)"
  by (metis Suc_leD Suc_leI le_eq_less_or_eq)

lemma alloc_scan_cases:
  obtains (none) "alloc_scan h sz align i = (h, SIZE_MAX)"
      "\<forall>j. i \<le> j \<longrightarrow> j < length (allocs h) \<longrightarrow>
         a_used (allocs h ! j) \<or> \<not> block_fits (allocs h ! j) sz align"
  | (some) j where "i \<le> j" "j < length (allocs h)" "\<not> a_used (allocs h ! j)"
      "block_fits (allocs h ! j) sz align" "alloc_scan h sz align i = take_block h j sz align"
      "\<forall>m. i \<le> m \<longrightarrow> m < j \<longrightarrow> a_used (allocs h ! m) \<or> \<not> block_fits (allocs h ! m) sz align"
proof (induction h sz align i arbitrary: thesis rule: alloc_scan.induct)
  case (1 h sz align i)
  consider (stop) "\<not> i < length (allocs h)"
    | (hit) "i < length (allocs h)" "\<not> a_used (allocs h ! i) \<and> block_fits (allocs h ! i) sz align"
    | (miss) "i < length (allocs h)" "\<not> (\<not> a_used (allocs h ! i) \<and> block_fits (allocs h ! i) sz align)"
    by blast
  then show ?case
  proof cases
    case stop
    then show ?thesis by (intro "1.prems"(1)) (auto simp: alloc_scan.simps [of h sz align i])
  next
    case hit
    then show ?thesis by (intro "1.prems"(2) [of i]) (auto simp: alloc_scan.simps [of h sz align i])
  next
    case miss
    then have eq: "alloc_scan h sz align i = alloc_scan h sz align (Suc i)"
      by (subst alloc_scan.simps) auto
    show ?thesis
    proof (rule "1.IH" [OF miss], goal_cases)
      case 1
      show ?case
        using "1" miss by (intro "1.prems"(1)) (simp add: eq, subst all_ge_step, simp)
    next
      case (2 j)
      show ?case
        using "2" miss
        by (intro "1.prems"(2) [of j]) (simp_all add: eq, subst all_ge_step, simp)
    qed
  qed
qed

lemma free_bytes_le:
  assumes "list_all (block_ok cap) bs"
  shows "free_bytes bs \<le> length bs * cap"
  using assms
  by (induction bs) (auto simp: free_bytes_def block_ok_def blk_end_def)

text \<open>Bump allocation, in natural numbers.\<close>

lemma bump_nat:
  assumes wf: "heap_wf h" and a: "unat align = 2 ^ k" and req: "request_ok sz align"
  defines "off \<equiv> align_offset (allocated h) align"
  shows "unat (off + sz) = unat off + unat sz" and "unat (allocated h) \<le> unat off"
    and "unat off = round_up (unat (allocated h)) (2 ^ k)" and "2 ^ k dvd unat off"
proof -
  have al: "unat (allocated h) \<le> 1025 * 2 ^ 48" using wf by (simp add: heap_wf_def)
  have k: "(2::nat) ^ k \<le> 2 ^ 48" and sz: "unat sz \<le> 2 ^ 48"
    using req a by (simp_all add: request_ok_def)
  have "unat (allocated h) + 2 ^ k < 2 ^ 64" using al k by simp
  note b = align_offset_nat [OF a this] align_offset_bounds [OF a this]
  show "unat (off + sz) = unat off + unat sz"
    using b(3) al k sz unfolding off_def by (intro unat_add_64) simp
  show "unat (allocated h) \<le> unat off" "unat off = round_up (unat (allocated h)) (2 ^ k)" "2 ^ k dvd unat off"
    using b unfolding off_def by simp_all
qed

lemma bump_wf:
  assumes wf: "heap_wf h" and a: "unat align = 2 ^ k" and req: "request_ok sz align" and sz: "sz \<noteq> 0"
  defines "off \<equiv> align_offset (allocated h) align"
  assumes fits: "off + sz \<le> heap_size h"
  shows "heap_wf ((push_alloc h off sz True)\<lparr>allocated := off + sz\<rparr>)"
proof -
  note nat = bump_nat [OF wf a req, folded off_def]
  have le: "unat off + unat sz \<le> unat (heap_size h)"
    using fits nat by (simp add: word_le_nat_alt)
  have "free_bytes (allocs h) \<le> 1024 * unat (heap_size h)"
    using free_bytes_le [of "unat (heap_size h)" "allocs h"] wf
    by (auto simp: heap_wf_def intro: order_trans mult_le_mono1)
  then show ?thesis
    using wf le nat sz
    by (auto simp: heap_wf_def push_alloc_def used_bytes_def free_bytes_def block_ok_def blk_end_def unat_gt_0)
qed

text \<open>The possible outcomes of an allocation, as one case rule for the proofs below.\<close>

lemma aligned_alloc_cases:
  assumes "memheap_aligned_alloc h sz align = (h', ret, e)"
  obtains (zero) "sz = 0" "h' = h" "ret = SIZE_MAX" "e = None"
  | (bad_align) "sz \<noteq> 0" "align = 0 \<or> align AND (align - 1) \<noteq> 0" "h' = h" "ret = SIZE_MAX" "e = Some EINVAL"
  | (reuse) k j where "sz \<noteq> 0" "unat align = 2 ^ k" "j < length (allocs h)" "\<not> a_used (allocs h ! j)"
      "block_fits (allocs h ! j) sz align" "take_block h j sz align = (h', ret)" "ret \<noteq> SIZE_MAX" "e = None"
  | (wrapped) k j where "sz \<noteq> 0" "unat align = 2 ^ k" "j < length (allocs h)" "\<not> a_used (allocs h ! j)"
      "block_fits (allocs h ! j) sz align" "snd (take_block h j sz align) = SIZE_MAX"
  | (bump) k where "sz \<noteq> 0" "unat align = 2 ^ k" "alloc_scan h sz align 0 = (h, SIZE_MAX)"
      "align_offset (allocated h) align + sz \<le> heap_size h"
      "h' = (push_alloc h (align_offset (allocated h) align) sz True)
              \<lparr>allocated := align_offset (allocated h) align + sz\<rparr>"
      "ret = align_offset (allocated h) align" "e = None"
  | (full) k where "sz \<noteq> 0" "unat align = 2 ^ k" "alloc_scan h sz align 0 = (h, SIZE_MAX)"
      "\<not> align_offset (allocated h) align + sz \<le> heap_size h" "h' = h" "ret = SIZE_MAX" "e = Some ENOMEM"
proof (cases "sz = 0 \<or> align = 0 \<or> align AND (align - 1) \<noteq> 0")
  case True
  then show ?thesis
    using assms zero bad_align by (auto simp: memheap_aligned_alloc_def split: if_splits)
next
  case False
  then obtain k where k: "unat align = 2 ^ k" using word_and_pred_power2 [of align] by auto
  show ?thesis
  proof (cases rule: alloc_scan_cases [of h sz align 0])
    case none
    let ?off = "align_offset (allocated h) align"
    have eq: "(h', ret, e) =
      (if ?off + sz \<le> heap_size h then ((push_alloc h ?off sz True)\<lparr>allocated := ?off + sz\<rparr>, ?off, None)
       else (h, SIZE_MAX, Some ENOMEM))"
      using assms False none by (simp add: memheap_aligned_alloc_def Let_def)
    show ?thesis
    proof (cases "?off + sz \<le> heap_size h")
      case True
      with eq False k none show ?thesis by (intro bump [of k]) simp_all
    next
      case False
      with eq \<open>\<not> (sz = 0 \<or> _)\<close> k none show ?thesis by (intro full [of k]) simp_all
    qed
  next
    case (some j)
    obtain h1 r1 where t: "take_block h j sz align = (h1, r1)" by fastforce
    show ?thesis
    proof (cases "r1 = SIZE_MAX")
      case True
      with some t False k wrapped [of k j] show ?thesis by simp
    next
      case no_wrap: False
      with assms some t False have "h' = h1" "ret = r1" "e = None"
        by (auto simp: memheap_aligned_alloc_def)
      with some t False k no_wrap reuse [of k j] show ?thesis by simp
    qed
  qed
qed

lemma aligned_alloc_wf:
  assumes wf: "heap_wf h" and req: "request_ok sz align"
    and res: "memheap_aligned_alloc h sz align = (h', ret, e)"
  shows "heap_wf h' \<and> heap_size h' = heap_size h \<and> (ret = SIZE_MAX \<longrightarrow> h' = h) \<and>
    (ret \<noteq> SIZE_MAX \<longrightarrow> unat align dvd unat ret \<and> unat ret + unat sz \<le> unat (heap_size h))"
  using res
proof (cases rule: aligned_alloc_cases)
  case (reuse k j)
  note t = take_block_wf [OF wf reuse(3,4,5,1,2) req reuse(6)]
  with reuse show ?thesis by simp
next
  case (wrapped k j)
  with take_block_not_max [OF wf wrapped(3,4,5,1,2) req] show ?thesis by simp
next
  case (bump k)
  note nat = bump_nat [OF wf bump(2) req]
  have "unat (heap_size h) \<le> 2 ^ 48" using wf by (simp add: heap_wf_def)
  moreover have le: "unat (align_offset (allocated h) align) + unat sz \<le> unat (heap_size h)"
    using bump(4) nat by (simp add: word_le_nat_alt)
  ultimately have "ret \<noteq> SIZE_MAX" using bump(6) by (intro not_SIZE_MAX) simp
  with bump_wf [OF wf bump(2) req bump(1,4)] bump le nat show ?thesis by simp
qed (use wf in simp_all)

lemma free_scan_cases:
  obtains (none) "free_scan h off i = h"
      "\<forall>j. i \<le> j \<longrightarrow> j < length (allocs h) \<longrightarrow> \<not> (a_used (allocs h ! j) \<and> a_offset (allocs h ! j) = off)"
  | (some) j where "i \<le> j" "j < length (allocs h)" "a_used (allocs h ! j)" "a_offset (allocs h ! j) = off"
      "free_scan h off i = h\<lparr>allocs := (allocs h)[j := (allocs h ! j)\<lparr>a_used := False\<rparr>],
               allocated := allocated h - a_size (allocs h ! j)\<rparr>"
      "\<forall>m. i \<le> m \<longrightarrow> m < j \<longrightarrow> \<not> (a_used (allocs h ! m) \<and> a_offset (allocs h ! m) = off)"
proof (induction h off i arbitrary: thesis rule: free_scan.induct)
  case (1 h off i)
  consider (stop) "\<not> i < length (allocs h)"
    | (hit) "i < length (allocs h)" "a_used (allocs h ! i) \<and> a_offset (allocs h ! i) = off"
    | (miss) "i < length (allocs h)" "\<not> (a_used (allocs h ! i) \<and> a_offset (allocs h ! i) = off)"
    by blast
  then show ?case
  proof cases
    case stop
    then show ?thesis by (intro "1.prems"(1)) (auto simp: free_scan.simps [of h off i])
  next
    case hit
    then show ?thesis by (intro "1.prems"(2) [of i]) (auto simp: free_scan.simps [of h off i])
  next
    case miss
    then have eq: "free_scan h off i = free_scan h off (Suc i)"
      by (subst free_scan.simps) auto
    show ?thesis
    proof (rule "1.IH" [OF miss], goal_cases)
      case 1
      show ?case
        using "1" miss by (intro "1.prems"(1)) (simp add: eq, subst all_ge_step, simp)
    next
      case (2 j)
      show ?case
        using "2" miss
        by (intro "1.prems"(2) [of j]) (simp_all add: eq, subst all_ge_step, simp)
    qed
  qed
qed

lemma memheap_free_wf:
  assumes wf: "heap_wf h"
  shows "heap_wf (memheap_free h off) \<and> heap_size (memheap_free h off) = heap_size h"
proof (cases "off = SIZE_MAX")
  case True
  with wf show ?thesis by (simp add: memheap_free_def)
next
  case False
  then have eq: "memheap_free h off = free_scan h off 0" by (simp add: memheap_free_def)
  show ?thesis
  proof (cases rule: free_scan_cases [of h off 0])
    case none
    with wf eq show ?thesis by simp
  next
    case (some j)
    define b where "b = (allocs h ! j)\<lparr>a_used := False\<rparr>"
    have sub: "unat (allocated h - a_size (allocs h ! j)) = unat (allocated h) - unat (a_size (allocs h ! j))"
      and le: "unat (a_size (allocs h ! j)) \<le> unat (allocated h)"
      using used_bytes_ge [OF some(2,3)] wf by (auto simp: heap_wf_def intro!: unat_sub_le)
    note upd = bytes_update [OF some(2), of b]
    have "list_all (block_ok (unat (heap_size h))) ((allocs h)[j := b])"
      using wf heap_wf_block [OF wf some(2)]
      by (auto simp: heap_wf_def list_all_iff b_def block_ok_def blk_end_def dest!: set_update_subset_insert [THEN subsetD])
    moreover have "used_bytes ((allocs h)[j := b]) \<le> unat (allocated h) - unat (a_size (allocs h ! j))"
    proof -
      have "used_bytes (allocs h) \<le> unat (allocated h)" using wf by (simp add: heap_wf_def)
      with upd(1) some(3) show ?thesis by (simp add: b_def)
    qed
    moreover have "free_bytes ((allocs h)[j := b]) = free_bytes (allocs h) + unat (a_size (allocs h ! j))"
      using upd(2) some(3) by (simp add: b_def)
    ultimately show ?thesis
      using wf some(5) sub le eq unfolding b_def [symmetric] by (simp add: heap_wf_def)
  qed
qed

section \<open>The allocator interface\<close>

text \<open>
  What the users of the control buffer rely on: an allocation keeps the invariant, a failed one
  changes nothing, a successful one returns an aligned range inside the buffer; releasing keeps the
  invariant.
\<close>

datatype heap_op = Alloc size_t size_t | Free size_t

fun run_ops ::
  "('h \<Rightarrow> size_t \<Rightarrow> size_t \<Rightarrow> 'h \<times> size_t \<times> errno option) \<Rightarrow> ('h \<Rightarrow> size_t \<Rightarrow> 'h) \<Rightarrow>
   'h \<Rightarrow> heap_op list \<Rightarrow> 'h \<times> (size_t \<times> size_t \<times> size_t) list" where
  "run_ops al fr h [] = (h, [])"
| "run_ops al fr h (Alloc sz a # ops) =
     (let (h1, ret, e) = al h sz a; (h2, rs) = run_ops al fr h1 ops
      in (h2, if ret = SIZE_MAX then rs else (sz, a, ret) # rs))"
| "run_ops al fr h (Free off # ops) = run_ops al fr (fr h off) ops"

lemma run_ops_length: "length (snd (run_ops al fr h ops)) \<le> length ops"
  by (induction al fr h ops rule: run_ops.induct) (auto split: prod.splits if_splits simp: le_SucI)

fun op_ok :: "heap_op \<Rightarrow> bool" where
  "op_ok (Alloc sz a) = request_ok sz a"
| "op_ok (Free off) = True"

locale region_allocator =
  fixes alloc :: "'h \<Rightarrow> size_t \<Rightarrow> size_t \<Rightarrow> 'h \<times> size_t \<times> errno option"
    and free :: "'h \<Rightarrow> size_t \<Rightarrow> 'h"
    and inv :: "'h \<Rightarrow> bool"
    and capacity :: "'h \<Rightarrow> nat"
  assumes alloc_inv: "inv h \<Longrightarrow> request_ok sz a \<Longrightarrow> alloc h sz a = (h', ret, e) \<Longrightarrow> inv h'"
    and alloc_capacity: "inv h \<Longrightarrow> request_ok sz a \<Longrightarrow> alloc h sz a = (h', ret, e) \<Longrightarrow> capacity h' = capacity h"
    and alloc_fail: "inv h \<Longrightarrow> request_ok sz a \<Longrightarrow> alloc h sz a = (h', SIZE_MAX, e) \<Longrightarrow> h' = h"
    and alloc_range: "inv h \<Longrightarrow> request_ok sz a \<Longrightarrow> alloc h sz a = (h', ret, e) \<Longrightarrow> ret \<noteq> SIZE_MAX \<Longrightarrow>
          unat a dvd unat ret \<and> unat ret + unat sz \<le> capacity h"
    and free_inv: "inv h \<Longrightarrow> inv (free h off)"
    and free_capacity: "inv h \<Longrightarrow> capacity (free h off) = capacity h"
begin

lemma run_ops_safe:
  assumes "inv h" and "list_all op_ok ops" and "run_ops alloc free h ops = (h', rs)"
  shows "inv h' \<and> capacity h' = capacity h \<and>
    (\<forall>(sz, a, ret) \<in> set rs. unat a dvd unat ret \<and> unat ret + unat sz \<le> capacity h)"
  using assms
proof (induction ops arbitrary: h h' rs)
  case Nil
  then show ?case by simp
next
  case (Cons x ops)
  show ?case
  proof (cases x)
    case (Alloc sz a)
    obtain h1 ret e where a1: "alloc h sz a = (h1, ret, e)" by (cases "alloc h sz a")
    obtain h2 rs2 where r2: "run_ops alloc free h1 ops = (h2, rs2)" by fastforce
    have ok: "request_ok sz a" using Cons.prems(2) Alloc by simp
    note al = alloc_inv [OF Cons.prems(1) ok a1] alloc_capacity [OF Cons.prems(1) ok a1]
    from Cons.IH [OF al(1) _ r2] Cons.prems(2) al
    have "inv h2 \<and> capacity h2 = capacity h \<and>
      (\<forall>(sz, a, ret) \<in> set rs2. unat a dvd unat ret \<and> unat ret + unat sz \<le> capacity h)"
      by simp
    then show ?thesis
      using Cons.prems(3) Alloc a1 r2 alloc_range [OF Cons.prems(1) ok a1]
      by (auto split: if_splits)
  next
    case (Free off)
    with Cons.IH [of "free h off" h' rs] Cons.prems free_inv free_capacity show ?thesis by simp
  qed
qed

end

interpretation mh: region_allocator memheap_aligned_alloc memheap_free heap_wf "\<lambda>h. unat (heap_size h)"
  by unfold_locales (auto dest: aligned_alloc_wf simp: memheap_free_wf)

section \<open>Allocation without release\<close>

text \<open>
  A heap on which nothing was released yet: no free record, and every record lies below the bump
  offset \<^verbatim>\<open>allocated\<close>.
\<close>

definition bump_heap :: "memheap \<Rightarrow> bool" where
  "bump_heap h \<longleftrightarrow> heap_wf h \<and> list_all a_used (allocs h) \<and>
     list_all (\<lambda>b. blk_end b \<le> unat (allocated h)) (allocs h)"

lemma bump_heap_create:
  "unat sz \<le> 2 ^ 48 \<Longrightarrow> memheap_create ok sz = Some h \<Longrightarrow> bump_heap h"
  using heap_wf_create by (auto simp: bump_heap_def memheap_create_def split: if_splits)

lemma bump_heap_alloc:
  assumes b: "bump_heap h" and req: "request_ok sz a"
    and res: "memheap_aligned_alloc h sz a = (h', ret, e)" and ok: "ret \<noteq> SIZE_MAX"
  shows "bump_heap h'" and "unat (allocated h) \<le> unat ret" and "unat (allocated h') = unat ret + unat sz"
    and "h' = (push_alloc h ret sz True)\<lparr>allocated := ret + sz\<rparr>"
    and "unat ret = round_up (unat (allocated h)) (unat a)"
proof -
  have wf: "heap_wf h" and wf': "heap_wf h'"
    using b aligned_alloc_wf [OF _ req res] by (simp_all add: bump_heap_def)
  have used: "a_used (allocs h ! j)" if "j < length (allocs h)" for j
    using b that by (simp add: bump_heap_def list_all_length)
  show eq: "h' = (push_alloc h ret sz True)\<lparr>allocated := ret + sz\<rparr>"
    using res by (cases rule: aligned_alloc_cases) (use ok used in auto)
  have nat: "unat (ret + sz) = unat ret + unat sz \<and> unat (allocated h) \<le> unat ret \<and>
    unat ret = round_up (unat (allocated h)) (unat a)"
    using res
  proof (cases rule: aligned_alloc_cases)
    case (bump k)
    then show ?thesis using bump_nat [OF wf bump(2) req] by simp
  qed (use ok used in auto)
  then show "unat (allocated h) \<le> unat ret" "unat (allocated h') = unat ret + unat sz"
    "unat ret = round_up (unat (allocated h)) (unat a)"
    using eq by simp_all
  have "list_all (\<lambda>b. blk_end b \<le> unat ret + unat sz) (allocs h)"
    using b nat by (auto simp: bump_heap_def list_all_iff intro: trans_le_add1 order_trans)
  then show "bump_heap h'"
    using b wf' nat eq by (auto simp: bump_heap_def push_alloc_def blk_end_def)
qed

lemma bump_heap_fail:
  assumes "bump_heap h" and "request_ok sz a" and "memheap_aligned_alloc h sz a = (h', SIZE_MAX, e)"
  shows "h' = h"
  using aligned_alloc_wf [OF _ assms(2,3)] assms(1) by (simp add: bump_heap_def)

lemma bump_heap_fits:
  assumes b: "bump_heap h" and req: "request_ok sz a" and a: "unat a = 2 ^ k" and sz: "sz \<noteq> 0"
    and fits: "round_up (unat (allocated h)) (2 ^ k) + unat sz \<le> unat (heap_size h)"
  defines "off \<equiv> of_nat (round_up (unat (allocated h)) (2 ^ k)) :: size_t"
  shows "memheap_aligned_alloc h sz a = ((push_alloc h off sz True)\<lparr>allocated := off + sz\<rparr>, off, None)"
proof -
  have wf: "heap_wf h" using b by (simp add: bump_heap_def)
  have used: "a_used (allocs h ! j)" if "j < length (allocs h)" for j
    using b that by (simp add: bump_heap_def list_all_length)
  note nat = bump_nat [OF wf a req]
  have off: "off = align_offset (allocated h) a" unfolding off_def nat(3) [symmetric] by simp
  have pow: "a \<noteq> 0" "a AND (a - 1) = 0" using word_and_pred_of_power2 [OF a] a by auto
  have le: "align_offset (allocated h) a + sz \<le> heap_size h"
    using fits nat(1,3) by (simp add: word_le_nat_alt)
  obtain h' ret e where res: "memheap_aligned_alloc h sz a = (h', ret, e)" by (cases "memheap_aligned_alloc h sz a")
  then show ?thesis by (cases rule: aligned_alloc_cases) (use sz pow used le off res in auto)
qed

text \<open>The order in which ranges handed out later lie behind earlier ones.\<close>

definition behind :: "size_t \<times> size_t \<times> size_t \<Rightarrow> size_t \<times> size_t \<times> size_t \<Rightarrow> bool" where
  "behind x y = (case x of (sz1, a1, r1) \<Rightarrow> case y of (sz2, a2, r2) \<Rightarrow> unat r1 + unat sz1 \<le> unat r2)"

abbreviation memheap_run :: "memheap \<Rightarrow> heap_op list \<Rightarrow> memheap \<times> (size_t \<times> size_t \<times> size_t) list" where
  "memheap_run \<equiv> run_ops memheap_aligned_alloc memheap_free"

abbreviation alloc_reqs :: "(size_t \<times> size_t) list \<Rightarrow> heap_op list" where
  "alloc_reqs \<equiv> map (\<lambda>(sz, a). Alloc sz a)"

lemma bump_run_sorted:
  assumes "bump_heap h" and "list_all (\<lambda>(sz, a). request_ok sz a) reqs"
    and "memheap_run h (alloc_reqs reqs) = (h', rs)"
  shows "bump_heap h' \<and> sorted_wrt behind rs \<and> (\<forall>(sz, a, r) \<in> set rs. unat (allocated h) \<le> unat r)"
  using assms
proof (induction reqs arbitrary: h rs)
  case Nil
  then show ?case by simp
next
  case (Cons q reqs)
  obtain sz a where q: "q = (sz, a)" by (cases q)
  obtain h1 ret e where a1: "memheap_aligned_alloc h sz a = (h1, ret, e)"
    by (cases "memheap_aligned_alloc h sz a")
  obtain h2 rs2 where r2: "memheap_run h1 (alloc_reqs reqs) = (h2, rs2)" by fastforce
  have req: "request_ok sz a" using Cons.prems(2) q by simp
  have res: "h' = h2" "rs = (if ret = SIZE_MAX then rs2 else (sz, a, ret) # rs2)"
    using Cons.prems(3) q a1 r2 by (auto split: if_splits)
  show ?case
  proof (cases "ret = SIZE_MAX")
    case True
    then have "h1 = h" using bump_heap_fail [OF Cons.prems(1) req] a1 by simp
    with Cons.IH [OF Cons.prems(1), of rs2] Cons.prems(2) r2 res True show ?thesis by simp
  next
    case False
    note al = bump_heap_alloc [OF Cons.prems(1) req a1 False]
    have "bump_heap h2 \<and> sorted_wrt behind rs2 \<and> (\<forall>(sz, a, r) \<in> set rs2. unat (allocated h1) \<le> unat r)"
      using Cons.IH [OF al(1), of rs2] Cons.prems(2) r2 res(1) by simp
    then show ?thesis
      using al(1-3) res False by (auto simp: behind_def [of "(sz, a, ret)"])
  qed
qed

section \<open>Releasing everything and allocating the same requests again\<close>

text \<open>
  \<^verbatim>\<open>EpBuffer::update_local_qpns\<close> releases every block and repeats the same requests in the same
  order. The two one-step lemmas describe the heap in the middle of such a sequence: \<open>xs\<close> are the
  records already handled and \<open>ys\<close> the ones still to come.
\<close>

lemma free_step:
  assumes bs: "allocs h = xs @ b # ys" and xs: "list_all (\<lambda>x. \<not> a_used x) xs"
    and b: "a_used b" "a_offset b \<noteq> SIZE_MAX"
  shows "memheap_free h (a_offset b) =
    h\<lparr>allocs := xs @ b\<lparr>a_used := False\<rparr> # ys, allocated := allocated h - a_size b\<rparr>"
proof -
  have nth: "allocs h ! length xs = b" using bs by simp
  have before: "\<not> a_used (allocs h ! m)" if "m < length xs" for m
    using that bs xs by (simp add: nth_append list_all_length)
  show ?thesis
  proof (cases rule: free_scan_cases [of h "a_offset b" 0])
    case none
    from none(2) [rule_format, of "length xs"] nth bs b show ?thesis by simp
  next
    case (some j)
    have "j = length xs"
      using some(3,6) before [of j] nth b(1) by (cases j "length xs" rule: linorder_cases) auto
    then show ?thesis
      using some(5) b(2) nth bs by (simp add: memheap_free_def)
  qed
qed

lemma realloc_step:
  assumes bs: "allocs h = xs @ b # ys" and xs: "list_all a_used xs" and b: "\<not> a_used b"
    and sz: "a_size b \<noteq> 0" and a: "unat al = 2 ^ k" and dvd: "2 ^ k dvd unat (a_offset b)"
    and nm: "a_offset b \<noteq> SIZE_MAX"
  shows "memheap_aligned_alloc h (a_size b) al =
    (h\<lparr>allocs := xs @ b\<lparr>a_used := True\<rparr> # ys, allocated := allocated h + a_size b\<rparr>, a_offset b, None)"
proof -
  have al: "align_offset (a_offset b) al = a_offset b" using align_offset_aligned [OF a dvd] .
  have nth: "allocs h ! length xs = b" using bs by simp
  have fits: "block_fits b (a_size b) al" using al by (simp add: block_fits_def)
  have before: "a_used (allocs h ! m)" if "m < length xs" for m
    using that bs xs by (simp add: nth_append list_all_length)
  have tb: "take_block h (length xs) (a_size b) al =
    (h\<lparr>allocs := xs @ b\<lparr>a_used := True\<rparr> # ys, allocated := allocated h + a_size b\<rparr>, a_offset b)"
    using al nth bs by (simp add: take_block_def Let_def)
  have "al \<noteq> 0" "al AND (al - 1) = 0" using a word_and_pred_of_power2 [OF a] by auto
  moreover have "alloc_scan h (a_size b) al 0 = take_block h (length xs) (a_size b) al"
  proof (cases rule: alloc_scan_cases [of h "a_size b" al 0])
    case none
    from none(2) [rule_format, of "length xs"] nth bs b fits show ?thesis by simp
  next
    case (some j)
    have "j = length xs"
      using some(3,6) before [of j] nth b fits by (cases j "length xs" rule: linorder_cases) auto
    with some show ?thesis by simp
  qed
  ultimately show ?thesis using sz tb nm by (simp add: memheap_aligned_alloc_def)
qed

text \<open>The record of a successful request.\<close>

definition rec_of :: "size_t \<times> size_t \<times> size_t \<Rightarrow> memheap_allocation" where
  "rec_of x = (case x of (sz, a, r) \<Rightarrow> \<lparr>a_offset = r, a_size = sz, a_used = True\<rparr>)"

abbreviation release :: "memheap_allocation \<Rightarrow> memheap_allocation" where
  "release b \<equiv> b\<lparr>a_used := False\<rparr>"

abbreviation frees_of :: "(size_t \<times> size_t \<times> size_t) list \<Rightarrow> heap_op list" where
  "frees_of \<equiv> map (\<lambda>(sz, a, r). Free r)"

abbreviation reqs_of :: "(size_t \<times> size_t \<times> size_t) list \<Rightarrow> heap_op list" where
  "reqs_of \<equiv> map (\<lambda>(sz, a, r). Alloc sz a)"

definition sizes_of :: "(size_t \<times> size_t \<times> size_t) list \<Rightarrow> size_t" where
  "sizes_of rs = sum_list (map fst rs)"

lemma free_one:
  assumes "allocs h = map release xs @ map rec_of ((sz, a, r) # rs)" and "r \<noteq> SIZE_MAX"
  shows "memheap_free h r =
    h\<lparr>allocs := map release (xs @ [rec_of (sz, a, r)]) @ map rec_of rs, allocated := allocated h - sz\<rparr>"
  using free_step [of h "map release xs" "rec_of (sz, a, r)" "map rec_of rs"] assms
  by (simp add: rec_of_def list_all_iff)

lemma free_all:
  assumes "allocs h = map release xs @ map rec_of rs"
    and "\<forall>(sz, a, r) \<in> set rs. r \<noteq> SIZE_MAX"
  shows "memheap_run h (frees_of rs @ ops) =
    memheap_run (h\<lparr>allocs := map release (xs @ map rec_of rs), allocated := allocated h - sizes_of rs\<rparr>) ops"
  using assms
proof (induction rs arbitrary: h xs)
  case Nil
  then show ?case by (cases h) (simp add: sizes_of_def)
next
  case (Cons q rs)
  obtain sz a r where q: "q = (sz, a, r)" by (cases q)
  have st: "memheap_free h r =
    h\<lparr>allocs := map release (xs @ [rec_of q]) @ map rec_of rs, allocated := allocated h - sz\<rparr>"
    using free_one [of h xs sz a r rs] Cons.prems q by simp
  show ?case
    using Cons.IH [of "h\<lparr>allocs := map release (xs @ [rec_of q]) @ map rec_of rs, allocated := allocated h - sz\<rparr>" "xs @ [rec_of q]"]
      Cons.prems q by (simp add: st sizes_of_def diff_diff_eq)
qed

definition replayable :: "size_t \<times> size_t \<times> size_t \<Rightarrow> bool" where
  "replayable x = (case x of (sz, a, r) \<Rightarrow> sz \<noteq> 0 \<and> r \<noteq> SIZE_MAX \<and> (\<exists>k. unat a = 2 ^ k \<and> 2 ^ k dvd unat r))"

lemma realloc_one:
  assumes "allocs h = map rec_of xs @ map release (map rec_of ((sz, a, r) # rs))" and "replayable (sz, a, r)"
  shows "memheap_aligned_alloc h sz a =
    (h\<lparr>allocs := map rec_of (xs @ [(sz, a, r)]) @ map release (map rec_of rs), allocated := allocated h + sz\<rparr>, r, None)"
proof -
  obtain k where k: "sz \<noteq> 0" "r \<noteq> SIZE_MAX" "unat a = 2 ^ k" "2 ^ k dvd unat r"
    using assms(2) by (auto simp: replayable_def)
  then show ?thesis
    using realloc_step [of h "map rec_of xs" "release (rec_of (sz, a, r))" "map release (map rec_of rs)" a k] assms(1)
    by (simp add: rec_of_def list_all_iff split: prod.splits)
qed

lemma realloc_all:
  assumes "allocs h = map rec_of xs @ map release (map rec_of rs)" and "\<forall>x \<in> set rs. replayable x"
  shows "memheap_run h (reqs_of rs) =
    (h\<lparr>allocs := map rec_of (xs @ rs), allocated := allocated h + sizes_of rs\<rparr>, rs)"
  using assms
proof (induction rs arbitrary: h xs)
  case Nil
  then show ?case by (cases h) (simp add: sizes_of_def)
next
  case (Cons q rs)
  obtain sz a r where q: "q = (sz, a, r)" by (cases q)
  then have k: "r \<noteq> SIZE_MAX" using Cons.prems(2) by (auto simp: replayable_def)
  let ?h = "h\<lparr>allocs := map rec_of (xs @ [q]) @ map release (map rec_of rs), allocated := allocated h + sz\<rparr>"
  have st: "memheap_aligned_alloc h sz a = (?h, r, None)"
    using realloc_one [of h xs sz a r rs] Cons.prems q by simp
  show ?case
    using Cons.IH [of ?h "xs @ [q]"] Cons.prems(2) q k st by (simp add: sizes_of_def add.assoc)
qed

lemma bump_run_records:
  assumes "bump_heap h" and "list_all (\<lambda>(sz, a). request_ok sz a) reqs"
    and "memheap_run h (alloc_reqs reqs) = (h', rs)" and "length rs = length reqs"
    and "length (allocs h) + length reqs \<le> MEMHEAP_MAX_ALLOCATIONS"
  shows "allocs h' = allocs h @ map rec_of rs \<and> reqs_of rs = alloc_reqs reqs \<and> (\<forall>x \<in> set rs. replayable x)"
  using assms
proof (induction reqs arbitrary: h rs)
  case Nil
  then show ?case by simp
next
  case (Cons q reqs)
  obtain sz a where q: "q = (sz, a)" by (cases q)
  obtain h1 ret e where a1: "memheap_aligned_alloc h sz a = (h1, ret, e)"
    by (cases "memheap_aligned_alloc h sz a")
  obtain h2 rs2 where r2: "memheap_run h1 (alloc_reqs reqs) = (h2, rs2)" by fastforce
  have req: "request_ok sz a" using Cons.prems(2) q by simp
  have res: "h' = h2" "rs = (if ret = SIZE_MAX then rs2 else (sz, a, ret) # rs2)"
    using Cons.prems(3) q a1 r2 by (auto split: if_splits)
  have "length rs2 \<le> length reqs" using run_ops_length [of memheap_aligned_alloc memheap_free h1 "alloc_reqs reqs"] r2 by simp
  with res Cons.prems(4) have ok: "ret \<noteq> SIZE_MAX" and len: "length rs2 = length reqs"
    by (auto split: if_splits)
  note al = bump_heap_alloc [OF Cons.prems(1) req a1 ok]
  have bs: "allocs h1 = allocs h @ [rec_of (sz, a, ret)]"
    using al(4) Cons.prems(5) by (simp add: push_alloc_def rec_of_def)
  have "replayable (sz, a, ret)"
    using a1 ok aligned_alloc_wf [OF _ req a1] Cons.prems(1)
    by (cases rule: aligned_alloc_cases) (auto simp: replayable_def bump_heap_def)
  moreover have "allocs h2 = allocs h1 @ map rec_of rs2 \<and> reqs_of rs2 = alloc_reqs reqs \<and> (\<forall>x \<in> set rs2. replayable x)"
    using Cons.IH [OF al(1) _ _ len] Cons.prems(2,5) r2 res(1) bs by simp
  ultimately show ?case using res ok bs q by simp
qed

section \<open>Properties\<close>

text \<open>
  C14. Over any sequence of allocations and releases on a heap made by \<^verbatim>\<open>memheap_create\<close>, every
  offset the allocator returns is a multiple of the requested alignment and the whole range lies
  inside the heap; the accounting invariant (no wrap-around of \<^verbatim>\<open>allocated\<close>) is kept throughout.
\<close>

theorem memheap_ops_safe:
  assumes "memheap_create True sz = Some h0" and "unat sz \<le> 2 ^ 48"
    and "list_all op_ok ops" and "memheap_run h0 ops = (h, rs)"
  shows "heap_wf h \<and> heap_size h = sz \<and>
    (\<forall>(n, a, off) \<in> set rs. unat a dvd unat off \<and> unat off + unat n \<le> unat sz)"
proof -
  have "heap_size h0 = sz" using assms(1) by (auto simp: memheap_create_def)
  with mh.run_ops_safe [OF heap_wf_create [OF assms(2,1)] assms(3,4)] show ?thesis
    by (auto simp: word_unat_eq_iff)
qed

definition demo_heap :: memheap where
  "demo_heap = \<lparr>heap_size = 65536, allocated = 0, allocs = []\<rparr>"

lemma memheap_create_demo: "memheap_create True 65536 = Some demo_heap"
  by (simp add: memheap_create_def demo_heap_def)

theorem memheap_ops_safe_witness:
  "let ops = [Alloc 4096 4096, Alloc 8 8, Free 0, Alloc 100 64] in
   memheap_create True 65536 = Some demo_heap \<and> list_all op_ok ops \<and>
   length (snd (memheap_run demo_heap ops)) = 3 \<and> heap_wf (fst (memheap_run demo_heap ops)) \<and>
   (\<forall>(n, a, off) \<in> set (snd (memheap_run demo_heap ops)).
      unat a dvd unat off \<and> unat off + unat n \<le> unat (65536 :: size_t))"
proof -
  let ?ops = "[Alloc 4096 4096, Alloc 8 8, Free 0, Alloc 100 64]"
  have ok: "list_all op_ok ?ops" by (simp add: request_ok_def)
  have len: "length (snd (memheap_run demo_heap ?ops)) = 3" by code_simp
  have "unat (65536 :: size_t) \<le> 2 ^ 48" by simp
  note memheap_ops_safe [OF memheap_create_demo this ok prod.collapse [symmetric]]
  with ok len memheap_create_demo show ?thesis unfolding Let_def by blast
qed

text \<open>
  C27. As long as nothing is released, the ranges returned are pairwise disjoint: each lies
  completely behind every earlier one, also beyond the 1024 requests that can be recorded.
\<close>

theorem memheap_alloc_only_disjoint:
  assumes "memheap_create True sz = Some h0" and "unat sz \<le> 2 ^ 48"
    and "list_all (\<lambda>(n, a). request_ok n a) reqs" and "memheap_run h0 (alloc_reqs reqs) = (h, rs)"
  shows "sorted_wrt (\<lambda>(n1, a1, off1) (n2, a2, off2). unat off1 + unat n1 \<le> unat off2) rs"
proof -
  have "sorted_wrt behind rs"
    using bump_run_sorted [OF bump_heap_create [OF assms(2,1)] assms(3,4)] by simp
  then show ?thesis by (rule sorted_wrt_mono_rel [rotated]) (auto simp: behind_def)
qed

theorem memheap_alloc_only_disjoint_witness:
  "let reqs = [(4096, 4096), (8, 8), (4096, 4096), (8, 8)] in
   length (snd (memheap_run demo_heap (alloc_reqs reqs))) = 4 \<and>
   sorted_wrt (\<lambda>(n1, a1, off1) (n2, a2, off2). unat off1 + unat n1 \<le> unat off2)
     (snd (memheap_run demo_heap (alloc_reqs reqs)))"
proof -
  let ?reqs = "[(4096, 4096), (8, 8), (4096, 4096), (8, 8)] :: (size_t \<times> size_t) list"
  have ok: "list_all (\<lambda>(n, a). request_ok n a) ?reqs" by (simp add: request_ok_def)
  have len: "length (snd (memheap_run demo_heap (alloc_reqs ?reqs))) = 4" by code_simp
  have "unat (65536 :: size_t) \<le> 2 ^ 48" by simp
  note memheap_alloc_only_disjoint [OF memheap_create_demo this ok prod.collapse [symmetric]]
  with len show ?thesis unfolding Let_def by blast
qed

text \<open>
  Releasing every block and repeating the same requests in the same order (what
  \<^verbatim>\<open>update_local_qpns\<close> does) gives back the very same offsets and the very same heap, when
  all of the at most 1024 requests succeeded the first time.
\<close>

theorem memheap_replay:
  assumes "memheap_create True sz = Some h0" and "unat sz \<le> 2 ^ 48"
    and "list_all (\<lambda>(n, a). request_ok n a) reqs" and "length reqs \<le> MEMHEAP_MAX_ALLOCATIONS"
    and "memheap_run h0 (alloc_reqs reqs) = (h, rs)" and "length rs = length reqs"
  shows "memheap_run h (frees_of rs @ alloc_reqs reqs) = (h, rs)"
proof -
  have "allocs h0 = []" using assms(1) by (auto simp: memheap_create_def)
  then have r: "allocs h = map rec_of rs" "reqs_of rs = alloc_reqs reqs" "\<forall>x \<in> set rs. replayable x"
    using bump_run_records [OF bump_heap_create [OF assms(2,1)] assms(3,5,6)] assms(4) by simp_all
  let ?h1 = "h\<lparr>allocs := map release (map rec_of rs), allocated := allocated h - sizes_of rs\<rparr>"
  have "memheap_run h (frees_of rs @ alloc_reqs reqs) = memheap_run ?h1 (reqs_of rs)"
  proof -
    have "\<forall>(n, a, off) \<in> set rs. off \<noteq> SIZE_MAX" using r(3) by (auto simp: replayable_def)
    with free_all [of h "[]" rs "alloc_reqs reqs"] r(1,2) show ?thesis by simp
  qed
  also have "\<dots> = (?h1\<lparr>allocs := map rec_of rs, allocated := allocated h\<rparr>, rs)"
    using realloc_all [of ?h1 "[]" rs] r(3) by simp
  finally show ?thesis using r(1) by (cases h) simp
qed

theorem memheap_replay_witness:
  "let reqs = [(4096, 4096), (8, 8), (4096, 4096), (8, 8)];
       h = fst (memheap_run demo_heap (alloc_reqs reqs)); rs = snd (memheap_run demo_heap (alloc_reqs reqs)) in
   map (\<lambda>(n, a, off). off) rs = [0, 4096, 8192, 12288] \<and>
   memheap_run h (frees_of rs @ alloc_reqs reqs) = (h, rs)"
proof -
  let ?reqs = "[(4096, 4096), (8, 8), (4096, 4096), (8, 8)] :: (size_t \<times> size_t) list"
  have ok: "list_all (\<lambda>(n, a). request_ok n a) ?reqs" by (simp add: request_ok_def)
  have offs: "map (\<lambda>(n, a, off). off) (snd (memheap_run demo_heap (alloc_reqs ?reqs))) = [0, 4096, 8192, 12288]"
    by code_simp
  have len: "length (snd (memheap_run demo_heap (alloc_reqs ?reqs))) = length ?reqs" by code_simp
  have sz: "unat (65536 :: size_t) \<le> 2 ^ 48" and n: "length ?reqs \<le> MEMHEAP_MAX_ALLOCATIONS" by simp_all
  note memheap_replay [OF memheap_create_demo sz ok n prod.collapse [symmetric] len]
  with offs show ?thesis unfolding Let_def by blast
qed

text \<open>
  The bump phase does not know about releases: \<^verbatim>\<open>memheap_free\<close> lowers \<^verbatim>\<open>allocated\<close>, which is
  also the bump offset, so a later request that fits no free block can be given a range that is
  still in use. Two pages, the first released, then two pages: the new range is \<open>[4096, 12288)\<close>
  while \<open>[4096, 8192)\<close> was never released.
\<close>

lemma memheap_free_then_bump_overlaps:
  "snd (memheap_run \<lparr>heap_size = 65536, allocated = 0, allocs = []\<rparr>
      [Alloc 4096 4096, Alloc 4096 4096, Free 0, Alloc 8192 4096]) =
   [(4096, 4096, 0), (4096, 4096, 4096), (8192, 4096, 4096)]"
  by code_simp

text \<open>
  C29. When an allocation fails and why: size zero leaves \<^verbatim>\<open>errno\<close> alone, an alignment that is not a
  power of two gives \<^verbatim>\<open>EINVAL\<close>, and \<^verbatim>\<open>ENOMEM\<close> is given exactly when no free block fits and the
  aligned bump range does not fit either.
\<close>

theorem memheap_alloc_failure:
  assumes "heap_wf h" and "request_ok n a"
  shows "memheap_aligned_alloc h n a = (h, SIZE_MAX, e) \<longleftrightarrow>
    (n = 0 \<and> e = None) \<or>
    (n \<noteq> 0 \<and> (\<nexists>k. unat a = 2 ^ k) \<and> e = Some EINVAL) \<or>
    (n \<noteq> 0 \<and> (\<exists>k. unat a = 2 ^ k) \<and> e = Some ENOMEM \<and>
     (\<forall>b \<in> set (allocs h). a_used b \<or> \<not> block_fits b n a) \<and>
     unat (heap_size h) < round_up (unat (allocated h)) (unat a) + unat n)"
proof -
  obtain h' ret e' where res: "memheap_aligned_alloc h n a = (h', ret, e')"
    by (cases "memheap_aligned_alloc h n a")
  have pow: "(\<exists>k. unat a = 2 ^ k) \<longleftrightarrow> a \<noteq> 0 \<and> a AND (a - 1) = 0"
    using word_and_pred_power2 [of a] word_and_pred_of_power2 [of a] by auto
  have bump_le: "unat (heap_size h) < round_up (unat (allocated h)) (unat a) + unat n \<longleftrightarrow>
    \<not> align_offset (allocated h) a + n \<le> heap_size h" if "unat a = 2 ^ k" for k
    using bump_nat [OF assms(1) that assms(2)] that by (simp add: word_le_nat_alt not_le)
  note wf = aligned_alloc_wf [OF assms res]
  show ?thesis
    using res
  proof (cases rule: aligned_alloc_cases)
    case (reuse k j)
    then have "\<exists>b \<in> set (allocs h). \<not> a_used b \<and> block_fits b n a" by auto
    with reuse res show ?thesis by auto
  next
    case (wrapped k j)
    with take_block_not_max [OF assms(1) wrapped(3-5,1,2) assms(2)] show ?thesis by simp
  next
    case (bump k)
    have "ret \<noteq> SIZE_MAX"
    proof
      assume "ret = SIZE_MAX"
      with wf have "h' = h" by simp
      with bump(5) have "align_offset (allocated h) a + n = allocated h" by (cases h) (simp add: push_alloc_def split: if_splits)
      then have "unat (align_offset (allocated h) a + n) = unat (allocated h)" by (rule arg_cong)
      then have "unat n = 0"
        using bump_nat(1,2) [OF assms(1) bump(2) assms(2)] by linarith
      with bump(1) show False by (simp add: unat_eq_0)
    qed
    with res bump bump_le [OF bump(2)] show ?thesis by auto
  next
    case (full k)
    have "\<forall>b \<in> set (allocs h). a_used b \<or> \<not> block_fits b n a"
    proof (cases rule: alloc_scan_cases [of h n a 0])
      case none
      then show ?thesis by (auto simp: in_set_conv_nth)
    next
      case (some j)
      with full(3) take_block_not_max [OF assms(1) some(2-4) full(1,2) assms(2)] show ?thesis by simp
    qed
    with res full bump_le [OF full(2)] show ?thesis by auto
  qed (use res pow in auto)
qed

theorem memheap_alloc_failure_witness:
  "memheap_aligned_alloc demo_heap 65536 (2 ^ 16) \<noteq> (demo_heap, SIZE_MAX, Some ENOMEM) \<and>
   memheap_aligned_alloc demo_heap 65537 8 = (demo_heap, SIZE_MAX, Some ENOMEM) \<and>
   memheap_aligned_alloc demo_heap 8 12 = (demo_heap, SIZE_MAX, Some EINVAL)"
proof -
  have wf: "heap_wf demo_heap" using heap_wf_create [OF _ memheap_create_demo] by simp
  have req: "request_ok 65536 (2 ^ 16)" "request_ok 65537 8" "request_ok 8 12"
    by (simp_all add: request_ok_def)
  have p8: "\<exists>k. unat (8 :: size_t) = 2 ^ k" by (rule exI [of _ 3]) simp
  have p12: "\<nexists>k. unat (12 :: size_t) = 2 ^ k"
    using word_and_pred_of_power2 [of "12 :: size_t"] by auto
  have "memheap_aligned_alloc demo_heap 65537 8 = (demo_heap, SIZE_MAX, Some ENOMEM)"
    using memheap_alloc_failure [OF wf req(2), of "Some ENOMEM"] p8 by (simp add: demo_heap_def round_up_def)
  moreover have "memheap_aligned_alloc demo_heap 8 12 = (demo_heap, SIZE_MAX, Some EINVAL)"
    using memheap_alloc_failure [OF wf req(3), of "Some EINVAL"] p12 by simp
  moreover have "memheap_aligned_alloc demo_heap 65536 (2 ^ 16) \<noteq> (demo_heap, SIZE_MAX, Some ENOMEM)"
    using memheap_alloc_failure [OF wf req(1), of "Some ENOMEM"] by (simp add: demo_heap_def round_up_def)
  ultimately show ?thesis by simp
qed

end
