(* ===== verification/Warp_Utils.thy ===== *)
theory Warp_Utils
  imports EP_Prelude "HOL-Library.Signed_Division"
begin

text \<open>
  The warp-level helpers of \<^verbatim>\<open>include/ep_utils.cuh\<close> that the kernels are built from: the
  unrolled copy of a warp, the butterfly reductions, the packing of two \<^verbatim>\<open>int\<close>s into an
  \<^verbatim>\<open>int64_t\<close>, rounding-up division and the split of tokens over thread blocks.
  A warp has 32 lanes; a per-lane register is a function from lane numbers to values.
\<close>

section \<open>The unrolled warp copy\<close>

text \<open>
  \<^verbatim>\<open>UNROLLED_WARP_COPY\<close>: the main loop of one lane, from index \<open>i\<close>, loads \<open>unroll\<close> elements that
  are 32 apart and then stores them; the tail loop copies one element every 32. The copied buffers
  do not overlap in the callers, so a store never changes a value still to be loaded.
\<close>

fun store_all :: "(nat \<times> 'a) list \<Rightarrow> (nat \<Rightarrow> 'a) \<Rightarrow> nat \<Rightarrow> 'a" where
  "store_all [] dst = dst"
| "store_all ((i, v) # sts) dst = store_all sts (dst(i := v))"

function copy_main :: "nat \<Rightarrow> nat \<Rightarrow> nat \<Rightarrow> (nat \<Rightarrow> 'a) \<Rightarrow> (nat \<Rightarrow> 'a) \<Rightarrow> nat \<Rightarrow> 'a" where
  "copy_main unroll i lim src dst =
     (if 0 < unroll \<and> i < lim then
        let unrolled_values = map (\<lambda>j. src (i + j * 32)) [0..<unroll];
            dst' = store_all (map (\<lambda>j. (i + j * 32, unrolled_values ! j)) [0..<unroll]) dst
        in copy_main unroll (i + 32 * unroll) lim src dst'
      else dst)"
  by pat_completeness auto
termination
  by (relation "measure (\<lambda>(unroll, i, lim, src, dst). lim - i)") auto

function copy_tail :: "nat \<Rightarrow> nat \<Rightarrow> (nat \<Rightarrow> 'a) \<Rightarrow> (nat \<Rightarrow> 'a) \<Rightarrow> nat \<Rightarrow> 'a" where
  "copy_tail i n src dst =
     (if i < n then copy_tail (i + 32) n src (dst(i := src i)) else dst)"
  by pat_completeness auto
termination
  by (relation "measure (\<lambda>(i, n, src, dst). n - i)") auto

declare copy_main.simps [simp del] copy_tail.simps [simp del]

definition copy_lane :: "nat \<Rightarrow> nat \<Rightarrow> nat \<Rightarrow> (nat \<Rightarrow> 'a) \<Rightarrow> (nat \<Rightarrow> 'a) \<Rightarrow> nat \<Rightarrow> 'a" where
  "copy_lane unroll n lane src dst =
     (let stride = 32 * unroll; lim = (n div stride) * stride
      in copy_tail (lim + lane) n src (copy_main unroll lane lim src dst))"

text \<open>The lanes of a warp run it in some order (lockstep does not matter: they write disjoint cells).\<close>

fun unrolled_warp_copy :: "nat list \<Rightarrow> nat \<Rightarrow> nat \<Rightarrow> (nat \<Rightarrow> 'a) \<Rightarrow> (nat \<Rightarrow> 'a) \<Rightarrow> nat \<Rightarrow> 'a" where
  "unrolled_warp_copy [] unroll n src dst = dst"
| "unrolled_warp_copy (lane # lanes) unroll n src dst =
     unrolled_warp_copy lanes unroll n src (copy_lane unroll n lane src dst)"

lemma store_all_src:
  "store_all (map (\<lambda>j. (f j, src (f j))) js) dst k = (if k \<in> f ` set js then src k else dst k)"
  by (induction js arbitrary: dst) auto

lemma unrolled_values:
  "map (\<lambda>j. (f j, map (\<lambda>j. src (f j)) [0..<n] ! j)) [0..<n] = map (\<lambda>j. (f j, src (f j))) [0..<n]"
  by simp

lemma copy_main_step:
  assumes "0 < unroll" and "i < lim"
  shows "copy_main unroll i lim src dst = copy_main unroll (i + 32 * unroll) lim src
    (store_all (map (\<lambda>j. (i + j * 32, src (i + j * 32))) [0..<unroll]) dst)"
  using assms by (subst copy_main.simps) (simp only: Let_def unrolled_values [of "\<lambda>j. i + j * 32"] if_True simp_thms)

lemma copy_main_eq:
  assumes "lane < 32" and "0 < unroll"
  shows "copy_main unroll (q * (32 * unroll) + lane) (m * (32 * unroll)) src dst k =
    (if q * (32 * unroll) \<le> k \<and> k < m * (32 * unroll) \<and> k mod 32 = lane then src k else dst k)"
proof (induction "m - q" arbitrary: q dst)
  case 0
  then have le: "m * (32 * unroll) \<le> q * (32 * unroll)" by simp
  then have "\<not> q * (32 * unroll) + lane < m * (32 * unroll)"
    and "\<not> (q * (32 * unroll) \<le> k \<and> k < m * (32 * unroll) \<and> k mod 32 = lane)"
    by linarith+
  then show ?case by (subst copy_main.simps) (simp only: if_False simp_thms)
next
  case (Suc d)
  let ?S = "32 * unroll"
  have lt: "q * ?S + lane < m * ?S"
  proof -
    have "(q + 1) * ?S \<le> m * ?S" using Suc.hyps(2) by (intro mult_le_mono1) simp
    then show ?thesis using assms by (simp add: algebra_simps) 
  qed
  have row: "(\<lambda>j. q * ?S + lane + j * 32) ` {0..<unroll} = {k. q * ?S \<le> k \<and> k < Suc q * ?S \<and> k mod 32 = lane}"
  proof (intro equalityI subsetI)
    fix k assume "k \<in> (\<lambda>j. q * ?S + lane + j * 32) ` {0..<unroll}"
    then obtain j where j: "j < unroll" "k = q * ?S + lane + j * 32" by auto
    have "j * 32 + lane < 32 * unroll" using j(1) assms(1) by simp
    moreover have "k mod 32 = lane"
      using assms(1) unfolding j(2) by (metis mod_mult_self1 mod_mult_self3 mult.assoc mult.commute mod_less add.commute)
    ultimately show "k \<in> {k. q * ?S \<le> k \<and> k < Suc q * ?S \<and> k mod 32 = lane}" using j(2) by simp
  next
    fix k assume "k \<in> {k. q * ?S \<le> k \<and> k < Suc q * ?S \<and> k mod 32 = lane}"
    then have k: "q * ?S \<le> k" "k < Suc q * ?S" "k mod 32 = lane" by auto
    define r where "r = k - q * ?S"
    have r: "k = q * ?S + r" "r < 32 * unroll" using k by (auto simp: r_def)
    have "r mod 32 = lane" using k(3) r(1) by (metis mod_mult_self3 mult.assoc mult.commute)
    then have "k = q * ?S + lane + (r div 32) * 32" using r(1) by (metis add.assoc mod_mult_div_eq mult.commute)
    moreover have "r div 32 < unroll" using r(2) by (simp add: less_mult_imp_div_less mult.commute)
    ultimately show "k \<in> (\<lambda>j. q * ?S + lane + j * 32) ` {0..<unroll}" by (intro image_eqI [of _ _ "r div 32"]) auto
  qed
  let ?dst = "store_all (map (\<lambda>j. (q * ?S + lane + j * 32, src (q * ?S + lane + j * 32))) [0..<unroll]) dst"
  have "copy_main unroll (q * ?S + lane) (m * ?S) src dst = copy_main unroll (Suc q * ?S + lane) (m * ?S) src ?dst"
    using copy_main_step [OF assms(2) lt] by (simp add: add.commute add.left_commute)
  then have "copy_main unroll (q * ?S + lane) (m * ?S) src dst k =
    (if Suc q * ?S \<le> k \<and> k < m * ?S \<and> k mod 32 = lane then src k else ?dst k)"
    using Suc.hyps(1) [of "Suc q" ?dst] Suc.hyps(2) by simp
  moreover have "?dst k = (if q * ?S \<le> k \<and> k < Suc q * ?S \<and> k mod 32 = lane then src k else dst k)"
    using row by (simp only: store_all_src [where f = "\<lambda>j. q * ?S + lane + j * 32"] set_upt) simp
  moreover have "q * ?S \<le> Suc q * ?S" "Suc q * ?S \<le> m * ?S"
    using Suc.hyps(2) by (intro mult_le_mono1, simp)+
  ultimately show ?case by (smt (verit) not_le order_trans less_le_trans)
qed

lemma copy_tail_eq:
  "copy_tail i n src dst k = (if i \<le> k \<and> k < n \<and> k mod 32 = i mod 32 then src k else dst k)"
proof (induction i n src dst rule: copy_tail.induct)
  case (1 i n src dst)
  show ?case
  proof (cases "i < n")
    case True
    have "k = i \<or> i + 32 \<le> k" if "i \<le> k" "k mod 32 = i mod 32"
    proof -
      have "32 dvd k - i" using that by (metis mod_eq_dvd_iff_nat)
      then show ?thesis using that(1) by (metis dvd_imp_le le_add_diff_inverse nat_add_left_cancel_le not_gr_zero add.right_neutral)
    qed
    moreover have "copy_tail i n src dst = copy_tail (i + 32) n src (dst(i := src i))"
      using True by (subst copy_tail.simps) simp
    ultimately show ?thesis using "1.IH" [OF True] True by (auto simp: fun_upd_def)
  next
    case False
    then show ?thesis by (subst copy_tail.simps) auto
  qed
qed

lemma copy_lane_eq:
  assumes "lane < 32" and "0 < unroll"
  shows "copy_lane unroll n lane src dst k = (if k < n \<and> k mod 32 = lane then src k else dst k)"
proof -
  define S where "S = 32 * unroll"
  define m where "m = n div S"
  have le: "m * S \<le> n" by (simp add: m_def)
  have "(m * S + lane) mod 32 = lane" 
    using assms(1) mod_mult_self3 [of "m * unroll" 32 lane] by (simp add: S_def ac_simps)
  moreover have "m * S + lane \<le> k \<longleftrightarrow> m * S \<le> k" if "k mod 32 = lane"
  proof
    assume k: "m * S \<le> k"
    have "(k - m * S) mod 32 = lane"
    proof -
      have "k = (k - m * S) + 32 * (m * unroll)" using k by (simp add: S_def)
      then show ?thesis using that by (metis mod_mult_self2)
    qed
    then have "lane \<le> k - m * S" by (metis mod_less_eq_dividend)
    with k show "m * S + lane \<le> k" by simp
  qed simp
  ultimately show ?thesis
    using copy_main_eq [OF assms, of 0 m src dst k, folded S_def] le
    by (auto simp: copy_lane_def Let_def S_def [symmetric] m_def [symmetric] copy_tail_eq)
qed

lemma unrolled_warp_copy_eq:
  assumes "set lanes \<subseteq> {..<32}" and "0 < unroll"
  shows "unrolled_warp_copy lanes unroll n src dst k =
    (if k < n \<and> k mod 32 \<in> set lanes then src k else dst k)"
  using assms
  by (induction lanes arbitrary: dst) (auto simp: copy_lane_eq)

section \<open>Butterfly reductions\<close>

text \<open>\<^verbatim>\<open>__shfl_xor_sync(mask, value, m)\<close>: lane \<open>l\<close> reads the register of lane \<open>l xor m\<close>.\<close>

definition shfl_xor :: "nat \<Rightarrow> (nat \<Rightarrow> 'a) \<Rightarrow> nat \<Rightarrow> 'a" where
  "shfl_xor m v = (\<lambda>l. v (l XOR m))"

definition warp_reduce_sum :: "(nat \<Rightarrow> cint) \<Rightarrow> nat \<Rightarrow> cint" where
  "warp_reduce_sum value0 =
     (let value1 = (\<lambda>l. value0 l + shfl_xor 16 value0 l);
          value2 = (\<lambda>l. value1 l + shfl_xor 8 value1 l);
          value3 = (\<lambda>l. value2 l + shfl_xor 4 value2 l);
          value4 = (\<lambda>l. value3 l + shfl_xor 2 value3 l);
          value5 = (\<lambda>l. value4 l + shfl_xor 1 value4 l)
      in value5)"

text \<open>The maximum over floats without NaN is the maximum of a linear order.\<close>

definition half_warp_reduce_max :: "(nat \<Rightarrow> 'a::linorder) \<Rightarrow> nat \<Rightarrow> 'a" where
  "half_warp_reduce_max value0 =
     (let value1 = (\<lambda>l. max (value0 l) (shfl_xor 8 value0 l));
          value2 = (\<lambda>l. max (value1 l) (shfl_xor 4 value1 l));
          value3 = (\<lambda>l. max (value2 l) (shfl_xor 2 value2 l));
          value4 = (\<lambda>l. max (value3 l) (shfl_xor 1 value3 l))
      in value4)"

text \<open>
  The lanes that agree with lane \<open>l\<close> on the lowest \<open>k\<close> bits: they split into those that also agree
  with \<open>l\<close> on bit \<open>k\<close> and those that agree with \<open>l xor 2^k\<close> there, which is why one step with
  mask \<open>2^k\<close> turns sums over the finer classes into sums over the coarser ones.
\<close>

definition lane_class :: "nat \<Rightarrow> nat \<Rightarrow> nat set" where
  "lane_class k l = {j \<in> {..<32}. take_bit k j = take_bit k l}"

lemma take_bit_agree: "take_bit n a = take_bit n b \<longleftrightarrow> (\<forall>i<n. bit a i = bit b i)" for a b :: nat
  by (auto simp: bit_eq_iff bit_take_bit_iff)

lemma lane_class_split:
  "lane_class k l = lane_class (Suc k) l \<union> lane_class (Suc k) (l XOR 2 ^ k)"
  "lane_class (Suc k) l \<inter> lane_class (Suc k) (l XOR 2 ^ k) = {}"
  by (auto simp: lane_class_def take_bit_agree less_Suc_eq bit_xor_iff bit_exp_iff
      simp del: take_bit_xor)

lemma lane_class_finite [simp]: "finite (lane_class k l)"
  by (simp add: lane_class_def)

lemma lane_xor_less: "l < 32 \<Longrightarrow> k < 5 \<Longrightarrow> l XOR 2 ^ k < 32" for l :: nat
proof -
  assume l: "l < 32" and k: "k < 5"
  have "(2::nat) ^ k < 2 ^ 5" using k by (intro power_strict_increasing) auto
  then have "take_bit 5 l = l" "take_bit 5 ((2::nat) ^ k) = 2 ^ k"
    using l k by (simp_all add: take_bit_nat_eq_self_iff)
  then have "take_bit 5 (l XOR 2 ^ k) = l XOR 2 ^ k" by (simp only: take_bit_xor)
  then have "l XOR 2 ^ k < 2 ^ 5" by (simp only: take_bit_nat_eq_self_iff)
  then show ?thesis by simp
qed

lemma lane_self: "l < 32 \<Longrightarrow> l \<in> lane_class k l"
  by (simp add: lane_class_def)

lemma butterfly_sum_step:
  fixes v w :: "nat \<Rightarrow> 'a::comm_monoid_add"
  assumes "\<And>l. l < 32 \<Longrightarrow> v l = sum w (lane_class m l)" and "l < 32" and "m = Suc k" and "k < 5" and "p = 2 ^ k"
  shows "v l + shfl_xor p v l = sum w (lane_class k l)"
  using assms lane_class_split [of k l] lane_xor_less [of l k]
  by (simp add: shfl_xor_def sum.union_disjoint)

lemma butterfly_max_step:
  fixes v w :: "nat \<Rightarrow> 'a::linorder"
  assumes "\<And>l. l < 32 \<Longrightarrow> v l = Max (w ` (lane_class m l \<inter> B l))" and "l < 32" and "m = Suc k" and "k < 5" and "p = 2 ^ k"
    and "\<And>l. l < 32 \<Longrightarrow> l \<in> B l" and "B (l XOR 2 ^ k) = B l"
  shows "max (v l) (shfl_xor p v l) = Max (w ` (lane_class k l \<inter> B l))"
proof -
  have x: "l XOR 2 ^ k < 32" using lane_xor_less assms by blast
  have "w ` (lane_class k l \<inter> B l) = w ` (lane_class (Suc k) l \<inter> B l) \<union> w ` (lane_class (Suc k) (l XOR 2 ^ k) \<inter> B l)"
    using lane_class_split(1) [of k l] by blast
  moreover have "w ` (lane_class (Suc k) l \<inter> B l) \<noteq> {}" "w ` (lane_class (Suc k) (l XOR 2 ^ k) \<inter> B l) \<noteq> {}"
    using lane_self [OF assms(2)] lane_self [OF x] assms(2,6,7) x by fastforce+
  ultimately show ?thesis
    using assms(1) [OF assms(2)] assms(1) [OF x] assms(3,5,7)
    by (simp add: shfl_xor_def Max_Un)
qed

lemma lane_class_5: "l < 32 \<Longrightarrow> lane_class 5 l = {l}"
  by (auto simp: lane_class_def take_bit_nat_eq_self_iff [THEN iffD2])

lemma lane_class_0: "lane_class 0 l = {..<32}"
  by (auto simp: lane_class_def)

lemma warp_reduce_sum_eq:
  assumes "l < 32"
  shows "warp_reduce_sum v l = sum v {..<32}"
proof -
  define v1 where "v1 = (\<lambda>l. v l + shfl_xor 16 v l)"
  define v2 where "v2 = (\<lambda>l. v1 l + shfl_xor 8 v1 l)"
  define v3 where "v3 = (\<lambda>l. v2 l + shfl_xor 4 v2 l)"
  define v4 where "v4 = (\<lambda>l. v3 l + shfl_xor 2 v3 l)"
  have v0: "v l = sum v (lane_class 5 l)" if "l < 32" for l
    using lane_class_5 [OF that] by simp
  have v1: "v1 l = sum v (lane_class 4 l)" if "l < 32" for l
    using butterfly_sum_step [OF v0 that, of 4 16] by (simp add: v1_def)
  have v2: "v2 l = sum v (lane_class 3 l)" if "l < 32" for l
    using butterfly_sum_step [OF v1 that, of 3 8] by (simp add: v2_def)
  have v3: "v3 l = sum v (lane_class 2 l)" if "l < 32" for l
    using butterfly_sum_step [OF v2 that, of 2 4] by (simp add: v3_def)
  have v4: "v4 l = sum v (lane_class 1 l)" if "l < 32" for l
    using butterfly_sum_step [OF v3 that, of 1 2] by (simp add: v4_def)
  have "v4 l + shfl_xor 1 v4 l = sum v {..<32}"
    using butterfly_sum_step [OF v4 assms, of 0 1] by (simp add: lane_class_0)
  then show ?thesis
    by (simp add: warp_reduce_sum_def v1_def v2_def v3_def v4_def Let_def)
qed

text \<open>The half warp of a lane: the 16 lanes with the same bit 4.\<close>

lemma half_warp_reduce_max_eq:
  assumes "l < 32"
  shows "half_warp_reduce_max v l = Max (v ` {j \<in> {..<32}. bit j 4 = bit l 4})"
proof -
  define B :: "nat \<Rightarrow> nat set" where "B l = {j. bit j 4 = bit l 4}" for l
  define v1 where "v1 = (\<lambda>l. max (v l) (shfl_xor 8 v l))"
  define v2 where "v2 = (\<lambda>l. max (v1 l) (shfl_xor 4 v1 l))"
  define v3 where "v3 = (\<lambda>l. max (v2 l) (shfl_xor 2 v2 l))"
  have B: "l \<in> B l" "k < 4 \<Longrightarrow> B (l XOR 2 ^ k) = B l" for l k
    by (auto simp: B_def bit_xor_iff bit_exp_iff)
  have v0: "v l = Max (v ` (lane_class 4 l \<inter> B l))" if "l < 32" for l
  proof -
    have five: "i < 5 \<longleftrightarrow> i < 4 \<or> i = 4" for i :: nat by arith
    have "lane_class 4 l \<inter> B l = lane_class 5 l"
      unfolding lane_class_def B_def take_bit_agree five by blast
    then show ?thesis using lane_class_5 [OF that] by simp
  qed
  have v1: "v1 l = Max (v ` (lane_class 3 l \<inter> B l))" if "l < 32" for l
    using butterfly_max_step [OF v0 that, of 3 8] B(1) B(2) [of 3 l] by (simp add: v1_def)
  have v2: "v2 l = Max (v ` (lane_class 2 l \<inter> B l))" if "l < 32" for l
    using butterfly_max_step [OF v1 that, of 2 4] B(1) B(2) [of 2 l] by (simp add: v2_def)
  have v3: "v3 l = Max (v ` (lane_class 1 l \<inter> B l))" if "l < 32" for l
    using butterfly_max_step [OF v2 that, of 1 2] B(1) B(2) [of 1 l] by (simp add: v3_def)
  have "max (v3 l) (shfl_xor 1 v3 l) = Max (v ` (lane_class 0 l \<inter> B l))"
    using butterfly_max_step [OF v3 assms, of 0 1] B(1) B(2) [of 0 l] by simp
  moreover have "lane_class 0 l \<inter> B l = {j \<in> {..<32}. bit j 4 = bit l 4}"
    by (auto simp: lane_class_0 B_def)
  ultimately show ?thesis
    by (simp add: half_warp_reduce_max_def v1_def v2_def v3_def Let_def)
qed

lemma half_warp_max:
  assumes "l < 32"
  shows "half_warp_reduce_max w l = Max (w ` {j \<in> {..<32}. j div 16 = l div 16})"
proof -
  have cls: "bit j 4 \<longleftrightarrow> j div 16 = 1" "j div 16 = 0 \<or> j div 16 = 1" if "j < 32" for j :: nat
  proof -
    have "j div 16 < 2" using that by simp
    then show "j div 16 = 0 \<or> j div 16 = 1" by linarith
    then show "bit j 4 \<longleftrightarrow> j div 16 = 1" by (auto simp: bit_iff_odd)
  qed
  have "bit j 4 = bit l 4 \<longleftrightarrow> j div 16 = l div 16" if "j < 32" for j
    using cls [OF that] cls [OF assms] by metis
  then have "{j \<in> {..<32}. bit j 4 = bit l 4} = {j \<in> {..<32}. j div 16 = l div 16}" by blast
  then show ?thesis using half_warp_reduce_max_eq [OF assms, of w] by simp
qed

section \<open>Packing two integers\<close>

text \<open>\<^verbatim>\<open>pack2<int, int64_t>\<close> on a little-endian machine: the first \<^verbatim>\<open>int\<close> is the low half.\<close>

definition pack2 :: "cint \<Rightarrow> cint \<Rightarrow> u64" where
  "pack2 x y = ucast x OR push_bit 32 (ucast y)"

definition unpack2 :: "u64 \<Rightarrow> cint \<times> cint" where
  "unpack2 packed = (ucast packed, ucast (drop_bit 32 packed))"

section \<open>Division of work\<close>

text \<open>\<^verbatim>\<open>cell_div\<close> and \<^verbatim>\<open>align\<close> on \<^verbatim>\<open>int\<close>, with C's division that truncates towards zero.\<close>

definition cell_div :: "int \<Rightarrow> int \<Rightarrow> int" where
  "cell_div a b = (a + b - 1) sdiv b"

definition align_to :: "int \<Rightarrow> int \<Rightarrow> int" where
  "align_to a b = cell_div a b * b"

definition get_channel_task_range :: "int \<Rightarrow> int \<Rightarrow> int \<Rightarrow> int \<times> int" where
  "get_channel_task_range num_tokens num_sms sm_id =
     (let num_tokens_per_sm = cell_div num_tokens num_sms;
          token_start_idx = min (num_tokens_per_sm * sm_id) num_tokens;
          token_end_idx = min (token_start_idx + num_tokens_per_sm) num_tokens
      in (token_start_idx, token_end_idx))"

lemma sdiv_nonneg: "0 \<le> a \<Longrightarrow> 0 < b \<Longrightarrow> a sdiv b = a div b" for a b :: int
  by (cases "a = 0") (auto simp: signed_divide_int_def sgn_if)

lemma cell_div_bounds:
  assumes "0 \<le> a" and "0 < b"
  shows "a \<le> cell_div a b * b" and "cell_div a b * b < a + b" and "0 \<le> cell_div a b"
proof -
  have eq: "cell_div a b = (a + b - 1) div b"
    using assms by (simp add: cell_div_def sdiv_nonneg)
  have m: "0 \<le> (a + b - 1) mod b" "(a + b - 1) mod b < b" using assms by simp_all
  have "(a + b - 1) div b * b = a + b - 1 - (a + b - 1) mod b"
    by (simp add: minus_mod_eq_div_mult)
  with m show "a \<le> cell_div a b * b" "cell_div a b * b < a + b" by (simp_all add: eq)
  show "0 \<le> cell_div a b" using assms by (simp add: eq pos_imp_zdiv_nonneg_iff)
qed

section \<open>Properties\<close>

text \<open>
  Whatever the unrolling factor and the order in which the 32 lanes run, the unrolled warp copy
  writes exactly the first \<open>n\<close> elements, each with the source's element of the same index.
\<close>

theorem unrolled_warp_copy_correct:
  assumes "set lanes = {..<32}" and "0 < unroll"
  shows "unrolled_warp_copy lanes unroll n src dst = (\<lambda>k. if k < n then src k else dst k)"
  using assms by (auto simp: fun_eq_iff unrolled_warp_copy_eq)

theorem unrolled_warp_copy_correct_witness:
  "unrolled_warp_copy [0..<32] 7 896 (\<lambda>k. 2 * k) (\<lambda>_. 0) = (\<lambda>k. if k < 896 then 2 * k else (0::nat))"
  by (rule unrolled_warp_copy_correct) auto

text \<open>
  After the five exchanges of \<^verbatim>\<open>warp_reduce_sum\<close> every lane holds the sum of all 32 lanes
  (modulo \<open>2^32\<close>, as C's unsigned addition), and after the four of \<^verbatim>\<open>half_warp_reduce_max\<close> every
  lane holds the maximum of its own half warp.
\<close>

theorem warp_reductions_correct:
  assumes "l < 32"
  shows "warp_reduce_sum v l = sum v {..<32} \<and>
    half_warp_reduce_max w l = Max (w ` {j \<in> {..<32}. j div 16 = l div 16})"
  using warp_reduce_sum_eq [OF assms] half_warp_max [OF assms] by simp

theorem warp_reductions_correct_witness:
  "warp_reduce_sum (\<lambda>l. of_nat l) 5 = (496 :: cint) \<and>
   half_warp_reduce_max (\<lambda>l. l) 5 = Max ((\<lambda>l. l) ` {j \<in> {..<32}. j div 16 = (5::nat) div 16})"
proof -
  have "sum (\<lambda>l. of_nat l) {..<32} = (496 :: cint)" by code_simp
  then show ?thesis using warp_reductions_correct [of 5 "\<lambda>l. of_nat l" "\<lambda>l. l :: nat"] by simp
qed

text \<open>Packing and unpacking a count and an offset are inverse to each other.\<close>

theorem pack2_roundtrip:
  "unpack2 (pack2 x y) = (x, y) \<and> pack2 (fst (unpack2 p)) (snd (unpack2 p)) = p"
proof
  show "unpack2 (pack2 x y) = (x, y)"
    by (auto simp: unpack2_def pack2_def bit_eq_iff bit_simps dest: bit_imp_le_length)
  show "pack2 (fst (unpack2 p)) (snd (unpack2 p)) = p"
    by (auto simp: unpack2_def pack2_def bit_eq_iff bit_simps dest: bit_imp_le_length)
qed

text \<open>
  The ranges \<^verbatim>\<open>get_channel_task_range\<close> gives to the thread blocks cut the tokens into consecutive
  pieces: every token belongs to exactly one block's range.
\<close>

theorem channel_task_range_partition:
  assumes "0 < num_sms" and "0 \<le> t" and "t < num_tokens"
  shows "\<exists>!sm. 0 \<le> sm \<and> sm < num_sms \<and>
    fst (get_channel_task_range num_tokens num_sms sm) \<le> t \<and>
    t < snd (get_channel_task_range num_tokens num_sms sm)"
proof -
  define c where "c = cell_div num_tokens num_sms"
  have b: "num_tokens \<le> c * num_sms" "0 \<le> c"
    using cell_div_bounds [of num_tokens num_sms] assms by (simp_all add: c_def)
  have c: "0 < c" using b assms by (cases "c = 0") auto
  have in_range: "fst (get_channel_task_range num_tokens num_sms sm) \<le> t \<and>
      t < snd (get_channel_task_range num_tokens num_sms sm) \<longleftrightarrow> c * sm \<le> t \<and> t < c * sm + c" for sm
    using assms by (auto simp: get_channel_task_range_def Let_def c_def [symmetric] min_def)
  have idx: "c * sm \<le> t \<and> t < c * sm + c \<longleftrightarrow> sm = t div c" for sm
  proof
    assume "c * sm \<le> t \<and> t < c * sm + c"
    then show "sm = t div c" using c by (intro int_div_pos_eq [symmetric, of _ _ _ "t - c * sm"]) auto
  next
    assume sm: "sm = t div c"
    have "t = c * (t div c) + t mod c" "0 \<le> t mod c" "t mod c < c" using c by simp_all
    then show "c * sm \<le> t \<and> t < c * sm + c" unfolding sm by linarith
  qed
  have "t div c < num_sms"
  proof -
    have "c * (t div c) \<le> t" using idx [of "t div c"] by simp
    moreover have "t < c * num_sms" using assms b by simp
    ultimately have "c * (t div c) < c * num_sms" by simp
    then show ?thesis using c by simp
  qed
  moreover have "0 \<le> t div c" using assms c by (simp add: pos_imp_zdiv_nonneg_iff)
  ultimately show ?thesis unfolding in_range idx by blast
qed

theorem channel_task_range_partition_witness:
  "\<exists>!sm. 0 \<le> sm \<and> sm < (4::int) \<and> fst (get_channel_task_range 10 4 sm) \<le> 9 \<and>
    9 < snd (get_channel_task_range 10 4 sm)"
  by (rule channel_task_range_partition) simp_all

end
