(* ===== verification/Buffer_Layout.thy ===== *)
theory Buffer_Layout
  imports EP_Prelude
begin

text \<open>
  The layout of the registered buffer (\<^verbatim>\<open>BufferLayout\<close>, \<^verbatim>\<open>BufferPair\<close> and
  \<^verbatim>\<open>get_ep_buffer_size_hint\<close> of \<^verbatim>\<open>include/ep_buffer.h\<close>) and the addresses the kernels of
  \<^verbatim>\<open>src/ep_kernel.cu\<close> compute inside it. Pointers and \<^verbatim>\<open>size_t\<close> are 64-bit words, the sizes
  passed in are 32-bit \<^verbatim>\<open>int\<close>s; products of two \<^verbatim>\<open>int\<close>s are taken at 32 bits, as in the code,
  before they are widened.
\<close>

section \<open>The buffer pair\<close>

record BufferLayout =
  rdma_send_signal_buffer :: u64
  rdma_recv_signal_buffer :: u64
  rdma_send_data_buffer :: u64
  rdma_recv_data_buffer :: u64

record BufferPair =
  total_bytes :: size_t
  buffers :: "BufferLayout list"

definition advance :: "u64 \<Rightarrow> size_t \<Rightarrow> u64" where
  "advance ptr n = ptr + n"

definition signaling_buffer_bytes :: "cint \<Rightarrow> size_t" where
  "signaling_buffer_bytes num_experts = scast num_experts * 4"

definition send_recv_buffer_bytes :: "cint \<Rightarrow> cint \<Rightarrow> cint \<Rightarrow> size_t" where
  "send_recv_buffer_bytes num_experts num_max_dispatch_tokens_per_rank hidden =
     scast (num_experts * num_max_dispatch_tokens_per_rank) * (2 * 16 + scast hidden * 2)"

text \<open>One round of the constructor's loop; \<^verbatim>\<open>total_bytes\<close> is still 0 there.\<close>

definition layout_round :: "u64 \<Rightarrow> size_t \<Rightarrow> size_t \<Rightarrow> size_t \<Rightarrow> size_t \<Rightarrow> BufferLayout" where
  "layout_round rdma_buffer tot sig dat i =
     (let rdma_base_offset = tot + 2 * i * sig + 2 * i * dat
      in \<lparr>rdma_send_signal_buffer = advance rdma_buffer rdma_base_offset,
          rdma_recv_signal_buffer = advance rdma_buffer (rdma_base_offset + sig),
          rdma_send_data_buffer = advance rdma_buffer (rdma_base_offset + 2 * sig),
          rdma_recv_data_buffer = advance rdma_buffer (rdma_base_offset + 2 * sig + dat)\<rparr>)"

definition mk_BufferPair :: "u64 \<Rightarrow> cint \<Rightarrow> cint \<Rightarrow> cint \<Rightarrow> cint \<Rightarrow> BufferPair" where
  "mk_BufferPair rdma_buffer num_max_dispatch_tokens_per_rank hidden num_ranks num_experts =
     (let sig = signaling_buffer_bytes num_experts;
          dat = send_recv_buffer_bytes num_experts num_max_dispatch_tokens_per_rank hidden
      in \<lparr>total_bytes = 0 + (4 * sig + 4 * dat),
          buffers = map (layout_round rdma_buffer 0 sig dat) [0, 1]\<rparr>)"

definition get_ep_buffer_size_hint :: "cint \<Rightarrow> cint \<Rightarrow> cint \<Rightarrow> cint \<Rightarrow> size_t" where
  "get_ep_buffer_size_hint num_max_dispatch_tokens_per_rank hidden num_ranks num_experts =
     total_bytes (mk_BufferPair 0 num_max_dispatch_tokens_per_rank hidden num_ranks num_experts)"

section \<open>Sizes as natural numbers\<close>

text \<open>
  Sizes for which no intermediate product wraps around: the \<^verbatim>\<open>int\<close> product of experts and tokens
  fits an \<^verbatim>\<open>int\<close>, and the whole buffer fits the address space.
\<close>

definition sig_nat :: "nat \<Rightarrow> nat" where
  "sig_nat E = 4 * E"

definition dat_nat :: "nat \<Rightarrow> nat \<Rightarrow> nat \<Rightarrow> nat" where
  "dat_nat E M H = E * M * (32 + 2 * H)"

definition sizes_ok :: "nat \<Rightarrow> nat \<Rightarrow> nat \<Rightarrow> nat \<Rightarrow> bool" where
  "sizes_ok base E M H \<longleftrightarrow>
     E < 2 ^ 31 \<and> M < 2 ^ 31 \<and> E * M < 2 ^ 31 \<and> H < 2 ^ 31 \<and>
     base + 4 * sig_nat E + 4 * dat_nat E M H < 2 ^ 64"

lemma scast_of_nat_int [simp]:
  assumes "n < 2 ^ 31"
  shows "(scast (of_nat n :: cint) :: u64) = of_nat n"
proof -
  have "sint (of_nat n :: cint) = int n"
    using assms by (simp add: signed_of_nat signed_take_bit_int_eq_self)
  then show ?thesis by (simp add: scast_eq)
qed

lemma sig_bytes_nat:
  assumes "sizes_ok base E M H"
  shows "signaling_buffer_bytes (of_nat E) = of_nat (sig_nat E)"
  using assms by (simp add: signaling_buffer_bytes_def sizes_ok_def sig_nat_def mult.commute)

lemma dat_bytes_nat:
  assumes "sizes_ok base E M H"
  shows "send_recv_buffer_bytes (of_nat E) (of_nat M) (of_nat H) = of_nat (dat_nat E M H)"
proof -
  have "(of_nat E :: cint) * of_nat M = of_nat (E * M)" by simp
  with assms show ?thesis
    by (simp only: send_recv_buffer_bytes_def sizes_ok_def scast_of_nat_int dat_nat_def)
      (simp add: mult.commute)
qed

text \<open>
  Consecutive regions: each starts where the one before it ends.
\<close>

fun tiles :: "nat \<Rightarrow> (nat \<times> nat) list \<Rightarrow> nat \<Rightarrow> bool" where
  "tiles a [] b \<longleftrightarrow> a = b"
| "tiles a ((s, n) # rs) b \<longleftrightarrow> s = a \<and> tiles (s + n) rs b"

lemma tiles_append: "tiles a (rs @ qs) b \<longleftrightarrow> (\<exists>c. tiles a rs c \<and> tiles c qs b)"
  by (induction a rs b rule: tiles.induct) auto

lemma tiles_le: "tiles a rs b \<Longrightarrow> a \<le> b"
  by (induction a rs b rule: tiles.induct) auto

lemma tiles_bounds: "tiles a rs b \<Longrightarrow> (s, n) \<in> set rs \<Longrightarrow> a \<le> s \<and> s + n \<le> b"
  by (induction a rs b rule: tiles.induct) (auto dest: tiles_le)

lemma tiles_disjoint:
  assumes "tiles a rs b" and "i < j" and "j < length rs"
  shows "fst (rs ! i) + snd (rs ! i) \<le> fst (rs ! j)"
  using assms
proof (induction a rs b arbitrary: i j rule: tiles.induct)
  case (2 a s n rs b)
  show ?case
  proof (cases i)
    case 0
    then have "rs ! (j - 1) \<in> set rs" using 2 by simp
    then show ?thesis
      using 0 2 tiles_bounds [of "s + n" rs b "fst (rs ! (j - 1))" "snd (rs ! (j - 1))"]
      by (cases j) auto
  next
    case (Suc i')
    then show ?thesis using 2 by (cases j) auto
  qed
qed simp

definition layout_regions :: "nat \<Rightarrow> nat \<Rightarrow> BufferLayout \<Rightarrow> (nat \<times> nat) list" where
  "layout_regions sig dat b =
     [(unat (rdma_send_signal_buffer b), sig), (unat (rdma_recv_signal_buffer b), sig),
      (unat (rdma_send_data_buffer b), dat), (unat (rdma_recv_data_buffer b), dat)]"

lemma mk_BufferPair_nat:
  fixes R :: cint
  assumes ok: "sizes_ok (unat base) E M H"
  defines "S \<equiv> sig_nat E" and "D \<equiv> dat_nat E M H"
    and "bp \<equiv> mk_BufferPair base (of_nat M) (of_nat H) R (of_nat E)"
  shows "unat (total_bytes bp) = 4 * S + 4 * D"
    and "buffers bp = [\<lparr>rdma_send_signal_buffer = of_nat (unat base),
            rdma_recv_signal_buffer = of_nat (unat base + S),
            rdma_send_data_buffer = of_nat (unat base + 2 * S),
            rdma_recv_data_buffer = of_nat (unat base + 2 * S + D)\<rparr>,
           \<lparr>rdma_send_signal_buffer = of_nat (unat base + 2 * S + 2 * D),
            rdma_recv_signal_buffer = of_nat (unat base + 3 * S + 2 * D),
            rdma_send_data_buffer = of_nat (unat base + 4 * S + 2 * D),
            rdma_recv_data_buffer = of_nat (unat base + 4 * S + 3 * D)\<rparr>]"
proof -
  have "4 * S + 4 * D < 2 ^ 64" using ok by (simp add: sizes_ok_def S_def D_def)
  moreover have "total_bytes bp = of_nat (4 * S + 4 * D)"
    using sig_bytes_nat [OF ok] dat_bytes_nat [OF ok]
    by (simp add: bp_def mk_BufferPair_def Let_def S_def D_def)
  ultimately show "unat (total_bytes bp) = 4 * S + 4 * D"
    using unat_of_nat_64 by metis
  show "buffers bp = [\<lparr>rdma_send_signal_buffer = of_nat (unat base),
            rdma_recv_signal_buffer = of_nat (unat base + S),
            rdma_send_data_buffer = of_nat (unat base + 2 * S),
            rdma_recv_data_buffer = of_nat (unat base + 2 * S + D)\<rparr>,
           \<lparr>rdma_send_signal_buffer = of_nat (unat base + 2 * S + 2 * D),
            rdma_recv_signal_buffer = of_nat (unat base + 3 * S + 2 * D),
            rdma_send_data_buffer = of_nat (unat base + 4 * S + 2 * D),
            rdma_recv_data_buffer = of_nat (unat base + 4 * S + 3 * D)\<rparr>]"
    using sig_bytes_nat [OF ok] dat_bytes_nat [OF ok]
    by (simp add: bp_def mk_BufferPair_def layout_round_def advance_def Let_def S_def D_def algebra_simps)
qed

lemma buffer_regions_tile:
  fixes R :: cint
  assumes ok: "sizes_ok (unat base) E M H"
  defines "bp \<equiv> mk_BufferPair base (of_nat M) (of_nat H) R (of_nat E)"
  shows "tiles (unat base) (concat (map (layout_regions (sig_nat E) (dat_nat E M H)) (buffers bp)))
           (unat base + unat (total_bytes bp))"
proof -
  define S D where "S = sig_nat E" and "D = dat_nat E M H"
  have lt: "unat base + 4 * S + 4 * D < 2 ^ 64" using ok by (simp add: sizes_ok_def S_def D_def)
  note nat = mk_BufferPair_nat [OF ok, of R, folded bp_def S_def D_def]
  have u: "unat (of_nat (unat base + a * S + b * D) :: u64) = unat base + a * S + b * D" if "a \<le> 4" "b \<le> 4" for a b
  proof (rule unat_of_nat_64)
    have "a * S \<le> 4 * S" "b * D \<le> 4 * D" using that by simp_all
    with lt show "unat base + a * S + b * D < 2 ^ 64" by linarith
  qed
  show ?thesis
    unfolding nat S_def [symmetric] D_def [symmetric] layout_regions_def
    using u [of 0 0] u [of 1 0] u [of 2 0] u [of 2 1] u [of 2 2] u [of 3 2] u [of 4 2] u [of 4 3]
    by (simp del: of_nat_add)
qed

section \<open>Addresses computed by the kernels\<close>

text \<open>
  The message and slot sizes of the kernels for a hidden size \<open>kHidden\<close>: an \<^verbatim>\<open>int4\<close> header (16
  bytes, holding the token's index) and the row, in FP8 with one float scale for every 128 elements
  or in BF16.
\<close>

definition num_scales :: "nat \<Rightarrow> nat" where
  "num_scales kHidden = kHidden div 128"

definition hidden_bytes :: "bool \<Rightarrow> nat \<Rightarrow> nat" where
  "hidden_bytes kUseFP8 kHidden = kHidden * (if kUseFP8 then 1 else 2)"

definition num_bytes_per_msg :: "bool \<Rightarrow> nat \<Rightarrow> nat" where
  "num_bytes_per_msg kUseFP8 kHidden =
     16 + (if kUseFP8 then kHidden + num_scales kHidden * 4 else kHidden * 2)"

definition num_bytes_per_slot :: "nat \<Rightarrow> nat" where
  "num_bytes_per_slot kHidden = kHidden * 2"

text \<open>
  \<^verbatim>\<open>dst_ptr\<close> of the dispatch kernel (also \<^verbatim>\<open>rdma_recv_x_uint8 + i * num_bytes_per_msg\<close> of its
  receiving half, with the source rank as \<open>r\<close>): three \<^verbatim>\<open>int\<close> factors are multiplied before the
  widening to \<^verbatim>\<open>size_t\<close>.
\<close>

definition dispatch_dst_ptr :: "u64 \<Rightarrow> cint \<Rightarrow> cint \<Rightarrow> cint \<Rightarrow> cint \<Rightarrow> cint \<Rightarrow> size_t \<Rightarrow> u64" where
  "dispatch_dst_ptr recv_data dst_expert_local_idx num_ranks num_max r slot_idx num_bytes =
     recv_data + scast (dst_expert_local_idx * num_ranks * num_max) * num_bytes +
     scast (r * num_max) * num_bytes + scast slot_idx * num_bytes"

definition dispatch_src_ptr :: "u64 \<Rightarrow> cint \<Rightarrow> size_t \<Rightarrow> u64" where
  "dispatch_src_ptr send_data token_idx num_bytes = send_data + scast token_idx * num_bytes"

text \<open>\<^verbatim>\<open>int* rdma_recv_signal_buffer + dst_expert_local_idx * num_ranks + rank\<close>.\<close>

definition dispatch_signal_ptr :: "u64 \<Rightarrow> cint \<Rightarrow> cint \<Rightarrow> cint \<Rightarrow> u64" where
  "dispatch_signal_ptr signal dst_expert_local_idx num_ranks r =
     signal + 4 * scast (dst_expert_local_idx * num_ranks) + 4 * scast r"

definition combine_dst_ptr :: "u64 \<Rightarrow> cint \<Rightarrow> cint \<Rightarrow> cint \<Rightarrow> size_t \<Rightarrow> u64" where
  "combine_dst_ptr recv_data global_expert_idx num_max src_idx num_bytes =
     recv_data + scast (global_expert_idx * num_max + src_idx) * num_bytes"

definition combine_buf_ptr :: "u64 \<Rightarrow> cint \<Rightarrow> cint \<Rightarrow> cint \<Rightarrow> cint \<Rightarrow> size_t \<Rightarrow> u64" where
  "combine_buf_ptr send_data local_expert_idx num_ranks num_max token_idx num_bytes =
     send_data + scast (local_expert_idx * num_ranks * num_max) * num_bytes + scast token_idx * num_bytes"

definition combine_signal_ptr :: "u64 \<Rightarrow> cint \<Rightarrow> u64" where
  "combine_signal_ptr signal global_expert_idx = signal + 4 * scast global_expert_idx"

text \<open>The slot number behind a dispatch address, and the mixed-radix facts it needs.\<close>

definition slot_no :: "nat \<Rightarrow> nat \<Rightarrow> nat \<Rightarrow> nat \<Rightarrow> nat \<Rightarrow> nat" where
  "slot_no R M l r s = (l * R + r) * M + s"

lemma mixed_radix_less: "a < A \<Longrightarrow> b < B \<Longrightarrow> a * B + b < A * B" for a b :: nat
proof -
  assume a: "a < A" and b: "b < B"
  have "a * B + b < (a + 1) * B" using b by simp
  also have "\<dots> \<le> A * B" using a by (intro mult_le_mono1) simp
  finally show ?thesis .
qed

lemma mixed_radix_inj: "b < B \<Longrightarrow> b' < B \<Longrightarrow> a * B + b = a' * B + b' \<longleftrightarrow> a = a' \<and> b = b'" for a b :: nat
proof
  assume b: "b < B" "b' < B" and eq: "a * B + b = a' * B + b'"
  have "(a * B + b) div B = a" "(a' * B + b') div B = a'" using b by simp_all
  with eq show "a = a' \<and> b = b'" by simp
qed simp

lemma slot_no_less: "l < L \<Longrightarrow> r < R \<Longrightarrow> s < M \<Longrightarrow> slot_no R M l r s < L * R * M"
  by (simp add: slot_no_def mixed_radix_less)

lemma slot_no_inj:
  assumes "r < R" "r' < R" "s < M" "s' < M"
  shows "slot_no R M l r s = slot_no R M l' r' s' \<longleftrightarrow> l = l' \<and> r = r' \<and> s = s'"
  using assms by (auto simp: slot_no_def mixed_radix_inj)

lemma disjoint_slots: "i \<noteq> j \<Longrightarrow> b + i * n + n \<le> b + j * n \<or> b + j * n + n \<le> b + i * (n::nat)"
proof -
  assume "i \<noteq> j"
  then consider "i + 1 \<le> j" | "j + 1 \<le> i" by linarith
  then show ?thesis
  proof cases
    case 1
    then have "(i + 1) * n \<le> j * n" by (rule mult_le_mono1)
    then show ?thesis by simp
  next
    case 2
    then have "(j + 1) * n \<le> i * n" by (rule mult_le_mono1)
    then show ?thesis by simp
  qed
qed

lemma slot_in_region: "i < k \<Longrightarrow> k * n \<le> len \<Longrightarrow> b + i * n + n \<le> b + (len::nat)"
proof -
  assume "i < k" and "k * n \<le> len"
  have "(i + 1) * n \<le> k * n" using \<open>i < k\<close> by (intro mult_le_mono1) simp
  with \<open>k * n \<le> len\<close> show ?thesis by simp
qed

lemma dispatch_dst_ptr_nat:
  assumes "l < L" and "r < R" and "s < M" and "L * R * M < 2 ^ 31" and "0 < L"
    and "unat base + L * R * M * nb < 2 ^ 64"
  shows "unat (dispatch_dst_ptr base (of_nat l) (of_nat R) (of_nat M) (of_nat r) (of_nat s) (of_nat nb)) =
    unat base + slot_no R M l r s * nb"
proof -
  have lt: "slot_no R M l r s < L * R * M" by (rule slot_no_less [OF assms(1-3)])
  have parts: "slot_no R M l r s = l * R * M + r * M + s" by (simp add: slot_no_def algebra_simps)
  have b: "l * R * M < 2 ^ 31" "r * M < 2 ^ 31" "s < 2 ^ 31" using lt assms(4) parts by linarith+
  have ints: "(of_nat l * of_nat R * of_nat M :: cint) = of_nat (l * R * M)" "(of_nat r * of_nat M :: cint) = of_nat (r * M)"
    by simp_all
  have "dispatch_dst_ptr base (of_nat l) (of_nat R) (of_nat M) (of_nat r) (of_nat s) (of_nat nb) =
    of_nat (unat base + (l * R * M + r * M + s) * nb)"
    unfolding dispatch_dst_ptr_def ints scast_of_nat_int [OF b(1)] scast_of_nat_int [OF b(2)] scast_of_nat_int [OF b(3)]
    by (simp add: algebra_simps)
  moreover have "unat base + (l * R * M + r * M + s) * nb < 2 ^ 64"
    using slot_in_region [OF lt order_refl, of "unat base" nb] assms(6) unfolding parts by linarith
  ultimately show ?thesis using unat_of_nat_64 parts by metis
qed

lemma combine_dst_ptr_nat:
  assumes "g < E" and "t < M" and "E * M < 2 ^ 31" and "unat base + E * M * nb < 2 ^ 64"
  shows "unat (combine_dst_ptr base (of_nat g) (of_nat M) (of_nat t) (of_nat nb)) = unat base + (g * M + t) * nb"
proof -
  have lt: "g * M + t < E * M" by (rule mixed_radix_less [OF assms(1,2)])
  then have b: "g * M + t < 2 ^ 31" using assms(3) by simp
  have int: "(of_nat g * of_nat M + of_nat t :: cint) = of_nat (g * M + t)" by simp
  have "combine_dst_ptr base (of_nat g) (of_nat M) (of_nat t) (of_nat nb) = of_nat (unat base + (g * M + t) * nb)"
    unfolding combine_dst_ptr_def int scast_of_nat_int [OF b] by simp
  moreover have "unat base + (g * M + t) * nb < 2 ^ 64"
    using slot_in_region [OF lt order_refl, of "unat base" nb] assms(4) by linarith
  ultimately show ?thesis using unat_of_nat_64 by metis
qed

lemma msg_le_slot: "num_bytes_per_msg fp8 H \<le> 32 + 2 * H"
  by (auto simp: num_bytes_per_msg_def num_scales_def)

section \<open>Placement in the buffer\<close>

lemma buffer_in_bounds:
  assumes ok: "sizes_ok (unat base) E M H"
    and b: "b \<in> set (buffers (mk_BufferPair base (of_nat M) (of_nat H) R (of_nat E)))"
    and r: "(s, n) \<in> set (layout_regions (sig_nat E) (dat_nat E M H) b)"
  shows "unat base \<le> s \<and> s + n < 2 ^ 64"
proof -
  let ?bp = "mk_BufferPair base (of_nat M) (of_nat H) R (of_nat E)"
  have "(s, n) \<in> set (concat (map (layout_regions (sig_nat E) (dat_nat E M H)) (buffers ?bp)))"
    using b r by auto
  from tiles_bounds [OF buffer_regions_tile [OF ok] this]
  have "unat base \<le> s" "s + n \<le> unat base + unat (total_bytes ?bp)" by simp_all
  moreover have "unat base + unat (total_bytes ?bp) < 2 ^ 64"
    using ok mk_BufferPair_nat(1) [OF ok, of R] by (simp add: sizes_ok_def)
  ultimately show ?thesis by simp
qed

lemma recv_data_bounds:
  assumes ok: "sizes_ok (unat base) E M H"
    and b: "b \<in> set (buffers (mk_BufferPair base (of_nat M) (of_nat H) R (of_nat E)))"
  shows "unat (rdma_recv_data_buffer b) + dat_nat E M H < 2 ^ 64"
    and "unat (rdma_send_data_buffer b) + dat_nat E M H < 2 ^ 64"
    and "unat (rdma_recv_signal_buffer b) + sig_nat E < 2 ^ 64"
    and "unat (rdma_send_signal_buffer b) + sig_nat E < 2 ^ 64"
proof -
  note bd = buffer_in_bounds [OF ok b]
  show "unat (rdma_recv_data_buffer b) + dat_nat E M H < 2 ^ 64"
    using bd [of "unat (rdma_recv_data_buffer b)" "dat_nat E M H"] by (simp add: layout_regions_def)
  show "unat (rdma_send_data_buffer b) + dat_nat E M H < 2 ^ 64"
    using bd [of "unat (rdma_send_data_buffer b)" "dat_nat E M H"] by (simp add: layout_regions_def)
  show "unat (rdma_recv_signal_buffer b) + sig_nat E < 2 ^ 64"
    using bd [of "unat (rdma_recv_signal_buffer b)" "sig_nat E"] by (simp add: layout_regions_def)
  show "unat (rdma_send_signal_buffer b) + sig_nat E < 2 ^ 64"
    using bd [of "unat (rdma_send_signal_buffer b)" "sig_nat E"] by (simp add: layout_regions_def)
qed

lemma slots_le_dat: "nb \<le> 32 + 2 * H \<Longrightarrow> E * M * nb \<le> dat_nat E M H"
  by (simp add: dat_nat_def)

lemma dispatch_slot:
  assumes ok: "sizes_ok base E M H" and E: "E = L * R"
    and i: "l < L" "r < R" "s < M" and nb: "nb \<le> 32 + 2 * H"
    and top: "unat start + dat_nat E M H < 2 ^ 64"
  shows "unat (dispatch_dst_ptr start (of_nat l) (of_nat R) (of_nat M) (of_nat r) (of_nat s) (of_nat nb)) =
      unat start + slot_no R M l r s * nb"
    and "unat start + slot_no R M l r s * nb + nb \<le> unat start + dat_nat E M H"
proof -
  have "L * R * M < 2 ^ 31" using ok E by (simp add: sizes_ok_def)
  moreover have "unat start + L * R * M * nb < 2 ^ 64"
    using slots_le_dat [OF nb, of E M] top E by simp
  ultimately show "unat (dispatch_dst_ptr start (of_nat l) (of_nat R) (of_nat M) (of_nat r) (of_nat s) (of_nat nb)) =
      unat start + slot_no R M l r s * nb"
    using dispatch_dst_ptr_nat [OF i, of start nb] i(1) by simp
  show "unat start + slot_no R M l r s * nb + nb \<le> unat start + dat_nat E M H"
    using slot_in_region [OF slot_no_less [OF i]] slots_le_dat [OF nb, of E M] E by simp
qed

lemma combine_slot:
  assumes ok: "sizes_ok base E M H" and i: "g < E" "t < M" and nb: "nb \<le> 32 + 2 * H"
    and top: "unat start + dat_nat E M H < 2 ^ 64"
  shows "unat (combine_dst_ptr start (of_nat g) (of_nat M) (of_nat t) (of_nat nb)) =
      unat start + (g * M + t) * nb"
    and "unat start + (g * M + t) * nb + nb \<le> unat start + dat_nat E M H"
proof -
  have "E * M < 2 ^ 31" using ok by (simp add: sizes_ok_def)
  moreover have "unat start + E * M * nb < 2 ^ 64" using slots_le_dat [OF nb, of E M] top by simp
  ultimately show "unat (combine_dst_ptr start (of_nat g) (of_nat M) (of_nat t) (of_nat nb)) =
      unat start + (g * M + t) * nb"
    by (rule combine_dst_ptr_nat [OF i])
  show "unat start + (g * M + t) * nb + nb \<le> unat start + dat_nat E M H"
    using slot_in_region [OF mixed_radix_less [OF i]] slots_le_dat [OF nb, of E M] by simp
qed

lemma signal_slot:
  assumes ok: "sizes_ok base E M H" and E: "E = L * R" and i: "l < L" "r < R"
    and top: "unat start + sig_nat E < 2 ^ 64"
  shows "unat (dispatch_signal_ptr start (of_nat l) (of_nat R) (of_nat r)) = unat start + (l * R + r) * 4"
    and "unat start + (l * R + r) * 4 + 4 \<le> unat start + sig_nat E"
proof -
  have lt: "l * R + r < E" using mixed_radix_less [OF i] E by simp
  have b: "l * R < 2 ^ 31" "r < 2 ^ 31" using lt ok by (simp_all add: sizes_ok_def)
  have int: "(of_nat l * of_nat R :: cint) = of_nat (l * R)" by simp
  have "dispatch_signal_ptr start (of_nat l) (of_nat R) (of_nat r) = of_nat (unat start + (l * R + r) * 4)"
    unfolding dispatch_signal_ptr_def int scast_of_nat_int [OF b(1)] scast_of_nat_int [OF b(2)]
    by (simp add: algebra_simps)
  moreover have "unat start + (l * R + r) * 4 < 2 ^ 64" using lt top by (simp add: sig_nat_def)
  ultimately show "unat (dispatch_signal_ptr start (of_nat l) (of_nat R) (of_nat r)) = unat start + (l * R + r) * 4"
    using unat_of_nat_64 by metis
  show "unat start + (l * R + r) * 4 + 4 \<le> unat start + sig_nat E" using lt by (simp add: sig_nat_def)
qed

lemma combine_signal_slot:
  assumes ok: "sizes_ok base E M H" and g: "g < E" and top: "unat start + sig_nat E < 2 ^ 64"
  shows "unat (combine_signal_ptr start (of_nat g)) = unat start + g * 4"
    and "unat start + g * 4 + 4 \<le> unat start + sig_nat E"
proof -
  have b: "g < 2 ^ 31" using g ok by (simp add: sizes_ok_def)
  have "combine_signal_ptr start (of_nat g) = of_nat (unat start + g * 4)"
    unfolding combine_signal_ptr_def scast_of_nat_int [OF b] by simp
  moreover have "unat start + g * 4 < 2 ^ 64" using g top by (simp add: sig_nat_def)
  ultimately show "unat (combine_signal_ptr start (of_nat g)) = unat start + g * 4"
    using unat_of_nat_64 by metis
  show "unat start + g * 4 + 4 \<le> unat start + sig_nat E" using g by (simp add: sig_nat_def)
qed

section \<open>Properties\<close>

text \<open>
  C15. For sizes that do not overflow, the two halves of the buffer pair are eight regions (send and
  receive signals, send and receive data, twice) that follow one another without gap or overlap
  from the base of the buffer to its end, and the size the constructor reports, which is also the
  size hint a caller allocates by, is the sum of the region sizes.
\<close>

theorem buffer_pair_tiles:
  fixes R :: cint
  assumes "sizes_ok (unat base) E M H"
  shows "let bp = mk_BufferPair base (of_nat M) (of_nat H) R (of_nat E);
             rs = concat (map (layout_regions (sig_nat E) (dat_nat E M H)) (buffers bp))
         in length rs = 8 \<and> tiles (unat base) rs (unat base + unat (total_bytes bp)) \<and>
            (\<forall>i j. i < j \<longrightarrow> j < 8 \<longrightarrow> fst (rs ! i) + snd (rs ! i) \<le> fst (rs ! j)) \<and>
            get_ep_buffer_size_hint (of_nat M) (of_nat H) R (of_nat E) = total_bytes bp"
proof -
  define bp where "bp = mk_BufferPair base (of_nat M) (of_nat H) R (of_nat E)"
  define rs where "rs = concat (map (layout_regions (sig_nat E) (dat_nat E M H)) (buffers bp))"
  have t: "tiles (unat base) rs (unat base + unat (total_bytes bp))"
    unfolding rs_def bp_def by (rule buffer_regions_tile [OF assms])
  have len: "length rs = 8"
    by (simp add: rs_def bp_def mk_BufferPair_def layout_regions_def Let_def)
  have hint: "get_ep_buffer_size_hint (of_nat M) (of_nat H) R (of_nat E) = total_bytes bp"
    by (simp add: get_ep_buffer_size_hint_def bp_def mk_BufferPair_def Let_def)
  show ?thesis
    unfolding Let_def bp_def [symmetric] rs_def [symmetric]
    using t len hint tiles_disjoint [OF t] by simp
qed

theorem buffer_pair_tiles_witness:
  "tiles 4096 (concat (map (layout_regions (sig_nat 16) (dat_nat 16 128 2048))
     (buffers (mk_BufferPair 4096 128 2048 2 16)))) (4096 + unat (get_ep_buffer_size_hint 128 2048 2 16))"
proof -
  have "sizes_ok (unat (4096 :: u64)) 16 128 2048"
    by (simp add: sizes_ok_def sig_nat_def dat_nat_def)
  from buffer_pair_tiles [OF this, of 2] show ?thesis
    by (simp add: Let_def)
qed

text \<open>
  C16. In the dispatch, the message that a source rank writes for its \<open>s\<close>-th token of an expert lies
  inside the receiving rank's data region, and two messages with a different local expert, source
  rank or slot never overlap; the same holds for the signal words of (expert, source rank) pairs.
\<close>

theorem dispatch_slots_disjoint:
  fixes fp8 :: bool
  assumes ok: "sizes_ok (unat base) E M H" and E: "E = L * R"
    and b: "b \<in> set (buffers (mk_BufferPair base (of_nat M) (of_nat H) (of_nat R) (of_nat E)))"
    and i: "l < L" "r < R" "s < M" and j: "l' < L" "r' < R" "s' < M"
  defines "nb \<equiv> num_bytes_per_msg fp8 H"
    and "ptr \<equiv> \<lambda>l r s. unat (dispatch_dst_ptr (rdma_recv_data_buffer b) (of_nat l) (of_nat R) (of_nat M)
                       (of_nat r) (of_nat s) (of_nat (num_bytes_per_msg fp8 H)))"
    and "sig \<equiv> \<lambda>l r. unat (dispatch_signal_ptr (rdma_recv_signal_buffer b) (of_nat l) (of_nat R) (of_nat r))"
  shows "unat (rdma_recv_data_buffer b) \<le> ptr l r s \<and>
    ptr l r s + nb \<le> unat (rdma_recv_data_buffer b) + dat_nat E M H \<and>
    ((l, r, s) \<noteq> (l', r', s') \<longrightarrow> ptr l r s + nb \<le> ptr l' r' s' \<or> ptr l' r' s' + nb \<le> ptr l r s) \<and>
    unat (rdma_recv_signal_buffer b) \<le> sig l r \<and>
    sig l r + 4 \<le> unat (rdma_recv_signal_buffer b) + sig_nat E \<and>
    ((l, r) \<noteq> (l', r') \<longrightarrow> sig l r + 4 \<le> sig l' r' \<or> sig l' r' + 4 \<le> sig l r)"
proof -
  have nb: "nb \<le> 32 + 2 * H" unfolding nb_def by (rule msg_le_slot)
  note top = recv_data_bounds [OF ok b]
  note d = dispatch_slot [OF ok E _ _ _ nb top(1), folded nb_def]
  note g = signal_slot [OF ok E _ _ top(3)]
  have di: "ptr l r s = unat (rdma_recv_data_buffer b) + slot_no R M l r s * nb"
    and dj: "ptr l' r' s' = unat (rdma_recv_data_buffer b) + slot_no R M l' r' s' * nb"
    using d(1) [OF i] d(1) [OF j] by (simp_all add: ptr_def nb_def)
  have gi: "sig l r = unat (rdma_recv_signal_buffer b) + (l * R + r) * 4"
    and gj: "sig l' r' = unat (rdma_recv_signal_buffer b) + (l' * R + r') * 4"
    using g(1) [OF i(1,2)] g(1) [OF j(1,2)] by (simp_all add: sig_def)
  have "(l, r, s) \<noteq> (l', r', s') \<longrightarrow> slot_no R M l r s \<noteq> slot_no R M l' r' s'"
    using slot_no_inj [OF i(2) j(2) i(3) j(3), of l l'] by simp
  moreover have "(l, r) \<noteq> (l', r') \<longrightarrow> l * R + r \<noteq> l' * R + r'"
    using mixed_radix_inj [OF i(2) j(2), of l l'] by simp
  ultimately show ?thesis
    unfolding di dj gi gj
    using d(2) [OF i] g(2) [OF i(1,2)] disjoint_slots [of "l * R + r" "l' * R + r'" _ 4] le_add1
      disjoint_slots [of "slot_no R M l r s" "slot_no R M l' r' s'" _ nb]
    by blast
qed

theorem dispatch_slots_disjoint_witness:
  "let b = buffers (mk_BufferPair 4096 128 2048 2 16) ! 1;
       p = unat (dispatch_dst_ptr (rdma_recv_data_buffer b) 3 2 128 1 127 (of_nat (num_bytes_per_msg True 2048)));
       q = unat (dispatch_dst_ptr (rdma_recv_data_buffer b) 4 2 128 0 0 (of_nat (num_bytes_per_msg True 2048)))
   in p + num_bytes_per_msg True 2048 \<le> q \<or> q + num_bytes_per_msg True 2048 \<le> p"
proof -
  have ok: "sizes_ok (unat (4096 :: u64)) 16 128 2048"
    by (simp add: sizes_ok_def sig_nat_def dat_nat_def)
  have b: "buffers (mk_BufferPair 4096 128 2048 2 16) ! 1 \<in>
      set (buffers (mk_BufferPair 4096 (of_nat 128) (of_nat 2048) (of_nat 2) (of_nat 16)))"
    by (simp add: mk_BufferPair_def Let_def)
  show ?thesis
    using dispatch_slots_disjoint [OF ok _ b, of 8 3 1 127 4 0 0 True] by (simp add: Let_def)
qed

text \<open>
  C17. In the combine, the row an expert returns for a token lies inside the data region of the
  token's rank, at a place that depends on the expert and the token only, and its signal word lies inside
  the signal region: rows of different
  experts or tokens never overlap, and neither do the signal words of different experts.
\<close>

theorem combine_slots_disjoint:
  fixes R :: cint
  assumes ok: "sizes_ok (unat base) E M H"
    and b: "b \<in> set (buffers (mk_BufferPair base (of_nat M) (of_nat H) R (of_nat E)))"
    and i: "g < E" "t < M" and j: "g' < E" "t' < M"
  defines "nb \<equiv> num_bytes_per_slot H"
    and "ptr \<equiv> \<lambda>g t. unat (combine_dst_ptr (rdma_recv_data_buffer b) (of_nat g) (of_nat M) (of_nat t)
                       (of_nat (num_bytes_per_slot H)))"
    and "sig \<equiv> \<lambda>g. unat (combine_signal_ptr (rdma_recv_signal_buffer b) (of_nat g))"
  shows "unat (rdma_recv_data_buffer b) \<le> ptr g t \<and>
    ptr g t + nb \<le> unat (rdma_recv_data_buffer b) + dat_nat E M H \<and>
    ((g, t) \<noteq> (g', t') \<longrightarrow> ptr g t + nb \<le> ptr g' t' \<or> ptr g' t' + nb \<le> ptr g t) \<and>
    unat (rdma_recv_signal_buffer b) \<le> sig g \<and>
    sig g + 4 \<le> unat (rdma_recv_signal_buffer b) + sig_nat E \<and>
    (g \<noteq> g' \<longrightarrow> sig g + 4 \<le> sig g' \<or> sig g' + 4 \<le> sig g)"
proof -
  have nb: "nb \<le> 32 + 2 * H" by (simp add: nb_def num_bytes_per_slot_def)
  note top = recv_data_bounds [OF ok b]
  note d = combine_slot [OF ok _ _ nb top(1), folded nb_def]
  note s = combine_signal_slot [OF ok _ top(3)]
  have di: "ptr g t = unat (rdma_recv_data_buffer b) + (g * M + t) * nb"
    and dj: "ptr g' t' = unat (rdma_recv_data_buffer b) + (g' * M + t') * nb"
    using d(1) [OF i] d(1) [OF j] by (simp_all add: ptr_def nb_def)
  have si: "sig g = unat (rdma_recv_signal_buffer b) + g * 4"
    and sj: "sig g' = unat (rdma_recv_signal_buffer b) + g' * 4"
    using s(1) [OF i(1)] s(1) [OF j(1)] by (simp_all add: sig_def)
  have "(g, t) \<noteq> (g', t') \<longrightarrow> g * M + t \<noteq> g' * M + t'"
    using mixed_radix_inj [OF i(2) j(2), of g g'] by simp
  then show ?thesis
    unfolding di dj si sj
    using d(2) [OF i] s(2) [OF i(1)] disjoint_slots [of "g * M + t" "g' * M + t'" _ nb] disjoint_slots [of g g' _ 4] le_add1
    by blast
qed

theorem combine_slots_disjoint_witness:
  "let b = buffers (mk_BufferPair 4096 128 2048 2 16) ! 0;
       p = unat (combine_dst_ptr (rdma_recv_data_buffer b) 15 128 127 (of_nat (num_bytes_per_slot 2048)));
       q = unat (combine_dst_ptr (rdma_recv_data_buffer b) 14 128 127 (of_nat (num_bytes_per_slot 2048)))
   in p + num_bytes_per_slot 2048 \<le> q \<or> q + num_bytes_per_slot 2048 \<le> p"
proof -
  have ok: "sizes_ok (unat (4096 :: u64)) 16 128 2048"
    by (simp add: sizes_ok_def sig_nat_def dat_nat_def)
  have b: "buffers (mk_BufferPair 4096 128 2048 2 16) ! 0 \<in>
      set (buffers (mk_BufferPair 4096 (of_nat 128) (of_nat 2048) 2 (of_nat 16)))"
    by (simp add: mk_BufferPair_def Let_def)
  show ?thesis
    using combine_slots_disjoint [OF ok b, of 15 127 14 127] by (simp add: Let_def)
qed

text \<open>
  The copies of the kernels move 16-byte vectors. When the buffer starts at a multiple of 16 and
  the hidden size is a multiple of 8, every data region starts at a multiple of 16 exactly when the
  number of experts is even: the signal words before the data regions are not padded.
\<close>

theorem data_regions_aligned_iff:
  fixes R :: cint
  assumes ok: "sizes_ok (unat base) E M H" and "16 dvd unat base" and "8 dvd H"
  shows "(\<forall>b\<in>set (buffers (mk_BufferPair base (of_nat M) (of_nat H) R (of_nat E))).
            16 dvd unat (rdma_send_data_buffer b) \<and> 16 dvd unat (rdma_recv_data_buffer b)) \<longleftrightarrow> even E"
proof -
  have lt: "unat base + 4 * sig_nat E + 4 * dat_nat E M H < 2 ^ 64" using ok by (simp add: sizes_ok_def)
  have u: "unat (of_nat n :: u64) = n" if "n \<le> unat base + 4 * sig_nat E + 4 * dat_nat E M H" for n
    using lt that by (intro unat_of_nat_64) linarith
  have "16 dvd 32 + 2 * H" using \<open>8 dvd H\<close> by (auto elim!: dvdE)
  then have D: "16 dvd dat_nat E M H" by (simp add: dat_nat_def)
  have e: "16 dvd unat base + (k * sig_nat E + m * dat_nat E M H) \<longleftrightarrow> 16 dvd k * sig_nat E" for k m
    using D \<open>16 dvd unat base\<close> by (simp add: dvd_add_right_iff dvd_add_left_iff)
  have two: "16 dvd 2 * sig_nat E \<longleftrightarrow> even E" and four: "16 dvd 4 * sig_nat E"
    by (simp_all add: sig_nat_def)
  show ?thesis
    unfolding mk_BufferPair_nat(2) [OF ok]
    using e [of 2 0] e [of 2 1] e [of 4 2] e [of 4 3] two four
    by (simp add: u add.assoc [symmetric] del: of_nat_add of_nat_mult)
qed

theorem data_regions_aligned_iff_witness:
  "\<not> (\<forall>b\<in>set (buffers (mk_BufferPair 4096 128 2048 3 9)).
        16 dvd unat (rdma_send_data_buffer b) \<and> 16 dvd unat (rdma_recv_data_buffer b))"
proof -
  have "sizes_ok (unat (4096 :: u64)) 9 128 2048"
    by (simp add: sizes_ok_def sig_nat_def dat_nat_def)
  from data_regions_aligned_iff [OF this, of 3] show ?thesis by simp
qed

end
