(* ===== verification/Ifc_Layout.thy ===== *)
theory Ifc_Layout
  imports EP_Prelude
begin

text \<open>
  The layout language of the device command interface. The headers \<^verbatim>\<open>mlx5_ifc.h\<close> and
  \<^verbatim>\<open>mlx5_prm.h\<close> describe the commands of the NIC as structures of byte arrays in which every byte
  stands for one bit of the command: \<^verbatim>\<open>u8 log_cq_size[0x5]\<close> is a field of five bits, placed behind
  the fields before it. All members have alignment 1, so the C compiler adds no padding and the
  size of a structure is the sum of its members.
\<close>

section \<open>Layouts, sizes and offsets\<close>

text \<open>
  A member is a bit field, a nested structure or union, or an array of one; a member
  \<^verbatim>\<open>reserved_at_<hex>\<close> carries its offset in its name. A flexible array member has no elements. The members of
  an anonymous union are named as if they were members of the structure around it.
\<close>

datatype fname = Named string | Reserved_at nat | Anonymous

datatype layout =
    Bits nat
  | Struct "(fname \<times> layout) list"
  | Union "(fname \<times> layout) list"
  | Array nat layout

abbreviation u8f :: "string \<Rightarrow> nat \<Rightarrow> fname \<times> layout" where
  "u8f f n \<equiv> (Named f, Bits n)"

abbreviation rsv :: "nat \<Rightarrow> nat \<Rightarrow> fname \<times> layout" where
  "rsv off n \<equiv> (Reserved_at off, Bits n)"

fun size_bits :: "layout \<Rightarrow> nat" and size_fields :: "(fname \<times> layout) list \<Rightarrow> nat"
  and size_max :: "(fname \<times> layout) list \<Rightarrow> nat" where
  "size_bits (Bits n) = n"
| "size_bits (Struct fs) = size_fields fs"
| "size_bits (Union fs) = size_max fs"
| "size_bits (Array n l) = n * size_bits l"
| "size_fields [] = 0"
| "size_fields ((_, l) # fs) = size_bits l + size_fields fs"
| "size_max [] = 0"
| "size_max ((_, l) # fs) = max (size_bits l) (size_max fs)"

text \<open>
  The reserved members of a structure whose name does not state their offset, each with the offset
  it really has.
\<close>

fun misnamed_from :: "nat \<Rightarrow> (fname \<times> layout) list \<Rightarrow> (nat \<times> nat) list" where
  "misnamed_from off [] = []"
| "misnamed_from off ((Named _, l) # fs) = misnamed_from (off + size_bits l) fs"
| "misnamed_from off ((Anonymous, l) # fs) = misnamed_from (off + size_bits l) fs"
| "misnamed_from off ((Reserved_at n, l) # fs) =
     (if n = off then misnamed_from (off + size_bits l) fs
      else (n, off) # misnamed_from (off + size_bits l) fs)"

fun misnamed :: "layout \<Rightarrow> (nat \<times> nat) list" where
  "misnamed (Struct fs) = misnamed_from 0 fs"
| "misnamed _ = []"

text \<open>
  The access macros read and write one 32-bit big-endian word, so a named member of up to 32 bits
  must not cross a word boundary, and a wider one (a 64-bit field, an array or a nested structure)
  must start at one.
\<close>

definition place_ok :: "nat \<Rightarrow> nat \<Rightarrow> bool" where
  "place_ok off n \<longleftrightarrow> (if n \<le> 32 then off mod 32 + n \<le> 32 else off mod 32 = 0)"

fun accessible :: "layout \<Rightarrow> bool" and accessible_from :: "nat \<Rightarrow> (fname \<times> layout) list \<Rightarrow> bool"
  and accessible_alts :: "(fname \<times> layout) list \<Rightarrow> bool" where
  "accessible (Bits n) \<longleftrightarrow> True"
| "accessible (Struct fs) \<longleftrightarrow> accessible_from 0 fs"
| "accessible (Union fs) \<longleftrightarrow> accessible_alts fs"
| "accessible (Array n l) \<longleftrightarrow> True"
| "accessible_from off [] \<longleftrightarrow> True"
| "accessible_from off ((Named _, l) # fs) \<longleftrightarrow>
     place_ok off (size_bits l) \<and> accessible l \<and> accessible_from (off + size_bits l) fs"
| "accessible_from off ((Anonymous, l) # fs) \<longleftrightarrow>
     place_ok off (size_bits l) \<and> accessible l \<and> accessible_from (off + size_bits l) fs"
| "accessible_from off ((Reserved_at _, l) # fs) \<longleftrightarrow> accessible_from (off + size_bits l) fs"
| "accessible_alts [] \<longleftrightarrow> True"
| "accessible_alts ((_, l) # fs) \<longleftrightarrow> accessible l \<and> accessible_alts fs"

lemma size_fields_append [simp]: "size_fields (xs @ ys) = size_fields xs + size_fields ys"
  by (induction xs) auto

lemma accessible_from_append:
  "accessible_from off (xs @ ys) \<longleftrightarrow> accessible_from off xs \<and> accessible_from (off + size_fields xs) ys"
proof (induction xs arbitrary: off)
  case (Cons x xs)
  obtain f l where "x = (f, l)" by (cases x)
  with Cons.IH show ?case by (cases f) (simp_all add: add.assoc)
qed simp

lemma misnamed_from_append:
  "misnamed_from off (xs @ ys) = misnamed_from off xs @ misnamed_from (off + size_fields xs) ys"
  by (induction off xs rule: misnamed_from.induct) (auto simp: add.assoc)

text \<open>Bit offset and width of a member named by its path, as \<^verbatim>\<open>primary_address_path.pkey_index\<close>.\<close>

fun field_at :: "layout \<Rightarrow> string list \<Rightarrow> (nat \<times> nat) option"
  and field_in :: "nat \<Rightarrow> (fname \<times> layout) list \<Rightarrow> string \<Rightarrow> string list \<Rightarrow> (nat \<times> nat) option"
  and field_of :: "(fname \<times> layout) list \<Rightarrow> string \<Rightarrow> string list \<Rightarrow> (nat \<times> nat) option" where
  "field_at l [] = Some (0, size_bits l)"
| "field_at (Struct fs) (f # p) = field_in 0 fs f p"
| "field_at (Union fs) (f # p) = field_of fs f p"
| "field_at _ (f # p) = None"
| "field_in off [] f p = None"
| "field_in off ((Named n, l) # fs) f p =
     (if n = f then map_option (\<lambda>(o', w). (off + o', w)) (field_at l p)
      else field_in (off + size_bits l) fs f p)"
| "field_in off ((Reserved_at n, l) # fs) f p = field_in (off + size_bits l) fs f p"
| "field_in off ((Anonymous, l) # fs) f p =
     (case field_at l (f # p) of
        Some (o', w) \<Rightarrow> Some (off + o', w)
      | None \<Rightarrow> field_in (off + size_bits l) fs f p)"
| "field_of [] f p = None"
| "field_of ((n, l) # fs) f p = (if n = Named f then field_at l p else field_of fs f p)"

text \<open>
  A member found by its path lies inside the structure, whatever the nesting of structures and
  unions.
\<close>

lemma field_in_bounds:
  "(\<forall>off w. field_at l p = Some (off, w) \<longrightarrow> off + w \<le> size_bits l)"
  "(\<forall>off w. field_in a fs f p = Some (off, w) \<longrightarrow> a \<le> off \<and> off + w \<le> a + size_fields fs)"
  "(\<forall>off w. field_of fs f p = Some (off, w) \<longrightarrow> off + w \<le> size_max fs)"
proof (induction l p and a fs f p and fs f p rule: field_at_field_in_field_of.induct)
  case (6 off n l fs f p)
  show ?case
  proof (cases "n = f")
    case True
    then show ?thesis using 6 by (auto split: option.splits)
  next
    case False
    then show ?thesis using 6 by fastforce
  qed
next
  case (7 off n l fs f p)
  then show ?case by fastforce
next
  case (8 off l fs f p)
  then show ?case by (fastforce split: option.splits)
next
  case (10 n l fs f p)
  then show ?case by (auto simp: le_max_iff_disj)
qed auto

lemmas field_at_bounds = field_in_bounds(1) [rule_format]

lemma place_ok_shift:
  assumes "place_ok a s" "place_ok off n" "off + n \<le> s"
  shows "place_ok (a + off) n"
proof (cases "s \<le> 32")
  case True
  then have "n \<le> 32" "a mod 32 + s \<le> 32" using assms by (simp_all add: place_ok_def)
  moreover have "(a + off) mod 32 + n \<le> 32"
  proof (cases "n = 0")
    case True
    have "(a + off) mod 32 < 32" by simp
    with True show ?thesis by simp
  next
    case False
    then have "a mod 32 + off < 32" using \<open>a mod 32 + s \<le> 32\<close> assms(3) by linarith
    then have "(a mod 32 + off) mod 32 = a mod 32 + off" by simp
    then have "(a + off) mod 32 = a mod 32 + off" by (simp add: mod_add_left_eq)
    then show ?thesis using \<open>a mod 32 + s \<le> 32\<close> assms(3) by linarith
  qed
  ultimately show ?thesis by (simp add: place_ok_def)
next
  case False
  then have "a mod 32 = 0" using assms(1) by (simp add: place_ok_def)
  then have "(a + off) mod 32 = off mod 32" by auto
  then show ?thesis using assms(2) by (simp add: place_ok_def)
qed

lemma field_in_place:
  "(\<forall>off w. accessible l \<longrightarrow> field_at l p = Some (off, w) \<longrightarrow> place_ok off w)"
  "(\<forall>off w. accessible_from a fs \<longrightarrow> field_in a fs f p = Some (off, w) \<longrightarrow> place_ok off w)"
  "(\<forall>off w. accessible_alts fs \<longrightarrow> field_of fs f p = Some (off, w) \<longrightarrow> place_ok off w)"
proof (induction l p and a fs f p and fs f p rule: field_at_field_in_field_of.induct)
  case (6 off n l fs f p)
  show ?case
  proof (cases "n = f")
    case True
    show ?thesis
    proof (intro allI impI)
      fix o' w
      assume acc: "accessible_from off ((Named n, l) # fs)" and found: "field_in off ((Named n, l) # fs) f p = Some (o', w)"
      from found True obtain i where i: "field_at l p = Some (i, w)" "o' = off + i" by auto
      have "place_ok off (size_bits l)" "place_ok i w" using acc True 6 i by auto
      then show "place_ok o' w" unfolding i(2) by (rule place_ok_shift) (rule field_at_bounds [OF i(1)])
    qed
  qed (use 6 in auto)
next
  case (8 off l fs f p)
  show ?case
  proof (cases "field_at l (f # p)")
    case (Some iw)
    show ?thesis
    proof (intro allI impI)
      fix o' w
      assume acc: "accessible_from off ((Anonymous, l) # fs)" and found: "field_in off ((Anonymous, l) # fs) f p = Some (o', w)"
      from found Some obtain i where i: "field_at l (f # p) = Some (i, w)" "o' = off + i" by (cases iw) auto
      have "place_ok off (size_bits l)" "place_ok i w" using acc 8 i by auto
      then show "place_ok o' w" unfolding i(2) by (rule place_ok_shift) (rule field_at_bounds [OF i(1)])
    qed
  qed (use 8 in auto)
qed (auto simp: place_ok_def)

lemmas field_at_place = field_in_place(1) [rule_format]

text \<open>
  The check of a list of named layouts: the reserved members whose name does not state their
  offset, with the offset in the name and the real one.
\<close>

definition misnamed_all :: "(string \<times> layout) list \<Rightarrow> (string \<times> nat \<times> nat) list" where
  "misnamed_all ls = concat (map (\<lambda>(f, l). map (Pair f) (misnamed l)) ls)"

named_theorems ifc_size "sizes of the layouts that occur in other layouts"
named_theorems ifc_nested "checks of the layouts that contain other layouts"

section \<open>Access to the fields of a command\<close>

text \<open>
  Commands are byte arrays. The most significant bit of the first byte is bit 0 of the layout.
\<close>

type_synonym cmd = "u8 list"

definition cmd_bit :: "cmd \<Rightarrow> nat \<Rightarrow> bool" where
  "cmd_bit c k \<longleftrightarrow> k < 8 * length c \<and> bit (c ! (k div 8)) (7 - k mod 8)"

definition zero_cmd :: "layout \<Rightarrow> cmd" where
  "zero_cmd l = replicate (size_bits l div 8) 0"

text \<open>
  The access macros come from \<^verbatim>\<open>mlx5dv.h\<close> of rdma-core, which is not part of this repository: they
  are parameters of the model, as functions of a bit offset and a width.
\<close>

record devx =
  dset :: "nat \<Rightarrow> nat \<Rightarrow> u32 \<Rightarrow> cmd \<Rightarrow> cmd"
  dset64 :: "nat \<Rightarrow> u64 \<Rightarrow> cmd \<Rightarrow> cmd"
  dget :: "nat \<Rightarrow> nat \<Rightarrow> cmd \<Rightarrow> u32"

definition DEVX_ADDR_OF :: "layout \<Rightarrow> nat \<Rightarrow> string list \<Rightarrow> nat" where
  "DEVX_ADDR_OF typ p fld = (case field_at typ fld of Some (off, _) \<Rightarrow> p + off | None \<Rightarrow> p)"

definition DEVX_SET :: "devx \<Rightarrow> layout \<Rightarrow> nat \<Rightarrow> string list \<Rightarrow> u32 \<Rightarrow> cmd \<Rightarrow> cmd" where
  "DEVX_SET D typ p fld v c = (case field_at typ fld of Some (off, n) \<Rightarrow> dset D (p + off) n v c | None \<Rightarrow> c)"

definition DEVX_SET64 :: "devx \<Rightarrow> layout \<Rightarrow> nat \<Rightarrow> string list \<Rightarrow> u64 \<Rightarrow> cmd \<Rightarrow> cmd" where
  "DEVX_SET64 D typ p fld v c = (case field_at typ fld of Some (off, _) \<Rightarrow> dset64 D (p + off) v c | None \<Rightarrow> c)"

definition DEVX_GET :: "devx \<Rightarrow> layout \<Rightarrow> nat \<Rightarrow> string list \<Rightarrow> cmd \<Rightarrow> u32" where
  "DEVX_GET D typ p fld c = (case field_at typ fld of Some (off, n) \<Rightarrow> dget D (p + off) n c | None \<Rightarrow> 0)"

text \<open>
  What the code relies on: a field that does not cross a 32-bit word is replaced by the low bits of
  the value, most significant bit first, and nothing else changes; an aligned 64-bit field likewise;
  reading returns the bits of the field.
\<close>

definition in_dword :: "nat \<Rightarrow> nat \<Rightarrow> bool" where
  "in_dword off n \<longleftrightarrow> 0 < n \<and> off mod 32 + n \<le> 32"

text \<open>A command under construction is the zeroed array with a sequence of stores applied to it.\<close>

datatype store = Set32 nat nat u32 | Set64 nat u64

fun apply_store :: "devx \<Rightarrow> store \<Rightarrow> cmd \<Rightarrow> cmd" where
  "apply_store D (Set32 off n v) c = dset D off n v c"
| "apply_store D (Set64 off w) c = dset64 D off w c"

definition stores :: "devx \<Rightarrow> store list \<Rightarrow> cmd \<Rightarrow> cmd" where
  "stores D ss c = fold (apply_store D) ss c"

fun store_range :: "store \<Rightarrow> nat \<times> nat" where
  "store_range (Set32 off n v) = (off, n)"
| "store_range (Set64 off w) = (off, 64)"

fun store_ok :: "nat \<Rightarrow> store \<Rightarrow> bool" where
  "store_ok len (Set32 off n v) \<longleftrightarrow> in_dword off n \<and> off + n \<le> 8 * len"
| "store_ok len (Set64 off w) \<longleftrightarrow> 64 dvd off \<and> off + 64 \<le> 8 * len"

definition apart :: "nat \<times> nat \<Rightarrow> nat \<times> nat \<Rightarrow> bool" where
  "apart r q \<longleftrightarrow> fst r + snd r \<le> fst q \<or> fst q + snd q \<le> fst r"

fun apart_stores :: "store list \<Rightarrow> bool" where
  "apart_stores [] \<longleftrightarrow> True"
| "apart_stores (s # ss) \<longleftrightarrow> list_all (\<lambda>t. apart (store_range s) (store_range t)) ss \<and> apart_stores ss"

lemma apart_sym: "apart r q \<longleftrightarrow> apart q r"
  by (auto simp: apart_def)

lemma apart_stores_append:
  "apart_stores (xs @ ys) \<longleftrightarrow> apart_stores xs \<and> apart_stores ys \<and>
     list_all (\<lambda>s. list_all (\<lambda>t. apart (store_range s) (store_range t)) ys) xs"
  by (induction xs) auto

locale devx_macros =
  fixes D :: devx
  assumes set_bit: "in_dword off n \<Longrightarrow> off + n \<le> 8 * length c \<Longrightarrow>
      cmd_bit (dset D off n v c) k = (if off \<le> k \<and> k < off + n then bit v (off + n - 1 - k) else cmd_bit c k)"
    and set_length: "in_dword off n \<Longrightarrow> off + n \<le> 8 * length c \<Longrightarrow> length (dset D off n v c) = length c"
    and set64_bit: "64 dvd off \<Longrightarrow> off + 64 \<le> 8 * length c \<Longrightarrow>
      cmd_bit (dset64 D off w c) k = (if off \<le> k \<and> k < off + 64 then bit w (off + 63 - k) else cmd_bit c k)"
    and set64_length: "64 dvd off \<Longrightarrow> off + 64 \<le> 8 * length c \<Longrightarrow> length (dset64 D off w c) = length c"
    and get_bit: "in_dword off n \<Longrightarrow> off + n \<le> 8 * length c \<Longrightarrow>
      bit (dget D off n c) j \<longleftrightarrow> j < n \<and> cmd_bit c (off + n - 1 - j)"
begin

lemma get_set_same:
  assumes "in_dword off n" and "off + n \<le> 8 * length c"
  shows "dget D off n (dset D off n v c) = take_bit n v"
proof (rule bit_word_eqI)
  fix j
  show "bit (dget D off n (dset D off n v c)) j \<longleftrightarrow> bit (take_bit n v) j"
    using assms by (auto simp: get_bit set_length set_bit bit_take_bit_iff)
qed

lemma get_set_other:
  assumes "in_dword off n" "off + n \<le> 8 * length c" "in_dword off' n'" "off' + n' \<le> 8 * length c"
    and "off + n \<le> off' \<or> off' + n' \<le> off"
  shows "dget D off n (dset D off' n' v c) = dget D off n c"
proof (rule bit_word_eqI)
  fix j
  show "bit (dget D off n (dset D off' n' v c)) j \<longleftrightarrow> bit (dget D off n c) j"
    using assms by (auto simp: get_bit set_length set_bit)
qed

lemma get_set64_other:
  assumes "in_dword off n" "off + n \<le> 8 * length c" "64 dvd off'" "off' + 64 \<le> 8 * length c"
    and "off + n \<le> off' \<or> off' + 64 \<le> off"
  shows "dget D off n (dset64 D off' w c) = dget D off n c"
proof (rule bit_word_eqI)
  fix j
  show "bit (dget D off n (dset64 D off' w c)) j \<longleftrightarrow> bit (dget D off n c) j"
    using assms by (auto simp: get_bit set64_length set64_bit)
qed

lemma get_set64_halves:
  assumes "64 dvd off" "off + 64 \<le> 8 * length c"
  shows "dget D off 32 (dset64 D off w c) = ucast (drop_bit 32 w)"
    and "dget D (off + 32) 32 (dset64 D off w c) = ucast w"
proof -
  have al: "in_dword off 32" "in_dword (off + 32) 32"
    using assms(1) by (auto simp: in_dword_def elim!: dvdE)
  show "dget D off 32 (dset64 D off w c) = ucast (drop_bit 32 w)"
  proof (rule bit_word_eqI)
    fix j assume "j < LENGTH(32)"
    then show "bit (dget D off 32 (dset64 D off w c)) j \<longleftrightarrow> bit (ucast (drop_bit 32 w) :: u32) j"
      using assms al by (auto simp: get_bit set64_length set64_bit bit_simps)
  qed
  show "dget D (off + 32) 32 (dset64 D off w c) = ucast w"
  proof (rule bit_word_eqI)
    fix j assume "j < LENGTH(32)"
    then show "bit (dget D (off + 32) 32 (dset64 D off w c)) j \<longleftrightarrow> bit (ucast w :: u32) j"
      using assms al by (auto simp: get_bit set64_length set64_bit bit_simps)
  qed
qed

lemma store_length: "store_ok (length c) s \<Longrightarrow> length (apply_store D s c) = length c"
  by (cases s) (auto simp: set_length set64_length)

lemma stores_length: "list_all (store_ok (length c)) ss \<Longrightarrow> length (stores D ss c) = length c"
  by (induction ss arbitrary: c) (auto simp: store_length stores_def)

lemma get_store_apart:
  assumes "in_dword off n" "off + n \<le> 8 * length c" "store_ok (length c) s" "apart (off, n) (store_range s)"
  shows "dget D off n (apply_store D s c) = dget D off n c"
  using assms by (cases s) (auto simp: apart_def intro!: get_set_other get_set64_other)

lemma get_stores_apart:
  assumes "in_dword off n" "off + n \<le> 8 * length c" "list_all (store_ok (length c)) ss"
    and "list_all (\<lambda>s. apart (off, n) (store_range s)) ss"
  shows "dget D off n (stores D ss c) = dget D off n c"
  using assms
proof (induction ss arbitrary: c)
  case (Cons s ss)
  have "length (apply_store D s c) = length c" using Cons.prems by (simp add: store_length)
  then have "dget D off n (stores D ss (apply_store D s c)) = dget D off n (apply_store D s c)"
    using Cons by simp
  also have "\<dots> = dget D off n c" using Cons.prems by (intro get_store_apart) simp_all
  finally show ?case by (simp add: stores_def)
qed (simp add: stores_def)

lemma get_stores:
  assumes ok: "list_all (store_ok (length c)) ss" and d: "apart_stores ss" and s: "Set32 off n v \<in> set ss"
  shows "dget D off n (stores D ss c) = take_bit n v"
proof -
  obtain as bs where ss: "ss = as @ Set32 off n v # bs" using split_list [OF s] by blast
  define c' where "c' = stores D as c"
  have len: "length c' = length c" unfolding c'_def using ok ss by (intro stores_length) simp
  have r: "in_dword off n" "off + n \<le> 8 * length c'" using ok ss len by simp_all
  have "list_all (\<lambda>s. apart (off, n) (store_range s)) bs"
    using d unfolding ss by (simp add: apart_stores_append)
  moreover have "list_all (store_ok (length c')) bs" using ok ss len by simp
  ultimately have "dget D off n (stores D bs (dset D off n v c')) = dget D off n (dset D off n v c')"
    using r by (intro get_stores_apart) (simp_all add: set_length)
  also have "\<dots> = take_bit n v" using r by (rule get_set_same)
  finally show ?thesis by (simp add: ss stores_def c'_def)
qed

lemma get_stores64:
  assumes ok: "list_all (store_ok (length c)) ss" and d: "apart_stores ss" and s: "Set64 off w \<in> set ss"
  shows "dget D off 32 (stores D ss c) = ucast (drop_bit 32 w)"
    and "dget D (off + 32) 32 (stores D ss c) = ucast w"
proof -
  obtain as bs where ss: "ss = as @ Set64 off w # bs" using split_list [OF s] by blast
  define c' where "c' = stores D as c"
  have len: "length c' = length c" unfolding c'_def using ok ss by (intro stores_length) simp
  have r: "64 dvd off" "off + 64 \<le> 8 * length c'" using ok ss len by simp_all
  have al: "in_dword off 32" "in_dword (off + 32) 32"
    using r(1) by (auto simp: in_dword_def elim!: dvdE)
  have "list_all (\<lambda>s. apart (off, 64) (store_range s)) bs"
    using d unfolding ss by (simp add: apart_stores_append)
  then have ap: "list_all (\<lambda>s. apart (off, 32) (store_range s)) bs" "list_all (\<lambda>s. apart (off + 32, 32) (store_range s)) bs"
    by (auto simp: list_all_iff apart_def)
  have okb: "list_all (store_ok (length (dset64 D off w c'))) bs" using ok ss len r by (simp add: set64_length)
  have "dget D off 32 (stores D bs (dset64 D off w c')) = dget D off 32 (dset64 D off w c')"
    using r al okb ap by (intro get_stores_apart) (simp_all add: set64_length)
  then show "dget D off 32 (stores D ss c) = ucast (drop_bit 32 w)"
    using get_set64_halves(1) [OF r] by (simp add: ss stores_def c'_def)
  have "dget D (off + 32) 32 (stores D bs (dset64 D off w c')) = dget D (off + 32) 32 (dset64 D off w c')"
    using r al okb ap by (intro get_stores_apart) (simp_all add: set64_length)
  then show "dget D (off + 32) 32 (stores D ss c) = ucast w"
    using get_set64_halves(2) [OF r] by (simp add: ss stores_def c'_def)
qed

lemma get_zero:
  assumes "in_dword off n" and "off + n \<le> 8 * length c" and "set c \<subseteq> {0}"
  shows "dget D off n c = 0"
proof (rule bit_word_eqI)
  fix j
  have "c ! i = 0" if "i < length c" for i using assms(3) that nth_mem [of i c] by blast
  then have "\<not> cmd_bit c k" for k by (auto simp: cmd_bit_def)
  with assms(1,2) show "bit (dget D off n c) j \<longleftrightarrow> bit 0 j" by (simp add: get_bit)
qed

end

text \<open>
  A byte-level implementation of the macros that meets these laws: the array is rebuilt from its
  bits.
\<close>

definition cmd_of :: "nat \<Rightarrow> (nat \<Rightarrow> bool) \<Rightarrow> cmd" where
  "cmd_of n f = map (\<lambda>i. horner_sum of_bool 2 (map (\<lambda>j. f (8 * i + (7 - j))) [0..<8])) [0..<n]"

lemma cmd_of_length [simp]: "length (cmd_of n f) = n"
  by (simp add: cmd_of_def)

lemma cmd_bit_cmd_of: "cmd_bit (cmd_of n f) k \<longleftrightarrow> k < 8 * n \<and> f k"
proof (cases "k < 8 * n")
  case True
  then have "k div 8 < n" by simp
  moreover have "8 * (k div 8) + (7 - (7 - k mod 8)) = k" by presburger
  moreover have "7 - k mod 8 < 8" by simp
  ultimately show ?thesis using True
    by (simp add: cmd_bit_def cmd_of_def bit_horner_sum_bit_word_iff del: upt.upt_Suc)
qed (simp add: cmd_bit_def)

lemma cmd_bit_range: "cmd_bit c k \<Longrightarrow> k < 8 * length c"
  by (simp add: cmd_bit_def)

definition be_devx :: devx where
  "be_devx = \<lparr>
     dset = \<lambda>off n v c. cmd_of (length c)
       (\<lambda>k. if off \<le> k \<and> k < off + n then bit v (off + n - 1 - k) else cmd_bit c k),
     dset64 = \<lambda>off w c. cmd_of (length c)
       (\<lambda>k. if off \<le> k \<and> k < off + 64 then bit w (off + 63 - k) else cmd_bit c k),
     dget = \<lambda>off n c. horner_sum of_bool 2 (map (\<lambda>j. cmd_bit c (off + n - 1 - j)) [0..<n])\<rparr>"

interpretation be: devx_macros be_devx
proof (unfold_locales, goal_cases)
  case (1 off n c v k)
  then show ?case by (auto simp: be_devx_def cmd_bit_cmd_of dest: cmd_bit_range)
next
  case (3 off c w k)
  then show ?case by (auto simp: be_devx_def cmd_bit_cmd_of dest: cmd_bit_range)
next
  case (5 off n c j)
  then show ?case
    by (auto simp: be_devx_def bit_horner_sum_bit_word_iff in_dword_def)
qed (simp_all add: be_devx_def)

end
