(* ===== verification/Ifc_Caps.thy ===== *)
theory Ifc_Caps
  imports Ifc_Layout
begin

text \<open>
  Layouts of \<^verbatim>\<open>mlx5_ifc.h\<close> for the device capabilities and
  the flow-table commands, in the order of the header.
\<close>

definition mlx5_ifc_atomic_caps_bits :: layout where
  "mlx5_ifc_atomic_caps_bits = Struct [
     rsv 0x0 0x40, u8f ''atomic_req_8B_endianness_mode'' 0x2, rsv 0x42 0x4,
     u8f ''supported_atomic_req_8B_endianness_mode_1'' 0x1, rsv 0x47 0x19, rsv 0x60 0x20,
     rsv 0x80 0x10, u8f ''atomic_operations'' 0x10, rsv 0xa0 0x10, u8f ''atomic_size_qp'' 0x10,
     rsv 0xc0 0x10, u8f ''atomic_size_dc'' 0x10, rsv 0xe0 0x1a0, u8f ''fetch_add_pci_atomic'' 0x10,
     u8f ''swap_pci_atomic'' 0x10, u8f ''compare_swap_pci_atomic'' 0x10, rsv 0x2b0 0x550]"

definition mlx5_ifc_roce_cap_bits :: layout where
  "mlx5_ifc_roce_cap_bits = Struct [
     u8f ''reserved_0'' 0x4, u8f ''sw_r_roce_src_udp_port'' 0x1,
     u8f ''fl_rc_qp_when_roce_disabled'' 0x1, u8f ''fl_rc_qp_when_roce_enabled'' 0x1, rsv 0x7 0x17,
     u8f ''qp_ts_format'' 0x2, rsv 0x20 0x7e0]"

definition mlx5_ifc_flow_table_context_bits :: layout where
  "mlx5_ifc_flow_table_context_bits = Struct [
     u8f ''reformat_en'' 0x1, u8f ''decap_en'' 0x1, u8f ''sw_owner'' 0x1,
     u8f ''termination_table'' 0x1, u8f ''table_miss_action'' 0x4, u8f ''level'' 0x8, rsv 0x10 0x8,
     u8f ''log_size'' 0x8, rsv 0x20 0x8, u8f ''table_miss_id'' 0x18, rsv 0x40 0x8,
     u8f ''lag_master_next_table_id'' 0x18, rsv 0x60 0x60, u8f ''sw_owner_icm_root_1'' 0x40,
     u8f ''sw_owner_icm_root_0'' 0x40]"

definition mlx5_ifc_create_flow_table_in_bits :: layout where
  "mlx5_ifc_create_flow_table_in_bits = Struct [
     u8f ''opcode'' 0x10, u8f ''uid'' 0x10, rsv 0x20 0x10, u8f ''op_mod'' 0x10,
     u8f ''other_vport'' 0x1, rsv 0x41 0xf, u8f ''vport_number'' 0x10, rsv 0x60 0x20,
     u8f ''table_type'' 0x8, rsv 0x88 0x18, rsv 0xa0 0x20,
     (Named ''flow_table_context'', mlx5_ifc_flow_table_context_bits)]"

definition mlx5_ifc_create_flow_table_out_bits :: layout where
  "mlx5_ifc_create_flow_table_out_bits = Struct [
     u8f ''status'' 0x8, u8f ''icm_address_63_40'' 0x18, u8f ''syndrome'' 0x20,
     u8f ''icm_address_39_32'' 0x8, u8f ''table_id'' 0x18, u8f ''icm_address_31_0'' 0x20]"

definition mlx5_ifc_destroy_flow_table_in_bits :: layout where
  "mlx5_ifc_destroy_flow_table_in_bits = Struct [
     u8f ''opcode'' 0x10, rsv 0x10 0x10, rsv 0x20 0x20, u8f ''other_vport'' 0x1, rsv 0x41 0xf,
     u8f ''vport_number'' 0x10, rsv 0x60 0x20, u8f ''table_type'' 0x8, rsv 0x88 0x18, rsv 0xa0 0x8,
     u8f ''table_id'' 0x18, rsv 0xc0 0x140]"

definition mlx5_ifc_query_flow_table_in_bits :: layout where
  "mlx5_ifc_query_flow_table_in_bits = Struct [
     u8f ''opcode'' 0x10, rsv 0x10 0x10, rsv 0x20 0x10, u8f ''op_mod'' 0x10, rsv 0x40 0x40,
     u8f ''table_type'' 0x8, rsv 0x88 0x18, rsv 0xa0 0x8, u8f ''table_id'' 0x18, rsv 0xc0 0x140]"

definition mlx5_ifc_query_flow_table_out_bits :: layout where
  "mlx5_ifc_query_flow_table_out_bits = Struct [
     u8f ''status'' 0x8, rsv 0x8 0x18, u8f ''syndrome'' 0x20, rsv 0x40 0x80,
     (Named ''flow_table_context'', mlx5_ifc_flow_table_context_bits)]"

definition mlx5_ifc_sync_steering_in_bits :: layout where
  "mlx5_ifc_sync_steering_in_bits = Struct [
     u8f ''opcode'' 0x10, u8f ''uid'' 0x10, rsv 0x20 0x10, u8f ''op_mod'' 0x10, rsv 0x40 0xc0]"

definition mlx5_ifc_sync_steering_out_bits :: layout where
  "mlx5_ifc_sync_steering_out_bits = Struct [
     u8f ''status'' 0x8, rsv 0x8 0x18, u8f ''syndrome'' 0x20, rsv 0x40 0x40]"

definition mlx5_ifc_device_mem_cap_bits :: layout where
  "mlx5_ifc_device_mem_cap_bits = Struct [
     u8f ''memic'' 0x1, rsv 0x1 0x1f, rsv 0x20 0xb, u8f ''log_min_memic_alloc_size'' 0x5,
     rsv 0x30 0x8, u8f ''log_max_memic_addr_alignment'' 0x8, u8f ''memic_bar_start_addr'' 0x40,
     u8f ''memic_bar_size'' 0x20, u8f ''max_memic_size'' 0x20,
     u8f ''steering_sw_icm_start_address'' 0x40, rsv 0x100 0x8,
     u8f ''log_header_modify_sw_icm_size'' 0x8, rsv 0x110 0x2,
     u8f ''log_sw_icm_alloc_granularity'' 0x6, u8f ''log_steering_sw_icm_size'' 0x8,
     rsv 0x120 0x20, u8f ''header_modify_sw_icm_start_address'' 0x40]"

definition mlx5_ifc_flow_table_fields_supported_bits :: layout where
  "mlx5_ifc_flow_table_fields_supported_bits = Struct [
     u8f ''outer_dmac'' 0x1, u8f ''outer_smac'' 0x1, u8f ''outer_ether_type'' 0x1,
     u8f ''outer_ip_version'' 0x1, u8f ''outer_first_prio'' 0x1, u8f ''outer_first_cfi'' 0x1,
     u8f ''outer_first_vid'' 0x1, u8f ''outer_ipv4_ttl'' 0x1, u8f ''outer_second_prio'' 0x1,
     u8f ''outer_second_cfi'' 0x1, u8f ''outer_second_vid'' 0x1, u8f ''outer_ipv6_flow_label'' 0x1,
     u8f ''outer_sip'' 0x1, u8f ''outer_dip'' 0x1, u8f ''outer_frag'' 0x1,
     u8f ''outer_ip_protocol'' 0x1, u8f ''outer_ip_ecn'' 0x1, u8f ''outer_ip_dscp'' 0x1,
     u8f ''outer_udp_sport'' 0x1, u8f ''outer_udp_dport'' 0x1, u8f ''outer_tcp_sport'' 0x1,
     u8f ''outer_tcp_dport'' 0x1, u8f ''outer_tcp_flags'' 0x1, u8f ''outer_gre_protocol'' 0x1,
     u8f ''outer_gre_key'' 0x1, u8f ''outer_vxlan_vni'' 0x1, u8f ''outer_geneve_vni'' 0x1,
     u8f ''outer_geneve_oam'' 0x1, u8f ''outer_geneve_protocol_type'' 0x1,
     u8f ''outer_geneve_opt_len'' 0x1, u8f ''source_vhca_port'' 0x1,
     u8f ''source_eswitch_port'' 0x1, u8f ''inner_dmac'' 0x1, u8f ''inner_smac'' 0x1,
     u8f ''inner_ether_type'' 0x1, u8f ''inner_ip_version'' 0x1, u8f ''inner_first_prio'' 0x1,
     u8f ''inner_first_cfi'' 0x1, u8f ''inner_first_vid'' 0x1, u8f ''inner_ipv4_ttl'' 0x1,
     u8f ''inner_second_prio'' 0x1, u8f ''inner_second_cfi'' 0x1, u8f ''inner_second_vid'' 0x1,
     u8f ''inner_ipv6_flow_label'' 0x1, u8f ''inner_sip'' 0x1, u8f ''inner_dip'' 0x1,
     u8f ''inner_frag'' 0x1, u8f ''inner_ip_protocol'' 0x1, u8f ''inner_ip_ecn'' 0x1,
     u8f ''inner_ip_dscp'' 0x1, u8f ''inner_udp_sport'' 0x1, u8f ''inner_udp_dport'' 0x1,
     u8f ''inner_tcp_sport'' 0x1, u8f ''inner_tcp_dport'' 0x1, u8f ''inner_tcp_flags'' 0x1,
     rsv 0x37 0x7, u8f ''metadata_reg_b'' 0x1, u8f ''metadata_reg_a'' 0x1, rsv 0x40 0x5,
     u8f ''outer_first_mpls_over_udp_ttl'' 0x1, u8f ''outer_first_mpls_over_udp_s_bos'' 0x1,
     u8f ''outer_first_mpls_over_udp_exp'' 0x1, u8f ''outer_first_mpls_over_udp_label'' 0x1,
     u8f ''outer_first_mpls_over_gre_ttl'' 0x1, u8f ''outer_first_mpls_over_gre_s_bos'' 0x1,
     u8f ''outer_first_mpls_over_gre_exp'' 0x1, u8f ''outer_first_mpls_over_gre_label'' 0x1,
     u8f ''inner_first_mpls_ttl'' 0x1, u8f ''inner_first_mpls_s_bos'' 0x1,
     u8f ''inner_first_mpls_exp'' 0x1, u8f ''inner_first_mpls_label'' 0x1,
     u8f ''outer_first_mpls_ttl'' 0x1, u8f ''outer_first_mpls_s_bos'' 0x1,
     u8f ''outer_first_mpls_exp'' 0x1, u8f ''outer_first_mpls_label'' 0x1,
     u8f ''outer_emd_tag'' 0x1, u8f ''inner_esp_spi'' 0x1, u8f ''outer_esp_spi'' 0x1,
     u8f ''inner_ipv6_hop_limit'' 0x1, u8f ''outer_ipv6_hop_limit'' 0x1, u8f ''bth_dst_qp'' 0x1,
     u8f ''inner_first_svlan'' 0x1, u8f ''inner_second_svlan'' 0x1, u8f ''outer_first_svlan'' 0x1,
     u8f ''outer_second_svlan'' 0x1, u8f ''source_sqn'' 0x1, rsv 0x60 0x20]"

definition mlx5_ifc_dr_match_spec_bits :: layout where
  "mlx5_ifc_dr_match_spec_bits = Struct [
     u8f ''smac_47_16'' 0x20, u8f ''smac_15_0'' 0x10, u8f ''ethertype'' 0x10,
     u8f ''dmac_47_16'' 0x20, u8f ''dmac_15_0'' 0x10, u8f ''first_prio'' 0x3,
     u8f ''first_cfi'' 0x1, u8f ''first_vid'' 0xc, u8f ''ip_protocol'' 0x8, u8f ''ip_dscp'' 0x6,
     u8f ''ip_ecn'' 0x2, u8f ''cvlan_tag'' 0x1, u8f ''svlan_tag'' 0x1, u8f ''frag'' 0x1,
     u8f ''ip_version'' 0x4, u8f ''tcp_flags'' 0x9, u8f ''tcp_sport'' 0x10, u8f ''tcp_dport'' 0x10,
     rsv 0xc0 0x10, u8f ''ipv4_ihl'' 0x4, u8f ''l3_ok'' 0x1, u8f ''l4_ok'' 0x1,
     u8f ''ipv4_checksum_ok'' 0x1, u8f ''l4_checksum_ok'' 0x1, u8f ''ip_ttl_hoplimit'' 0x8,
     u8f ''udp_sport'' 0x10, u8f ''udp_dport'' 0x10, u8f ''src_ip_127_96'' 0x20,
     u8f ''src_ip_95_64'' 0x20, u8f ''src_ip_63_32'' 0x20, u8f ''src_ip_31_0'' 0x20,
     u8f ''dst_ip_127_96'' 0x20, u8f ''dst_ip_95_64'' 0x20, u8f ''dst_ip_63_32'' 0x20,
     u8f ''dst_ip_31_0'' 0x20]"

definition mlx5_ifc_dr_match_set_misc_bits :: layout where
  "mlx5_ifc_dr_match_set_misc_bits = Struct [
     u8f ''gre_c_present'' 0x1, u8f ''reserved_auto1'' 0x1, u8f ''gre_k_present'' 0x1,
     u8f ''gre_s_present'' 0x1, u8f ''source_vhca_port'' 0x4, u8f ''source_sqn'' 0x18,
     u8f ''source_eswitch_owner_vhca_id'' 0x10, u8f ''source_port'' 0x10,
     u8f ''outer_second_prio'' 0x3, u8f ''outer_second_cfi'' 0x1, u8f ''outer_second_vid'' 0xc,
     u8f ''inner_second_prio'' 0x3, u8f ''inner_second_cfi'' 0x1, u8f ''inner_second_vid'' 0xc,
     u8f ''outer_second_cvlan_tag'' 0x1, u8f ''inner_second_cvlan_tag'' 0x1,
     u8f ''outer_second_svlan_tag'' 0x1, u8f ''inner_second_svlan_tag'' 0x1,
     u8f ''outer_emd_tag'' 0x1, rsv 0x65 0xb, u8f ''gre_protocol'' 0x10, u8f ''gre_key_h'' 0x18,
     u8f ''gre_key_l'' 0x8, u8f ''vxlan_vni'' 0x18, rsv 0xb8 0x8, u8f ''geneve_vni'' 0x18,
     rsv 0xe4 0x7, u8f ''geneve_oam'' 0x1, rsv 0xec 0xc, u8f ''outer_ipv6_flow_label'' 0x14,
     rsv 0x100 0xc, u8f ''inner_ipv6_flow_label'' 0x14, rsv 0x120 0xa, u8f ''geneve_opt_len'' 0x6,
     u8f ''geneve_protocol_type'' 0x10, rsv 0x140 0x8, u8f ''bth_dst_qp'' 0x18,
     u8f ''inner_esp_spi'' 0x20, u8f ''outer_esp_spi'' 0x20, rsv 0x1a0 0x60]"

definition mlx5_ifc_dr_match_set_misc2_bits :: layout where
  "mlx5_ifc_dr_match_set_misc2_bits = Struct [
     u8f ''outer_first_mpls_label'' 0x14, u8f ''outer_first_mpls_exp'' 0x3,
     u8f ''outer_first_mpls_s_bos'' 0x1, u8f ''outer_first_mpls_ttl'' 0x8,
     u8f ''inner_first_mpls_label'' 0x14, u8f ''inner_first_mpls_exp'' 0x3,
     u8f ''inner_first_mpls_s_bos'' 0x1, u8f ''inner_first_mpls_ttl'' 0x8,
     u8f ''outer_first_mpls_over_gre_label'' 0x14, u8f ''outer_first_mpls_over_gre_exp'' 0x3,
     u8f ''outer_first_mpls_over_gre_s_bos'' 0x1, u8f ''outer_first_mpls_over_gre_ttl'' 0x8,
     u8f ''outer_first_mpls_over_udp_label'' 0x14, u8f ''outer_first_mpls_over_udp_exp'' 0x3,
     u8f ''outer_first_mpls_over_udp_s_bos'' 0x1, u8f ''outer_first_mpls_over_udp_ttl'' 0x8,
     u8f ''metadata_reg_c_7'' 0x20, u8f ''metadata_reg_c_6'' 0x20, u8f ''metadata_reg_c_5'' 0x20,
     u8f ''metadata_reg_c_4'' 0x20, u8f ''metadata_reg_c_3'' 0x20, u8f ''metadata_reg_c_2'' 0x20,
     u8f ''metadata_reg_c_1'' 0x20, u8f ''metadata_reg_c_0'' 0x20, u8f ''metadata_reg_a'' 0x20,
     u8f ''metadata_reg_b'' 0x20, rsv 0x260 0x40]"

definition mlx5_ifc_dr_match_set_misc3_bits :: layout where
  "mlx5_ifc_dr_match_set_misc3_bits = Struct [
     u8f ''inner_tcp_seq_num'' 0x20, u8f ''outer_tcp_seq_num'' 0x20,
     u8f ''inner_tcp_ack_num'' 0x20, u8f ''outer_tcp_ack_num'' 0x20, rsv 0x80 0x8,
     u8f ''outer_vxlan_gpe_vni'' 0x18, u8f ''outer_vxlan_gpe_next_protocol'' 0x8,
     u8f ''outer_vxlan_gpe_flags'' 0x8, rsv 0xb0 0x10, u8f ''icmp_header_data'' 0x20,
     u8f ''icmpv6_header_data'' 0x20, u8f ''icmp_type'' 0x8, u8f ''icmp_code'' 0x8,
     u8f ''icmpv6_type'' 0x8, u8f ''icmpv6_code'' 0x8, u8f ''geneve_tlv_option_0_data'' 0x20,
     u8f ''gtpu_teid'' 0x20, u8f ''gtpu_msg_type'' 0x8, u8f ''gtpu_msg_flags'' 0x8, rsv 0x150 0x10,
     u8f ''gtpu_dw_2'' 0x20, u8f ''gtpu_first_ext_dw_0'' 0x20, u8f ''gtpu_dw_0'' 0x20,
     rsv 0x1c0 0x20]"

definition mlx5_ifc_dr_match_set_misc4_bits :: layout where
  "mlx5_ifc_dr_match_set_misc4_bits = Struct [
     u8f ''prog_sample_field_value_0'' 0x20, u8f ''prog_sample_field_id_0'' 0x20,
     u8f ''prog_sample_field_value_1'' 0x20, u8f ''prog_sample_field_id_1'' 0x20,
     u8f ''prog_sample_field_value_2'' 0x20, u8f ''prog_sample_field_id_2'' 0x20,
     u8f ''prog_sample_field_value_3'' 0x20, u8f ''prog_sample_field_id_3'' 0x20,
     u8f ''prog_sample_field_value_4'' 0x20, u8f ''prog_sample_field_id_4'' 0x20,
     u8f ''prog_sample_field_value_5'' 0x20, u8f ''prog_sample_field_id_5'' 0x20,
     u8f ''prog_sample_field_value_6'' 0x20, u8f ''prog_sample_field_id_6'' 0x20,
     u8f ''prog_sample_field_value_7'' 0x20, u8f ''prog_sample_field_id_7'' 0x20]"

definition mlx5_ifc_dr_match_set_misc5_bits :: layout where
  "mlx5_ifc_dr_match_set_misc5_bits = Struct [
     u8f ''macsec_tag_0'' 0x20, u8f ''macsec_tag_1'' 0x20, u8f ''macsec_tag_2'' 0x20,
     u8f ''macsec_tag_3'' 0x20, u8f ''tunnel_header_0'' 0x20, u8f ''tunnel_header_1'' 0x20,
     u8f ''tunnel_header_2'' 0x20, u8f ''tunnel_header_3'' 0x20, u8f ''reserved'' 0x100]"

definition mlx5_ifc_dr_match_param_bits :: layout where
  "mlx5_ifc_dr_match_param_bits = Struct [
     (Named ''outer'', mlx5_ifc_dr_match_spec_bits),
     (Named ''misc'', mlx5_ifc_dr_match_set_misc_bits),
     (Named ''inner'', mlx5_ifc_dr_match_spec_bits),
     (Named ''misc2'', mlx5_ifc_dr_match_set_misc2_bits),
     (Named ''misc3'', mlx5_ifc_dr_match_set_misc3_bits),
     (Named ''misc4'', mlx5_ifc_dr_match_set_misc4_bits),
     (Named ''misc5'', mlx5_ifc_dr_match_set_misc5_bits)]"

definition mlx5_ifc_flow_table_prop_layout_bits :: layout where
  "mlx5_ifc_flow_table_prop_layout_bits = Struct [
     u8f ''ft_support'' 0x1, u8f ''flow_tag'' 0x1, u8f ''flow_counter'' 0x1,
     u8f ''flow_modify_en'' 0x1, u8f ''modify_root'' 0x1, u8f ''identified_miss_table'' 0x1,
     u8f ''flow_table_modify'' 0x1, u8f ''reformat'' 0x1, u8f ''decap'' 0x1,
     u8f ''reset_root_to_default'' 0x1, u8f ''pop_vlan'' 0x1, u8f ''push_vlan'' 0x1,
     u8f ''fpga_vendor_acceleration'' 0x1, u8f ''pop_vlan_2'' 0x1, u8f ''push_vlan_2'' 0x1,
     u8f ''reformat_and_vlan_action'' 0x1, u8f ''modify_and_vlan_action'' 0x1,
     u8f ''sw_owner'' 0x1, u8f ''reformat_l3_tunnel_to_l2'' 0x1,
     u8f ''reformat_l2_to_l3_tunnel'' 0x1, u8f ''reformat_and_modify_action'' 0x1, rsv 0x15 0x9,
     u8f ''sw_owner_v2'' 0x1, rsv 0x1f 0x1, rsv 0x20 0x2, u8f ''log_max_ft_size'' 0x6,
     u8f ''log_max_modify_header_context'' 0x8, u8f ''max_modify_header_actions'' 0x8,
     u8f ''max_ft_level'' 0x8, rsv 0x40 0x10, u8f ''metadata_reg_b_width'' 0x8,
     u8f ''metadata_reg_a_width'' 0x8, rsv 0x60 0x18, u8f ''log_max_ft_num'' 0x8, rsv 0x80 0x10,
     u8f ''log_max_flow_counter'' 0x8, u8f ''log_max_destination'' 0x8, rsv 0xa0 0x18,
     u8f ''log_max_flow'' 0x8, rsv 0xc0 0x40,
     (Named ''ft_field_support'', mlx5_ifc_flow_table_fields_supported_bits),
     (Named ''ft_field_bitmask_support'', mlx5_ifc_flow_table_fields_supported_bits)]"

definition cmd_hca_cap_fields_1 :: "(fname \<times> layout) list" where
  "cmd_hca_cap_fields_1 = [
     u8f ''access_other_hca_roce'' 0x1, rsv 0x1 0x1e, u8f ''vhca_resource_manager'' 0x1,
     u8f ''hca_cap_2'' 0x1, rsv 0x21 0xf, u8f ''vhca_id'' 0x10, rsv 0x40 0x20, rsv 0x60 0x2,
     u8f ''qp_data_in_order'' 0x1, rsv 0x63 0x8, u8f ''log_dma_mmo_max_size'' 0x5, rsv 0x70 0x10,
     u8f ''log_max_srq_sz'' 0x8, u8f ''log_max_qp_sz'' 0x8, rsv 0x90 0x3,
     u8f ''isolate_vl_tc_new'' 0x1, rsv 0x94 0x4, u8f ''prio_tag_required'' 0x1, rsv 0x99 0x2,
     u8f ''log_max_qp'' 0x5, rsv 0xa0 0xb, u8f ''log_max_srq'' 0x5, rsv 0xb0 0x10, rsv 0xc0 0x8,
     u8f ''log_max_cq_sz'' 0x8, rsv 0xd0 0xb, u8f ''log_max_cq'' 0x5, u8f ''log_max_eq_sz'' 0x8,
     u8f ''relaxed_ordering_write'' 0x1, rsv 0xe9 0x1, u8f ''log_max_mkey'' 0x6,
     u8f ''tunneled_atomic'' 0x1, u8f ''as_notify'' 0x1, u8f ''m_pci_port'' 0x1,
     u8f ''m_vhca_mk'' 0x1, u8f ''cmd_on_behalf'' 0x1, u8f ''device_emulation_manager'' 0x1,
     u8f ''terminate_scatter_list_mkey'' 0x1, u8f ''repeated_mkey'' 0x1,
     u8f ''dump_fill_mkey'' 0x1, rsv 0xf9 0x3, u8f ''log_max_eq'' 0x4, u8f ''max_indirection'' 0x8,
     u8f ''fixed_buffer_size'' 0x1, u8f ''log_max_mrw_sz'' 0x7, u8f ''force_teardown'' 0x1,
     u8f ''fast_teardown'' 0x1, u8f ''log_max_bsf_list_size'' 0x6,
     u8f ''umr_extended_translation_offset'' 0x1, u8f ''null_mkey'' 0x1,
     u8f ''log_max_klm_list_size'' 0x6, rsv 0x120 0x2, u8f ''qpc_extension'' 0x1, rsv 0x123 0x7,
     u8f ''log_max_ra_req_dc'' 0x6, rsv 0x130 0xa, u8f ''log_max_ra_res_dc'' 0x6, rsv 0x140 0x7,
     u8f ''sig_crc64_xp10'' 0x1, u8f ''sig_crc32c'' 0x1, rsv 0x149 0x1,
     u8f ''log_max_ra_req_qp'' 0x6, rsv 0x150 0x1, u8f ''rts2rts_qp_udp_sport'' 0x1,
     u8f ''rts2rts_lag_tx_port_affinity'' 0x1, u8f ''dma_mmo_sq'' 0x1, rsv 0x154 0x6,
     u8f ''log_max_ra_res_qp'' 0x6, u8f ''end_pad'' 0x1, u8f ''cc_query_allowed'' 0x1,
     u8f ''cc_modify_allowed'' 0x1, u8f ''start_pad'' 0x1, u8f ''cache_line_128byte'' 0x1,
     u8f ''gid_table_size_ro'' 0x1, u8f ''pkey_table_size_ro'' 0x1, rsv 0x167 0x1,
     u8f ''rnr_nak_q_counters'' 0x1, u8f ''rts2rts_qp_counters_set_id'' 0x1,
     u8f ''rts2rts_qp_dscp'' 0x1, rsv 0x16b 0x4, u8f ''qcam_reg'' 0x1, u8f ''gid_table_size'' 0x10,
     u8f ''out_of_seq_cnt'' 0x1, u8f ''vport_counters'' 0x1, u8f ''retransmission_q_counters'' 0x1,
     u8f ''debug'' 0x1, u8f ''modify_rq_counters_set_id'' 0x1, u8f ''rq_delay_drop'' 0x1,
     u8f ''max_qp_cnt'' 0xa, u8f ''pkey_table_size'' 0x10, u8f ''vport_group_manager'' 0x1,
     u8f ''vhca_group_manager'' 0x1, u8f ''ib_virt'' 0x1, u8f ''eth_virt'' 0x1,
     u8f ''vnic_env_queue_counters'' 0x1, u8f ''ets'' 0x1, u8f ''nic_flow_table'' 0x1,
     u8f ''eswitch_manager'' 0x1, u8f ''device_memory'' 0x1, u8f ''mcam_reg'' 0x1,
     u8f ''pcam_reg'' 0x1, u8f ''local_ca_ack_delay'' 0x5, u8f ''port_module_event'' 0x1,
     u8f ''enhanced_retransmission_q_counters'' 0x1, u8f ''port_checks'' 0x1,
     u8f ''pulse_gen_control'' 0x1, u8f ''disable_link_up_by_init_hca'' 0x1,
     u8f ''beacon_led'' 0x1, u8f ''port_type'' 0x2, u8f ''num_ports'' 0x8, rsv 0x1c0 0x1,
     u8f ''pps'' 0x1, u8f ''pps_modify'' 0x1, u8f ''log_max_msg'' 0x5,
     u8f ''multi_path_xrc_rdma'' 0x1, u8f ''multi_path_dc_rdma'' 0x1,
     u8f ''multi_path_rc_rdma'' 0x1, u8f ''traffic_fast_control'' 0x1, u8f ''max_tc'' 0x4,
     u8f ''temp_warn_event'' 0x1, u8f ''dcbx'' 0x1, u8f ''general_notification_event'' 0x1,
     u8f ''multi_prio_sq'' 0x1, u8f ''afu_owner'' 0x1, u8f ''fpga'' 0x1, u8f ''rol_s'' 0x1,
     u8f ''rol_g'' 0x1, u8f ''ib_port_sniffer'' 0x1, u8f ''wol_s'' 0x1, u8f ''wol_g'' 0x1,
     u8f ''wol_a'' 0x1, u8f ''wol_b'' 0x1, u8f ''wol_m'' 0x1, u8f ''wol_u'' 0x1]"

definition cmd_hca_cap_fields_2 :: "(fname \<times> layout) list" where
  "cmd_hca_cap_fields_2 = [
     u8f ''wol_p'' 0x1, u8f ''stat_rate_support'' 0x10, u8f ''sig_block_4048'' 0x1, rsv 0x1f1 0xb,
     u8f ''cqe_version'' 0x4, u8f ''compact_address_vector'' 0x1, u8f ''eth_striding_wq'' 0x1,
     rsv 0x202 0x1, u8f ''ipoib_enhanced_offloads'' 0x1, u8f ''ipoib_basic_offloads'' 0x1,
     u8f ''ib_striding_wq'' 0x1, u8f ''repeated_block_disabled'' 0x1,
     u8f ''umr_modify_entity_size_disabled'' 0x1, u8f ''umr_modify_atomic_disabled'' 0x1,
     u8f ''umr_indirect_mkey_disabled'' 0x1, u8f ''umr_fence'' 0x2,
     u8f ''dc_req_sctr_data_cqe'' 0x1, u8f ''dc_connect_qp'' 0x1, u8f ''dc_cnak_trace'' 0x1,
     u8f ''drain_sigerr'' 0x1, u8f ''cmdif_checksum'' 0x2, u8f ''sigerr_cqe'' 0x1, rsv 0x213 0x1,
     u8f ''wq_signature'' 0x1, u8f ''sctr_data_cqe'' 0x1, rsv 0x216 0x1, u8f ''sho'' 0x1,
     u8f ''tph'' 0x1, u8f ''rf'' 0x1, u8f ''dct'' 0x1, u8f ''qos'' 0x1,
     u8f ''eth_net_offloads'' 0x1, u8f ''roce'' 0x1, u8f ''atomic'' 0x1,
     u8f ''extended_retry_count'' 0x1, u8f ''cq_oi'' 0x1, u8f ''cq_resize'' 0x1,
     u8f ''cq_moderation'' 0x1, u8f ''cq_period_mode_modify'' 0x1, u8f ''cq_invalidate'' 0x1,
     rsv 0x225 0x1, u8f ''cq_eq_remap'' 0x1, u8f ''pg'' 0x1, u8f ''block_lb_mc'' 0x1,
     u8f ''exponential_backoff'' 0x1, u8f ''scqe_break_moderation'' 0x1,
     u8f ''cq_period_start_from_cqe'' 0x1, u8f ''cd'' 0x1, u8f ''atm'' 0x1, u8f ''apm'' 0x1,
     u8f ''vector_calc'' 0x1, u8f ''umr_ptr_rlkey'' 0x1, u8f ''imaicl'' 0x1,
     u8f ''qp_packet_based'' 0x1, rsv 0x233 0x1, u8f ''ipoib_enhanced_pkey_change'' 0x1,
     u8f ''initiator_src_dct_in_cqe'' 0x1, u8f ''qkv'' 0x1, u8f ''pkv'' 0x1,
     u8f ''set_deth_sqpn'' 0x1, u8f ''rts2rts_primary_sl'' 0x1, u8f ''initiator_src_dct'' 0x1,
     u8f ''dc_v2'' 0x1, u8f ''xrc'' 0x1, u8f ''ud'' 0x1, u8f ''uc'' 0x1, u8f ''rc'' 0x1,
     u8f ''uar_4k'' 0x1, rsv 0x241 0x9, u8f ''uar_sz'' 0x6, rsv 0x250 0x2, u8f ''umem_uid_0'' 0x1,
     u8f ''log_max_dc_cnak_qps'' 0x5, u8f ''log_pg_sz'' 0x8, u8f ''bf'' 0x1,
     u8f ''driver_version'' 0x1, u8f ''pad_tx_eth_packet'' 0x1, u8f ''query_driver_version'' 0x1,
     u8f ''max_qp_retry_freq'' 0x1, u8f ''qp_by_name'' 0x1, u8f ''mkey_by_name'' 0x1,
     rsv 0x267 0x1, u8f ''suspend_qp_uc'' 0x1, u8f ''suspend_qp_ud'' 0x1,
     u8f ''suspend_qp_rc'' 0x1, u8f ''log_bf_reg_size'' 0x5, rsv 0x270 0x6, u8f ''lag_dct'' 0x2,
     u8f ''lag_tx_port_affinity'' 0x1, rsv 0x279 0x2, u8f ''lag_master'' 0x1,
     u8f ''num_lag_ports'' 0x4, u8f ''num_of_diagnostic_counters'' 0x10,
     u8f ''max_wqe_sz_sq'' 0x10, rsv 0x2a0 0x10, u8f ''max_wqe_sz_rq'' 0x10,
     u8f ''max_flow_counter_31_16'' 0x10, u8f ''max_wqe_sz_sq_dc'' 0x10, rsv 0x2e0 0x7,
     u8f ''max_qp_mcg'' 0x19, u8f ''mlnx_tag_ethertype'' 0x10, rsv 0x310 0x8,
     u8f ''log_max_mcg'' 0x8, rsv 0x320 0x3, u8f ''log_max_transport_domain'' 0x5, rsv 0x328 0x3,
     u8f ''log_max_pd'' 0x5, rsv 0x330 0xb, u8f ''log_max_xrcd'' 0x5,
     u8f ''nic_receive_steering_discard'' 0x1, u8f ''receive_discard_vport_down'' 0x1,
     u8f ''transmit_discard_vport_down'' 0x1, u8f ''eq_overrun_count'' 0x1,
     u8f ''nic_receive_steering_depth'' 0x1, u8f ''invalid_command_count'' 0x1,
     u8f ''quota_exceeded_count'' 0x1, rsv 0x347 0x1, u8f ''log_max_flow_counter_bulk'' 0x8,
     u8f ''max_flow_counter_15_0'' 0x10, u8f ''modify_tis'' 0x1, rsv 0x361 0x2,
     u8f ''log_max_rq'' 0x5, rsv 0x368 0x3, u8f ''log_max_sq'' 0x5, rsv 0x370 0x3,
     u8f ''log_max_tir'' 0x5, rsv 0x378 0x3, u8f ''log_max_tis'' 0x5,
     u8f ''basic_cyclic_rcv_wqe'' 0x1, rsv 0x381 0x2, u8f ''log_max_rmp'' 0x5, rsv 0x388 0x3,
     u8f ''log_max_rqt'' 0x5, rsv 0x390 0x3, u8f ''log_max_rqt_size'' 0x5]"

definition cmd_hca_cap_fields_3 :: "(fname \<times> layout) list" where
  "cmd_hca_cap_fields_3 = [
     rsv 0x398 0x3, u8f ''log_max_tis_per_sq'' 0x5, u8f ''ext_stride_num_range'' 0x1,
     rsv 0x3a1 0x2, u8f ''log_max_stride_sz_rq'' 0x5, rsv 0x3a8 0x3,
     u8f ''log_min_stride_sz_rq'' 0x5, rsv 0x3b0 0x3, u8f ''log_max_stride_sz_sq'' 0x5,
     rsv 0x3b8 0x3, u8f ''log_min_stride_sz_sq'' 0x5, u8f ''hairpin'' 0x1, rsv 0x3c1 0x2,
     u8f ''log_max_hairpin_queues'' 0x5, rsv 0x3c8 0x3, u8f ''log_max_hairpin_wq_data_sz'' 0x5,
     rsv 0x3d0 0x3, u8f ''log_max_hairpin_num_packets'' 0x5, rsv 0x3d8 0x3,
     u8f ''log_max_wq_sz'' 0x5, u8f ''nic_vport_change_event'' 0x1,
     u8f ''disable_local_lb_uc'' 0x1, u8f ''disable_local_lb_mc'' 0x1,
     u8f ''log_min_hairpin_wq_data_sz'' 0x5, rsv 0x3e8 0x3, u8f ''log_max_vlan_list'' 0x5,
     rsv 0x3f0 0x3, u8f ''log_max_current_mc_list'' 0x5, rsv 0x3f8 0x3,
     u8f ''log_max_current_uc_list'' 0x5, u8f ''general_obj_types'' 0x40, rsv 0x440 0x4,
     u8f ''steering_format_version'' 0x4, u8f ''create_qp_start_hint'' 0x18, rsv 0x460 0x8,
     u8f ''aes_xts'' 0x1, u8f ''crypto'' 0x1, rsv 0x46a 0x6, u8f ''max_num_eqs'' 0x10,
     u8f ''sigerr_domain_and_sig_type'' 0x1, rsv 0x481 0x2, u8f ''log_max_l2_table'' 0x5,
     rsv 0x488 0x8, u8f ''log_uar_page_sz'' 0x10, rsv 0x4a0 0x20,
     u8f ''device_frequency_mhz'' 0x20, u8f ''device_frequency_khz'' 0x20, u8f ''capi'' 0x1,
     u8f ''create_pec'' 0x1, u8f ''nvmf_target_offload'' 0x1, u8f ''capi_invalidate'' 0x1,
     rsv 0x504 0x17, u8f ''log_max_pasid'' 0x5, u8f ''num_of_uars_per_page'' 0x20,
     u8f ''flex_parser_protocols'' 0x20, rsv 0x560 0x10, u8f ''flex_parser_header_modify'' 0x1,
     rsv 0x571 0x2, u8f ''log_max_guaranteed_connections'' 0x5, rsv 0x578 0x3,
     u8f ''log_max_dct_connections'' 0x5, u8f ''log_max_atomic_size_qp'' 0x8, rsv 0x588 0x10,
     u8f ''log_max_atomic_size_dc'' 0x8, rsv 0x5a0 0x1c, u8f ''mini_cqe_resp_stride_index'' 0x1,
     u8f ''cqe_128_always'' 0x1, u8f ''cqe_compression_128b'' 0x1, u8f ''cqe_compression'' 0x1,
     u8f ''cqe_compression_timeout'' 0x10, u8f ''cqe_compression_max_num'' 0x10, rsv 0x5e0 0x8,
     u8f ''flex_parser_id_gtpu_dw_0'' 0x4, u8f ''log_max_tm_offloaded_op_size'' 0x4,
     u8f ''tag_matching'' 0x1, u8f ''rndv_offload_rc'' 0x1, u8f ''rndv_offload_dc'' 0x1,
     u8f ''log_tag_matching_list_sz'' 0x5, rsv 0x5f8 0x3, u8f ''log_max_xrq'' 0x5,
     u8f ''affiliate_nic_vport_criteria'' 0x8, u8f ''native_port_num'' 0x8,
     u8f ''num_vhca_ports'' 0x8, u8f ''flex_parser_id_gtpu_teid'' 0x4, rsv 0x61c 0x1,
     u8f ''trusted_vnic_vhca'' 0x1, u8f ''sw_owner_id'' 0x1, u8f ''reserve_not_to_use'' 0x1,
     rsv 0x620 0x60, u8f ''sf'' 0x1, rsv 0x682 0x43, u8f ''flex_parser_id_geneve_opt_0'' 0x4,
     u8f ''flex_parser_id_icmp_dw1'' 0x4, u8f ''flex_parser_id_icmp_dw0'' 0x4,
     u8f ''flex_parser_id_icmpv6_dw1'' 0x4, u8f ''flex_parser_id_icmpv6_dw0'' 0x4,
     u8f ''flex_parser_id_outer_first_mpls_over_gre'' 0x4,
     u8f ''flex_parser_id_outer_first_mpls_over_udp_label'' 0x4, rsv 0x6e0 0x20,
     u8f ''flex_parser_id_gtpu_dw_2'' 0x4, u8f ''flex_parser_id_gtpu_first_ext_dw_0'' 0x4,
     rsv 0x708 0x18, rsv 0x720 0x20, rsv 0x740 0x8, u8f ''dma_mmo_qp'' 0x1, rsv 0x749 0x17,
     rsv 0x760 0x60, u8f ''match_definer_format_supported'' 0x40]"

definition mlx5_ifc_cmd_hca_cap_bits :: layout where
  "mlx5_ifc_cmd_hca_cap_bits = Struct (cmd_hca_cap_fields_1 @ cmd_hca_cap_fields_2 @ cmd_hca_cap_fields_3)"

definition mlx5_ifc_header_modify_cap_properties_bits :: layout where
  "mlx5_ifc_header_modify_cap_properties_bits = Struct [
     (Named ''set_action_field_support'', mlx5_ifc_flow_table_fields_supported_bits),
     rsv 0x80 0x80,
     (Named ''add_action_field_support'', mlx5_ifc_flow_table_fields_supported_bits),
     rsv 0x180 0x80, (Named ''copy_action_field_support'', Array 8 (Bits 0x20)), rsv 0x300 0x100]"

definition mlx5_ifc_flow_table_fields_supported_2_bits :: layout where
  "mlx5_ifc_flow_table_fields_supported_2_bits = Struct [
     rsv 0x0 0x17, u8f ''inner_l3_ok'' 0x1, u8f ''inner_l4_ok'' 0x1, u8f ''outer_l3_ok'' 0x1,
     u8f ''outer_l4_ok'' 0x1, u8f ''psp_header'' 0x1, u8f ''inner_ipv4_checksum_ok'' 0x1,
     u8f ''inner_l4_checksum_ok'' 0x1, u8f ''outer_ipv4_checksum_ok'' 0x1,
     u8f ''outer_l4_checksum_ok'' 0x1, rsv 0x20 0x60]"

definition mlx5_ifc_flow_table_nic_cap_bits :: layout where
  "mlx5_ifc_flow_table_nic_cap_bits = Struct [
     u8f ''nic_rx_multi_path_tirs'' 0x1, u8f ''nic_rx_multi_path_tirs_fts'' 0x1,
     u8f ''allow_sniffer_and_nic_rx_shared_tir'' 0x1, rsv 0x3 0x1,
     u8f ''nic_rx_flow_tag_multipath_en'' 0x1, rsv 0x5 0x13,
     u8f ''nic_receive_max_steering_depth'' 0x8, u8f ''encap_general_header'' 0x1, rsv 0x21 0xa,
     u8f ''log_max_packet_reformat_context'' 0x5, rsv 0x30 0x6, u8f ''max_encap_header_size'' 0xa,
     rsv 0x40 0x1c0,
     (Named ''flow_table_properties_nic_receive'', mlx5_ifc_flow_table_prop_layout_bits),
     (Named ''flow_table_properties_nic_receive_rdma'', mlx5_ifc_flow_table_prop_layout_bits),
     (Named ''flow_table_properties_nic_receive_sniffer'', mlx5_ifc_flow_table_prop_layout_bits),
     (Named ''flow_table_properties_nic_transmit'', mlx5_ifc_flow_table_prop_layout_bits),
     (Named ''flow_table_properties_nic_transmit_rdma'', mlx5_ifc_flow_table_prop_layout_bits),
     (Named ''flow_table_properties_nic_transmit_sniffer'', mlx5_ifc_flow_table_prop_layout_bits),
     rsv 0xe00 0x200,
     (Named ''header_modify_nic_receive'', mlx5_ifc_header_modify_cap_properties_bits),
     (Named ''ft_field_support_2_nic_receive'', mlx5_ifc_flow_table_fields_supported_2_bits),
     (Named ''ft_field_bitmask_support_2_nic_receive'', mlx5_ifc_flow_table_fields_supported_2_bits),
     (Named ''ft_field_support_2_nic_receive_rdma'', mlx5_ifc_flow_table_fields_supported_2_bits),
     (Named ''ft_field_bitmask_support_2_nic_receive_rdma'', mlx5_ifc_flow_table_fields_supported_2_bits),
     (Named ''ft_field_support_2_nic_receive_sniffer'', mlx5_ifc_flow_table_fields_supported_2_bits),
     (Named ''ft_field_bitmask_support_2_nic_receive_sniffer'', mlx5_ifc_flow_table_fields_supported_2_bits),
     (Named ''ft_field_support_2_nic_transmit'', mlx5_ifc_flow_table_fields_supported_2_bits),
     (Named ''ft_field_bitmask_support_2_nic_transmit'', mlx5_ifc_flow_table_fields_supported_2_bits),
     (Named ''ft_field_support_2_nic_transmit_rdma'', mlx5_ifc_flow_table_fields_supported_2_bits),
     (Named ''ft_field_bitmask_support_2_nic_transmit_rdma'', mlx5_ifc_flow_table_fields_supported_2_bits),
     (Named ''ft_field_support_2_nic_transmit_sniffer'', mlx5_ifc_flow_table_fields_supported_2_bits),
     (Named ''ft_field_bitmask_support_2_nic_transmit_sniffer'', mlx5_ifc_flow_table_fields_supported_2_bits),
     rsv 0x1400 0x200,
     (Named ''header_modify_nic_transmit'', mlx5_ifc_header_modify_cap_properties_bits),
     u8f ''sw_steering_nic_rx_action_drop_icm_address'' 0x40,
     u8f ''sw_steering_nic_tx_action_drop_icm_address'' 0x40,
     u8f ''sw_steering_nic_tx_action_allow_icm_address'' 0x40, rsv 0x20c0 0x5f40]"

definition mlx5_ifc_flow_table_eswitch_cap_bits :: layout where
  "mlx5_ifc_flow_table_eswitch_cap_bits = Struct [
     rsv 0x0 0x1c, u8f ''fdb_multi_path_to_table'' 0x1, rsv 0x1d 0x1e3,
     (Named ''flow_table_properties_nic_esw_fdb'', mlx5_ifc_flow_table_prop_layout_bits),
     (Named ''flow_table_properties_esw_acl_ingress'', mlx5_ifc_flow_table_prop_layout_bits),
     (Named ''flow_table_properties_esw_acl_egress'', mlx5_ifc_flow_table_prop_layout_bits),
     rsv 0x800 0x1000, u8f ''sw_steering_fdb_action_drop_icm_address_rx'' 0x40,
     u8f ''sw_steering_fdb_action_drop_icm_address_tx'' 0x40,
     u8f ''sw_steering_uplink_icm_address_rx'' 0x40,
     u8f ''sw_steering_uplink_icm_address_tx'' 0x40, rsv 0x1900 0x6700]"

definition mlx5_ifc_odp_per_transport_service_cap_bits :: layout where
  "mlx5_ifc_odp_per_transport_service_cap_bits = Struct [
     u8f ''send'' 0x1, u8f ''receive'' 0x1, u8f ''write'' 0x1, u8f ''read'' 0x1,
     u8f ''atomic'' 0x1, u8f ''srq_receive'' 0x1, rsv 0x6 0x1a]"

definition mlx5_ifc_odp_cap_bits :: layout where
  "mlx5_ifc_odp_cap_bits = Struct [
     rsv 0x0 0x40, u8f ''sig'' 0x1, rsv 0x41 0x1f, rsv 0x60 0x20,
     (Named ''rc_odp_caps'', mlx5_ifc_odp_per_transport_service_cap_bits),
     (Named ''uc_odp_caps'', mlx5_ifc_odp_per_transport_service_cap_bits),
     (Named ''ud_odp_caps'', mlx5_ifc_odp_per_transport_service_cap_bits),
     (Named ''xrc_odp_caps'', mlx5_ifc_odp_per_transport_service_cap_bits),
     (Named ''dc_odp_caps'', mlx5_ifc_odp_per_transport_service_cap_bits), rsv 0x120 0x6e0]"

definition mlx5_ifc_e_switch_cap_bits :: layout where
  "mlx5_ifc_e_switch_cap_bits = Struct [
     rsv 0x0 0x4b, u8f ''log_max_esw_sf'' 0x5, u8f ''esw_sf_base_id'' 0x10, rsv 0x60 0x7a0]"

definition mlx5_ifc_qos_cap_bits :: layout where
  "mlx5_ifc_qos_cap_bits = Struct [
     rsv 0x0 0x8, u8f ''nic_sq_scheduling'' 0x1, u8f ''nic_bw_share'' 0x1,
     u8f ''nic_rate_limit'' 0x1, rsv 0xb 0x15, rsv 0x20 0x1, u8f ''nic_qp_scheduling'' 0x1,
     rsv 0x22 0x1e, rsv 0x40 0xc0, u8f ''nic_element_type'' 0x10, u8f ''nic_tsar_type'' 0x10,
     rsv 0x120 0x6e0]"

definition mlx5_ifc_cmd_hca_cap_2_bits :: layout where
  "mlx5_ifc_cmd_hca_cap_2_bits = Struct [
     rsv 0x0 0x80, rsv 0x80 0x13, u8f ''log_reserved_qpn_granularity'' 0x5, rsv 0x98 0x8,
     rsv 0xa0 0x760]"

definition mlx5_ifc_crypto_caps_bits :: layout where
  "mlx5_ifc_crypto_caps_bits = Struct [
     u8f ''wrapped_crypto_operational'' 0x1, u8f ''wrapped_crypto_going_to_commissioning'' 0x1,
     rsv 0x2 0x16, u8f ''wrapped_import_method'' 0x8, rsv 0x20 0xb, u8f ''log_max_num_deks'' 0x5,
     rsv 0x30 0x3, u8f ''log_max_num_import_keks'' 0x5, rsv 0x38 0x3,
     u8f ''log_max_num_creds'' 0x5, u8f ''failed_selftests'' 0x10, u8f ''num_nv_import_keks'' 0x8,
     u8f ''num_nv_credentials'' 0x8, rsv 0x60 0x7a0]"

definition mlx5_ifc_hca_cap_union_bits :: layout where
  "mlx5_ifc_hca_cap_union_bits = Union [
     (Named ''atomic_caps'', mlx5_ifc_atomic_caps_bits),
     (Named ''cmd_hca_cap'', mlx5_ifc_cmd_hca_cap_bits),
     (Named ''flow_table_nic_cap'', mlx5_ifc_flow_table_nic_cap_bits),
     (Named ''flow_table_eswitch_cap'', mlx5_ifc_flow_table_eswitch_cap_bits),
     (Named ''e_switch_cap'', mlx5_ifc_e_switch_cap_bits),
     (Named ''device_mem_cap'', mlx5_ifc_device_mem_cap_bits),
     (Named ''odp_cap'', mlx5_ifc_odp_cap_bits), (Named ''roce_caps'', mlx5_ifc_roce_cap_bits),
     (Named ''qos_caps'', mlx5_ifc_qos_cap_bits),
     (Named ''cmd_hca_cap_2'', mlx5_ifc_cmd_hca_cap_2_bits),
     (Named ''crypto_caps'', mlx5_ifc_crypto_caps_bits), rsv 0x0 0x8000]"

definition mlx5_ifc_query_hca_cap_out_bits :: layout where
  "mlx5_ifc_query_hca_cap_out_bits = Struct [
     u8f ''status'' 0x8, rsv 0x8 0x18, u8f ''syndrome'' 0x20, rsv 0x40 0x40,
     (Named ''capability'', mlx5_ifc_hca_cap_union_bits)]"

definition mlx5_ifc_query_hca_cap_in_bits :: layout where
  "mlx5_ifc_query_hca_cap_in_bits = Struct [
     u8f ''opcode'' 0x10, rsv 0x10 0x10, rsv 0x20 0x10, u8f ''op_mod'' 0x10,
     u8f ''other_function'' 0x1, rsv 0x41 0xf, u8f ''function_id'' 0x10, rsv 0x60 0x20]"

text \<open>Sizes of the layouts used inside others, and the checks.\<close>

lemma size_atomic_caps [ifc_size]:
  "size_bits mlx5_ifc_atomic_caps_bits = 0x800"
  "accessible mlx5_ifc_atomic_caps_bits"
  by (simp_all add: place_ok_def mlx5_ifc_atomic_caps_bits_def)

lemma size_roce_cap [ifc_size]:
  "size_bits mlx5_ifc_roce_cap_bits = 0x800"
  "accessible mlx5_ifc_roce_cap_bits"
  by (simp_all add: place_ok_def mlx5_ifc_roce_cap_bits_def)

lemma size_flow_table_context [ifc_size]:
  "size_bits mlx5_ifc_flow_table_context_bits = 0x140"
  "accessible mlx5_ifc_flow_table_context_bits"
  by (simp_all add: place_ok_def mlx5_ifc_flow_table_context_bits_def)

lemma check_create_flow_table_in [ifc_nested]:
  "accessible mlx5_ifc_create_flow_table_in_bits"
  "misnamed mlx5_ifc_create_flow_table_in_bits = []"
  by (simp_all add: place_ok_def mlx5_ifc_create_flow_table_in_bits_def ifc_size)

lemma check_query_flow_table_out [ifc_nested]:
  "accessible mlx5_ifc_query_flow_table_out_bits"
  "misnamed mlx5_ifc_query_flow_table_out_bits = []"
  by (simp_all add: place_ok_def mlx5_ifc_query_flow_table_out_bits_def ifc_size)

lemma size_device_mem_cap [ifc_size]:
  "size_bits mlx5_ifc_device_mem_cap_bits = 0x180"
  "accessible mlx5_ifc_device_mem_cap_bits"
  by (simp_all add: place_ok_def mlx5_ifc_device_mem_cap_bits_def)

lemma size_flow_table_fields_supported [ifc_size]:
  "size_bits mlx5_ifc_flow_table_fields_supported_bits = 0x80"
  "accessible mlx5_ifc_flow_table_fields_supported_bits"
  by (simp_all add: place_ok_def mlx5_ifc_flow_table_fields_supported_bits_def)

lemma size_dr_match_spec [ifc_size]:
  "size_bits mlx5_ifc_dr_match_spec_bits = 0x200"
  "accessible mlx5_ifc_dr_match_spec_bits"
  by (simp_all add: place_ok_def mlx5_ifc_dr_match_spec_bits_def)

lemma size_dr_match_set_misc [ifc_size]:
  "size_bits mlx5_ifc_dr_match_set_misc_bits = 0x200"
  "accessible mlx5_ifc_dr_match_set_misc_bits"
  by (simp_all add: place_ok_def mlx5_ifc_dr_match_set_misc_bits_def)

lemma size_dr_match_set_misc2 [ifc_size]:
  "size_bits mlx5_ifc_dr_match_set_misc2_bits = 0x200"
  "accessible mlx5_ifc_dr_match_set_misc2_bits"
  by (simp_all add: place_ok_def mlx5_ifc_dr_match_set_misc2_bits_def)

lemma size_dr_match_set_misc3 [ifc_size]:
  "size_bits mlx5_ifc_dr_match_set_misc3_bits = 0x200"
  "accessible mlx5_ifc_dr_match_set_misc3_bits"
  by (simp_all add: place_ok_def mlx5_ifc_dr_match_set_misc3_bits_def)

lemma size_dr_match_set_misc4 [ifc_size]:
  "size_bits mlx5_ifc_dr_match_set_misc4_bits = 0x200"
  "accessible mlx5_ifc_dr_match_set_misc4_bits"
  by (simp_all add: place_ok_def mlx5_ifc_dr_match_set_misc4_bits_def)

lemma size_dr_match_set_misc5 [ifc_size]:
  "size_bits mlx5_ifc_dr_match_set_misc5_bits = 0x200"
  "accessible mlx5_ifc_dr_match_set_misc5_bits"
  by (simp_all add: place_ok_def mlx5_ifc_dr_match_set_misc5_bits_def)

lemma check_dr_match_param [ifc_nested]:
  "accessible mlx5_ifc_dr_match_param_bits"
  "misnamed mlx5_ifc_dr_match_param_bits = []"
  by (simp_all add: place_ok_def mlx5_ifc_dr_match_param_bits_def ifc_size)

lemma size_flow_table_prop_layout [ifc_size]:
  "size_bits mlx5_ifc_flow_table_prop_layout_bits = 0x200"
  "accessible mlx5_ifc_flow_table_prop_layout_bits"
  by (simp_all add: place_ok_def mlx5_ifc_flow_table_prop_layout_bits_def ifc_size)

lemma check_flow_table_prop_layout [ifc_nested]:
  "accessible mlx5_ifc_flow_table_prop_layout_bits"
  "misnamed mlx5_ifc_flow_table_prop_layout_bits = []"
  by (simp_all add: place_ok_def mlx5_ifc_flow_table_prop_layout_bits_def ifc_size)

lemma cmd_hca_cap_fields_1_size: "size_fields cmd_hca_cap_fields_1 = 0x1df"
  by (simp add: cmd_hca_cap_fields_1_def)

lemma cmd_hca_cap_fields_1_check:
  "accessible_from 0x0 cmd_hca_cap_fields_1"
  "misnamed_from 0x0 cmd_hca_cap_fields_1 = []"
  by (simp_all add: place_ok_def cmd_hca_cap_fields_1_def)

lemma cmd_hca_cap_fields_2_size: "size_fields cmd_hca_cap_fields_2 = 0x1b9"
  by (simp add: cmd_hca_cap_fields_2_def)

lemma cmd_hca_cap_fields_2_check:
  "accessible_from 0x1df cmd_hca_cap_fields_2"
  "misnamed_from 0x1df cmd_hca_cap_fields_2 = []"
  by (simp_all add: place_ok_def cmd_hca_cap_fields_2_def)

lemma cmd_hca_cap_fields_3_size: "size_fields cmd_hca_cap_fields_3 = 0x468"
  by (simp add: cmd_hca_cap_fields_3_def)

lemma cmd_hca_cap_fields_3_check:
  "accessible_from 0x398 cmd_hca_cap_fields_3"
  "misnamed_from 0x398 cmd_hca_cap_fields_3 = [(0x682, 0x681)]"
  by (simp_all add: place_ok_def cmd_hca_cap_fields_3_def)

lemma size_cmd_hca_cap [ifc_size]:
  "size_bits mlx5_ifc_cmd_hca_cap_bits = 0x800"
  "accessible mlx5_ifc_cmd_hca_cap_bits"
  by (simp_all add: place_ok_def mlx5_ifc_cmd_hca_cap_bits_def accessible_from_append
      misnamed_from_append cmd_hca_cap_fields_1_size cmd_hca_cap_fields_2_size cmd_hca_cap_fields_3_size
      cmd_hca_cap_fields_1_check cmd_hca_cap_fields_2_check cmd_hca_cap_fields_3_check ifc_size)

lemma check_cmd_hca_cap [ifc_nested]:
  "accessible mlx5_ifc_cmd_hca_cap_bits"
  "misnamed mlx5_ifc_cmd_hca_cap_bits = [(0x682, 0x681)]"
  by (simp_all add: place_ok_def mlx5_ifc_cmd_hca_cap_bits_def accessible_from_append
      misnamed_from_append cmd_hca_cap_fields_1_size cmd_hca_cap_fields_2_size cmd_hca_cap_fields_3_size
      cmd_hca_cap_fields_1_check cmd_hca_cap_fields_2_check cmd_hca_cap_fields_3_check ifc_size)

lemma size_header_modify_cap_properties [ifc_size]:
  "size_bits mlx5_ifc_header_modify_cap_properties_bits = 0x400"
  "accessible mlx5_ifc_header_modify_cap_properties_bits"
  by (simp_all add: place_ok_def mlx5_ifc_header_modify_cap_properties_bits_def ifc_size)

lemma check_header_modify_cap_properties [ifc_nested]:
  "accessible mlx5_ifc_header_modify_cap_properties_bits"
  "misnamed mlx5_ifc_header_modify_cap_properties_bits = []"
  by (simp_all add: place_ok_def mlx5_ifc_header_modify_cap_properties_bits_def ifc_size)

lemma size_flow_table_fields_supported_2 [ifc_size]:
  "size_bits mlx5_ifc_flow_table_fields_supported_2_bits = 0x80"
  "accessible mlx5_ifc_flow_table_fields_supported_2_bits"
  by (simp_all add: place_ok_def mlx5_ifc_flow_table_fields_supported_2_bits_def)

lemma size_flow_table_nic_cap [ifc_size]:
  "size_bits mlx5_ifc_flow_table_nic_cap_bits = 0x8000"
  "accessible mlx5_ifc_flow_table_nic_cap_bits"
  by (simp_all add: place_ok_def mlx5_ifc_flow_table_nic_cap_bits_def ifc_size)

lemma check_flow_table_nic_cap [ifc_nested]:
  "accessible mlx5_ifc_flow_table_nic_cap_bits"
  "misnamed mlx5_ifc_flow_table_nic_cap_bits = [(0x1400, 0x1a00)]"
  by (simp_all add: place_ok_def mlx5_ifc_flow_table_nic_cap_bits_def ifc_size)

lemma size_flow_table_eswitch_cap [ifc_size]:
  "size_bits mlx5_ifc_flow_table_eswitch_cap_bits = 0x8000"
  "accessible mlx5_ifc_flow_table_eswitch_cap_bits"
  by (simp_all add: place_ok_def mlx5_ifc_flow_table_eswitch_cap_bits_def ifc_size)

lemma check_flow_table_eswitch_cap [ifc_nested]:
  "accessible mlx5_ifc_flow_table_eswitch_cap_bits"
  "misnamed mlx5_ifc_flow_table_eswitch_cap_bits = []"
  by (simp_all add: place_ok_def mlx5_ifc_flow_table_eswitch_cap_bits_def ifc_size)

lemma size_odp_per_transport_service_cap [ifc_size]:
  "size_bits mlx5_ifc_odp_per_transport_service_cap_bits = 0x20"
  "accessible mlx5_ifc_odp_per_transport_service_cap_bits"
  by (simp_all add: place_ok_def mlx5_ifc_odp_per_transport_service_cap_bits_def)

lemma size_odp_cap [ifc_size]:
  "size_bits mlx5_ifc_odp_cap_bits = 0x800"
  "accessible mlx5_ifc_odp_cap_bits"
  by (simp_all add: place_ok_def mlx5_ifc_odp_cap_bits_def ifc_size)

lemma check_odp_cap [ifc_nested]:
  "accessible mlx5_ifc_odp_cap_bits"
  "misnamed mlx5_ifc_odp_cap_bits = []"
  by (simp_all add: place_ok_def mlx5_ifc_odp_cap_bits_def ifc_size)

lemma size_e_switch_cap [ifc_size]:
  "size_bits mlx5_ifc_e_switch_cap_bits = 0x800"
  "accessible mlx5_ifc_e_switch_cap_bits"
  by (simp_all add: place_ok_def mlx5_ifc_e_switch_cap_bits_def)

lemma size_qos_cap [ifc_size]:
  "size_bits mlx5_ifc_qos_cap_bits = 0x800"
  "accessible mlx5_ifc_qos_cap_bits"
  by (simp_all add: place_ok_def mlx5_ifc_qos_cap_bits_def)

lemma size_cmd_hca_cap_2 [ifc_size]:
  "size_bits mlx5_ifc_cmd_hca_cap_2_bits = 0x800"
  "accessible mlx5_ifc_cmd_hca_cap_2_bits"
  by (simp_all add: place_ok_def mlx5_ifc_cmd_hca_cap_2_bits_def)

lemma size_crypto_caps [ifc_size]:
  "size_bits mlx5_ifc_crypto_caps_bits = 0x800"
  "accessible mlx5_ifc_crypto_caps_bits"
  by (simp_all add: place_ok_def mlx5_ifc_crypto_caps_bits_def)

lemma size_hca_cap_union [ifc_size]:
  "size_bits mlx5_ifc_hca_cap_union_bits = 0x8000"
  "accessible mlx5_ifc_hca_cap_union_bits"
  by (simp_all add: place_ok_def mlx5_ifc_hca_cap_union_bits_def ifc_size)

lemma check_hca_cap_union [ifc_nested]:
  "accessible mlx5_ifc_hca_cap_union_bits"
  "misnamed mlx5_ifc_hca_cap_union_bits = []"
  by (simp_all add: place_ok_def mlx5_ifc_hca_cap_union_bits_def ifc_size)

lemma check_query_hca_cap_out [ifc_nested]:
  "accessible mlx5_ifc_query_hca_cap_out_bits"
  "misnamed mlx5_ifc_query_hca_cap_out_bits = []"
  by (simp_all add: place_ok_def mlx5_ifc_query_hca_cap_out_bits_def ifc_size)

text \<open>The layouts of this theory by name.\<close>

definition ifc_caps :: "(string \<times> layout) list" where
  "ifc_caps = [
     (''atomic_caps'', mlx5_ifc_atomic_caps_bits), (''roce_cap'', mlx5_ifc_roce_cap_bits),
     (''flow_table_context'', mlx5_ifc_flow_table_context_bits),
     (''create_flow_table_in'', mlx5_ifc_create_flow_table_in_bits),
     (''create_flow_table_out'', mlx5_ifc_create_flow_table_out_bits),
     (''destroy_flow_table_in'', mlx5_ifc_destroy_flow_table_in_bits),
     (''query_flow_table_in'', mlx5_ifc_query_flow_table_in_bits),
     (''query_flow_table_out'', mlx5_ifc_query_flow_table_out_bits),
     (''sync_steering_in'', mlx5_ifc_sync_steering_in_bits),
     (''sync_steering_out'', mlx5_ifc_sync_steering_out_bits),
     (''device_mem_cap'', mlx5_ifc_device_mem_cap_bits),
     (''flow_table_fields_supported'', mlx5_ifc_flow_table_fields_supported_bits),
     (''dr_match_spec'', mlx5_ifc_dr_match_spec_bits),
     (''dr_match_set_misc'', mlx5_ifc_dr_match_set_misc_bits),
     (''dr_match_set_misc2'', mlx5_ifc_dr_match_set_misc2_bits),
     (''dr_match_set_misc3'', mlx5_ifc_dr_match_set_misc3_bits),
     (''dr_match_set_misc4'', mlx5_ifc_dr_match_set_misc4_bits),
     (''dr_match_set_misc5'', mlx5_ifc_dr_match_set_misc5_bits),
     (''dr_match_param'', mlx5_ifc_dr_match_param_bits),
     (''flow_table_prop_layout'', mlx5_ifc_flow_table_prop_layout_bits),
     (''cmd_hca_cap'', mlx5_ifc_cmd_hca_cap_bits),
     (''header_modify_cap_properties'', mlx5_ifc_header_modify_cap_properties_bits),
     (''flow_table_fields_supported_2'', mlx5_ifc_flow_table_fields_supported_2_bits),
     (''flow_table_nic_cap'', mlx5_ifc_flow_table_nic_cap_bits),
     (''flow_table_eswitch_cap'', mlx5_ifc_flow_table_eswitch_cap_bits),
     (''odp_per_transport_service_cap'', mlx5_ifc_odp_per_transport_service_cap_bits),
     (''odp_cap'', mlx5_ifc_odp_cap_bits), (''e_switch_cap'', mlx5_ifc_e_switch_cap_bits),
     (''qos_cap'', mlx5_ifc_qos_cap_bits), (''cmd_hca_cap_2'', mlx5_ifc_cmd_hca_cap_2_bits),
     (''crypto_caps'', mlx5_ifc_crypto_caps_bits),
     (''hca_cap_union'', mlx5_ifc_hca_cap_union_bits),
     (''query_hca_cap_out'', mlx5_ifc_query_hca_cap_out_bits),
     (''query_hca_cap_in'', mlx5_ifc_query_hca_cap_in_bits)]"

lemmas ifc_caps_defs =
  mlx5_ifc_atomic_caps_bits_def mlx5_ifc_roce_cap_bits_def mlx5_ifc_flow_table_context_bits_def
  mlx5_ifc_create_flow_table_out_bits_def mlx5_ifc_destroy_flow_table_in_bits_def
  mlx5_ifc_query_flow_table_in_bits_def mlx5_ifc_sync_steering_in_bits_def
  mlx5_ifc_sync_steering_out_bits_def mlx5_ifc_device_mem_cap_bits_def
  mlx5_ifc_flow_table_fields_supported_bits_def mlx5_ifc_dr_match_spec_bits_def
  mlx5_ifc_dr_match_set_misc_bits_def mlx5_ifc_dr_match_set_misc2_bits_def
  mlx5_ifc_dr_match_set_misc3_bits_def mlx5_ifc_dr_match_set_misc4_bits_def
  mlx5_ifc_dr_match_set_misc5_bits_def mlx5_ifc_flow_table_fields_supported_2_bits_def
  mlx5_ifc_odp_per_transport_service_cap_bits_def mlx5_ifc_e_switch_cap_bits_def
  mlx5_ifc_qos_cap_bits_def mlx5_ifc_cmd_hca_cap_2_bits_def mlx5_ifc_crypto_caps_bits_def
  mlx5_ifc_query_hca_cap_in_bits_def

lemma ifc_caps_accessible: "list_all (\<lambda>(_, l). accessible l) ifc_caps"
  by (simp add: place_ok_def ifc_caps_def ifc_nested ifc_caps_defs)

lemma ifc_caps_misnamed: "misnamed_all ifc_caps = [
     (''dr_match_set_misc'', 0xe4, 0xd8), (''dr_match_set_misc'', 0xec, 0xe0),
     (''dr_match_set_misc2'', 0x260, 0x1c0), (''dr_match_set_misc3'', 0x150, 0x170),
     (''dr_match_set_misc3'', 0x1c0, 0x1e0), (''cmd_hca_cap'', 0x682, 0x681),
     (''flow_table_nic_cap'', 0x1400, 0x1a00)]"
  by (simp add: misnamed_all_def ifc_caps_def ifc_nested ifc_caps_defs)

end
