(* ===== verification/Ifc_Objects.thy ===== *)
theory Ifc_Objects
  imports Ifc_Caps
begin

text \<open>
  Layouts of \<^verbatim>\<open>mlx5_ifc.h\<close> for general objects, address paths,
  queue-pair contexts and the queue-pair state commands, in the order of the header.
\<close>

definition mlx5_ifc_dctc_bits :: layout where
  "mlx5_ifc_dctc_bits = Struct [
     rsv 0x0 0x1d, u8f ''data_in_order'' 0x1, rsv 0x1e 0x362]"

definition mlx5_ifc_packet_reformat_context_in_bits :: layout where
  "mlx5_ifc_packet_reformat_context_in_bits = Struct [
     rsv 0x0 0x5, u8f ''reformat_type'' 0x3, rsv 0x8 0xe, u8f ''reformat_data_size'' 0xa,
     rsv 0x20 0x10, (Named ''reformat_data'', Array 2 (Bits 0x8)),
     (Named ''more_reformat_data'', Array 0 (Bits 0x8))]"

definition mlx5_ifc_alloc_packet_reformat_context_in_bits :: layout where
  "mlx5_ifc_alloc_packet_reformat_context_in_bits = Struct [
     u8f ''opcode'' 0x10, rsv 0x10 0x10, rsv 0x20 0x10, u8f ''op_mod'' 0x10, rsv 0x40 0xa0,
     (Named ''packet_reformat_context'', mlx5_ifc_packet_reformat_context_in_bits)]"

definition mlx5_ifc_alloc_packet_reformat_context_out_bits :: layout where
  "mlx5_ifc_alloc_packet_reformat_context_out_bits = Struct [
     u8f ''status'' 0x8, rsv 0x8 0x18, u8f ''syndrome'' 0x20, u8f ''packet_reformat_id'' 0x20,
     rsv 0x60 0x20]"

definition mlx5_ifc_dealloc_packet_reformat_context_in_bits :: layout where
  "mlx5_ifc_dealloc_packet_reformat_context_in_bits = Struct [
     u8f ''opcode'' 0x10, rsv 0x10 0x10, u8f ''reserved_20'' 0x10, u8f ''op_mod'' 0x10,
     u8f ''packet_reformat_id'' 0x20, u8f ''reserved_60'' 0x20]"

definition mlx5_ifc_dealloc_packet_reformat_context_out_bits :: layout where
  "mlx5_ifc_dealloc_packet_reformat_context_out_bits = Struct [
     u8f ''status'' 0x8, rsv 0x8 0x18, u8f ''syndrome'' 0x20, rsv 0x40 0x40]"

definition mlx5_ifc_alloc_flow_counter_in_bits :: layout where
  "mlx5_ifc_alloc_flow_counter_in_bits = Struct [
     u8f ''opcode'' 0x10, u8f ''uid'' 0x10, rsv 0x20 0x10, u8f ''op_mod'' 0x10, rsv 0x40 0x40]"

definition mlx5_ifc_alloc_flow_counter_out_bits :: layout where
  "mlx5_ifc_alloc_flow_counter_out_bits = Struct [
     u8f ''status'' 0x8, rsv 0x8 0x18, u8f ''syndrome'' 0x20, u8f ''flow_counter_id'' 0x20,
     rsv 0x60 0x20]"

definition mlx5_ifc_dealloc_flow_counter_in_bits :: layout where
  "mlx5_ifc_dealloc_flow_counter_in_bits = Struct [
     u8f ''opcode'' 0x10, rsv 0x10 0x10, rsv 0x20 0x20, u8f ''flow_counter_id'' 0x20, rsv 0x60 0x20]"

definition mlx5_ifc_general_obj_in_cmd_hdr_bits :: layout where
  "mlx5_ifc_general_obj_in_cmd_hdr_bits = Struct [
     u8f ''opcode'' 0x10, u8f ''uid'' 0x10, rsv 0x20 0x10, u8f ''obj_type'' 0x10,
     u8f ''obj_id'' 0x20, rsv 0x60 0x3, u8f ''log_obj_range'' 0x5, rsv 0x68 0x18]"

definition mlx5_ifc_general_obj_out_cmd_hdr_bits :: layout where
  "mlx5_ifc_general_obj_out_cmd_hdr_bits = Struct [
     u8f ''status'' 0x8, rsv 0x8 0x18, u8f ''syndrome'' 0x20, u8f ''obj_id'' 0x20, rsv 0x60 0x20]"

definition mlx5_ifc_flow_meter_bits :: layout where
  "mlx5_ifc_flow_meter_bits = Struct [
     u8f ''modify_field_select'' 0x40, u8f ''active'' 0x1, rsv 0x41 0x3, u8f ''return_reg_id'' 0x4,
     u8f ''table_type'' 0x8, rsv 0x50 0x10, rsv 0x60 0x8, u8f ''destination_table_id'' 0x18,
     rsv 0x80 0x80, u8f ''flow_meter_params'' 0x100, rsv 0x180 0x180,
     u8f ''sw_steering_icm_address_rx'' 0x40, u8f ''sw_steering_icm_address_tx'' 0x40]"

definition mlx5_ifc_create_flow_meter_in_bits :: layout where
  "mlx5_ifc_create_flow_meter_in_bits = Struct [
     (Named ''hdr'', mlx5_ifc_general_obj_in_cmd_hdr_bits),
     (Named ''meter'', mlx5_ifc_flow_meter_bits)]"

definition mlx5_ifc_query_flow_meter_out_bits :: layout where
  "mlx5_ifc_query_flow_meter_out_bits = Struct [
     (Named ''hdr'', mlx5_ifc_general_obj_out_cmd_hdr_bits),
     (Named ''obj'', mlx5_ifc_flow_meter_bits)]"

definition mlx5_ifc_flow_sampler_bits :: layout where
  "mlx5_ifc_flow_sampler_bits = Struct [
     u8f ''modify_field_select'' 0x40, u8f ''table_type'' 0x8, u8f ''level'' 0x8, rsv 0x50 0xf,
     u8f ''ignore_flow_level'' 0x1, u8f ''sample_ratio'' 0x20, rsv 0x80 0x8,
     u8f ''sample_table_id'' 0x18, rsv 0xa0 0x8, u8f ''default_table_id'' 0x18,
     u8f ''sw_steering_icm_address_rx'' 0x40, u8f ''sw_steering_icm_address_tx'' 0x40]"

definition mlx5_ifc_create_flow_sampler_in_bits :: layout where
  "mlx5_ifc_create_flow_sampler_in_bits = Struct [
     (Named ''hdr'', mlx5_ifc_general_obj_in_cmd_hdr_bits),
     (Named ''sampler'', mlx5_ifc_flow_sampler_bits)]"

definition mlx5_ifc_query_flow_sampler_out_bits :: layout where
  "mlx5_ifc_query_flow_sampler_out_bits = Struct [
     (Named ''hdr'', mlx5_ifc_general_obj_out_cmd_hdr_bits),
     (Named ''obj'', mlx5_ifc_flow_sampler_bits)]"

definition mlx5_ifc_definer_bits :: layout where
  "mlx5_ifc_definer_bits = Struct [
     u8f ''modify_field_select'' 0x40, rsv 0x40 0x40, rsv 0x80 0x10, u8f ''format_id'' 0x10,
     rsv 0x60 0x160, u8f ''ctrl'' 0xa0, u8f ''match_mask_dw_11_8'' 0x60,
     u8f ''match_mask_dw_7_0'' 0x100]"

definition mlx5_ifc_create_definer_in_bits :: layout where
  "mlx5_ifc_create_definer_in_bits = Struct [
     (Named ''hdr'', mlx5_ifc_general_obj_in_cmd_hdr_bits),
     (Named ''definer'', mlx5_ifc_definer_bits)]"

definition mlx5_ifc_esw_vport_context_bits :: layout where
  "mlx5_ifc_esw_vport_context_bits = Struct [
     rsv 0x0 0x3, u8f ''vport_svlan_strip'' 0x1, u8f ''vport_cvlan_strip'' 0x1,
     u8f ''vport_svlan_insert'' 0x1, u8f ''vport_cvlan_insert'' 0x2, rsv 0x8 0x18, rsv 0x20 0x20,
     u8f ''svlan_cfi'' 0x1, u8f ''svlan_pcp'' 0x3, u8f ''svlan_id'' 0xc, u8f ''cvlan_cfi'' 0x1,
     u8f ''cvlan_pcp'' 0x3, u8f ''cvlan_id'' 0xc, rsv 0x40 0x720,
     u8f ''sw_steering_vport_icm_address_rx'' 0x40, u8f ''sw_steering_vport_icm_address_tx'' 0x40]"

definition mlx5_ifc_query_esw_vport_context_out_bits :: layout where
  "mlx5_ifc_query_esw_vport_context_out_bits = Struct [
     u8f ''status'' 0x8, rsv 0x8 0x18, u8f ''syndrome'' 0x20, rsv 0x40 0x40,
     (Named ''esw_vport_context'', mlx5_ifc_esw_vport_context_bits)]"

definition mlx5_ifc_query_esw_vport_context_in_bits :: layout where
  "mlx5_ifc_query_esw_vport_context_in_bits = Struct [
     u8f ''opcode'' 0x10, rsv 0x10 0x10, rsv 0x20 0x10, u8f ''op_mod'' 0x10,
     u8f ''other_vport'' 0x1, rsv 0x41 0xf, u8f ''vport_number'' 0x10, rsv 0x60 0x20]"

definition mlx5_ifc_nic_vport_context_bits :: layout where
  "mlx5_ifc_nic_vport_context_bits = Struct [
     rsv 0x0 0x1f, u8f ''roce_en'' 0x1, rsv 0x20 0x7e0]"

definition mlx5_ifc_query_nic_vport_context_out_bits :: layout where
  "mlx5_ifc_query_nic_vport_context_out_bits = Struct [
     u8f ''status'' 0x8, rsv 0x8 0x18, u8f ''syndrome'' 0x20, rsv 0x40 0x40,
     (Named ''nic_vport_context'', mlx5_ifc_nic_vport_context_bits)]"

definition mlx5_ifc_query_nic_vport_context_in_bits :: layout where
  "mlx5_ifc_query_nic_vport_context_in_bits = Struct [
     u8f ''opcode'' 0x10, rsv 0x10 0x10, rsv 0x20 0x10, u8f ''op_mod'' 0x10, rsv 0x40 0x40]"

definition mlx5_ifc_ud_av_bits :: layout where
  "mlx5_ifc_ud_av_bits = Struct [
     rsv 0x0 0x60, rsv 0x60 0x4, u8f ''sl_or_eth_prio'' 0x4, rsv 0x68 0x18, rsv 0x80 0x60,
     rsv 0xe0 0x4, u8f ''src_addr_index'' 0x8, rsv 0xec 0x14,
     (Named ''rgid_or_rip'', Array 16 (Bits 0x8))]"

definition mlx5_ifc_ads_bits :: layout where
  "mlx5_ifc_ads_bits = Struct [
     u8f ''fl'' 0x1, u8f ''free_ar'' 0x1, rsv 0x2 0xe, u8f ''pkey_index'' 0x10, rsv 0x20 0x8,
     u8f ''grh'' 0x1, u8f ''mlid'' 0x7, u8f ''rlid'' 0x10, u8f ''ack_timeout'' 0x5, rsv 0x45 0x3,
     u8f ''src_addr_index'' 0x8, rsv 0x50 0x4, u8f ''stat_rate'' 0x4, u8f ''hop_limit'' 0x8,
     rsv 0x60 0x4, u8f ''tclass'' 0x8, u8f ''flow_label'' 0x14,
     (Named ''rgid_rip'', Array 16 (Bits 0x8)), rsv 0x100 0x4, u8f ''f_dscp'' 0x1,
     u8f ''f_ecn'' 0x1, rsv 0x106 0x1, u8f ''f_eth_prio'' 0x1, u8f ''ecn'' 0x2, u8f ''dscp'' 0x6,
     u8f ''udp_sport'' 0x10, u8f ''dei_cfi'' 0x1, u8f ''eth_prio'' 0x3, u8f ''sl'' 0x4,
     u8f ''vhca_port_num'' 0x8, u8f ''rmac_47_32'' 0x10, u8f ''rmac_31_0'' 0x20]"

definition mlx5_ifc_qpc_bits :: layout where
  "mlx5_ifc_qpc_bits = Struct [
     u8f ''state'' 0x4, u8f ''lag_tx_port_affinity'' 0x4, u8f ''st'' 0x8, rsv 0x10 0x2,
     u8f ''isolate_vl_tc'' 0x1, u8f ''pm_state'' 0x2, rsv 0x15 0x1,
     u8f ''req_e2e_credit_mode'' 0x2, u8f ''offload_type'' 0x4, u8f ''end_padding_mode'' 0x2,
     rsv 0x1e 0x2, u8f ''wq_signature'' 0x1, u8f ''block_lb_mc'' 0x1,
     u8f ''atomic_like_write_en'' 0x1, u8f ''latency_sensitive'' 0x1, rsv 0x24 0x1,
     u8f ''drain_sigerr'' 0x1, rsv 0x26 0x2, u8f ''pd'' 0x18, u8f ''mtu'' 0x3,
     u8f ''log_msg_max'' 0x5, rsv 0x48 0x1, u8f ''log_rq_size'' 0x4, u8f ''log_rq_stride'' 0x3,
     u8f ''no_sq'' 0x1, u8f ''log_sq_size'' 0x4, rsv 0x55 0x3, u8f ''ts_format'' 0x2,
     u8f ''data_in_order'' 0x1, u8f ''rlky'' 0x1, u8f ''ulp_stateless_offload_mode'' 0x4,
     u8f ''counter_set_id'' 0x8, u8f ''uar_page'' 0x18, rsv 0x80 0x8, u8f ''user_index'' 0x18,
     rsv 0xa0 0x3, u8f ''log_page_size'' 0x5, u8f ''remote_qpn'' 0x18,
     (Named ''primary_address_path'', mlx5_ifc_ads_bits),
     (Named ''secondary_address_path'', mlx5_ifc_ads_bits), u8f ''log_ack_req_freq'' 0x4,
     rsv 0x384 0x4, u8f ''log_sra_max'' 0x3, rsv 0x38b 0x2, u8f ''retry_count'' 0x3,
     u8f ''rnr_retry'' 0x3, rsv 0x393 0x1, u8f ''fre'' 0x1, u8f ''cur_rnr_retry'' 0x3,
     u8f ''cur_retry_count'' 0x3, rsv 0x39b 0x5, rsv 0x3a0 0x20, rsv 0x3c0 0x8,
     u8f ''next_send_psn'' 0x18, rsv 0x3e0 0x8, u8f ''cqn_snd'' 0x18, rsv 0x400 0x8,
     u8f ''deth_sqpn'' 0x18, rsv 0x420 0x20, rsv 0x440 0x8, u8f ''last_acked_psn'' 0x18,
     rsv 0x460 0x8, u8f ''ssn'' 0x18, rsv 0x480 0x8, u8f ''log_rra_max'' 0x3, rsv 0x48b 0x1,
     u8f ''atomic_mode'' 0x4, u8f ''rre'' 0x1, u8f ''rwe'' 0x1, u8f ''rae'' 0x1, rsv 0x493 0x1,
     u8f ''page_offset'' 0x6, rsv 0x49a 0x3, u8f ''cd_slave_receive'' 0x1,
     u8f ''cd_slave_send'' 0x1, u8f ''cd_master'' 0x1, rsv 0x4a0 0x3, u8f ''min_rnr_nak'' 0x5,
     u8f ''next_rcv_psn'' 0x18, rsv 0x4c0 0x8, u8f ''xrcd'' 0x18, rsv 0x4e0 0x8,
     u8f ''cqn_rcv'' 0x18, u8f ''dbr_addr'' 0x40, u8f ''q_key'' 0x20, rsv 0x560 0x5,
     u8f ''rq_type'' 0x3, u8f ''srqn_rmpn_xrqn'' 0x18, rsv 0x580 0x8, u8f ''rmsn'' 0x18,
     u8f ''hw_sq_wqebb_counter'' 0x10, u8f ''sw_sq_wqebb_counter'' 0x10,
     u8f ''hw_rq_counter'' 0x20, u8f ''sw_rq_counter'' 0x20, rsv 0x600 0x20, rsv 0x620 0xf,
     u8f ''cgs'' 0x1, u8f ''cs_req'' 0x8, u8f ''cs_res'' 0x8, u8f ''dc_access_key'' 0x40,
     rsv 0x680 0x3, u8f ''dbr_umem_valid'' 0x1, rsv 0x684 0x9c, u8f ''dbr_umem_id'' 0x20]"

definition mlx5_ifc_qpc_ext_bits :: layout where
  "mlx5_ifc_qpc_ext_bits = Struct [
     rsv 0x0 0x2, u8f ''mmo'' 0x1, rsv 0x3 0xd, u8f ''dci_stream_channel_id'' 0x10,
     u8f ''qos_queue_group_id_requester'' 0x20, u8f ''qos_queue_group_id_responder'' 0x20,
     rsv 0x60 0x5a0]"

definition mlx5_ifc_create_tir_out_bits :: layout where
  "mlx5_ifc_create_tir_out_bits = Struct [
     u8f ''status'' 0x8, u8f ''icm_address_63_40'' 0x18, u8f ''syndrome'' 0x20,
     u8f ''icm_address_39_32'' 0x8, u8f ''tirn'' 0x18, u8f ''icm_address_31_0'' 0x20]"

definition mlx5_ifc_destroy_tir_in_bits :: layout where
  "mlx5_ifc_destroy_tir_in_bits = Struct [
     u8f ''opcode'' 0x10, u8f ''uid'' 0x10, rsv 0x20 0x20, rsv 0x40 0x8, u8f ''tirn'' 0x18,
     rsv 0x60 0x20]"

definition mlx5_ifc_create_qp_out_bits :: layout where
  "mlx5_ifc_create_qp_out_bits = Struct [
     u8f ''status'' 0x8, rsv 0x8 0x18, u8f ''syndrome'' 0x20, rsv 0x40 0x8, u8f ''qpn'' 0x18,
     rsv 0x60 0x20]"

definition mlx5_ifc_create_qp_in_bits :: layout where
  "mlx5_ifc_create_qp_in_bits = Struct [
     u8f ''opcode'' 0x10, u8f ''uid'' 0x10, rsv 0x20 0x10, u8f ''op_mod'' 0x10, rsv 0x40 0x40,
     u8f ''opt_param_mask'' 0x20, rsv 0xa0 0x20, (Named ''qpc'', mlx5_ifc_qpc_bits),
     u8f ''wq_umem_offset'' 0x40, u8f ''wq_umem_id'' 0x20, u8f ''wq_umem_valid'' 0x1,
     rsv 0x861 0x1f, (Named ''pas'', Array 0 (Bits 0x40))]"

definition mlx5_ifc_destroy_qp_in_bits :: layout where
  "mlx5_ifc_destroy_qp_in_bits = Struct [
     u8f ''opcode'' 0x10, u8f ''uid'' 0x10, rsv 0x20 0x20, rsv 0x40 0x8, u8f ''qpn'' 0x18,
     rsv 0x60 0x20]"

definition mlx5_ifc_init2init_qp_out_bits :: layout where
  "mlx5_ifc_init2init_qp_out_bits = Struct [
     u8f ''status'' 0x8, rsv 0x8 0x18, u8f ''syndrome'' 0x20, rsv 0x40 0x40]"

definition mlx5_ifc_init2init_qp_in_bits :: layout where
  "mlx5_ifc_init2init_qp_in_bits = Struct [
     u8f ''opcode'' 0x10, u8f ''uid'' 0x10, rsv 0x20 0x10, u8f ''op_mod'' 0x10,
     u8f ''qpc_ext'' 0x1, rsv 0x41 0x7, u8f ''qpn'' 0x18, rsv 0x60 0x20,
     u8f ''opt_param_mask'' 0x20, rsv 0xa0 0x20, (Named ''qpc'', mlx5_ifc_qpc_bits),
     rsv 0x800 0x40, u8f ''opt_param_mask_95_32'' 0x40,
     (Named ''qpc_data_ext'', mlx5_ifc_qpc_ext_bits)]"

definition mlx5_ifc_init2rtr_qp_out_bits :: layout where
  "mlx5_ifc_init2rtr_qp_out_bits = Struct [
     u8f ''status'' 0x8, rsv 0x8 0x18, u8f ''syndrome'' 0x20, rsv 0x40 0x40]"

definition mlx5_ifc_init2rtr_qp_in_bits :: layout where
  "mlx5_ifc_init2rtr_qp_in_bits = Struct [
     u8f ''opcode'' 0x10, u8f ''uid'' 0x10, rsv 0x20 0x10, u8f ''op_mod'' 0x10, rsv 0x40 0x8,
     u8f ''qpn'' 0x18, rsv 0x60 0x20, u8f ''opt_param_mask'' 0x20, rsv 0xa0 0x20,
     (Named ''qpc'', mlx5_ifc_qpc_bits), rsv 0x800 0x80]"

definition mlx5_ifc_rtr2rts_qp_out_bits :: layout where
  "mlx5_ifc_rtr2rts_qp_out_bits = Struct [
     u8f ''status'' 0x8, rsv 0x8 0x18, u8f ''syndrome'' 0x20, rsv 0x40 0x40]"

definition mlx5_ifc_rtr2rts_qp_in_bits :: layout where
  "mlx5_ifc_rtr2rts_qp_in_bits = Struct [
     u8f ''opcode'' 0x10, u8f ''uid'' 0x10, rsv 0x20 0x10, u8f ''op_mod'' 0x10, rsv 0x40 0x8,
     u8f ''qpn'' 0x18, rsv 0x60 0x20, u8f ''opt_param_mask'' 0x20, rsv 0xa0 0x20,
     (Named ''qpc'', mlx5_ifc_qpc_bits), rsv 0x800 0x80]"

definition mlx5_ifc_rst2init_qp_out_bits :: layout where
  "mlx5_ifc_rst2init_qp_out_bits = Struct [
     u8f ''status'' 0x8, rsv 0x8 0x18, u8f ''syndrome'' 0x20, rsv 0x40 0x40]"

definition mlx5_ifc_rst2init_qp_in_bits :: layout where
  "mlx5_ifc_rst2init_qp_in_bits = Struct [
     u8f ''opcode'' 0x10, u8f ''uid'' 0x10, rsv 0x20 0x10, u8f ''op_mod'' 0x10, rsv 0x40 0x8,
     u8f ''qpn'' 0x18, rsv 0x60 0x20, u8f ''opt_param_mask'' 0x20, rsv 0xa0 0x20,
     (Named ''qpc'', mlx5_ifc_qpc_bits), rsv 0x800 0x80]"

definition mlx5_ifc_rts2rts_qp_out_bits :: layout where
  "mlx5_ifc_rts2rts_qp_out_bits = Struct [
     u8f ''status'' 0x8, rsv 0x8 0x18, u8f ''syndrome'' 0x20, rsv 0x40 0x40]"

definition mlx5_ifc_rts2rts_qp_in_bits :: layout where
  "mlx5_ifc_rts2rts_qp_in_bits = Struct [
     u8f ''opcode'' 0x10, u8f ''uid'' 0x10, rsv 0x20 0x10, u8f ''op_mod'' 0x10,
     u8f ''qpc_ext'' 0x1, rsv 0x41 0x7, u8f ''qpn'' 0x18, rsv 0x60 0x20,
     u8f ''opt_param_mask'' 0x20, rsv 0xa0 0x20, (Named ''qpc'', mlx5_ifc_qpc_bits),
     rsv 0x800 0x40, u8f ''opt_param_mask_95_32'' 0x40,
     (Named ''qpc_data_ext'', mlx5_ifc_qpc_ext_bits)]"

definition mlx5_ifc_query_qp_out_bits :: layout where
  "mlx5_ifc_query_qp_out_bits = Struct [
     u8f ''status'' 0x8, rsv 0x8 0x18, u8f ''syndrome'' 0x20, rsv 0x40 0x40,
     u8f ''opt_param_mask'' 0x20, rsv 0xa0 0x20, (Named ''qpc'', mlx5_ifc_qpc_bits),
     rsv 0x800 0x80, (Named ''pas'', Array 0 (Bits 0x40))]"

definition mlx5_ifc_query_qp_in_bits :: layout where
  "mlx5_ifc_query_qp_in_bits = Struct [
     u8f ''opcode'' 0x10, rsv 0x10 0x10, rsv 0x20 0x10, u8f ''op_mod'' 0x10, rsv 0x40 0x8,
     u8f ''qpn'' 0x18, rsv 0x60 0x20]"

definition mlx5_ifc_query_dct_out_bits :: layout where
  "mlx5_ifc_query_dct_out_bits = Struct [
     u8f ''status'' 0x8, rsv 0x8 0x18, u8f ''syndrome'' 0x20, rsv 0x40 0x40,
     (Named ''dctc'', mlx5_ifc_dctc_bits)]"

definition mlx5_ifc_query_dct_in_bits :: layout where
  "mlx5_ifc_query_dct_in_bits = Struct [
     u8f ''opcode'' 0x10, rsv 0x10 0x10, rsv 0x20 0x10, u8f ''op_mod'' 0x10, rsv 0x40 0x8,
     u8f ''dctn'' 0x18, rsv 0x60 0x20]"

definition mlx5_ifc_tisc_bits :: layout where
  "mlx5_ifc_tisc_bits = Struct [
     u8f ''strict_lag_tx_port_affinity'' 0x1, u8f ''tls_en'' 0x1, rsv 0x2 0x2,
     u8f ''lag_tx_port_affinity'' 0x4, rsv 0x8 0x4, u8f ''prio'' 0x4, rsv 0x10 0x10,
     rsv 0x20 0x100, rsv 0x120 0x8, u8f ''transport_domain'' 0x18, rsv 0x140 0x8,
     u8f ''underlay_qpn'' 0x18, rsv 0x160 0x8, u8f ''pd'' 0x18, rsv 0x180 0x380]"

definition mlx5_ifc_query_tis_out_bits :: layout where
  "mlx5_ifc_query_tis_out_bits = Struct [
     u8f ''status'' 0x8, rsv 0x8 0x18, u8f ''syndrome'' 0x20, rsv 0x40 0x40,
     (Named ''tis_context'', mlx5_ifc_tisc_bits)]"

definition mlx5_ifc_query_tis_in_bits :: layout where
  "mlx5_ifc_query_tis_in_bits = Struct [
     u8f ''opcode'' 0x10, rsv 0x10 0x10, rsv 0x20 0x10, u8f ''op_mod'' 0x10, rsv 0x40 0x8,
     u8f ''tisn'' 0x18, rsv 0x60 0x20]"

definition mlx5_ifc_lagc_bits :: layout where
  "mlx5_ifc_lagc_bits = Struct [
     rsv 0x0 0x1d, u8f ''lag_state'' 0x3, rsv 0x20 0x14, u8f ''tx_remap_affinity_2'' 0x4,
     rsv 0x38 0x4, u8f ''tx_remap_affinity_1'' 0x4]"

definition mlx5_ifc_query_lag_out_bits :: layout where
  "mlx5_ifc_query_lag_out_bits = Struct [
     u8f ''status'' 0x8, rsv 0x8 0x18, u8f ''syndrome'' 0x20, (Named ''ctx'', mlx5_ifc_lagc_bits)]"

definition mlx5_ifc_query_lag_in_bits :: layout where
  "mlx5_ifc_query_lag_in_bits = Struct [
     u8f ''opcode'' 0x10, rsv 0x10 0x10, rsv 0x20 0x10, u8f ''op_mod'' 0x10, rsv 0x40 0x40]"

definition mlx5_ifc_av_qp_mapping_bits :: layout where
  "mlx5_ifc_av_qp_mapping_bits = Struct [
     u8f ''modify_field_select'' 0x40, rsv 0x40 0x20, u8f ''qpn'' 0x20,
     (Named ''remote_address_vector'', mlx5_ifc_ud_av_bits)]"

definition mlx5_ifc_create_av_qp_mapping_in_bits :: layout where
  "mlx5_ifc_create_av_qp_mapping_in_bits = Struct [
     (Named ''hdr'', mlx5_ifc_general_obj_in_cmd_hdr_bits),
     (Named ''mapping'', mlx5_ifc_av_qp_mapping_bits)]"

definition mlx5_ifc_query_av_qp_mapping_out_bits :: layout where
  "mlx5_ifc_query_av_qp_mapping_out_bits = Struct [
     (Named ''hdr'', mlx5_ifc_general_obj_out_cmd_hdr_bits),
     (Named ''obj'', mlx5_ifc_av_qp_mapping_bits)]"

definition mlx5_ifc_modify_tis_out_bits :: layout where
  "mlx5_ifc_modify_tis_out_bits = Struct [
     u8f ''status'' 0x8, rsv 0x8 0x18, u8f ''syndrome'' 0x20, rsv 0x40 0x40]"

definition mlx5_ifc_modify_tis_bitmask_bits :: layout where
  "mlx5_ifc_modify_tis_bitmask_bits = Struct [
     rsv 0x0 0x20, rsv 0x20 0x1d, u8f ''lag_tx_port_affinity'' 0x1,
     u8f ''strict_lag_tx_port_affinity'' 0x1, u8f ''prio'' 0x1]"

definition mlx5_ifc_modify_tis_in_bits :: layout where
  "mlx5_ifc_modify_tis_in_bits = Struct [
     u8f ''opcode'' 0x10, u8f ''uid'' 0x10, rsv 0x20 0x10, u8f ''op_mod'' 0x10, rsv 0x40 0x8,
     u8f ''tisn'' 0x18, rsv 0x60 0x20, (Named ''bitmask'', mlx5_ifc_modify_tis_bitmask_bits),
     rsv 0xc0 0x40, (Named ''ctx'', mlx5_ifc_tisc_bits)]"

definition mlx5_ifc_roce_addr_layout_bits :: layout where
  "mlx5_ifc_roce_addr_layout_bits = Struct [
     (Named ''source_l3_address'', Array 16 (Bits 0x8)), rsv 0x80 0x3, u8f ''vlan_valid'' 0x1,
     u8f ''vlan_id'' 0xc, u8f ''source_mac_47_32'' 0x10, u8f ''source_mac_31_0'' 0x20,
     rsv 0xc0 0x14, u8f ''roce_l3_type'' 0x4, u8f ''roce_version'' 0x8, rsv 0xe0 0x20]"

definition mlx5_ifc_query_roce_address_out_bits :: layout where
  "mlx5_ifc_query_roce_address_out_bits = Struct [
     u8f ''status'' 0x8, rsv 0x8 0x18, u8f ''syndrome'' 0x20, rsv 0x40 0x40,
     (Named ''roce_address'', mlx5_ifc_roce_addr_layout_bits)]"

definition mlx5_ifc_query_roce_address_in_bits :: layout where
  "mlx5_ifc_query_roce_address_in_bits = Struct [
     u8f ''opcode'' 0x10, rsv 0x10 0x10, rsv 0x20 0x10, u8f ''op_mod'' 0x10,
     u8f ''roce_address_index'' 0x10, rsv 0x50 0xc, u8f ''vhca_port_num'' 0x4, rsv 0x60 0x20]"

definition mlx5_ifc_dr_action_hw_set_bits :: layout where
  "mlx5_ifc_dr_action_hw_set_bits = Struct [
     u8f ''opcode'' 0x8, u8f ''destination_field_code'' 0x8, rsv 0x10 0x2,
     u8f ''destination_left_shifter'' 0x6, rsv 0x18 0x3, u8f ''destination_length'' 0x5,
     u8f ''inline_data'' 0x20]"

definition mlx5_ifc_dr_action_hw_copy_bits :: layout where
  "mlx5_ifc_dr_action_hw_copy_bits = Struct [
     u8f ''opcode'' 0x8, u8f ''destination_field_code'' 0x8, rsv 0x10 0x2,
     u8f ''destination_left_shifter'' 0x6, rsv 0x18 0x2, u8f ''destination_length'' 0x6,
     rsv 0x20 0x8, u8f ''source_field_code'' 0x8, rsv 0x30 0x2, u8f ''source_left_shifter'' 0x6,
     rsv 0x38 0x8]"

definition mlx5_ifc_host_params_context_bits :: layout where
  "mlx5_ifc_host_params_context_bits = Struct [
     u8f ''host_number'' 0x8, rsv 0x8 0x6, u8f ''host_pf_vhca_id_valid'' 0x1,
     u8f ''host_pf_disabled'' 0x1, u8f ''host_num_of_vfs'' 0x10, u8f ''host_total_vfs'' 0x10,
     u8f ''host_pci_bus'' 0x10, u8f ''host_pf_vhca_id'' 0x10, u8f ''host_pci_device'' 0x10,
     rsv 0x60 0x10, u8f ''host_pci_function'' 0x10, rsv 0x80 0x180]"

definition mlx5_ifc_query_esw_functions_in_bits :: layout where
  "mlx5_ifc_query_esw_functions_in_bits = Struct [
     u8f ''opcode'' 0x10, rsv 0x10 0x10, rsv 0x20 0x10, u8f ''op_mod'' 0x10, rsv 0x40 0x40]"

definition mlx5_ifc_query_esw_functions_out_bits :: layout where
  "mlx5_ifc_query_esw_functions_out_bits = Struct [
     u8f ''status'' 0x8, rsv 0x8 0x18, u8f ''syndrome'' 0x20, rsv 0x40 0x40,
     (Named ''host_params_context'', mlx5_ifc_host_params_context_bits), rsv 0x280 0x180,
     (Named ''host_sf_enable'', Array 0 (Bits 0x40))]"

definition mlx5_ifc_create_flow_group_in_bits :: layout where
  "mlx5_ifc_create_flow_group_in_bits = Struct [
     u8f ''opcode'' 0x10, rsv 0x10 0x10, rsv 0x20 0x20, u8f ''other_vport'' 0x1, rsv 0x41 0xf,
     u8f ''vport_number'' 0x10, rsv 0x60 0x20, u8f ''table_type'' 0x8, rsv 0x88 0x18, rsv 0xa0 0x8,
     u8f ''table_id'' 0x18, rsv 0xc0 0x1f40]"

definition mlx5_ifc_create_flow_group_out_bits :: layout where
  "mlx5_ifc_create_flow_group_out_bits = Struct [
     u8f ''status'' 0x8, rsv 0x8 0x18, u8f ''syndrome'' 0x20, rsv 0x40 0x8, u8f ''group_id'' 0x18,
     rsv 0x60 0x20]"

definition mlx5_ifc_destroy_flow_group_in_bits :: layout where
  "mlx5_ifc_destroy_flow_group_in_bits = Struct [
     u8f ''opcode'' 0x10, rsv 0x10 0x10, rsv 0x20 0x20, u8f ''other_vport'' 0x1, rsv 0x41 0xf,
     u8f ''vport_number'' 0x10, rsv 0x60 0x20, u8f ''table_type'' 0x8, rsv 0x88 0x18, rsv 0xa0 0x8,
     u8f ''table_id'' 0x18, u8f ''group_id'' 0x20, rsv 0xe0 0x120]"

definition mlx5_ifc_dest_format_bits :: layout where
  "mlx5_ifc_dest_format_bits = Struct [
     u8f ''destination_type'' 0x8, u8f ''destination_id'' 0x18, rsv 0x20 0x1,
     u8f ''packet_reformat'' 0x1, rsv 0x22 0x1e]"

definition mlx5_ifc_extended_dest_format_bits :: layout where
  "mlx5_ifc_extended_dest_format_bits = Struct [
     (Named ''destination_entry'', mlx5_ifc_dest_format_bits), u8f ''packet_reformat_id'' 0x20,
     rsv 0x60 0x20]"

definition mlx5_ifc_flow_counter_list_bits :: layout where
  "mlx5_ifc_flow_counter_list_bits = Struct [
     u8f ''flow_counter_id'' 0x20, rsv 0x20 0x20]"

definition mlx5_ifc_dest_format_flow_counter_list_auto_bits :: layout where
  "mlx5_ifc_dest_format_flow_counter_list_auto_bits = Union [
     (Named ''dest_format'', mlx5_ifc_dest_format_bits),
     (Named ''flow_counter_list'', mlx5_ifc_flow_counter_list_bits), rsv 0x0 0x40]"

definition mlx5_ifc_flow_context_bits :: layout where
  "mlx5_ifc_flow_context_bits = Struct [
     rsv 0x00 0x20, u8f ''group_id'' 0x20, rsv 0x40 0x8, u8f ''flow_tag'' 0x18, rsv 0x60 0x10,
     u8f ''action'' 0x10, u8f ''extended_destination'' 0x1, rsv 0x81 0x7,
     u8f ''destination_list_size'' 0x18, rsv 0xa0 0x8, u8f ''flow_counter_list_size'' 0x18,
     rsv 0xc0 0x1740,
     (Named ''destination'', Array 0 mlx5_ifc_dest_format_flow_counter_list_auto_bits)]"

definition mlx5_ifc_set_fte_in_bits :: layout where
  "mlx5_ifc_set_fte_in_bits = Struct [
     u8f ''opcode'' 0x10, rsv 0x10 0x10, rsv 0x20 0x10, u8f ''op_mod'' 0x10,
     u8f ''other_vport'' 0x1, rsv 0x41 0xf, u8f ''vport_number'' 0x10, rsv 0x60 0x20,
     u8f ''table_type'' 0x8, rsv 0x88 0x18, rsv 0xa0 0x8, u8f ''table_id'' 0x18, rsv 0xc0 0x40,
     u8f ''flow_index'' 0x20, rsv 0x120 0xe0, (Named ''flow_context'', mlx5_ifc_flow_context_bits)]"

definition mlx5_ifc_set_fte_out_bits :: layout where
  "mlx5_ifc_set_fte_out_bits = Struct [
     u8f ''status'' 0x8, rsv 0x8 0x18, u8f ''syndrome'' 0x20, rsv 0x40 0x40]"

text \<open>Sizes of the layouts used inside others, and the checks.\<close>

lemma size_dctc [ifc_size]:
  "size_bits mlx5_ifc_dctc_bits = 0x380"
  "accessible mlx5_ifc_dctc_bits"
  by (simp_all add: place_ok_def mlx5_ifc_dctc_bits_def)

lemma size_packet_reformat_context_in [ifc_size]:
  "size_bits mlx5_ifc_packet_reformat_context_in_bits = 0x40"
  "accessible mlx5_ifc_packet_reformat_context_in_bits"
  by (simp_all add: place_ok_def mlx5_ifc_packet_reformat_context_in_bits_def)

lemma check_alloc_packet_reformat_context_in [ifc_nested]:
  "accessible mlx5_ifc_alloc_packet_reformat_context_in_bits"
  "misnamed mlx5_ifc_alloc_packet_reformat_context_in_bits = []"
  by (simp_all add: place_ok_def mlx5_ifc_alloc_packet_reformat_context_in_bits_def ifc_size)

lemma size_general_obj_in_cmd_hdr [ifc_size]:
  "size_bits mlx5_ifc_general_obj_in_cmd_hdr_bits = 0x80"
  "accessible mlx5_ifc_general_obj_in_cmd_hdr_bits"
  by (simp_all add: place_ok_def mlx5_ifc_general_obj_in_cmd_hdr_bits_def)

lemma size_general_obj_out_cmd_hdr [ifc_size]:
  "size_bits mlx5_ifc_general_obj_out_cmd_hdr_bits = 0x80"
  "accessible mlx5_ifc_general_obj_out_cmd_hdr_bits"
  by (simp_all add: place_ok_def mlx5_ifc_general_obj_out_cmd_hdr_bits_def)

lemma size_flow_meter [ifc_size]:
  "size_bits mlx5_ifc_flow_meter_bits = 0x400"
  "accessible mlx5_ifc_flow_meter_bits"
  by (simp_all add: place_ok_def mlx5_ifc_flow_meter_bits_def)

lemma check_create_flow_meter_in [ifc_nested]:
  "accessible mlx5_ifc_create_flow_meter_in_bits"
  "misnamed mlx5_ifc_create_flow_meter_in_bits = []"
  by (simp_all add: place_ok_def mlx5_ifc_create_flow_meter_in_bits_def ifc_size)

lemma check_query_flow_meter_out [ifc_nested]:
  "accessible mlx5_ifc_query_flow_meter_out_bits"
  "misnamed mlx5_ifc_query_flow_meter_out_bits = []"
  by (simp_all add: place_ok_def mlx5_ifc_query_flow_meter_out_bits_def ifc_size)

lemma size_flow_sampler [ifc_size]:
  "size_bits mlx5_ifc_flow_sampler_bits = 0x140"
  "accessible mlx5_ifc_flow_sampler_bits"
  by (simp_all add: place_ok_def mlx5_ifc_flow_sampler_bits_def)

lemma check_create_flow_sampler_in [ifc_nested]:
  "accessible mlx5_ifc_create_flow_sampler_in_bits"
  "misnamed mlx5_ifc_create_flow_sampler_in_bits = []"
  by (simp_all add: place_ok_def mlx5_ifc_create_flow_sampler_in_bits_def ifc_size)

lemma check_query_flow_sampler_out [ifc_nested]:
  "accessible mlx5_ifc_query_flow_sampler_out_bits"
  "misnamed mlx5_ifc_query_flow_sampler_out_bits = []"
  by (simp_all add: place_ok_def mlx5_ifc_query_flow_sampler_out_bits_def ifc_size)

lemma size_definer [ifc_size]:
  "size_bits mlx5_ifc_definer_bits = 0x400"
  "accessible mlx5_ifc_definer_bits"
  by (simp_all add: place_ok_def mlx5_ifc_definer_bits_def)

lemma check_create_definer_in [ifc_nested]:
  "accessible mlx5_ifc_create_definer_in_bits"
  "misnamed mlx5_ifc_create_definer_in_bits = []"
  by (simp_all add: place_ok_def mlx5_ifc_create_definer_in_bits_def ifc_size)

lemma size_esw_vport_context [ifc_size]:
  "size_bits mlx5_ifc_esw_vport_context_bits = 0x800"
  "accessible mlx5_ifc_esw_vport_context_bits"
  by (simp_all add: place_ok_def mlx5_ifc_esw_vport_context_bits_def)

lemma check_query_esw_vport_context_out [ifc_nested]:
  "accessible mlx5_ifc_query_esw_vport_context_out_bits"
  "misnamed mlx5_ifc_query_esw_vport_context_out_bits = []"
  by (simp_all add: place_ok_def mlx5_ifc_query_esw_vport_context_out_bits_def ifc_size)

lemma size_nic_vport_context [ifc_size]:
  "size_bits mlx5_ifc_nic_vport_context_bits = 0x800"
  "accessible mlx5_ifc_nic_vport_context_bits"
  by (simp_all add: place_ok_def mlx5_ifc_nic_vport_context_bits_def)

lemma check_query_nic_vport_context_out [ifc_nested]:
  "accessible mlx5_ifc_query_nic_vport_context_out_bits"
  "misnamed mlx5_ifc_query_nic_vport_context_out_bits = []"
  by (simp_all add: place_ok_def mlx5_ifc_query_nic_vport_context_out_bits_def ifc_size)

lemma size_ud_av [ifc_size]:
  "size_bits mlx5_ifc_ud_av_bits = 0x180"
  "accessible mlx5_ifc_ud_av_bits"
  by (simp_all add: place_ok_def mlx5_ifc_ud_av_bits_def)

lemma size_ads [ifc_size]:
  "size_bits mlx5_ifc_ads_bits = 0x160"
  "accessible mlx5_ifc_ads_bits"
  by (simp_all add: place_ok_def mlx5_ifc_ads_bits_def)

lemma size_qpc [ifc_size]:
  "size_bits mlx5_ifc_qpc_bits = 0x740"
  "accessible mlx5_ifc_qpc_bits"
  by (simp_all add: place_ok_def mlx5_ifc_qpc_bits_def ifc_size)

lemma check_qpc [ifc_nested]:
  "accessible mlx5_ifc_qpc_bits"
  "misnamed mlx5_ifc_qpc_bits = []"
  by (simp_all add: place_ok_def mlx5_ifc_qpc_bits_def ifc_size)

lemma size_qpc_ext [ifc_size]:
  "size_bits mlx5_ifc_qpc_ext_bits = 0x600"
  "accessible mlx5_ifc_qpc_ext_bits"
  by (simp_all add: place_ok_def mlx5_ifc_qpc_ext_bits_def)

lemma check_create_qp_in [ifc_nested]:
  "accessible mlx5_ifc_create_qp_in_bits"
  "misnamed mlx5_ifc_create_qp_in_bits = []"
  by (simp_all add: place_ok_def mlx5_ifc_create_qp_in_bits_def ifc_size)

lemma check_init2init_qp_in [ifc_nested]:
  "accessible mlx5_ifc_init2init_qp_in_bits"
  "misnamed mlx5_ifc_init2init_qp_in_bits = []"
  by (simp_all add: place_ok_def mlx5_ifc_init2init_qp_in_bits_def ifc_size)

lemma check_init2rtr_qp_in [ifc_nested]:
  "accessible mlx5_ifc_init2rtr_qp_in_bits"
  "misnamed mlx5_ifc_init2rtr_qp_in_bits = []"
  by (simp_all add: place_ok_def mlx5_ifc_init2rtr_qp_in_bits_def ifc_size)

lemma check_rtr2rts_qp_in [ifc_nested]:
  "accessible mlx5_ifc_rtr2rts_qp_in_bits"
  "misnamed mlx5_ifc_rtr2rts_qp_in_bits = []"
  by (simp_all add: place_ok_def mlx5_ifc_rtr2rts_qp_in_bits_def ifc_size)

lemma check_rst2init_qp_in [ifc_nested]:
  "accessible mlx5_ifc_rst2init_qp_in_bits"
  "misnamed mlx5_ifc_rst2init_qp_in_bits = []"
  by (simp_all add: place_ok_def mlx5_ifc_rst2init_qp_in_bits_def ifc_size)

lemma check_rts2rts_qp_in [ifc_nested]:
  "accessible mlx5_ifc_rts2rts_qp_in_bits"
  "misnamed mlx5_ifc_rts2rts_qp_in_bits = []"
  by (simp_all add: place_ok_def mlx5_ifc_rts2rts_qp_in_bits_def ifc_size)

lemma check_query_qp_out [ifc_nested]:
  "accessible mlx5_ifc_query_qp_out_bits"
  "misnamed mlx5_ifc_query_qp_out_bits = []"
  by (simp_all add: place_ok_def mlx5_ifc_query_qp_out_bits_def ifc_size)

lemma check_query_dct_out [ifc_nested]:
  "accessible mlx5_ifc_query_dct_out_bits"
  "misnamed mlx5_ifc_query_dct_out_bits = []"
  by (simp_all add: place_ok_def mlx5_ifc_query_dct_out_bits_def ifc_size)

lemma size_tisc [ifc_size]:
  "size_bits mlx5_ifc_tisc_bits = 0x500"
  "accessible mlx5_ifc_tisc_bits"
  by (simp_all add: place_ok_def mlx5_ifc_tisc_bits_def)

lemma check_query_tis_out [ifc_nested]:
  "accessible mlx5_ifc_query_tis_out_bits"
  "misnamed mlx5_ifc_query_tis_out_bits = []"
  by (simp_all add: place_ok_def mlx5_ifc_query_tis_out_bits_def ifc_size)

lemma size_lagc [ifc_size]:
  "size_bits mlx5_ifc_lagc_bits = 0x40"
  "accessible mlx5_ifc_lagc_bits"
  by (simp_all add: place_ok_def mlx5_ifc_lagc_bits_def)

lemma check_query_lag_out [ifc_nested]:
  "accessible mlx5_ifc_query_lag_out_bits"
  "misnamed mlx5_ifc_query_lag_out_bits = []"
  by (simp_all add: place_ok_def mlx5_ifc_query_lag_out_bits_def ifc_size)

lemma size_av_qp_mapping [ifc_size]:
  "size_bits mlx5_ifc_av_qp_mapping_bits = 0x200"
  "accessible mlx5_ifc_av_qp_mapping_bits"
  by (simp_all add: place_ok_def mlx5_ifc_av_qp_mapping_bits_def ifc_size)

lemma check_av_qp_mapping [ifc_nested]:
  "accessible mlx5_ifc_av_qp_mapping_bits"
  "misnamed mlx5_ifc_av_qp_mapping_bits = []"
  by (simp_all add: place_ok_def mlx5_ifc_av_qp_mapping_bits_def ifc_size)

lemma check_create_av_qp_mapping_in [ifc_nested]:
  "accessible mlx5_ifc_create_av_qp_mapping_in_bits"
  "misnamed mlx5_ifc_create_av_qp_mapping_in_bits = []"
  by (simp_all add: place_ok_def mlx5_ifc_create_av_qp_mapping_in_bits_def ifc_size)

lemma check_query_av_qp_mapping_out [ifc_nested]:
  "accessible mlx5_ifc_query_av_qp_mapping_out_bits"
  "misnamed mlx5_ifc_query_av_qp_mapping_out_bits = []"
  by (simp_all add: place_ok_def mlx5_ifc_query_av_qp_mapping_out_bits_def ifc_size)

lemma size_modify_tis_bitmask [ifc_size]:
  "size_bits mlx5_ifc_modify_tis_bitmask_bits = 0x40"
  "accessible mlx5_ifc_modify_tis_bitmask_bits"
  by (simp_all add: place_ok_def mlx5_ifc_modify_tis_bitmask_bits_def)

lemma check_modify_tis_in [ifc_nested]:
  "accessible mlx5_ifc_modify_tis_in_bits"
  "misnamed mlx5_ifc_modify_tis_in_bits = []"
  by (simp_all add: place_ok_def mlx5_ifc_modify_tis_in_bits_def ifc_size)

lemma size_roce_addr_layout [ifc_size]:
  "size_bits mlx5_ifc_roce_addr_layout_bits = 0x100"
  "accessible mlx5_ifc_roce_addr_layout_bits"
  by (simp_all add: place_ok_def mlx5_ifc_roce_addr_layout_bits_def)

lemma check_query_roce_address_out [ifc_nested]:
  "accessible mlx5_ifc_query_roce_address_out_bits"
  "misnamed mlx5_ifc_query_roce_address_out_bits = []"
  by (simp_all add: place_ok_def mlx5_ifc_query_roce_address_out_bits_def ifc_size)

lemma size_host_params_context [ifc_size]:
  "size_bits mlx5_ifc_host_params_context_bits = 0x200"
  "accessible mlx5_ifc_host_params_context_bits"
  by (simp_all add: place_ok_def mlx5_ifc_host_params_context_bits_def)

lemma check_query_esw_functions_out [ifc_nested]:
  "accessible mlx5_ifc_query_esw_functions_out_bits"
  "misnamed mlx5_ifc_query_esw_functions_out_bits = []"
  by (simp_all add: place_ok_def mlx5_ifc_query_esw_functions_out_bits_def ifc_size)

lemma size_dest_format [ifc_size]:
  "size_bits mlx5_ifc_dest_format_bits = 0x40"
  "accessible mlx5_ifc_dest_format_bits"
  by (simp_all add: place_ok_def mlx5_ifc_dest_format_bits_def)

lemma check_extended_dest_format [ifc_nested]:
  "accessible mlx5_ifc_extended_dest_format_bits"
  "misnamed mlx5_ifc_extended_dest_format_bits = []"
  by (simp_all add: place_ok_def mlx5_ifc_extended_dest_format_bits_def ifc_size)

lemma size_flow_counter_list [ifc_size]:
  "size_bits mlx5_ifc_flow_counter_list_bits = 0x40"
  "accessible mlx5_ifc_flow_counter_list_bits"
  by (simp_all add: place_ok_def mlx5_ifc_flow_counter_list_bits_def)

lemma size_dest_format_flow_counter_list_auto [ifc_size]:
  "size_bits mlx5_ifc_dest_format_flow_counter_list_auto_bits = 0x40"
  "accessible mlx5_ifc_dest_format_flow_counter_list_auto_bits"
  by (simp_all add: place_ok_def mlx5_ifc_dest_format_flow_counter_list_auto_bits_def ifc_size)

lemma check_dest_format_flow_counter_list_auto [ifc_nested]:
  "accessible mlx5_ifc_dest_format_flow_counter_list_auto_bits"
  "misnamed mlx5_ifc_dest_format_flow_counter_list_auto_bits = []"
  by (simp_all add: place_ok_def mlx5_ifc_dest_format_flow_counter_list_auto_bits_def ifc_size)

lemma size_flow_context [ifc_size]:
  "size_bits mlx5_ifc_flow_context_bits = 0x1800"
  "accessible mlx5_ifc_flow_context_bits"
  by (simp_all add: place_ok_def mlx5_ifc_flow_context_bits_def ifc_size)

lemma check_flow_context [ifc_nested]:
  "accessible mlx5_ifc_flow_context_bits"
  "misnamed mlx5_ifc_flow_context_bits = []"
  by (simp_all add: place_ok_def mlx5_ifc_flow_context_bits_def ifc_size)

lemma check_set_fte_in [ifc_nested]:
  "accessible mlx5_ifc_set_fte_in_bits"
  "misnamed mlx5_ifc_set_fte_in_bits = []"
  by (simp_all add: place_ok_def mlx5_ifc_set_fte_in_bits_def ifc_size)

text \<open>The layouts of this theory by name.\<close>

definition ifc_objects :: "(string \<times> layout) list" where
  "ifc_objects = [
     (''dctc'', mlx5_ifc_dctc_bits),
     (''packet_reformat_context_in'', mlx5_ifc_packet_reformat_context_in_bits),
     (''alloc_packet_reformat_context_in'', mlx5_ifc_alloc_packet_reformat_context_in_bits),
     (''alloc_packet_reformat_context_out'', mlx5_ifc_alloc_packet_reformat_context_out_bits),
     (''dealloc_packet_reformat_context_in'', mlx5_ifc_dealloc_packet_reformat_context_in_bits),
     (''dealloc_packet_reformat_context_out'', mlx5_ifc_dealloc_packet_reformat_context_out_bits),
     (''alloc_flow_counter_in'', mlx5_ifc_alloc_flow_counter_in_bits),
     (''alloc_flow_counter_out'', mlx5_ifc_alloc_flow_counter_out_bits),
     (''dealloc_flow_counter_in'', mlx5_ifc_dealloc_flow_counter_in_bits),
     (''general_obj_in_cmd_hdr'', mlx5_ifc_general_obj_in_cmd_hdr_bits),
     (''general_obj_out_cmd_hdr'', mlx5_ifc_general_obj_out_cmd_hdr_bits),
     (''flow_meter'', mlx5_ifc_flow_meter_bits),
     (''create_flow_meter_in'', mlx5_ifc_create_flow_meter_in_bits),
     (''query_flow_meter_out'', mlx5_ifc_query_flow_meter_out_bits),
     (''flow_sampler'', mlx5_ifc_flow_sampler_bits),
     (''create_flow_sampler_in'', mlx5_ifc_create_flow_sampler_in_bits),
     (''query_flow_sampler_out'', mlx5_ifc_query_flow_sampler_out_bits),
     (''definer'', mlx5_ifc_definer_bits),
     (''create_definer_in'', mlx5_ifc_create_definer_in_bits),
     (''esw_vport_context'', mlx5_ifc_esw_vport_context_bits),
     (''query_esw_vport_context_out'', mlx5_ifc_query_esw_vport_context_out_bits),
     (''query_esw_vport_context_in'', mlx5_ifc_query_esw_vport_context_in_bits),
     (''nic_vport_context'', mlx5_ifc_nic_vport_context_bits),
     (''query_nic_vport_context_out'', mlx5_ifc_query_nic_vport_context_out_bits),
     (''query_nic_vport_context_in'', mlx5_ifc_query_nic_vport_context_in_bits),
     (''ud_av'', mlx5_ifc_ud_av_bits), (''ads'', mlx5_ifc_ads_bits), (''qpc'', mlx5_ifc_qpc_bits),
     (''qpc_ext'', mlx5_ifc_qpc_ext_bits), (''create_tir_out'', mlx5_ifc_create_tir_out_bits),
     (''destroy_tir_in'', mlx5_ifc_destroy_tir_in_bits),
     (''create_qp_out'', mlx5_ifc_create_qp_out_bits),
     (''create_qp_in'', mlx5_ifc_create_qp_in_bits),
     (''destroy_qp_in'', mlx5_ifc_destroy_qp_in_bits),
     (''init2init_qp_out'', mlx5_ifc_init2init_qp_out_bits),
     (''init2init_qp_in'', mlx5_ifc_init2init_qp_in_bits),
     (''init2rtr_qp_out'', mlx5_ifc_init2rtr_qp_out_bits),
     (''init2rtr_qp_in'', mlx5_ifc_init2rtr_qp_in_bits),
     (''rtr2rts_qp_out'', mlx5_ifc_rtr2rts_qp_out_bits),
     (''rtr2rts_qp_in'', mlx5_ifc_rtr2rts_qp_in_bits),
     (''rst2init_qp_out'', mlx5_ifc_rst2init_qp_out_bits),
     (''rst2init_qp_in'', mlx5_ifc_rst2init_qp_in_bits),
     (''rts2rts_qp_out'', mlx5_ifc_rts2rts_qp_out_bits),
     (''rts2rts_qp_in'', mlx5_ifc_rts2rts_qp_in_bits),
     (''query_qp_out'', mlx5_ifc_query_qp_out_bits), (''query_qp_in'', mlx5_ifc_query_qp_in_bits),
     (''query_dct_out'', mlx5_ifc_query_dct_out_bits),
     (''query_dct_in'', mlx5_ifc_query_dct_in_bits), (''tisc'', mlx5_ifc_tisc_bits),
     (''query_tis_out'', mlx5_ifc_query_tis_out_bits),
     (''query_tis_in'', mlx5_ifc_query_tis_in_bits), (''lagc'', mlx5_ifc_lagc_bits),
     (''query_lag_out'', mlx5_ifc_query_lag_out_bits),
     (''query_lag_in'', mlx5_ifc_query_lag_in_bits),
     (''av_qp_mapping'', mlx5_ifc_av_qp_mapping_bits),
     (''create_av_qp_mapping_in'', mlx5_ifc_create_av_qp_mapping_in_bits),
     (''query_av_qp_mapping_out'', mlx5_ifc_query_av_qp_mapping_out_bits),
     (''modify_tis_out'', mlx5_ifc_modify_tis_out_bits),
     (''modify_tis_bitmask'', mlx5_ifc_modify_tis_bitmask_bits),
     (''modify_tis_in'', mlx5_ifc_modify_tis_in_bits),
     (''roce_addr_layout'', mlx5_ifc_roce_addr_layout_bits),
     (''query_roce_address_out'', mlx5_ifc_query_roce_address_out_bits),
     (''query_roce_address_in'', mlx5_ifc_query_roce_address_in_bits),
     (''dr_action_hw_set'', mlx5_ifc_dr_action_hw_set_bits),
     (''dr_action_hw_copy'', mlx5_ifc_dr_action_hw_copy_bits),
     (''host_params_context'', mlx5_ifc_host_params_context_bits),
     (''query_esw_functions_in'', mlx5_ifc_query_esw_functions_in_bits),
     (''query_esw_functions_out'', mlx5_ifc_query_esw_functions_out_bits),
     (''create_flow_group_in'', mlx5_ifc_create_flow_group_in_bits),
     (''create_flow_group_out'', mlx5_ifc_create_flow_group_out_bits),
     (''destroy_flow_group_in'', mlx5_ifc_destroy_flow_group_in_bits),
     (''dest_format'', mlx5_ifc_dest_format_bits),
     (''extended_dest_format'', mlx5_ifc_extended_dest_format_bits),
     (''flow_counter_list'', mlx5_ifc_flow_counter_list_bits),
     (''dest_format_flow_counter_list_auto'', mlx5_ifc_dest_format_flow_counter_list_auto_bits),
     (''flow_context'', mlx5_ifc_flow_context_bits), (''set_fte_in'', mlx5_ifc_set_fte_in_bits),
     (''set_fte_out'', mlx5_ifc_set_fte_out_bits)]"

lemmas ifc_objects_defs =
  mlx5_ifc_dctc_bits_def mlx5_ifc_packet_reformat_context_in_bits_def
  mlx5_ifc_alloc_packet_reformat_context_out_bits_def
  mlx5_ifc_dealloc_packet_reformat_context_in_bits_def
  mlx5_ifc_dealloc_packet_reformat_context_out_bits_def mlx5_ifc_alloc_flow_counter_in_bits_def
  mlx5_ifc_alloc_flow_counter_out_bits_def mlx5_ifc_dealloc_flow_counter_in_bits_def
  mlx5_ifc_general_obj_in_cmd_hdr_bits_def mlx5_ifc_general_obj_out_cmd_hdr_bits_def
  mlx5_ifc_flow_meter_bits_def mlx5_ifc_flow_sampler_bits_def mlx5_ifc_definer_bits_def
  mlx5_ifc_esw_vport_context_bits_def mlx5_ifc_query_esw_vport_context_in_bits_def
  mlx5_ifc_nic_vport_context_bits_def mlx5_ifc_query_nic_vport_context_in_bits_def
  mlx5_ifc_ud_av_bits_def mlx5_ifc_ads_bits_def mlx5_ifc_qpc_ext_bits_def
  mlx5_ifc_create_tir_out_bits_def mlx5_ifc_destroy_tir_in_bits_def
  mlx5_ifc_create_qp_out_bits_def mlx5_ifc_destroy_qp_in_bits_def
  mlx5_ifc_init2init_qp_out_bits_def mlx5_ifc_init2rtr_qp_out_bits_def
  mlx5_ifc_rtr2rts_qp_out_bits_def mlx5_ifc_rst2init_qp_out_bits_def
  mlx5_ifc_rts2rts_qp_out_bits_def mlx5_ifc_query_qp_in_bits_def mlx5_ifc_query_dct_in_bits_def
  mlx5_ifc_tisc_bits_def mlx5_ifc_query_tis_in_bits_def mlx5_ifc_lagc_bits_def
  mlx5_ifc_query_lag_in_bits_def mlx5_ifc_modify_tis_out_bits_def
  mlx5_ifc_modify_tis_bitmask_bits_def mlx5_ifc_roce_addr_layout_bits_def
  mlx5_ifc_query_roce_address_in_bits_def mlx5_ifc_dr_action_hw_set_bits_def
  mlx5_ifc_dr_action_hw_copy_bits_def mlx5_ifc_host_params_context_bits_def
  mlx5_ifc_query_esw_functions_in_bits_def mlx5_ifc_create_flow_group_in_bits_def
  mlx5_ifc_create_flow_group_out_bits_def mlx5_ifc_destroy_flow_group_in_bits_def
  mlx5_ifc_dest_format_bits_def mlx5_ifc_flow_counter_list_bits_def mlx5_ifc_set_fte_out_bits_def

lemma ifc_objects_accessible: "list_all (\<lambda>(_, l). accessible l) ifc_objects"
  by (simp add: place_ok_def ifc_objects_def ifc_nested ifc_objects_defs)

lemma ifc_objects_misnamed: "misnamed_all ifc_objects = [
     (''flow_meter'', 0x180, 0x200), (''definer'', 0x60, 0xa0), (''esw_vport_context'', 0x40, 0x60)]"
  by (simp add: misnamed_all_def ifc_objects_def ifc_nested ifc_objects_defs)

end
