(* ===== verification/Ifc_Commands.thy ===== *)
theory Ifc_Commands
  imports Ifc_Objects
begin

text \<open>
  Layouts of \<^verbatim>\<open>mlx5_ifc.h\<close> for scheduling elements, page and
  event-queue management and the object create and destroy commands, in the order of
  the header, and the completion-queue layouts of \<^verbatim>\<open>mlx5_prm.h\<close>.
\<close>

definition mlx5_ifc_sched_elem_attr_tsar_bits :: layout where
  "mlx5_ifc_sched_elem_attr_tsar_bits = Struct [
     rsv 0x0 0x8, u8f ''tsar_type'' 0x8, rsv 0x10 0x10]"

definition mlx5_ifc_sched_elem_attr_bits :: layout where
  "mlx5_ifc_sched_elem_attr_bits = Union [
     (Named ''tsar'', mlx5_ifc_sched_elem_attr_tsar_bits)]"

definition mlx5_ifc_sched_context_bits :: layout where
  "mlx5_ifc_sched_context_bits = Struct [
     u8f ''element_type'' 0x8, rsv 0x8 0x18,
     (Named ''sched_elem_attr'', mlx5_ifc_sched_elem_attr_bits), u8f ''parent_element_id'' 0x20,
     rsv 0x60 0x40, u8f ''bw_share'' 0x20, u8f ''max_average_bw'' 0x20, rsv 0xe0 0x120]"

definition mlx5_ifc_sched_elem_bits :: layout where
  "mlx5_ifc_sched_elem_bits = Struct [
     u8f ''modify_field_select'' 0x40, u8f ''scheduling_hierarchy'' 0x8, rsv 0x48 0x18,
     rsv 0x60 0xa0, (Named ''sched_context'', mlx5_ifc_sched_context_bits), rsv 0x300 0x100]"

definition mlx5_ifc_create_sched_elem_in_bits :: layout where
  "mlx5_ifc_create_sched_elem_in_bits = Struct [
     (Named ''hdr'', mlx5_ifc_general_obj_in_cmd_hdr_bits),
     (Named ''sched_elem'', mlx5_ifc_sched_elem_bits)]"

definition mlx5_ifc_create_modify_elem_in_bits :: layout where
  "mlx5_ifc_create_modify_elem_in_bits = Struct [
     (Named ''hdr'', mlx5_ifc_general_obj_in_cmd_hdr_bits),
     (Named ''sched_elem'', mlx5_ifc_sched_elem_bits)]"

definition mlx5_ifc_sqc_bits :: layout where
  "mlx5_ifc_sqc_bits = Struct [
     rsv 0x0 0x8, u8f ''state'' 0x4, rsv 0xc 0x14, rsv 0x20 0xe0, rsv 0x100 0x10,
     u8f ''qos_queue_group_id'' 0x10, rsv 0x120 0x660]"

definition mlx5_ifc_modify_sq_out_bits :: layout where
  "mlx5_ifc_modify_sq_out_bits = Struct [
     u8f ''status'' 0x8, rsv 0x8 0x18, u8f ''syndrome'' 0x20, rsv 0x40 0x40]"

definition mlx5_ifc_modify_sq_in_bits :: layout where
  "mlx5_ifc_modify_sq_in_bits = Struct [
     u8f ''opcode'' 0x10, u8f ''uid'' 0x10, rsv 0x20 0x10, u8f ''op_mod'' 0x10,
     u8f ''sq_state'' 0x4, rsv 0x44 0x4, u8f ''sqn'' 0x18, rsv 0x60 0x20,
     u8f ''modify_bitmask'' 0x40, rsv 0xc0 0x40, (Named ''sq_context'', mlx5_ifc_sqc_bits)]"

definition mlx5_ifc_reserved_qpn_bits :: layout where
  "mlx5_ifc_reserved_qpn_bits = Struct [
     rsv 0x0 0x80]"

definition mlx5_ifc_create_reserved_qpn_in_bits :: layout where
  "mlx5_ifc_create_reserved_qpn_in_bits = Struct [
     (Named ''hdr'', mlx5_ifc_general_obj_in_cmd_hdr_bits),
     (Named ''rqpns'', mlx5_ifc_reserved_qpn_bits)]"

definition mlx5_ifc_create_psv_out_bits :: layout where
  "mlx5_ifc_create_psv_out_bits = Struct [
     u8f ''status'' 0x8, rsv 0x8 0x18, u8f ''syndrome'' 0x20, rsv 0x40 0x40, rsv 0x80 0x8,
     u8f ''psv0_index'' 0x18, rsv 0xa0 0x8, u8f ''psv1_index'' 0x18, rsv 0xc0 0x8,
     u8f ''psv2_index'' 0x18, rsv 0xe0 0x8, u8f ''psv3_index'' 0x18]"

definition mlx5_ifc_create_psv_in_bits :: layout where
  "mlx5_ifc_create_psv_in_bits = Struct [
     u8f ''opcode'' 0x10, rsv 0x10 0x10, rsv 0x20 0x10, u8f ''op_mod'' 0x10, u8f ''num_psv'' 0x4,
     rsv 0x44 0x4, u8f ''pd'' 0x18, rsv 0x60 0x20]"

definition mlx5_ifc_destroy_psv_in_bits :: layout where
  "mlx5_ifc_destroy_psv_in_bits = Struct [
     u8f ''opcode'' 0x10, rsv 0x10 0x10, rsv 0x20 0x20, rsv 0x40 0x8, u8f ''psvn'' 0x18,
     rsv 0x60 0x20]"

definition mlx5_ifc_mbox_out_bits :: layout where
  "mlx5_ifc_mbox_out_bits = Struct [
     u8f ''status'' 0x8, rsv 0x8 0x18, u8f ''syndrome'' 0x20, rsv 0x40 0x40]"

definition mlx5_ifc_mbox_in_bits :: layout where
  "mlx5_ifc_mbox_in_bits = Struct [
     u8f ''opcode'' 0x10, u8f ''uid'' 0x10, rsv 0x20 0x10, u8f ''op_mod'' 0x10, rsv 0x40 0x40]"

definition mlx5_ifc_enable_hca_in_bits :: layout where
  "mlx5_ifc_enable_hca_in_bits = Struct [
     u8f ''opcode'' 0x10, rsv 0x10 0x10, rsv 0x20 0x10, u8f ''op_mod'' 0x10, rsv 0x40 0x10,
     u8f ''function_id'' 0x10, rsv 0x60 0x20]"

definition mlx5_ifc_enable_hca_out_bits :: layout where
  "mlx5_ifc_enable_hca_out_bits = Struct [
     u8f ''status'' 0x8, rsv 0x8 0x18, u8f ''syndrome'' 0x20, rsv 0x40 0x20]"

definition mlx5_ifc_query_issi_out_bits :: layout where
  "mlx5_ifc_query_issi_out_bits = Struct [
     u8f ''status'' 0x8, rsv 0x8 0x18, u8f ''syndrome'' 0x20, rsv 0x40 0x10,
     u8f ''current_issi'' 0x10, rsv 0x60 0xa0, (Reserved_at 0x100, Array 76 (Bits 0x8)),
     u8f ''supported_issi_dw0'' 0x20]"

definition mlx5_ifc_query_issi_in_bits :: layout where
  "mlx5_ifc_query_issi_in_bits = Struct [
     u8f ''opcode'' 0x10, rsv 0x10 0x10, rsv 0x20 0x10, u8f ''op_mod'' 0x10, rsv 0x40 0x40]"

definition mlx5_ifc_set_issi_out_bits :: layout where
  "mlx5_ifc_set_issi_out_bits = Struct [
     u8f ''status'' 0x8, rsv 0x8 0x18, u8f ''syndrome'' 0x20, rsv 0x40 0x40]"

definition mlx5_ifc_set_issi_in_bits :: layout where
  "mlx5_ifc_set_issi_in_bits = Struct [
     u8f ''opcode'' 0x10, rsv 0x10 0x10, rsv 0x20 0x10, u8f ''op_mod'' 0x10, rsv 0x40 0x10,
     u8f ''current_issi'' 0x10, rsv 0x60 0x20]"

definition mlx5_ifc_query_pages_out_bits :: layout where
  "mlx5_ifc_query_pages_out_bits = Struct [
     u8f ''status'' 0x8, rsv 0x8 0x18, u8f ''syndrome'' 0x20, u8f ''embedded_cpu_function'' 0x1,
     u8f ''reserved_bits'' 0xf, u8f ''function_id'' 0x10, u8f ''num_pages'' 0x20]"

definition mlx5_ifc_query_pages_in_bits :: layout where
  "mlx5_ifc_query_pages_in_bits = Struct [
     u8f ''opcode'' 0x10, rsv 0x10 0x10, rsv 0x20 0x10, u8f ''op_mod'' 0x10, rsv 0x40 0x10,
     u8f ''function_id'' 0x10, rsv 0x60 0x20]"

definition mlx5_ifc_manage_pages_out_bits :: layout where
  "mlx5_ifc_manage_pages_out_bits = Struct [
     u8f ''status'' 0x8, rsv 0x8 0x18, u8f ''syndrome'' 0x20, u8f ''output_num_entries'' 0x20,
     rsv 0x60 0x20, (Named ''pas'', Array 0 (Bits 0x40))]"

definition mlx5_ifc_manage_pages_in_bits :: layout where
  "mlx5_ifc_manage_pages_in_bits = Struct [
     u8f ''opcode'' 0x10, rsv 0x10 0x10, rsv 0x20 0x10, u8f ''op_mod'' 0x10,
     u8f ''embedded_cpu_function'' 0x1, rsv 0x41 0xf, u8f ''function_id'' 0x10,
     u8f ''input_num_entries'' 0x20, (Named ''pas'', Array 0 (Bits 0x40))]"

definition mlx5_ifc_teardown_hca_out_bits :: layout where
  "mlx5_ifc_teardown_hca_out_bits = Struct [
     u8f ''status'' 0x8, rsv 0x8 0x18, u8f ''syndrome'' 0x20, rsv 0x40 0x3f, u8f ''state'' 0x1]"

definition mlx5_ifc_teardown_hca_in_bits :: layout where
  "mlx5_ifc_teardown_hca_in_bits = Struct [
     u8f ''opcode'' 0x10, rsv 0x10 0x10, rsv 0x20 0x10, u8f ''op_mod'' 0x10, rsv 0x40 0x10,
     u8f ''profile'' 0x10, rsv 0x60 0x20]"

definition mlx5_ifc_init_hca_out_bits :: layout where
  "mlx5_ifc_init_hca_out_bits = Struct [
     u8f ''status'' 0x8, rsv 0x8 0x18, u8f ''syndrome'' 0x20, rsv 0x40 0x40]"

definition mlx5_ifc_init_hca_in_bits :: layout where
  "mlx5_ifc_init_hca_in_bits = Struct [
     u8f ''opcode'' 0x10, rsv 0x10 0x10, rsv 0x20 0x10, u8f ''op_mod'' 0x10, rsv 0x40 0x40]"

definition mlx5_ifc_access_register_out_bits :: layout where
  "mlx5_ifc_access_register_out_bits = Struct [
     u8f ''status'' 0x8, rsv 0x8 0x18, u8f ''syndrome'' 0x20, rsv 0x40 0x40,
     (Named ''register_data'', Array 0 (Bits 0x20))]"

definition mlx5_ifc_access_register_in_bits :: layout where
  "mlx5_ifc_access_register_in_bits = Struct [
     u8f ''opcode'' 0x10, rsv 0x10 0x10, rsv 0x20 0x10, u8f ''op_mod'' 0x10, rsv 0x40 0x10,
     u8f ''register_id'' 0x10, u8f ''argument'' 0x20,
     (Named ''register_data'', Array 0 (Bits 0x20))]"

definition mlx5_ifc_modify_nic_vport_context_out_bits :: layout where
  "mlx5_ifc_modify_nic_vport_context_out_bits = Struct [
     u8f ''status'' 0x8, rsv 0x8 0x18, u8f ''syndrome'' 0x20, rsv 0x40 0x40]"

definition mlx5_ifc_modify_nic_vport_field_select_bits :: layout where
  "mlx5_ifc_modify_nic_vport_field_select_bits = Struct [
     rsv 0x0 0x12, u8f ''affiliation'' 0x1, rsv 0x13 0x1, u8f ''disable_uc_local_lb'' 0x1,
     u8f ''disable_mc_local_lb'' 0x1, u8f ''node_guid'' 0x1, u8f ''port_guid'' 0x1,
     u8f ''min_inline'' 0x1, u8f ''mtu'' 0x1, u8f ''change_event'' 0x1, u8f ''promisc'' 0x1,
     u8f ''permanent_address'' 0x1, u8f ''addresses_list'' 0x1, u8f ''roce_en'' 0x1, rsv 0x1f 0x1]"

definition mlx5_ifc_modify_nic_vport_context_in_bits :: layout where
  "mlx5_ifc_modify_nic_vport_context_in_bits = Struct [
     u8f ''opcode'' 0x10, rsv 0x10 0x10, rsv 0x20 0x10, u8f ''op_mod'' 0x10,
     u8f ''other_vport'' 0x1, rsv 0x41 0xf, u8f ''vport_number'' 0x10,
     (Named ''field_select'', mlx5_ifc_modify_nic_vport_field_select_bits), rsv 0x80 0x780,
     (Named ''nic_vport_context'', mlx5_ifc_nic_vport_context_bits)]"

definition mlx5_ifc_set_hca_cap_out_bits :: layout where
  "mlx5_ifc_set_hca_cap_out_bits = Struct [
     u8f ''status'' 0x8, rsv 0x8 0x18, u8f ''syndrome'' 0x20, rsv 0x40 0x40]"

definition mlx5_ifc_set_hca_cap_in_bits :: layout where
  "mlx5_ifc_set_hca_cap_in_bits = Struct [
     u8f ''opcode'' 0x10, rsv 0x10 0x10, rsv 0x20 0x10, u8f ''op_mod'' 0x10,
     u8f ''other_function'' 0x1, rsv 0x41 0xf, u8f ''function_id'' 0x10, rsv 0x60 0x20,
     (Named ''capability'', mlx5_ifc_hca_cap_union_bits)]"

definition mlx5_ifc_alloc_uar_out_bits :: layout where
  "mlx5_ifc_alloc_uar_out_bits = Struct [
     u8f ''status'' 0x8, rsv 0x8 0x18, u8f ''syndrome'' 0x20, rsv 0x40 0x8, u8f ''uar'' 0x18,
     rsv 0x60 0x20]"

definition mlx5_ifc_alloc_uar_in_bits :: layout where
  "mlx5_ifc_alloc_uar_in_bits = Struct [
     u8f ''opcode'' 0x10, rsv 0x10 0x10, rsv 0x20 0x10, u8f ''op_mod'' 0x10, rsv 0x40 0x40]"

definition mlx5_ifc_dealloc_uar_out_bits :: layout where
  "mlx5_ifc_dealloc_uar_out_bits = Struct [
     u8f ''status'' 0x8, rsv 0x8 0x18, u8f ''syndrome'' 0x20, rsv 0x40 0x40]"

definition mlx5_ifc_dealloc_uar_in_bits :: layout where
  "mlx5_ifc_dealloc_uar_in_bits = Struct [
     u8f ''opcode'' 0x10, rsv 0x10 0x10, rsv 0x20 0x10, u8f ''op_mod'' 0x10, rsv 0x40 0x8,
     u8f ''uar'' 0x18, rsv 0x60 0x20]"

definition mlx5_ifc_eqc_bits :: layout where
  "mlx5_ifc_eqc_bits = Struct [
     u8f ''status'' 0x4, rsv 0x4 0x9, u8f ''ec'' 0x1, u8f ''oi'' 0x1, rsv 0xf 0x5, u8f ''st'' 0x4,
     rsv 0x18 0x8, rsv 0x20 0x20, rsv 0x40 0x14, u8f ''page_offset'' 0x6, rsv 0x5a 0x6,
     rsv 0x60 0x3, u8f ''log_eq_size'' 0x5, u8f ''uar_page'' 0x18, rsv 0x80 0x20, rsv 0xa0 0x18,
     u8f ''intr'' 0x8, rsv 0xc0 0x3, u8f ''log_page_size'' 0x5, rsv 0xc8 0x18, rsv 0xe0 0x60,
     rsv 0x140 0x8, u8f ''consumer_counter'' 0x18, rsv 0x160 0x8, u8f ''producer_counter'' 0x18,
     rsv 0x180 0x80]"

definition mlx5_ifc_create_eq_out_bits :: layout where
  "mlx5_ifc_create_eq_out_bits = Struct [
     u8f ''status'' 0x8, rsv 0x8 0x18, u8f ''syndrome'' 0x20, rsv 0x40 0x18, u8f ''eq_number'' 0x8,
     rsv 0x60 0x20]"

definition mlx5_ifc_create_eq_in_bits :: layout where
  "mlx5_ifc_create_eq_in_bits = Struct [
     u8f ''opcode'' 0x10, u8f ''uid'' 0x10, rsv 0x20 0x10, u8f ''op_mod'' 0x10, rsv 0x40 0x40,
     (Named ''eq_context_entry'', mlx5_ifc_eqc_bits), rsv 0x280 0x40,
     (Named ''event_bitmask'', Array 4 (Bits 0x40)), rsv 0x3c0 0x4c0,
     (Named ''pas'', Array 0 (Bits 0x40))]"

definition mlx5_ifc_destroy_eq_out_bits :: layout where
  "mlx5_ifc_destroy_eq_out_bits = Struct [
     u8f ''status'' 0x8, rsv 0x8 0x18, u8f ''syndrome'' 0x20, rsv 0x40 0x40]"

definition mlx5_ifc_destroy_eq_in_bits :: layout where
  "mlx5_ifc_destroy_eq_in_bits = Struct [
     u8f ''opcode'' 0x10, rsv 0x10 0x10, rsv 0x20 0x10, u8f ''op_mod'' 0x10, rsv 0x40 0x18,
     u8f ''eq_number'' 0x8, rsv 0x60 0x20]"

definition mlx5_ifc_alloc_pd_out_bits :: layout where
  "mlx5_ifc_alloc_pd_out_bits = Struct [
     u8f ''status'' 0x8, rsv 0x8 0x18, u8f ''syndrome'' 0x20, rsv 0x40 0x8, u8f ''pd'' 0x18,
     rsv 0x60 0x20]"

definition mlx5_ifc_alloc_pd_in_bits :: layout where
  "mlx5_ifc_alloc_pd_in_bits = Struct [
     u8f ''opcode'' 0x10, u8f ''uid'' 0x10, rsv 0x20 0x10, u8f ''op_mod'' 0x10, rsv 0x40 0x40]"

definition mlx5_ifc_dealloc_pd_out_bits :: layout where
  "mlx5_ifc_dealloc_pd_out_bits = Struct [
     u8f ''status'' 0x8, rsv 0x8 0x18, u8f ''syndrome'' 0x20, rsv 0x40 0x40]"

definition mlx5_ifc_dealloc_pd_in_bits :: layout where
  "mlx5_ifc_dealloc_pd_in_bits = Struct [
     u8f ''opcode'' 0x10, u8f ''uid'' 0x10, rsv 0x20 0x10, u8f ''op_mod'' 0x10, rsv 0x40 0x8,
     u8f ''pd'' 0x18, rsv 0x60 0x20]"

definition mlx5_ifc_mtt_bits :: layout where
  "mlx5_ifc_mtt_bits = Struct [
     u8f ''ptag_63_32'' 0x20, u8f ''ptag_31_8'' 0x18, rsv 0x38 0x6, u8f ''wr_en'' 0x1,
     u8f ''rd_en'' 0x1]"

definition mlx5_ifc_umem_bits :: layout where
  "mlx5_ifc_umem_bits = Struct [
     rsv 0x0 0x80, rsv 0x80 0x1b, u8f ''log_page_size'' 0x5, u8f ''page_offset'' 0x20,
     u8f ''num_of_mtt'' 0x40, (Named ''mtt'', Array 0 mlx5_ifc_mtt_bits)]"

definition mlx5_ifc_create_umem_in_bits :: layout where
  "mlx5_ifc_create_umem_in_bits = Struct [
     u8f ''opcode'' 0x10, u8f ''uid'' 0x10, rsv 0x20 0x10, u8f ''op_mod'' 0x10, rsv 0x40 0x40,
     (Named ''umem'', mlx5_ifc_umem_bits)]"

definition mlx5_ifc_create_umem_out_bits :: layout where
  "mlx5_ifc_create_umem_out_bits = Struct [
     u8f ''status'' 0x8, rsv 0x8 0x18, u8f ''syndrome'' 0x20, rsv 0x40 0x8, u8f ''umem_id'' 0x18,
     rsv 0x60 0x20]"

definition mlx5_ifc_destroy_umem_in_bits :: layout where
  "mlx5_ifc_destroy_umem_in_bits = Struct [
     u8f ''opcode'' 0x10, u8f ''uid'' 0x10, rsv 0x20 0x10, u8f ''op_mod'' 0x10, rsv 0x40 0x8,
     u8f ''umem_id'' 0x18, rsv 0x60 0x20]"

definition mlx5_ifc_destroy_umem_out_bits :: layout where
  "mlx5_ifc_destroy_umem_out_bits = Struct [
     u8f ''status'' 0x8, rsv 0x8 0x18, u8f ''syndrome'' 0x20, rsv 0x40 0x40]"

definition mlx5_ifc_delete_fte_in_bits :: layout where
  "mlx5_ifc_delete_fte_in_bits = Struct [
     u8f ''opcode'' 0x10, rsv 0x10 0x10, rsv 0x20 0x20, u8f ''other_vport'' 0x1, rsv 0x41 0xf,
     u8f ''vport_number'' 0x10, rsv 0x60 0x20, u8f ''table_type'' 0x8, rsv 0x88 0x18, rsv 0xa0 0x8,
     u8f ''table_id'' 0x18, rsv 0xc0 0x40, u8f ''flow_index'' 0x20, rsv 0x120 0xe0]"

definition mlx5_ifc_create_cq_out_bits :: layout where
  "mlx5_ifc_create_cq_out_bits = Struct [
     rsv 0x0 0x40, rsv 0x40 0x8, u8f ''cqn'' 0x18, rsv 0x60 0x20]"

definition mlx5_ifc_destroy_cq_in_bits :: layout where
  "mlx5_ifc_destroy_cq_in_bits = Struct [
     u8f ''opcode'' 0x10, u8f ''uid'' 0x10, rsv 0x20 0x20, rsv 0x40 0x8, u8f ''cqn'' 0x18,
     rsv 0x60 0x20]"

definition mlx5_ifc_alloc_transport_domain_out_bits :: layout where
  "mlx5_ifc_alloc_transport_domain_out_bits = Struct [
     rsv 0x0 0x40, rsv 0x40 0x8, u8f ''transport_domain'' 0x18, rsv 0x60 0x20]"

definition mlx5_ifc_dealloc_transport_domain_in_bits :: layout where
  "mlx5_ifc_dealloc_transport_domain_in_bits = Struct [
     u8f ''opcode'' 0x10, u8f ''uid'' 0x10, rsv 0x20 0x20, rsv 0x40 0x8,
     u8f ''transport_domain'' 0x18, rsv 0x60 0x20]"

definition mlx5_ifc_create_rmp_out_bits :: layout where
  "mlx5_ifc_create_rmp_out_bits = Struct [
     rsv 0x0 0x40, rsv 0x40 0x8, u8f ''rmpn'' 0x18, rsv 0x60 0x20]"

definition mlx5_ifc_destroy_rmp_in_bits :: layout where
  "mlx5_ifc_destroy_rmp_in_bits = Struct [
     u8f ''opcode'' 0x10, u8f ''uid'' 0x10, rsv 0x20 0x20, rsv 0x40 0x8, u8f ''rmpn'' 0x18,
     rsv 0x60 0x20]"

definition mlx5_ifc_create_sq_out_bits :: layout where
  "mlx5_ifc_create_sq_out_bits = Struct [
     rsv 0x0 0x40, rsv 0x40 0x8, u8f ''sqn'' 0x18, rsv 0x60 0x20]"

definition mlx5_ifc_destroy_sq_in_bits :: layout where
  "mlx5_ifc_destroy_sq_in_bits = Struct [
     u8f ''opcode'' 0x10, u8f ''uid'' 0x10, rsv 0x20 0x20, rsv 0x40 0x8, u8f ''sqn'' 0x18,
     rsv 0x60 0x20]"

definition mlx5_ifc_create_rq_out_bits :: layout where
  "mlx5_ifc_create_rq_out_bits = Struct [
     rsv 0x0 0x40, rsv 0x40 0x8, u8f ''rqn'' 0x18, rsv 0x60 0x20]"

definition mlx5_ifc_destroy_rq_in_bits :: layout where
  "mlx5_ifc_destroy_rq_in_bits = Struct [
     u8f ''opcode'' 0x10, u8f ''uid'' 0x10, rsv 0x20 0x20, rsv 0x40 0x8, u8f ''rqn'' 0x18,
     rsv 0x60 0x20]"

definition mlx5_ifc_create_rqt_out_bits :: layout where
  "mlx5_ifc_create_rqt_out_bits = Struct [
     rsv 0x0 0x40, rsv 0x40 0x8, u8f ''rqtn'' 0x18, rsv 0x60 0x20]"

definition mlx5_ifc_destroy_rqt_in_bits :: layout where
  "mlx5_ifc_destroy_rqt_in_bits = Struct [
     u8f ''opcode'' 0x10, u8f ''uid'' 0x10, rsv 0x20 0x20, rsv 0x40 0x8, u8f ''rqtn'' 0x18,
     rsv 0x60 0x20]"

definition mlx5_ifc_create_tis_out_bits :: layout where
  "mlx5_ifc_create_tis_out_bits = Struct [
     rsv 0x0 0x40, rsv 0x40 0x8, u8f ''tisn'' 0x18, rsv 0x60 0x20]"

definition mlx5_ifc_destroy_tis_in_bits :: layout where
  "mlx5_ifc_destroy_tis_in_bits = Struct [
     u8f ''opcode'' 0x10, u8f ''uid'' 0x10, rsv 0x20 0x20, rsv 0x40 0x8, u8f ''tisn'' 0x18,
     rsv 0x60 0x20]"

definition mlx5_ifc_alloc_q_counter_out_bits :: layout where
  "mlx5_ifc_alloc_q_counter_out_bits = Struct [
     rsv 0x0 0x40, rsv 0x40 0x18, u8f ''counter_set_id'' 0x8, rsv 0x60 0x20]"

definition mlx5_ifc_dealloc_q_counter_in_bits :: layout where
  "mlx5_ifc_dealloc_q_counter_in_bits = Struct [
     u8f ''opcode'' 0x10, rsv 0x10 0x10, rsv 0x20 0x20, rsv 0x40 0x18, u8f ''counter_set_id'' 0x8,
     rsv 0x60 0x20]"

definition mlx5_ifc_alloc_modify_header_context_out_bits :: layout where
  "mlx5_ifc_alloc_modify_header_context_out_bits = Struct [
     rsv 0x0 0x40, u8f ''modify_header_id'' 0x20, rsv 0x60 0x20]"

definition mlx5_ifc_dealloc_modify_header_context_in_bits :: layout where
  "mlx5_ifc_dealloc_modify_header_context_in_bits = Struct [
     u8f ''opcode'' 0x10, rsv 0x10 0x10, rsv 0x20 0x20, u8f ''modify_header_id'' 0x20,
     rsv 0x60 0x20]"

definition mlx5_ifc_create_scheduling_element_out_bits :: layout where
  "mlx5_ifc_create_scheduling_element_out_bits = Struct [
     rsv 0x0 0x80, u8f ''scheduling_element_id'' 0x20, rsv 0xa0 0x160]"

definition mlx5_ifc_create_scheduling_element_in_bits :: layout where
  "mlx5_ifc_create_scheduling_element_in_bits = Struct [
     u8f ''opcode'' 0x10, rsv 0x10 0x10, rsv 0x20 0x20, u8f ''scheduling_hierarchy'' 0x8,
     rsv 0x48 0x18, rsv 0x60 0x3a0]"

definition mlx5_ifc_destroy_scheduling_element_in_bits :: layout where
  "mlx5_ifc_destroy_scheduling_element_in_bits = Struct [
     u8f ''opcode'' 0x10, rsv 0x10 0x10, rsv 0x20 0x20, u8f ''scheduling_hierarchy'' 0x8,
     rsv 0x48 0x18, u8f ''scheduling_element_id'' 0x20, rsv 0x80 0x180]"

definition mlx5_ifc_add_vxlan_udp_dport_in_bits :: layout where
  "mlx5_ifc_add_vxlan_udp_dport_in_bits = Struct [
     rsv 0x0 0x60, rsv 0x60 0x10, u8f ''vxlan_udp_port'' 0x10]"

definition mlx5_ifc_delete_vxlan_udp_dport_in_bits :: layout where
  "mlx5_ifc_delete_vxlan_udp_dport_in_bits = Struct [
     u8f ''opcode'' 0x10, rsv 0x10 0x10, rsv 0x20 0x40, rsv 0x60 0x10, u8f ''vxlan_udp_port'' 0x10]"

definition mlx5_ifc_set_l2_table_entry_in_bits :: layout where
  "mlx5_ifc_set_l2_table_entry_in_bits = Struct [
     rsv 0x0 0xa0, rsv 0xa0 0x8, u8f ''table_index'' 0x18, rsv 0xc0 0x140]"

definition mlx5_ifc_delete_l2_table_entry_in_bits :: layout where
  "mlx5_ifc_delete_l2_table_entry_in_bits = Struct [
     u8f ''opcode'' 0x10, rsv 0x10 0x10, rsv 0x20 0x80, rsv 0xa0 0x8, u8f ''table_index'' 0x18,
     rsv 0xc0 0x140]"

definition mlx5_ifc_create_srq_out_bits :: layout where
  "mlx5_ifc_create_srq_out_bits = Struct [
     rsv 0x0 0x40, rsv 0x40 0x8, u8f ''srqn'' 0x18, rsv 0x60 0x20]"

definition mlx5_ifc_destroy_srq_in_bits :: layout where
  "mlx5_ifc_destroy_srq_in_bits = Struct [
     u8f ''opcode'' 0x10, u8f ''uid'' 0x10, rsv 0x20 0x20, rsv 0x40 0x8, u8f ''srqn'' 0x18,
     rsv 0x60 0x20]"

definition mlx5_ifc_create_xrc_srq_out_bits :: layout where
  "mlx5_ifc_create_xrc_srq_out_bits = Struct [
     rsv 0x0 0x40, rsv 0x40 0x8, u8f ''xrc_srqn'' 0x18, rsv 0x60 0x20]"

definition mlx5_ifc_destroy_xrc_srq_in_bits :: layout where
  "mlx5_ifc_destroy_xrc_srq_in_bits = Struct [
     u8f ''opcode'' 0x10, u8f ''uid'' 0x10, rsv 0x20 0x20, rsv 0x40 0x8, u8f ''xrc_srqn'' 0x18,
     rsv 0x60 0x20]"

definition mlx5_ifc_create_dct_out_bits :: layout where
  "mlx5_ifc_create_dct_out_bits = Struct [
     rsv 0x0 0x40, rsv 0x40 0x8, u8f ''dctn'' 0x18, u8f ''ece'' 0x20]"

definition mlx5_ifc_destroy_dct_in_bits :: layout where
  "mlx5_ifc_destroy_dct_in_bits = Struct [
     u8f ''opcode'' 0x10, u8f ''uid'' 0x10, rsv 0x20 0x20, rsv 0x40 0x8, u8f ''dctn'' 0x18,
     rsv 0x60 0x20]"

definition mlx5_ifc_create_xrq_out_bits :: layout where
  "mlx5_ifc_create_xrq_out_bits = Struct [
     rsv 0x0 0x40, rsv 0x40 0x8, u8f ''xrqn'' 0x18, rsv 0x60 0x20]"

definition mlx5_ifc_destroy_xrq_in_bits :: layout where
  "mlx5_ifc_destroy_xrq_in_bits = Struct [
     u8f ''opcode'' 0x10, u8f ''uid'' 0x10, rsv 0x20 0x20, rsv 0x40 0x8, u8f ''xrqn'' 0x18,
     rsv 0x60 0x20]"

definition mlx5_ifc_attach_to_mcg_in_bits :: layout where
  "mlx5_ifc_attach_to_mcg_in_bits = Struct [
     rsv 0x0 0x40, rsv 0x40 0x8, u8f ''qpn'' 0x18, rsv 0x60 0x20,
     (Named ''multicast_gid'', Array 16 (Bits 0x8))]"

definition mlx5_ifc_detach_from_mcg_in_bits :: layout where
  "mlx5_ifc_detach_from_mcg_in_bits = Struct [
     u8f ''opcode'' 0x10, u8f ''uid'' 0x10, rsv 0x20 0x20, rsv 0x40 0x8, u8f ''qpn'' 0x18,
     rsv 0x60 0x20, (Named ''multicast_gid'', Array 16 (Bits 0x8))]"

definition mlx5_ifc_alloc_xrcd_out_bits :: layout where
  "mlx5_ifc_alloc_xrcd_out_bits = Struct [
     rsv 0x0 0x40, rsv 0x40 0x8, u8f ''xrcd'' 0x18, rsv 0x60 0x20]"

definition mlx5_ifc_dealloc_xrcd_in_bits :: layout where
  "mlx5_ifc_dealloc_xrcd_in_bits = Struct [
     u8f ''opcode'' 0x10, u8f ''uid'' 0x10, rsv 0x20 0x20, rsv 0x40 0x8, u8f ''xrcd'' 0x18,
     rsv 0x60 0x20]"

definition mlx5_ifc_crypto_login_obj_bits :: layout where
  "mlx5_ifc_crypto_login_obj_bits = Struct [
     u8f ''modify_field_select'' 0x40, rsv 0x40 0x40, rsv 0x80 0x4, u8f ''state'' 0x4,
     u8f ''credential_pointer'' 0x18, rsv 0xa0 0x8, u8f ''session_import_kek_ptr'' 0x18,
     rsv 0xc0 0x140, (Named ''credential'', Array 12 (Bits 0x20)), rsv 0x380 0x480]"

definition mlx5_ifc_create_crypto_login_obj_in_bits :: layout where
  "mlx5_ifc_create_crypto_login_obj_in_bits = Struct [
     (Named ''hdr'', mlx5_ifc_general_obj_in_cmd_hdr_bits),
     (Named ''login_obj'', mlx5_ifc_crypto_login_obj_bits)]"

definition mlx5_ifc_query_crypto_login_obj_out_bits :: layout where
  "mlx5_ifc_query_crypto_login_obj_out_bits = Struct [
     (Named ''hdr'', mlx5_ifc_general_obj_out_cmd_hdr_bits),
     (Named ''obj'', mlx5_ifc_crypto_login_obj_bits)]"

definition mlx5_ifc_encryption_key_obj_bits :: layout where
  "mlx5_ifc_encryption_key_obj_bits = Struct [
     u8f ''modify_field_select'' 0x40, u8f ''state'' 0x8, rsv 0x48 0xc, u8f ''key_size'' 0x4,
     u8f ''has_keytag'' 0x1, rsv 0x59 0x3, u8f ''key_purpose'' 0x4, rsv 0x60 0x8, u8f ''pd'' 0x18,
     rsv 0x80 0x100, u8f ''opaque'' 0x40, rsv 0x1c0 0x40, (Named ''key'', Array 32 (Bits 0x20)),
     rsv 0x600 0x200]"

definition mlx5_ifc_create_encryption_key_obj_in_bits :: layout where
  "mlx5_ifc_create_encryption_key_obj_in_bits = Struct [
     (Named ''hdr'', mlx5_ifc_general_obj_in_cmd_hdr_bits),
     (Named ''key_obj'', mlx5_ifc_encryption_key_obj_bits)]"

definition mlx5_ifc_query_encryption_key_obj_out_bits :: layout where
  "mlx5_ifc_query_encryption_key_obj_out_bits = Struct [
     (Named ''hdr'', mlx5_ifc_general_obj_out_cmd_hdr_bits),
     (Named ''obj'', mlx5_ifc_encryption_key_obj_bits)]"

definition mlx5_ifc_cqc_bits :: layout where
  "mlx5_ifc_cqc_bits = Struct [
     u8f ''status'' 0x4, u8f ''as_notify'' 0x1, u8f ''initiator_src_dct'' 0x1,
     u8f ''dbr_umem_valid'' 0x1, rsv 0x7 0x1, u8f ''cqe_sz'' 0x3, u8f ''cc'' 0x1, rsv 0xc 0x1,
     u8f ''scqe_break_moderation_en'' 0x1, u8f ''oi'' 0x1, u8f ''cq_period_mode'' 0x2,
     u8f ''cqe_comp_en'' 0x1, u8f ''mini_cqe_res_format'' 0x2, u8f ''st'' 0x4, rsv 0x18 0x1,
     u8f ''cqe_comp_layout'' 0x7, u8f ''dbr_umem_id'' 0x20, rsv 0x40 0x14, u8f ''page_offset'' 0x6,
     rsv 0x5a 0x2, u8f ''mini_cqe_res_format_ext'' 0x2, u8f ''cq_timestamp_format'' 0x2,
     rsv 0x60 0x3, u8f ''log_cq_size'' 0x5, u8f ''uar_page'' 0x18, rsv 0x80 0x4,
     u8f ''cq_period'' 0xc, u8f ''cq_max_count'' 0x10, rsv 0xa0 0x18, u8f ''c_eqn'' 0x8,
     rsv 0xc0 0x3, u8f ''log_page_size'' 0x5, rsv 0xc8 0x18, rsv 0xe0 0x20, rsv 0x100 0x8,
     u8f ''last_notified_index'' 0x18, rsv 0x120 0x8, u8f ''last_solicit_index'' 0x18,
     rsv 0x140 0x8, u8f ''consumer_counter'' 0x18, rsv 0x160 0x8, u8f ''producer_counter'' 0x18,
     u8f ''local_partition_id'' 0xc, u8f ''process_id'' 0x14, rsv 0x1a0 0x20, u8f ''dbr_addr'' 0x40]"

definition mlx5_ifc_create_cq_in_bits :: layout where
  "mlx5_ifc_create_cq_in_bits = Struct [
     u8f ''opcode'' 0x10, u8f ''uid'' 0x10, rsv 0x20 0x10, u8f ''op_mod'' 0x10, rsv 0x40 0x40,
     (Named ''cq_context'', mlx5_ifc_cqc_bits), u8f ''cq_umem_offset'' 0x40,
     u8f ''cq_umem_id'' 0x20, u8f ''cq_umem_valid'' 0x1, rsv 0x2e1 0x1f, rsv 0x300 0x580,
     (Named ''pas'', Array 0 (Bits 1))]"

text \<open>Sizes of the layouts used inside others, and the checks.\<close>

lemma size_sched_elem_attr_tsar [ifc_size]:
  "size_bits mlx5_ifc_sched_elem_attr_tsar_bits = 0x20"
  "accessible mlx5_ifc_sched_elem_attr_tsar_bits"
  by (simp_all add: place_ok_def mlx5_ifc_sched_elem_attr_tsar_bits_def)

lemma size_sched_elem_attr [ifc_size]:
  "size_bits mlx5_ifc_sched_elem_attr_bits = 0x20"
  "accessible mlx5_ifc_sched_elem_attr_bits"
  by (simp_all add: place_ok_def mlx5_ifc_sched_elem_attr_bits_def ifc_size)

lemma check_sched_elem_attr [ifc_nested]:
  "accessible mlx5_ifc_sched_elem_attr_bits"
  "misnamed mlx5_ifc_sched_elem_attr_bits = []"
  by (simp_all add: place_ok_def mlx5_ifc_sched_elem_attr_bits_def ifc_size)

lemma size_sched_context [ifc_size]:
  "size_bits mlx5_ifc_sched_context_bits = 0x200"
  "accessible mlx5_ifc_sched_context_bits"
  by (simp_all add: place_ok_def mlx5_ifc_sched_context_bits_def ifc_size)

lemma check_sched_context [ifc_nested]:
  "accessible mlx5_ifc_sched_context_bits"
  "misnamed mlx5_ifc_sched_context_bits = []"
  by (simp_all add: place_ok_def mlx5_ifc_sched_context_bits_def ifc_size)

lemma size_sched_elem [ifc_size]:
  "size_bits mlx5_ifc_sched_elem_bits = 0x400"
  "accessible mlx5_ifc_sched_elem_bits"
  by (simp_all add: place_ok_def mlx5_ifc_sched_elem_bits_def ifc_size)

lemma check_sched_elem [ifc_nested]:
  "accessible mlx5_ifc_sched_elem_bits"
  "misnamed mlx5_ifc_sched_elem_bits = []"
  by (simp_all add: place_ok_def mlx5_ifc_sched_elem_bits_def ifc_size)

lemma check_create_sched_elem_in [ifc_nested]:
  "accessible mlx5_ifc_create_sched_elem_in_bits"
  "misnamed mlx5_ifc_create_sched_elem_in_bits = []"
  by (simp_all add: place_ok_def mlx5_ifc_create_sched_elem_in_bits_def ifc_size)

lemma check_create_modify_elem_in [ifc_nested]:
  "accessible mlx5_ifc_create_modify_elem_in_bits"
  "misnamed mlx5_ifc_create_modify_elem_in_bits = []"
  by (simp_all add: place_ok_def mlx5_ifc_create_modify_elem_in_bits_def ifc_size)

lemma size_sqc [ifc_size]:
  "size_bits mlx5_ifc_sqc_bits = 0x780"
  "accessible mlx5_ifc_sqc_bits"
  by (simp_all add: place_ok_def mlx5_ifc_sqc_bits_def)

lemma check_modify_sq_in [ifc_nested]:
  "accessible mlx5_ifc_modify_sq_in_bits"
  "misnamed mlx5_ifc_modify_sq_in_bits = []"
  by (simp_all add: place_ok_def mlx5_ifc_modify_sq_in_bits_def ifc_size)

lemma size_reserved_qpn [ifc_size]:
  "size_bits mlx5_ifc_reserved_qpn_bits = 0x80"
  "accessible mlx5_ifc_reserved_qpn_bits"
  by (simp_all add: place_ok_def mlx5_ifc_reserved_qpn_bits_def)

lemma check_create_reserved_qpn_in [ifc_nested]:
  "accessible mlx5_ifc_create_reserved_qpn_in_bits"
  "misnamed mlx5_ifc_create_reserved_qpn_in_bits = []"
  by (simp_all add: place_ok_def mlx5_ifc_create_reserved_qpn_in_bits_def ifc_size)

lemma size_modify_nic_vport_field_select [ifc_size]:
  "size_bits mlx5_ifc_modify_nic_vport_field_select_bits = 0x20"
  "accessible mlx5_ifc_modify_nic_vport_field_select_bits"
  by (simp_all add: place_ok_def mlx5_ifc_modify_nic_vport_field_select_bits_def)

lemma check_modify_nic_vport_context_in [ifc_nested]:
  "accessible mlx5_ifc_modify_nic_vport_context_in_bits"
  "misnamed mlx5_ifc_modify_nic_vport_context_in_bits = []"
  by (simp_all add: place_ok_def mlx5_ifc_modify_nic_vport_context_in_bits_def ifc_size)

lemma check_set_hca_cap_in [ifc_nested]:
  "accessible mlx5_ifc_set_hca_cap_in_bits"
  "misnamed mlx5_ifc_set_hca_cap_in_bits = []"
  by (simp_all add: place_ok_def mlx5_ifc_set_hca_cap_in_bits_def ifc_size)

lemma size_eqc [ifc_size]:
  "size_bits mlx5_ifc_eqc_bits = 0x200"
  "accessible mlx5_ifc_eqc_bits"
  by (simp_all add: place_ok_def mlx5_ifc_eqc_bits_def)

lemma check_create_eq_in [ifc_nested]:
  "accessible mlx5_ifc_create_eq_in_bits"
  "misnamed mlx5_ifc_create_eq_in_bits = []"
  by (simp_all add: place_ok_def mlx5_ifc_create_eq_in_bits_def ifc_size)

lemma size_mtt [ifc_size]:
  "size_bits mlx5_ifc_mtt_bits = 0x40"
  "accessible mlx5_ifc_mtt_bits"
  by (simp_all add: place_ok_def mlx5_ifc_mtt_bits_def)

lemma size_umem [ifc_size]:
  "size_bits mlx5_ifc_umem_bits = 0x100"
  "accessible mlx5_ifc_umem_bits"
  by (simp_all add: place_ok_def mlx5_ifc_umem_bits_def ifc_size)

lemma check_umem [ifc_nested]:
  "accessible mlx5_ifc_umem_bits"
  "misnamed mlx5_ifc_umem_bits = []"
  by (simp_all add: place_ok_def mlx5_ifc_umem_bits_def ifc_size)

lemma check_create_umem_in [ifc_nested]:
  "accessible mlx5_ifc_create_umem_in_bits"
  "misnamed mlx5_ifc_create_umem_in_bits = []"
  by (simp_all add: place_ok_def mlx5_ifc_create_umem_in_bits_def ifc_size)

lemma size_crypto_login_obj [ifc_size]:
  "size_bits mlx5_ifc_crypto_login_obj_bits = 0x800"
  "accessible mlx5_ifc_crypto_login_obj_bits"
  by (simp_all add: place_ok_def mlx5_ifc_crypto_login_obj_bits_def)

lemma check_create_crypto_login_obj_in [ifc_nested]:
  "accessible mlx5_ifc_create_crypto_login_obj_in_bits"
  "misnamed mlx5_ifc_create_crypto_login_obj_in_bits = []"
  by (simp_all add: place_ok_def mlx5_ifc_create_crypto_login_obj_in_bits_def ifc_size)

lemma check_query_crypto_login_obj_out [ifc_nested]:
  "accessible mlx5_ifc_query_crypto_login_obj_out_bits"
  "misnamed mlx5_ifc_query_crypto_login_obj_out_bits = []"
  by (simp_all add: place_ok_def mlx5_ifc_query_crypto_login_obj_out_bits_def ifc_size)

lemma size_encryption_key_obj [ifc_size]:
  "size_bits mlx5_ifc_encryption_key_obj_bits = 0x800"
  "accessible mlx5_ifc_encryption_key_obj_bits"
  by (simp_all add: place_ok_def mlx5_ifc_encryption_key_obj_bits_def)

lemma check_create_encryption_key_obj_in [ifc_nested]:
  "accessible mlx5_ifc_create_encryption_key_obj_in_bits"
  "misnamed mlx5_ifc_create_encryption_key_obj_in_bits = []"
  by (simp_all add: place_ok_def mlx5_ifc_create_encryption_key_obj_in_bits_def ifc_size)

lemma check_query_encryption_key_obj_out [ifc_nested]:
  "accessible mlx5_ifc_query_encryption_key_obj_out_bits"
  "misnamed mlx5_ifc_query_encryption_key_obj_out_bits = []"
  by (simp_all add: place_ok_def mlx5_ifc_query_encryption_key_obj_out_bits_def ifc_size)

lemma size_cqc [ifc_size]:
  "size_bits mlx5_ifc_cqc_bits = 0x200"
  "accessible mlx5_ifc_cqc_bits"
  by (simp_all add: place_ok_def mlx5_ifc_cqc_bits_def)

lemma check_create_cq_in [ifc_nested]:
  "accessible mlx5_ifc_create_cq_in_bits"
  "misnamed mlx5_ifc_create_cq_in_bits = []"
  by (simp_all add: place_ok_def mlx5_ifc_create_cq_in_bits_def ifc_size)

text \<open>The layouts of this theory by name.\<close>

definition ifc_commands :: "(string \<times> layout) list" where
  "ifc_commands = [
     (''sched_elem_attr_tsar'', mlx5_ifc_sched_elem_attr_tsar_bits),
     (''sched_elem_attr'', mlx5_ifc_sched_elem_attr_bits),
     (''sched_context'', mlx5_ifc_sched_context_bits), (''sched_elem'', mlx5_ifc_sched_elem_bits),
     (''create_sched_elem_in'', mlx5_ifc_create_sched_elem_in_bits),
     (''create_modify_elem_in'', mlx5_ifc_create_modify_elem_in_bits),
     (''sqc'', mlx5_ifc_sqc_bits), (''modify_sq_out'', mlx5_ifc_modify_sq_out_bits),
     (''modify_sq_in'', mlx5_ifc_modify_sq_in_bits),
     (''reserved_qpn'', mlx5_ifc_reserved_qpn_bits),
     (''create_reserved_qpn_in'', mlx5_ifc_create_reserved_qpn_in_bits),
     (''create_psv_out'', mlx5_ifc_create_psv_out_bits),
     (''create_psv_in'', mlx5_ifc_create_psv_in_bits),
     (''destroy_psv_in'', mlx5_ifc_destroy_psv_in_bits), (''mbox_out'', mlx5_ifc_mbox_out_bits),
     (''mbox_in'', mlx5_ifc_mbox_in_bits), (''enable_hca_in'', mlx5_ifc_enable_hca_in_bits),
     (''enable_hca_out'', mlx5_ifc_enable_hca_out_bits),
     (''query_issi_out'', mlx5_ifc_query_issi_out_bits),
     (''query_issi_in'', mlx5_ifc_query_issi_in_bits),
     (''set_issi_out'', mlx5_ifc_set_issi_out_bits), (''set_issi_in'', mlx5_ifc_set_issi_in_bits),
     (''query_pages_out'', mlx5_ifc_query_pages_out_bits),
     (''query_pages_in'', mlx5_ifc_query_pages_in_bits),
     (''manage_pages_out'', mlx5_ifc_manage_pages_out_bits),
     (''manage_pages_in'', mlx5_ifc_manage_pages_in_bits),
     (''teardown_hca_out'', mlx5_ifc_teardown_hca_out_bits),
     (''teardown_hca_in'', mlx5_ifc_teardown_hca_in_bits),
     (''init_hca_out'', mlx5_ifc_init_hca_out_bits), (''init_hca_in'', mlx5_ifc_init_hca_in_bits),
     (''access_register_out'', mlx5_ifc_access_register_out_bits),
     (''access_register_in'', mlx5_ifc_access_register_in_bits),
     (''modify_nic_vport_context_out'', mlx5_ifc_modify_nic_vport_context_out_bits),
     (''modify_nic_vport_field_select'', mlx5_ifc_modify_nic_vport_field_select_bits),
     (''modify_nic_vport_context_in'', mlx5_ifc_modify_nic_vport_context_in_bits),
     (''set_hca_cap_out'', mlx5_ifc_set_hca_cap_out_bits),
     (''set_hca_cap_in'', mlx5_ifc_set_hca_cap_in_bits),
     (''alloc_uar_out'', mlx5_ifc_alloc_uar_out_bits),
     (''alloc_uar_in'', mlx5_ifc_alloc_uar_in_bits),
     (''dealloc_uar_out'', mlx5_ifc_dealloc_uar_out_bits),
     (''dealloc_uar_in'', mlx5_ifc_dealloc_uar_in_bits), (''eqc'', mlx5_ifc_eqc_bits),
     (''create_eq_out'', mlx5_ifc_create_eq_out_bits),
     (''create_eq_in'', mlx5_ifc_create_eq_in_bits),
     (''destroy_eq_out'', mlx5_ifc_destroy_eq_out_bits),
     (''destroy_eq_in'', mlx5_ifc_destroy_eq_in_bits),
     (''alloc_pd_out'', mlx5_ifc_alloc_pd_out_bits), (''alloc_pd_in'', mlx5_ifc_alloc_pd_in_bits),
     (''dealloc_pd_out'', mlx5_ifc_dealloc_pd_out_bits),
     (''dealloc_pd_in'', mlx5_ifc_dealloc_pd_in_bits), (''mtt'', mlx5_ifc_mtt_bits),
     (''umem'', mlx5_ifc_umem_bits), (''create_umem_in'', mlx5_ifc_create_umem_in_bits),
     (''create_umem_out'', mlx5_ifc_create_umem_out_bits),
     (''destroy_umem_in'', mlx5_ifc_destroy_umem_in_bits),
     (''destroy_umem_out'', mlx5_ifc_destroy_umem_out_bits),
     (''delete_fte_in'', mlx5_ifc_delete_fte_in_bits),
     (''create_cq_out'', mlx5_ifc_create_cq_out_bits),
     (''destroy_cq_in'', mlx5_ifc_destroy_cq_in_bits),
     (''alloc_transport_domain_out'', mlx5_ifc_alloc_transport_domain_out_bits),
     (''dealloc_transport_domain_in'', mlx5_ifc_dealloc_transport_domain_in_bits),
     (''create_rmp_out'', mlx5_ifc_create_rmp_out_bits),
     (''destroy_rmp_in'', mlx5_ifc_destroy_rmp_in_bits),
     (''create_sq_out'', mlx5_ifc_create_sq_out_bits),
     (''destroy_sq_in'', mlx5_ifc_destroy_sq_in_bits),
     (''create_rq_out'', mlx5_ifc_create_rq_out_bits),
     (''destroy_rq_in'', mlx5_ifc_destroy_rq_in_bits),
     (''create_rqt_out'', mlx5_ifc_create_rqt_out_bits),
     (''destroy_rqt_in'', mlx5_ifc_destroy_rqt_in_bits),
     (''create_tis_out'', mlx5_ifc_create_tis_out_bits),
     (''destroy_tis_in'', mlx5_ifc_destroy_tis_in_bits),
     (''alloc_q_counter_out'', mlx5_ifc_alloc_q_counter_out_bits),
     (''dealloc_q_counter_in'', mlx5_ifc_dealloc_q_counter_in_bits),
     (''alloc_modify_header_context_out'', mlx5_ifc_alloc_modify_header_context_out_bits),
     (''dealloc_modify_header_context_in'', mlx5_ifc_dealloc_modify_header_context_in_bits),
     (''create_scheduling_element_out'', mlx5_ifc_create_scheduling_element_out_bits),
     (''create_scheduling_element_in'', mlx5_ifc_create_scheduling_element_in_bits),
     (''destroy_scheduling_element_in'', mlx5_ifc_destroy_scheduling_element_in_bits),
     (''add_vxlan_udp_dport_in'', mlx5_ifc_add_vxlan_udp_dport_in_bits),
     (''delete_vxlan_udp_dport_in'', mlx5_ifc_delete_vxlan_udp_dport_in_bits),
     (''set_l2_table_entry_in'', mlx5_ifc_set_l2_table_entry_in_bits),
     (''delete_l2_table_entry_in'', mlx5_ifc_delete_l2_table_entry_in_bits),
     (''create_srq_out'', mlx5_ifc_create_srq_out_bits),
     (''destroy_srq_in'', mlx5_ifc_destroy_srq_in_bits),
     (''create_xrc_srq_out'', mlx5_ifc_create_xrc_srq_out_bits),
     (''destroy_xrc_srq_in'', mlx5_ifc_destroy_xrc_srq_in_bits),
     (''create_dct_out'', mlx5_ifc_create_dct_out_bits),
     (''destroy_dct_in'', mlx5_ifc_destroy_dct_in_bits),
     (''create_xrq_out'', mlx5_ifc_create_xrq_out_bits),
     (''destroy_xrq_in'', mlx5_ifc_destroy_xrq_in_bits),
     (''attach_to_mcg_in'', mlx5_ifc_attach_to_mcg_in_bits),
     (''detach_from_mcg_in'', mlx5_ifc_detach_from_mcg_in_bits),
     (''alloc_xrcd_out'', mlx5_ifc_alloc_xrcd_out_bits),
     (''dealloc_xrcd_in'', mlx5_ifc_dealloc_xrcd_in_bits),
     (''crypto_login_obj'', mlx5_ifc_crypto_login_obj_bits),
     (''create_crypto_login_obj_in'', mlx5_ifc_create_crypto_login_obj_in_bits),
     (''query_crypto_login_obj_out'', mlx5_ifc_query_crypto_login_obj_out_bits),
     (''encryption_key_obj'', mlx5_ifc_encryption_key_obj_bits),
     (''create_encryption_key_obj_in'', mlx5_ifc_create_encryption_key_obj_in_bits),
     (''query_encryption_key_obj_out'', mlx5_ifc_query_encryption_key_obj_out_bits),
     (''cqc'', mlx5_ifc_cqc_bits), (''create_cq_in'', mlx5_ifc_create_cq_in_bits)]"

lemmas ifc_commands_defs =
  mlx5_ifc_sched_elem_attr_tsar_bits_def mlx5_ifc_sqc_bits_def mlx5_ifc_modify_sq_out_bits_def
  mlx5_ifc_reserved_qpn_bits_def mlx5_ifc_create_psv_out_bits_def
  mlx5_ifc_create_psv_in_bits_def mlx5_ifc_destroy_psv_in_bits_def mlx5_ifc_mbox_out_bits_def
  mlx5_ifc_mbox_in_bits_def mlx5_ifc_enable_hca_in_bits_def mlx5_ifc_enable_hca_out_bits_def
  mlx5_ifc_query_issi_out_bits_def mlx5_ifc_query_issi_in_bits_def
  mlx5_ifc_set_issi_out_bits_def mlx5_ifc_set_issi_in_bits_def mlx5_ifc_query_pages_out_bits_def
  mlx5_ifc_query_pages_in_bits_def mlx5_ifc_manage_pages_out_bits_def
  mlx5_ifc_manage_pages_in_bits_def mlx5_ifc_teardown_hca_out_bits_def
  mlx5_ifc_teardown_hca_in_bits_def mlx5_ifc_init_hca_out_bits_def mlx5_ifc_init_hca_in_bits_def
  mlx5_ifc_access_register_out_bits_def mlx5_ifc_access_register_in_bits_def
  mlx5_ifc_modify_nic_vport_context_out_bits_def mlx5_ifc_modify_nic_vport_field_select_bits_def
  mlx5_ifc_set_hca_cap_out_bits_def mlx5_ifc_alloc_uar_out_bits_def
  mlx5_ifc_alloc_uar_in_bits_def mlx5_ifc_dealloc_uar_out_bits_def
  mlx5_ifc_dealloc_uar_in_bits_def mlx5_ifc_eqc_bits_def mlx5_ifc_create_eq_out_bits_def
  mlx5_ifc_destroy_eq_out_bits_def mlx5_ifc_destroy_eq_in_bits_def
  mlx5_ifc_alloc_pd_out_bits_def mlx5_ifc_alloc_pd_in_bits_def mlx5_ifc_dealloc_pd_out_bits_def
  mlx5_ifc_dealloc_pd_in_bits_def mlx5_ifc_mtt_bits_def mlx5_ifc_create_umem_out_bits_def
  mlx5_ifc_destroy_umem_in_bits_def mlx5_ifc_destroy_umem_out_bits_def
  mlx5_ifc_delete_fte_in_bits_def mlx5_ifc_create_cq_out_bits_def
  mlx5_ifc_destroy_cq_in_bits_def mlx5_ifc_alloc_transport_domain_out_bits_def
  mlx5_ifc_dealloc_transport_domain_in_bits_def mlx5_ifc_create_rmp_out_bits_def
  mlx5_ifc_destroy_rmp_in_bits_def mlx5_ifc_create_sq_out_bits_def
  mlx5_ifc_destroy_sq_in_bits_def mlx5_ifc_create_rq_out_bits_def
  mlx5_ifc_destroy_rq_in_bits_def mlx5_ifc_create_rqt_out_bits_def
  mlx5_ifc_destroy_rqt_in_bits_def mlx5_ifc_create_tis_out_bits_def
  mlx5_ifc_destroy_tis_in_bits_def mlx5_ifc_alloc_q_counter_out_bits_def
  mlx5_ifc_dealloc_q_counter_in_bits_def mlx5_ifc_alloc_modify_header_context_out_bits_def
  mlx5_ifc_dealloc_modify_header_context_in_bits_def
  mlx5_ifc_create_scheduling_element_out_bits_def mlx5_ifc_create_scheduling_element_in_bits_def
  mlx5_ifc_destroy_scheduling_element_in_bits_def mlx5_ifc_add_vxlan_udp_dport_in_bits_def
  mlx5_ifc_delete_vxlan_udp_dport_in_bits_def mlx5_ifc_set_l2_table_entry_in_bits_def
  mlx5_ifc_delete_l2_table_entry_in_bits_def mlx5_ifc_create_srq_out_bits_def
  mlx5_ifc_destroy_srq_in_bits_def mlx5_ifc_create_xrc_srq_out_bits_def
  mlx5_ifc_destroy_xrc_srq_in_bits_def mlx5_ifc_create_dct_out_bits_def
  mlx5_ifc_destroy_dct_in_bits_def mlx5_ifc_create_xrq_out_bits_def
  mlx5_ifc_destroy_xrq_in_bits_def mlx5_ifc_attach_to_mcg_in_bits_def
  mlx5_ifc_detach_from_mcg_in_bits_def mlx5_ifc_alloc_xrcd_out_bits_def
  mlx5_ifc_dealloc_xrcd_in_bits_def mlx5_ifc_crypto_login_obj_bits_def
  mlx5_ifc_encryption_key_obj_bits_def mlx5_ifc_cqc_bits_def

lemma ifc_commands_accessible: "list_all (\<lambda>(_, l). accessible l) ifc_commands"
  by (simp add: place_ok_def ifc_commands_def ifc_nested ifc_commands_defs)

lemma ifc_commands_misnamed: "misnamed_all ifc_commands = []"
  by (simp add: misnamed_all_def ifc_commands_def ifc_nested ifc_commands_defs)

end
