(* ===== verification/Ifc_Steering.thy ===== *)
theory Ifc_Steering
  imports Ifc_Layout
begin

text \<open>
  Layouts of \<^verbatim>\<open>mlx5_ifc.h\<close> for memory keys and steering-table
  entries, in the order of the header.
\<close>

definition mlx5_ifc_mkc_bits :: layout where
  "mlx5_ifc_mkc_bits = Struct [
     rsv 0x0 0x1, u8f ''free'' 0x1, rsv 0x2 0x1, u8f ''access_mode_4_2'' 0x3, rsv 0x6 0x7,
     u8f ''relaxed_ordering_write'' 0x1, rsv 0xe 0x1,
     u8f ''small_fence_on_rdma_read_response'' 0x1, u8f ''umr_en'' 0x1, u8f ''a'' 0x1,
     u8f ''rw'' 0x1, u8f ''rr'' 0x1, u8f ''lw'' 0x1, u8f ''lr'' 0x1, u8f ''access_mode_1_0'' 0x2,
     rsv 0x18 0x8, u8f ''qpn'' 0x18, u8f ''mkey_7_0'' 0x8, rsv 0x40 0x20, u8f ''length64'' 0x1,
     u8f ''bsf_en'' 0x1, u8f ''sync_umr'' 0x1, rsv 0x63 0x2, u8f ''expected_sigerr_count'' 0x1,
     rsv 0x66 0x1, u8f ''en_rinval'' 0x1, u8f ''pd'' 0x18, u8f ''start_addr'' 0x40,
     u8f ''len'' 0x40, u8f ''bsf_octword_size'' 0x20, rsv 0x120 0x80,
     u8f ''translations_octword_size'' 0x20, rsv 0x1c0 0x19, u8f ''relaxed_ordering_read'' 0x1,
     rsv 0x1d9 0x1, u8f ''log_page_size'' 0x5, rsv 0x1e0 0x3, u8f ''crypto_en'' 0x2, rsv 0x1e5 0x1b]"

definition mlx5_ifc_create_mkey_out_bits :: layout where
  "mlx5_ifc_create_mkey_out_bits = Struct [
     u8f ''status'' 0x8, rsv 0x8 0x18, u8f ''syndrome'' 0x20, rsv 0x40 0x8,
     u8f ''mkey_index'' 0x18, rsv 0x60 0x20]"

definition mlx5_ifc_create_mkey_in_bits :: layout where
  "mlx5_ifc_create_mkey_in_bits = Struct [
     u8f ''opcode'' 0x10, rsv 0x10 0x10, rsv 0x20 0x10, u8f ''op_mod'' 0x10, rsv 0x40 0x20,
     u8f ''pg_access'' 0x1, u8f ''mkey_umem_valid'' 0x1, rsv 0x62 0x1e,
     (Named ''memory_key_mkey_entry'', mlx5_ifc_mkc_bits), rsv 0x280 0x80,
     u8f ''translations_octword_actual_size'' 0x20, rsv 0x320 0x560,
     (Named ''klm_pas_mtt'', Array 0 (Bits 0x20))]"

definition mlx5_ifc_destroy_mkey_out_bits :: layout where
  "mlx5_ifc_destroy_mkey_out_bits = Struct [
     u8f ''status'' 0x8, rsv 0x8 0x18, u8f ''syndrome'' 0x20, rsv 0x40 0x40]"

definition mlx5_ifc_destroy_mkey_in_bits :: layout where
  "mlx5_ifc_destroy_mkey_in_bits = Struct [
     u8f ''opcode'' 0x10, u8f ''uid'' 0x10, rsv 0x20 0x10, u8f ''op_mod'' 0x10, rsv 0x40 0x8,
     u8f ''mkey_index'' 0x18, rsv 0x60 0x20]"

definition mlx5_ifc_l2_hdr_bits :: layout where
  "mlx5_ifc_l2_hdr_bits = Struct [
     u8f ''dmac_47_16'' 0x20, u8f ''dmac_15_0'' 0x10, u8f ''smac_47_32'' 0x10,
     u8f ''smac_31_0'' 0x20, u8f ''ethertype'' 0x10, u8f ''vlan_type'' 0x10, u8f ''vlan'' 0x10]"

definition mlx5_ifc_ste_general_bits :: layout where
  "mlx5_ifc_ste_general_bits = Struct [
     u8f ''entry_type'' 0x4, rsv 0x4 0x4, u8f ''entry_sub_type'' 0x8, u8f ''byte_mask'' 0x10,
     u8f ''next_table_base_63_48'' 0x10, u8f ''next_lu_type'' 0x8,
     u8f ''next_table_base_39_32_size'' 0x8, u8f ''next_table_base_31_5_size'' 0x1b,
     u8f ''linear_hash_enable'' 0x1, rsv 0x5c 0x2, u8f ''next_table_rank'' 0x2, rsv 0x60 0xa0,
     u8f ''tag_value'' 0x60, u8f ''bit_mask'' 0x60]"

definition mlx5_ifc_ste_sx_transmit_bits :: layout where
  "mlx5_ifc_ste_sx_transmit_bits = Struct [
     u8f ''entry_type'' 0x4, rsv 0x4 0x4, u8f ''entry_sub_type'' 0x8, u8f ''byte_mask'' 0x10,
     u8f ''next_table_base_63_48'' 0x10, u8f ''next_lu_type'' 0x8,
     u8f ''next_table_base_39_32_size'' 0x8, u8f ''next_table_base_31_5_size'' 0x1b,
     u8f ''linear_hash_enable'' 0x1, rsv 0x5c 0x2, u8f ''next_table_rank'' 0x2,
     u8f ''sx_wire'' 0x1, u8f ''sx_func_lb'' 0x1, u8f ''sx_sniffer'' 0x1,
     u8f ''sx_wire_enable'' 0x1, u8f ''sx_func_lb_enable'' 0x1, u8f ''sx_sniffer_enable'' 0x1,
     u8f ''action_type'' 0x3, rsv 0x69 0x1, u8f ''action_description'' 0x6, u8f ''gvmi'' 0x10,
     u8f ''encap_pointer_vlan_data'' 0x20, u8f ''loopback_syndome_en'' 0x8,
     u8f ''loopback_syndome'' 0x8, u8f ''counter_trigger'' 0x10, u8f ''miss_address_63_48'' 0x10,
     u8f ''counter_trigger_23_16'' 0x8, u8f ''miss_address_39_32'' 0x8,
     u8f ''miss_address_31_6'' 0x1a, u8f ''learning_point'' 0x1, u8f ''go_back'' 0x1,
     u8f ''match_polarity'' 0x1, u8f ''mask_mode'' 0x1, u8f ''miss_rank'' 0x2]"

definition mlx5_ifc_ste_rx_steering_mult_bits :: layout where
  "mlx5_ifc_ste_rx_steering_mult_bits = Struct [
     u8f ''entry_type'' 0x4, rsv 0x4 0x4, u8f ''entry_sub_type'' 0x8, u8f ''byte_mask'' 0x10,
     u8f ''next_table_base_63_48'' 0x10, u8f ''next_lu_type'' 0x8,
     u8f ''next_table_base_39_32_size'' 0x8, u8f ''next_table_base_31_5_size'' 0x1b,
     u8f ''linear_hash_enable'' 0x1, rsv 0x5c 0x2, u8f ''next_table_rank'' 0x2,
     u8f ''member_count'' 0x10, u8f ''gvmi'' 0x10, u8f ''qp_list_pointer'' 0x20, rsv 0xa0 0x1,
     u8f ''tunneling_action'' 0x3, u8f ''action_description'' 0x4, rsv 0xa8 0x8,
     u8f ''counter_trigger_15_0'' 0x10, u8f ''miss_address_63_48'' 0x10,
     u8f ''counter_trigger_23_16'' 0x8, u8f ''miss_address_39_32'' 0x8,
     u8f ''miss_address_31_6'' 0x1a, u8f ''learning_point'' 0x1, u8f ''fail_on_error'' 0x1,
     u8f ''match_polarity'' 0x1, u8f ''mask_mode'' 0x1, u8f ''miss_rank'' 0x2]"

definition mlx5_ifc_ste_modify_packet_bits :: layout where
  "mlx5_ifc_ste_modify_packet_bits = Struct [
     u8f ''entry_type'' 0x4, rsv 0x4 0x4, u8f ''entry_sub_type'' 0x8, u8f ''byte_mask'' 0x10,
     u8f ''next_table_base_63_48'' 0x10, u8f ''next_lu_type'' 0x8,
     u8f ''next_table_base_39_32_size'' 0x8, u8f ''next_table_base_31_5_size'' 0x1b,
     u8f ''linear_hash_enable'' 0x1, rsv 0x5c 0x2, u8f ''next_table_rank'' 0x2,
     u8f ''number_of_re_write_actions'' 0x10, u8f ''gvmi'' 0x10,
     u8f ''header_re_write_actions_pointer'' 0x20, rsv 0xa0 0x1, u8f ''tunneling_action'' 0x3,
     u8f ''action_description'' 0x4, rsv 0xa8 0x8, u8f ''counter_trigger_15_0'' 0x10,
     u8f ''miss_address_63_48'' 0x10, u8f ''counter_trigger_23_16'' 0x8,
     u8f ''miss_address_39_32'' 0x8, u8f ''miss_address_31_6'' 0x1a, u8f ''learning_point'' 0x1,
     u8f ''fail_on_error'' 0x1, u8f ''match_polarity'' 0x1, u8f ''mask_mode'' 0x1,
     u8f ''miss_rank'' 0x2]"

definition mlx5_ifc_ste_single_action_flow_tag_v1_bits :: layout where
  "mlx5_ifc_ste_single_action_flow_tag_v1_bits = Struct [
     u8f ''action_id'' 0x8, u8f ''flow_tag'' 0x18]"

definition mlx5_ifc_ste_single_action_modify_list_v1_bits :: layout where
  "mlx5_ifc_ste_single_action_modify_list_v1_bits = Struct [
     u8f ''action_id'' 0x8, u8f ''num_of_modify_actions'' 0x8, u8f ''modify_actions_ptr'' 0x10]"

definition mlx5_ifc_ste_single_action_remove_header_v1_bits :: layout where
  "mlx5_ifc_ste_single_action_remove_header_v1_bits = Struct [
     u8f ''action_id'' 0x8, rsv 0x8 0x2, u8f ''start_anchor'' 0x6, rsv 0x10 0x2,
     u8f ''end_anchor'' 0x6, rsv 0x18 0x4, u8f ''decap'' 0x1, u8f ''vni_to_cqe'' 0x1,
     u8f ''qos_profile'' 0x2]"

definition mlx5_ifc_ste_single_action_remove_header_size_v1_bits :: layout where
  "mlx5_ifc_ste_single_action_remove_header_size_v1_bits = Struct [
     u8f ''action_id'' 0x8, rsv 0x8 0x2, u8f ''start_anchor'' 0x6, u8f ''outer_l4_remove'' 0x1,
     rsv 0x11 0x1, u8f ''start_offset'' 0x7, rsv 0x18 0x1, u8f ''remove_size'' 0x6]"

definition mlx5_ifc_ste_double_action_copy_v1_bits :: layout where
  "mlx5_ifc_ste_double_action_copy_v1_bits = Struct [
     u8f ''action_id'' 0x8, u8f ''destination_dw_offset'' 0x8, rsv 0x10 0x2,
     u8f ''destination_left_shifter'' 0x6, rsv 0x18 0x2, u8f ''destination_length'' 0x6,
     rsv 0x20 0x8, u8f ''source_dw_offset'' 0x8, rsv 0x30 0x2, u8f ''source_right_shifter'' 0x6,
     rsv 0x38 0x8]"

definition mlx5_ifc_ste_double_action_set_v1_bits :: layout where
  "mlx5_ifc_ste_double_action_set_v1_bits = Struct [
     u8f ''action_id'' 0x8, u8f ''destination_dw_offset'' 0x8, rsv 0x10 0x2,
     u8f ''destination_left_shifter'' 0x6, rsv 0x18 0x2, u8f ''destination_length'' 0x6,
     u8f ''inline_data'' 0x20]"

definition mlx5_ifc_ste_double_action_add_v1_bits :: layout where
  "mlx5_ifc_ste_double_action_add_v1_bits = Struct [
     u8f ''action_id'' 0x8, u8f ''destination_dw_offset'' 0x8, rsv 0x10 0x2,
     u8f ''destination_left_shifter'' 0x6, rsv 0x18 0x2, u8f ''destination_length'' 0x6,
     u8f ''add_value'' 0x20]"

definition mlx5_ifc_ste_double_action_insert_with_inline_v1_bits :: layout where
  "mlx5_ifc_ste_double_action_insert_with_inline_v1_bits = Struct [
     u8f ''action_id'' 0x8, rsv 0x8 0x2, u8f ''start_anchor'' 0x6, u8f ''start_offset'' 0x7,
     rsv 0x17 0x9, u8f ''inline_data'' 0x20]"

definition mlx5_ifc_ste_double_action_insert_with_ptr_v1_bits :: layout where
  "mlx5_ifc_ste_double_action_insert_with_ptr_v1_bits = Struct [
     u8f ''action_id'' 0x8, rsv 0x8 0x2, u8f ''start_anchor'' 0x6, u8f ''start_offset'' 0x7,
     u8f ''size'' 0x6, u8f ''attributes'' 0x3, u8f ''pointer'' 0x20]"

definition mlx5_ifc_ste_double_action_modify_action_list_v1_bits :: layout where
  "mlx5_ifc_ste_double_action_modify_action_list_v1_bits = Struct [
     u8f ''action_id'' 0x8, u8f ''modify_actions_pattern_pointer'' 0x18,
     u8f ''number_of_modify_actions'' 0x8, u8f ''modify_actions_argument_pointer'' 0x18]"

definition mlx5_ifc_ste_aso_first_hit_action_v1_bits :: layout where
  "mlx5_ifc_ste_aso_first_hit_action_v1_bits = Struct [
     rsv 0x0 0x6, u8f ''set'' 0x1, u8f ''line_id'' 0x9]"

definition mlx5_ifc_ste_aso_flow_meter_action_v1_bits :: layout where
  "mlx5_ifc_ste_aso_flow_meter_action_v1_bits = Struct [
     rsv 0x0 0xc, u8f ''action'' 0x1, u8f ''initial_color'' 0x2, u8f ''line_id'' 0x1]"

definition mlx5_ifc_ste_aso_ct_action_v1_bits :: layout where
  "mlx5_ifc_ste_aso_ct_action_v1_bits = Struct [
     rsv 0x0 0xf, u8f ''direction'' 0x1]"

definition mlx5_ifc_ste_double_action_aso_v1_bits :: layout where
  "mlx5_ifc_ste_double_action_aso_v1_bits = Struct [
     u8f ''action_id'' 0x8, u8f ''aso_context_number'' 0x18, u8f ''dest_reg_id'' 0x2,
     u8f ''change_ordering_tag'' 0x1, u8f ''aso_check_ordering'' 0x1, u8f ''aso_context_type'' 0x4,
     rsv 0x28 0x8,
     (Anonymous, Union [
       u8f ''aso_fields'' 0x10, (Named ''first_hit'', mlx5_ifc_ste_aso_first_hit_action_v1_bits),
       (Named ''flow_meter'', mlx5_ifc_ste_aso_flow_meter_action_v1_bits),
       (Named ''ct'', mlx5_ifc_ste_aso_ct_action_v1_bits)])]"

definition mlx5_ifc_ste_match_bwc_v1_bits :: layout where
  "mlx5_ifc_ste_match_bwc_v1_bits = Struct [
     u8f ''entry_format'' 0x8, u8f ''counter_id'' 0x18, u8f ''miss_address_63_48'' 0x10,
     u8f ''match_definer_ctx_idx'' 0x8, u8f ''miss_address_39_32'' 0x8,
     u8f ''miss_address_31_6'' 0x1a, rsv 0x5a 0x1, u8f ''match_polarity'' 0x1, u8f ''reparse'' 0x1,
     rsv 0x5d 0x3, u8f ''next_table_base_63_48'' 0x10, u8f ''hash_definer_ctx_idx'' 0x8,
     u8f ''next_table_base_39_32_size'' 0x8, u8f ''next_table_base_31_5_size'' 0x1b,
     u8f ''hash_type'' 0x2, u8f ''hash_after_actions'' 0x1, rsv 0x9e 0x2, u8f ''byte_mask'' 0x10,
     u8f ''next_entry_format'' 0x1, u8f ''mask_mode'' 0x1, u8f ''gvmi'' 0xe, u8f ''action'' 0x40]"

definition mlx5_ifc_ste_mask_and_match_v1_bits :: layout where
  "mlx5_ifc_ste_mask_and_match_v1_bits = Struct [
     u8f ''entry_format'' 0x8, u8f ''counter_id'' 0x18, u8f ''miss_address_63_48'' 0x10,
     u8f ''match_definer_ctx_idx'' 0x8, u8f ''miss_address_39_32'' 0x8,
     u8f ''miss_address_31_6'' 0x1a, rsv 0x5a 0x1, u8f ''match_polarity'' 0x1, u8f ''reparse'' 0x1,
     rsv 0x5d 0x3, u8f ''next_table_base_63_48'' 0x10, u8f ''hash_definer_ctx_idx'' 0x8,
     u8f ''next_table_base_39_32_size'' 0x8, u8f ''next_table_base_31_5_size'' 0x1b,
     u8f ''hash_type'' 0x2, u8f ''hash_after_actions'' 0x1, rsv 0x9e 0x2, u8f ''action'' 0x60]"

definition mlx5_ifc_ste_eth_l2_src_bits :: layout where
  "mlx5_ifc_ste_eth_l2_src_bits = Struct [
     u8f ''smac_47_16'' 0x20, u8f ''smac_15_0'' 0x10, u8f ''l3_ethertype'' 0x10,
     u8f ''qp_type'' 0x2, u8f ''ethertype_filter'' 0x1, rsv 0x43 0x1, u8f ''sx_sniffer'' 0x1,
     u8f ''force_lb'' 0x1, u8f ''functional_lb'' 0x1, u8f ''port'' 0x1, rsv 0x48 0x4,
     u8f ''first_priority'' 0x3, u8f ''first_cfi'' 0x1, u8f ''first_vlan_qualifier'' 0x2,
     rsv 0x52 0x2, u8f ''first_vlan_id'' 0xc, u8f ''ip_fragmented'' 0x1, u8f ''tcp_syn'' 0x1,
     u8f ''encp_type'' 0x2, u8f ''l3_type'' 0x2, u8f ''l4_type'' 0x2, rsv 0x68 0x4,
     u8f ''second_priority'' 0x3, u8f ''second_cfi'' 0x1, u8f ''second_vlan_qualifier'' 0x2,
     rsv 0x72 0x2, u8f ''second_vlan_id'' 0xc]"

definition mlx5_ifc_ste_eth_l2_src_v1_bits :: layout where
  "mlx5_ifc_ste_eth_l2_src_v1_bits = Struct [
     rsv 0x0 0x1, u8f ''sx_sniffer'' 0x1, u8f ''functional_loopback'' 0x1,
     u8f ''ip_fragmented'' 0x1, u8f ''qp_type'' 0x2, u8f ''encapsulation_type'' 0x2,
     u8f ''port'' 0x2, u8f ''l3_type'' 0x2, u8f ''l4_type'' 0x2, u8f ''first_vlan_qualifier'' 0x2,
     u8f ''first_priority'' 0x3, u8f ''first_cfi'' 0x1, u8f ''first_vlan_id'' 0xc,
     u8f ''smac_47_16'' 0x20, u8f ''smac_15_0'' 0x10, u8f ''l3_ethertype'' 0x10, rsv 0x60 0x6,
     u8f ''tcp_syn'' 0x1, rsv 0x67 0x3, u8f ''force_loopback'' 0x1, u8f ''l2_ok'' 0x1,
     u8f ''l3_ok'' 0x1, u8f ''l4_ok'' 0x1, u8f ''second_vlan_qualifier'' 0x2,
     u8f ''second_priority'' 0x3, u8f ''second_cfi'' 0x1, u8f ''second_vlan_id'' 0xc]"

definition mlx5_ifc_ste_eth_l2_dst_bits :: layout where
  "mlx5_ifc_ste_eth_l2_dst_bits = Struct [
     u8f ''dmac_47_16'' 0x20, u8f ''dmac_15_0'' 0x10, u8f ''l3_ethertype'' 0x10,
     u8f ''qp_type'' 0x2, u8f ''ethertype_filter'' 0x1, rsv 0x43 0x1, u8f ''sx_sniffer'' 0x1,
     u8f ''force_lb'' 0x1, u8f ''functional_lb'' 0x1, u8f ''port'' 0x1, rsv 0x48 0x4,
     u8f ''first_priority'' 0x3, u8f ''first_cfi'' 0x1, u8f ''first_vlan_qualifier'' 0x2,
     rsv 0x52 0x2, u8f ''first_vlan_id'' 0xc, u8f ''ip_fragmented'' 0x1, u8f ''tcp_syn'' 0x1,
     u8f ''encp_type'' 0x2, u8f ''l3_type'' 0x2, u8f ''l4_type'' 0x2, rsv 0x68 0x4,
     u8f ''second_priority'' 0x3, u8f ''second_cfi'' 0x1, u8f ''second_vlan_qualifier'' 0x2,
     rsv 0x72 0x2, u8f ''second_vlan_id'' 0xc]"

definition mlx5_ifc_ste_eth_l2_dst_v1_bits :: layout where
  "mlx5_ifc_ste_eth_l2_dst_v1_bits = Struct [
     rsv 0x0 0x1, u8f ''sx_sniffer'' 0x1, u8f ''functional_lb'' 0x1, u8f ''ip_fragmented'' 0x1,
     u8f ''qp_type'' 0x2, u8f ''encapsulation_type'' 0x2, u8f ''port'' 0x2, u8f ''l3_type'' 0x2,
     u8f ''l4_type'' 0x2, u8f ''first_vlan_qualifier'' 0x2, u8f ''first_priority'' 0x3,
     u8f ''first_cfi'' 0x1, u8f ''first_vlan_id'' 0xc, u8f ''dmac_47_16'' 0x20,
     u8f ''dmac_15_0'' 0x10, u8f ''l3_ethertype'' 0x10, rsv 0x60 0x6, u8f ''tcp_syn'' 0x1,
     rsv 0x67 0x3, u8f ''force_lb'' 0x1, u8f ''l2_ok'' 0x1, u8f ''l3_ok'' 0x1, u8f ''l4_ok'' 0x1,
     u8f ''second_vlan_qualifier'' 0x2, u8f ''second_priority'' 0x3, u8f ''second_cfi'' 0x1,
     u8f ''second_vlan_id'' 0xc]"

definition mlx5_ifc_ste_eth_l2_src_dst_bits :: layout where
  "mlx5_ifc_ste_eth_l2_src_dst_bits = Struct [
     u8f ''dmac_47_16'' 0x20, u8f ''dmac_15_0'' 0x10, u8f ''smac_47_32'' 0x10,
     u8f ''smac_31_0'' 0x20, u8f ''sx_sniffer'' 0x1, u8f ''force_lb'' 0x1,
     u8f ''functional_lb'' 0x1, u8f ''port'' 0x1, u8f ''l3_type'' 0x2, rsv 0x66 0x6,
     u8f ''first_priority'' 0x3, u8f ''first_cfi'' 0x1, u8f ''first_vlan_qualifier'' 0x2,
     rsv 0x72 0x2, u8f ''first_vlan_id'' 0xc]"

definition mlx5_ifc_ste_eth_l2_src_dst_v1_bits :: layout where
  "mlx5_ifc_ste_eth_l2_src_dst_v1_bits = Struct [
     u8f ''dmac_47_16'' 0x20, u8f ''smac_47_16'' 0x20, u8f ''dmac_15_0'' 0x10, rsv 0x50 0x2,
     u8f ''functional_lb'' 0x1, rsv 0x53 0x5, u8f ''port'' 0x2, u8f ''l3_type'' 0x2, rsv 0x5c 0x2,
     u8f ''first_vlan_qualifier'' 0x2, u8f ''first_priority'' 0x3, u8f ''first_cfi'' 0x1,
     u8f ''first_vlan_id'' 0xc, u8f ''smac_15_0'' 0x10]"

definition mlx5_ifc_ste_eth_l3_ipv4_5_tuple_bits :: layout where
  "mlx5_ifc_ste_eth_l3_ipv4_5_tuple_bits = Struct [
     u8f ''destination_address'' 0x20, u8f ''source_address'' 0x20, u8f ''source_port'' 0x10,
     u8f ''destination_port'' 0x10, u8f ''fragmented'' 0x1, u8f ''first_fragment'' 0x1,
     rsv 0x62 0x2, rsv 0x64 0x1, u8f ''ecn'' 0x2, u8f ''tcp_ns'' 0x1, u8f ''tcp_cwr'' 0x1,
     u8f ''tcp_ece'' 0x1, u8f ''tcp_urg'' 0x1, u8f ''tcp_ack'' 0x1, u8f ''tcp_psh'' 0x1,
     u8f ''tcp_rst'' 0x1, u8f ''tcp_syn'' 0x1, u8f ''tcp_fin'' 0x1, u8f ''dscp'' 0x6, rsv 0x76 0x2,
     u8f ''protocol'' 0x8]"

definition mlx5_ifc_ste_eth_l3_ipv4_5_tuple_v1_bits :: layout where
  "mlx5_ifc_ste_eth_l3_ipv4_5_tuple_v1_bits = Struct [
     u8f ''source_address'' 0x20, u8f ''destination_address'' 0x20, u8f ''source_port'' 0x10,
     u8f ''destination_port'' 0x10, rsv 0x60 0x4, u8f ''l4_ok'' 0x1, u8f ''l3_ok'' 0x1,
     u8f ''fragmented'' 0x1, u8f ''tcp_ns'' 0x1, u8f ''tcp_cwr'' 0x1, u8f ''tcp_ece'' 0x1,
     u8f ''tcp_urg'' 0x1, u8f ''tcp_ack'' 0x1, u8f ''tcp_psh'' 0x1, u8f ''tcp_rst'' 0x1,
     u8f ''tcp_syn'' 0x1, u8f ''tcp_fin'' 0x1, u8f ''dscp'' 0x6, u8f ''ecn'' 0x2,
     u8f ''protocol'' 0x8]"

definition mlx5_ifc_ste_eth_l3_ipv6_dst_bits :: layout where
  "mlx5_ifc_ste_eth_l3_ipv6_dst_bits = Struct [
     u8f ''dst_ip_127_96'' 0x20, u8f ''dst_ip_95_64'' 0x20, u8f ''dst_ip_63_32'' 0x20,
     u8f ''dst_ip_31_0'' 0x20]"

definition mlx5_ifc_ste_eth_l2_tnl_bits :: layout where
  "mlx5_ifc_ste_eth_l2_tnl_bits = Struct [
     u8f ''dmac_47_16'' 0x20, u8f ''dmac_15_0'' 0x10, u8f ''l3_ethertype'' 0x10,
     u8f ''l2_tunneling_network_id'' 0x20, u8f ''ip_fragmented'' 0x1, u8f ''tcp_syn'' 0x1,
     u8f ''encp_type'' 0x2, u8f ''l3_type'' 0x2, u8f ''l4_type'' 0x2, u8f ''first_priority'' 0x3,
     u8f ''first_cfi'' 0x1, rsv 0x6c 0x3, u8f ''gre_key_flag'' 0x1,
     u8f ''first_vlan_qualifier'' 0x2, rsv 0x72 0x2, u8f ''first_vlan_id'' 0xc]"

definition mlx5_ifc_ste_eth_l2_tnl_v1_bits :: layout where
  "mlx5_ifc_ste_eth_l2_tnl_v1_bits = Struct [
     u8f ''l2_tunneling_network_id'' 0x20, u8f ''dmac_47_16'' 0x20, u8f ''dmac_15_0'' 0x10,
     u8f ''l3_ethertype'' 0x10, rsv 0x60 0x3, u8f ''ip_fragmented'' 0x1, rsv 0x64 0x2,
     u8f ''encp_type'' 0x2, rsv 0x68 0x2, u8f ''l3_type'' 0x2, u8f ''l4_type'' 0x2,
     u8f ''first_vlan_qualifier'' 0x2, u8f ''first_priority'' 0x3, u8f ''first_cfi'' 0x1,
     u8f ''first_vlan_id'' 0xc]"

definition mlx5_ifc_ste_eth_l3_ipv6_src_bits :: layout where
  "mlx5_ifc_ste_eth_l3_ipv6_src_bits = Struct [
     u8f ''src_ip_127_96'' 0x20, u8f ''src_ip_95_64'' 0x20, u8f ''src_ip_63_32'' 0x20,
     u8f ''src_ip_31_0'' 0x20]"

definition mlx5_ifc_ste_eth_l3_ipv4_misc_bits :: layout where
  "mlx5_ifc_ste_eth_l3_ipv4_misc_bits = Struct [
     u8f ''version'' 0x4, u8f ''ihl'' 0x4, rsv 0x8 0x8, u8f ''total_length'' 0x10,
     u8f ''identification'' 0x10, u8f ''flags'' 0x3, u8f ''fragment_offset'' 0xd,
     u8f ''time_to_live'' 0x8, rsv 0x48 0x8, u8f ''checksum'' 0x10, rsv 0x60 0x20]"

definition mlx5_ifc_ste_eth_l3_ipv4_misc_v1_bits :: layout where
  "mlx5_ifc_ste_eth_l3_ipv4_misc_v1_bits = Struct [
     u8f ''identification'' 0x10, u8f ''flags'' 0x3, u8f ''fragment_offset'' 0xd,
     u8f ''total_length'' 0x10, u8f ''checksum'' 0x10, u8f ''version'' 0x4, u8f ''ihl'' 0x4,
     u8f ''time_to_live'' 0x8, rsv 0x50 0x10, rsv 0x60 0x1c, u8f ''voq_internal_prio'' 0x4]"

definition mlx5_ifc_ste_eth_l4_bits :: layout where
  "mlx5_ifc_ste_eth_l4_bits = Struct [
     u8f ''fragmented'' 0x1, u8f ''first_fragment'' 0x1, rsv 0x2 0x6, u8f ''protocol'' 0x8,
     u8f ''dst_port'' 0x10, u8f ''ipv6_version'' 0x4, rsv 0x24 0x1, u8f ''ecn'' 0x2,
     u8f ''tcp_ns'' 0x1, u8f ''tcp_cwr'' 0x1, u8f ''tcp_ece'' 0x1, u8f ''tcp_urg'' 0x1,
     u8f ''tcp_ack'' 0x1, u8f ''tcp_psh'' 0x1, u8f ''tcp_rst'' 0x1, u8f ''tcp_syn'' 0x1,
     u8f ''tcp_fin'' 0x1, u8f ''src_port'' 0x10, u8f ''ipv6_payload_length'' 0x10,
     u8f ''ipv6_hop_limit'' 0x8, u8f ''dscp'' 0x6, rsv 0x5e 0x2, u8f ''tcp_data_offset'' 0x4,
     rsv 0x64 0x8, u8f ''flow_label'' 0x14]"

definition mlx5_ifc_ste_eth_l4_v1_bits :: layout where
  "mlx5_ifc_ste_eth_l4_v1_bits = Struct [
     u8f ''ipv6_version'' 0x4, rsv 0x4 0x4, u8f ''dscp'' 0x6, u8f ''ecn'' 0x2,
     u8f ''ipv6_hop_limit'' 0x8, u8f ''protocol'' 0x8, u8f ''src_port'' 0x10,
     u8f ''dst_port'' 0x10, u8f ''first_fragment'' 0x1, rsv 0x41 0xb, u8f ''flow_label'' 0x14,
     u8f ''tcp_data_offset'' 0x4, u8f ''l4_ok'' 0x1, u8f ''l3_ok'' 0x1, u8f ''fragmented'' 0x1,
     u8f ''tcp_ns'' 0x1, u8f ''tcp_cwr'' 0x1, u8f ''tcp_ece'' 0x1, u8f ''tcp_urg'' 0x1,
     u8f ''tcp_ack'' 0x1, u8f ''tcp_psh'' 0x1, u8f ''tcp_rst'' 0x1, u8f ''tcp_syn'' 0x1,
     u8f ''tcp_fin'' 0x1, u8f ''ipv6_paylen'' 0x10]"

definition mlx5_ifc_ste_eth_l4_misc_bits :: layout where
  "mlx5_ifc_ste_eth_l4_misc_bits = Struct [
     u8f ''checksum'' 0x10, u8f ''length'' 0x10, u8f ''seq_num'' 0x20, u8f ''ack_num'' 0x20,
     u8f ''urgent_pointer'' 0x10, u8f ''window_size'' 0x10]"

definition mlx5_ifc_ste_eth_l4_misc_v1_bits :: layout where
  "mlx5_ifc_ste_eth_l4_misc_v1_bits = Struct [
     u8f ''window_size'' 0x10, u8f ''urgent_pointer'' 0x10, u8f ''ack_num'' 0x20,
     u8f ''seq_num'' 0x20, u8f ''length'' 0x10, u8f ''checksum'' 0x10]"

definition mlx5_ifc_ste_mpls_bits :: layout where
  "mlx5_ifc_ste_mpls_bits = Struct [
     u8f ''mpls0_label'' 0x14, u8f ''mpls0_exp'' 0x3, u8f ''mpls0_s_bos'' 0x1,
     u8f ''mpls0_ttl'' 0x8, u8f ''mpls1_label'' 0x20, u8f ''mpls2_label'' 0x20, rsv 0x60 0x16,
     u8f ''mpls4_s_bit'' 0x1, u8f ''mpls4_qualifier'' 0x1, u8f ''mpls3_s_bit'' 0x1,
     u8f ''mpls3_qualifier'' 0x1, u8f ''mpls2_s_bit'' 0x1, u8f ''mpls2_qualifier'' 0x1,
     u8f ''mpls1_s_bit'' 0x1, u8f ''mpls1_qualifier'' 0x1, u8f ''mpls0_s_bit'' 0x1,
     u8f ''mpls0_qualifier'' 0x1]"

definition mlx5_ifc_ste_mpls_v1_bits :: layout where
  "mlx5_ifc_ste_mpls_v1_bits = Struct [
     rsv 0x0 0x15, u8f ''mpls_ok'' 0x1, u8f ''mpls4_s_bit'' 0x1, u8f ''mpls4_qualifier'' 0x1,
     u8f ''mpls3_s_bit'' 0x1, u8f ''mpls3_qualifier'' 0x1, u8f ''mpls2_s_bit'' 0x1,
     u8f ''mpls2_qualifier'' 0x1, u8f ''mpls1_s_bit'' 0x1, u8f ''mpls1_qualifier'' 0x1,
     u8f ''mpls0_s_bit'' 0x1, u8f ''mpls0_qualifier'' 0x1, u8f ''mpls0_label'' 0x14,
     u8f ''mpls0_exp'' 0x3, u8f ''mpls0_s_bos'' 0x1, u8f ''mpls0_ttl'' 0x8,
     u8f ''mpls1_label'' 0x20, u8f ''mpls2_label'' 0x20]"

definition mlx5_ifc_ste_register_0_bits :: layout where
  "mlx5_ifc_ste_register_0_bits = Struct [
     u8f ''register_0_h'' 0x20, u8f ''register_0_l'' 0x20, u8f ''register_1_h'' 0x20,
     u8f ''register_1_l'' 0x20]"

definition mlx5_ifc_ste_register_1_bits :: layout where
  "mlx5_ifc_ste_register_1_bits = Struct [
     u8f ''register_2_h'' 0x20, u8f ''register_2_l'' 0x20, u8f ''register_3_h'' 0x20,
     u8f ''register_3_l'' 0x20]"

definition mlx5_ifc_ste_gre_bits :: layout where
  "mlx5_ifc_ste_gre_bits = Struct [
     u8f ''gre_c_present'' 0x1, rsv 0x1 0x1, u8f ''gre_k_present'' 0x1, u8f ''gre_s_present'' 0x1,
     u8f ''strict_src_route'' 0x1, u8f ''recur'' 0x3, u8f ''flags'' 0x5, u8f ''version'' 0x3,
     u8f ''gre_protocol'' 0x10, u8f ''checksum'' 0x10, u8f ''offset'' 0x10, u8f ''gre_key_h'' 0x18,
     u8f ''gre_key_l'' 0x8, u8f ''seq_num'' 0x20]"

definition mlx5_ifc_ste_gre_v1_bits :: layout where
  "mlx5_ifc_ste_gre_v1_bits = Struct [
     u8f ''gre_c_present'' 0x1, rsv 0x1 0x1, u8f ''gre_k_present'' 0x1, u8f ''gre_s_present'' 0x1,
     u8f ''strict_src_route'' 0x1, u8f ''recur'' 0x3, u8f ''flags'' 0x5, u8f ''version'' 0x3,
     u8f ''gre_protocol'' 0x10, rsv 0x20 0x20, u8f ''gre_key_h'' 0x18, u8f ''gre_key_l'' 0x8,
     rsv 0x60 0x20]"

definition mlx5_ifc_ste_flex_parser_0_bits :: layout where
  "mlx5_ifc_ste_flex_parser_0_bits = Struct [
     u8f ''flex_parser_3'' 0x20, u8f ''flex_parser_2'' 0x20, u8f ''flex_parser_1'' 0x20,
     u8f ''flex_parser_0'' 0x20]"

definition mlx5_ifc_ste_flex_parser_1_bits :: layout where
  "mlx5_ifc_ste_flex_parser_1_bits = Struct [
     u8f ''flex_parser_7'' 0x20, u8f ''flex_parser_6'' 0x20, u8f ''flex_parser_5'' 0x20,
     u8f ''flex_parser_4'' 0x20]"

definition mlx5_ifc_ste_tunnel_header_bits :: layout where
  "mlx5_ifc_ste_tunnel_header_bits = Struct [
     u8f ''tunnel_header_dw0'' 0x20, u8f ''tunnel_header_dw1'' 0x20, rsv 0x40 0x40]"

definition mlx5_ifc_ste_tunnel_header_v1_bits :: layout where
  "mlx5_ifc_ste_tunnel_header_v1_bits = Struct [
     u8f ''tunnel_header_0'' 0x20, u8f ''tunnel_header_1'' 0x20, rsv 0x40 0x40]"

definition mlx5_ifc_ste_flex_parser_tnl_vxlan_gpe_bits :: layout where
  "mlx5_ifc_ste_flex_parser_tnl_vxlan_gpe_bits = Struct [
     u8f ''outer_vxlan_gpe_flags'' 0x8, rsv 0x8 0x10, u8f ''outer_vxlan_gpe_next_protocol'' 0x8,
     u8f ''outer_vxlan_gpe_vni'' 0x18, rsv 0x38 0x8, rsv 0x40 0x40]"

definition mlx5_ifc_ste_flex_parser_tnl_geneve_bits :: layout where
  "mlx5_ifc_ste_flex_parser_tnl_geneve_bits = Struct [
     rsv 0x0 0x2, u8f ''geneve_opt_len'' 0x6, u8f ''geneve_oam'' 0x1, rsv 0x9 0x7,
     u8f ''geneve_protocol_type'' 0x10, u8f ''geneve_vni'' 0x18, rsv 0x38 0x8, rsv 0x40 0x40]"

definition mlx5_ifc_ste_flex_parser_tnl_gtpu_bits :: layout where
  "mlx5_ifc_ste_flex_parser_tnl_gtpu_bits = Struct [
     u8f ''gtpu_msg_flags'' 0x8, u8f ''gtpu_msg_type'' 0x8, rsv 0x10 0x10, u8f ''gtpu_teid'' 0x20,
     rsv 0x40 0x40]"

definition mlx5_ifc_ste_general_purpose_bits :: layout where
  "mlx5_ifc_ste_general_purpose_bits = Struct [
     u8f ''general_purpose_lookup_field'' 0x20, rsv 0x20 0x20, rsv 0x40 0x20, rsv 0x60 0x20]"

definition mlx5_ifc_ste_src_gvmi_qp_bits :: layout where
  "mlx5_ifc_ste_src_gvmi_qp_bits = Struct [
     u8f ''loopback_syndrome'' 0x8, rsv 0x8 0x8, u8f ''source_gvmi'' 0x10, rsv 0x20 0x5,
     u8f ''force_lb'' 0x1, u8f ''functional_lb'' 0x1, u8f ''source_is_requestor'' 0x1,
     u8f ''source_qp'' 0x18, rsv 0x40 0x20, rsv 0x60 0x20]"

definition mlx5_ifc_ste_src_gvmi_qp_v1_bits :: layout where
  "mlx5_ifc_ste_src_gvmi_qp_v1_bits = Struct [
     u8f ''loopback_synd'' 0x8, rsv 0x8 0x7, u8f ''functional_lb'' 0x1, u8f ''source_gvmi'' 0x10,
     u8f ''force_lb'' 0x1, rsv 0x21 0x1, u8f ''source_is_requestor'' 0x1, rsv 0x23 0x5,
     u8f ''source_qp'' 0x18, rsv 0x40 0x20, rsv 0x60 0x20]"

definition mlx5_ifc_ste_icmp_v1_bits :: layout where
  "mlx5_ifc_ste_icmp_v1_bits = Struct [
     u8f ''icmp_payload_data'' 0x20, u8f ''icmp_header_data'' 0x20, u8f ''icmp_type'' 0x8,
     u8f ''icmp_code'' 0x8, rsv 0x50 0x10, rsv 0x60 0x20]"

definition mlx5_ifc_ste_def0_v1_bits :: layout where
  "mlx5_ifc_ste_def0_v1_bits = Struct [
     u8f ''metadata_reg_c_0'' 0x20, u8f ''metadata_reg_c_1'' 0x20, u8f ''dmac_47_16'' 0x20,
     u8f ''dmac_15_0'' 0x10, u8f ''ethertype'' 0x10, rsv 0x60 0x1, u8f ''sx_sniffer'' 0x1,
     u8f ''functional_loopback'' 0x1, u8f ''ip_frag'' 0x1, u8f ''qp_type'' 0x2,
     u8f ''encapsulation_type'' 0x2, u8f ''port'' 0x2, u8f ''outer_l3_type'' 0x2,
     u8f ''outer_l4_type'' 0x2, u8f ''first_vlan_qualifier'' 0x2, u8f ''first_priority'' 0x3,
     u8f ''first_cfi'' 0x1, u8f ''first_vlan_id'' 0xc, rsv 0x80 0xa, u8f ''force_loopback'' 0x1,
     rsv 0x8b 0x3, u8f ''second_vlan_qualifier'' 0x2, u8f ''second_priority'' 0x3,
     u8f ''second_cfi'' 0x1, u8f ''second_vlan_id'' 0xc, u8f ''smac_47_16'' 0x20,
     u8f ''smac_15_0'' 0x10, u8f ''inner_ipv4_checksum_ok'' 0x1, u8f ''inner_l4_checksum_ok'' 0x1,
     u8f ''outer_ipv4_checksum_ok'' 0x1, u8f ''outer_l4_checksum_ok'' 0x1, u8f ''inner_l3_ok'' 0x1,
     u8f ''inner_l4_ok'' 0x1, u8f ''outer_l3_ok'' 0x1, u8f ''outer_l4_ok'' 0x1,
     u8f ''tcp_cwr'' 0x1, u8f ''tcp_ece'' 0x1, u8f ''tcp_urg'' 0x1, u8f ''tcp_ack'' 0x1,
     u8f ''tcp_psh'' 0x1, u8f ''tcp_rst'' 0x1, u8f ''tcp_syn'' 0x1, u8f ''tcp_fin'' 0x1]"

definition mlx5_ifc_ste_def2_v1_bits :: layout where
  "mlx5_ifc_ste_def2_v1_bits = Struct [
     u8f ''metadata_reg_a'' 0x20, u8f ''outer_ip_version'' 0x4, u8f ''outer_ip_ihl'' 0x4,
     u8f ''outer_ip_dscp'' 0x6, u8f ''outer_ip_ecn'' 0x2, u8f ''outer_ip_ttl'' 0x8,
     u8f ''outer_ip_protocol'' 0x8, u8f ''outer_ip_identification'' 0x10,
     u8f ''outer_ip_flags'' 0x3, u8f ''outer_ip_fragment_offset'' 0xd,
     u8f ''outer_ip_total_length'' 0x10, u8f ''outer_ip_checksum'' 0x10, u8f ''reserved_180'' 0xc,
     u8f ''outer_ip_flow_label'' 0x14, u8f ''outer_eth_packet_length'' 0x10,
     u8f ''outer_ip_payload_length'' 0x10, u8f ''outer_l4_sport'' 0x10,
     u8f ''outer_l4_dport'' 0x10, u8f ''outer_data_offset'' 0x4, u8f ''reserved_1e4'' 0x2,
     u8f ''outer_ip_frag'' 0x1, u8f ''tcp_ns'' 0x1, u8f ''tcp_cwr'' 0x1, u8f ''tcp_ece'' 0x1,
     u8f ''tcp_urg'' 0x1, u8f ''tcp_ack'' 0x1, u8f ''tcp_psh'' 0x1, u8f ''tcp_rst'' 0x1,
     u8f ''tcp_syn'' 0x1, u8f ''tcp_fin'' 0x1, u8f ''outer_ip_frag_first'' 0x1,
     u8f ''reserved_1f0'' 0x7, u8f ''inner_ipv4_checksum_ok'' 0x1,
     u8f ''inner_l4_checksum_ok'' 0x1, u8f ''outer_ipv4_checksum_ok'' 0x1,
     u8f ''outer_l4_checksum_ok'' 0x1, u8f ''inner_l3_ok'' 0x1, u8f ''inner_l4_ok'' 0x1,
     u8f ''outer_l3_ok'' 0x1, u8f ''outer_l4_ok'' 0x1]"

definition mlx5_ifc_ste_def6_v1_bits :: layout where
  "mlx5_ifc_ste_def6_v1_bits = Struct [
     u8f ''dst_ipv6_127_96'' 0x20, u8f ''dst_ipv6_95_64'' 0x20, u8f ''dst_ipv6_63_32'' 0x20,
     u8f ''dst_ipv6_31_0'' 0x20, rsv 0x80 0x40, u8f ''outer_l4_sport'' 0x10,
     u8f ''outer_l4_dport'' 0x10, u8f ''reserved_e0'' 0x4, u8f ''l4_ok'' 0x1, u8f ''l3_ok'' 0x1,
     u8f ''ip_frag'' 0x1, u8f ''tcp_ns'' 0x1, u8f ''tcp_cwr'' 0x1, u8f ''tcp_ece'' 0x1,
     u8f ''tcp_urg'' 0x1, u8f ''tcp_ack'' 0x1, u8f ''tcp_psh'' 0x1, u8f ''tcp_rst'' 0x1,
     u8f ''tcp_syn'' 0x1, u8f ''tcp_fin'' 0x1, u8f ''reserved_f0'' 0x10]"

definition mlx5_ifc_ste_def16_v1_bits :: layout where
  "mlx5_ifc_ste_def16_v1_bits = Struct [
     u8f ''tunnel_header_0'' 0x20, u8f ''tunnel_header_1'' 0x20, u8f ''tunnel_header_2'' 0x20,
     u8f ''tunnel_header_3'' 0x20, u8f ''random_number'' 0x10, u8f ''reserved_90'' 0x10,
     u8f ''metadata_reg_a'' 0x20, u8f ''reserved_c0'' 0x8, u8f ''outer_l3_type'' 0x2,
     u8f ''outer_l4_type'' 0x2, u8f ''outer_first_vlan_type'' 0x2, u8f ''reserved_ce'' 0x1,
     u8f ''functional_lb'' 0x1, u8f ''source_gvmi'' 0x10, u8f ''force_lb'' 0x1,
     u8f ''outer_ip_frag'' 0x1, u8f ''source_is_requester'' 0x1, u8f ''reserved_e3'' 0x5,
     u8f ''source_sqn'' 0x18]"

definition mlx5_ifc_ste_def22_v1_bits :: layout where
  "mlx5_ifc_ste_def22_v1_bits = Struct [
     u8f ''outer_ip_src_addr'' 0x20, u8f ''outer_ip_dst_addr'' 0x20, u8f ''outer_l4_sport'' 0x10,
     u8f ''outer_l4_dport'' 0x10, rsv 0x40 0x1, u8f ''sx_sniffer'' 0x1,
     u8f ''functional_loopback'' 0x1, u8f ''outer_ip_frag'' 0x1, u8f ''qp_type'' 0x2,
     u8f ''encapsulation_type'' 0x2, u8f ''port'' 0x2, u8f ''outer_l3_type'' 0x2,
     u8f ''outer_l4_type'' 0x2, u8f ''first_vlan_qualifier'' 0x2, u8f ''first_priority'' 0x3,
     u8f ''first_cfi'' 0x1, u8f ''first_vlan_id'' 0xc, u8f ''metadata_reg_c_0'' 0x20,
     u8f ''outer_dmac_47_16'' 0x20, u8f ''outer_smac_47_16'' 0x20, u8f ''outer_smac_15_0'' 0x10,
     u8f ''outer_dmac_15_0'' 0x10]"

definition mlx5_ifc_ste_def24_v1_bits :: layout where
  "mlx5_ifc_ste_def24_v1_bits = Struct [
     u8f ''metadata_reg_c_2'' 0x20, u8f ''metadata_reg_c_3'' 0x20, u8f ''metadata_reg_c_0'' 0x20,
     u8f ''metadata_reg_c_1'' 0x20, u8f ''outer_ip_src_addr'' 0x20, u8f ''outer_ip_dst_addr'' 0x20,
     u8f ''outer_l4_sport'' 0x10, u8f ''outer_l4_dport'' 0x10, u8f ''inner_ip_protocol'' 0x8,
     u8f ''inner_l3_type'' 0x2, u8f ''inner_l4_type'' 0x2, u8f ''inner_first_vlan_type'' 0x2,
     u8f ''inner_ip_frag'' 0x1, u8f ''functional_lb'' 0x1, u8f ''outer_ip_protocol'' 0x8,
     u8f ''outer_l3_type'' 0x2, u8f ''outer_l4_type'' 0x2, u8f ''outer_first_vlan_type'' 0x2,
     u8f ''outer_ip_frag'' 0x1, u8f ''functional_lb_dup'' 0x1]"

definition mlx5_ifc_ste_def25_v1_bits :: layout where
  "mlx5_ifc_ste_def25_v1_bits = Struct [
     u8f ''inner_ip_src_addr'' 0x20, u8f ''inner_ip_dst_addr'' 0x20, u8f ''inner_l4_sport'' 0x10,
     u8f ''inner_l4_dport'' 0x10, u8f ''tunnel_header_0'' 0x20, u8f ''tunnel_header_1'' 0x20,
     rsv 0xa0 0x20, u8f ''port_number_dup'' 0x2, u8f ''inner_l3_type'' 0x2,
     u8f ''inner_l4_type'' 0x2, u8f ''inner_first_vlan_type'' 0x2, u8f ''port_number'' 0x2,
     u8f ''outer_l3_type'' 0x2, u8f ''outer_l4_type'' 0x2, u8f ''outer_first_vlan_type'' 0x2,
     u8f ''outer_l4_dport'' 0x10, rsv 0xe0 0x20]"

definition mlx5_ifc_ste_def26_v1_bits :: layout where
  "mlx5_ifc_ste_def26_v1_bits = Struct [
     u8f ''src_ipv6_127_96'' 0x20, u8f ''src_ipv6_95_64'' 0x20, u8f ''src_ipv6_63_32'' 0x20,
     u8f ''src_ipv6_31_0'' 0x20, rsv 0x80 0x3, u8f ''ip_frag'' 0x1, rsv 0x84 0x6,
     u8f ''l3_type'' 0x2, u8f ''l4_type'' 0x2, u8f ''first_vlan_type'' 0x2,
     u8f ''first_priority'' 0x3, u8f ''first_cfi'' 0x1, u8f ''first_vlan_id'' 0xc, rsv 0xa0 0xb,
     u8f ''l2_ok'' 0x1, u8f ''l3_ok'' 0x1, u8f ''l4_ok'' 0x1, u8f ''second_vlan_type'' 0x2,
     u8f ''second_priority'' 0x3, u8f ''second_cfi'' 0x1, u8f ''second_vlan_id'' 0xc,
     u8f ''smac_47_16'' 0x20, u8f ''smac_15_0'' 0x10, u8f ''ip_porotcol'' 0x8, u8f ''tcp_cwr'' 0x1,
     u8f ''tcp_ece'' 0x1, u8f ''tcp_urg'' 0x1, u8f ''tcp_ack'' 0x1, u8f ''tcp_psh'' 0x1,
     u8f ''tcp_rst'' 0x1, u8f ''tcp_syn'' 0x1, u8f ''tcp_fin'' 0x1]"

definition mlx5_ifc_ste_def28_v1_bits :: layout where
  "mlx5_ifc_ste_def28_v1_bits = Struct [
     u8f ''inner_l4_sport'' 0x10, u8f ''inner_l4_dport'' 0x10, u8f ''flex_gtpu_teid'' 0x20,
     u8f ''inner_ip_src_addr'' 0x20, u8f ''inner_ip_dst_addr'' 0x20,
     u8f ''outer_ip_src_addr'' 0x20, u8f ''outer_ip_dst_addr'' 0x20, u8f ''outer_l4_sport'' 0x10,
     u8f ''outer_l4_dport'' 0x10, u8f ''inner_ip_protocol'' 0x8, u8f ''inner_l3_type'' 0x2,
     u8f ''inner_l4_type'' 0x2, u8f ''inner_first_vlan_type'' 0x2, u8f ''inner_ip_frag'' 0x1,
     u8f ''functional_lb'' 0x1, u8f ''outer_ip_protocol'' 0x8, u8f ''outer_l3_type'' 0x2,
     u8f ''outer_l4_type'' 0x2, u8f ''outer_first_vlan_type'' 0x2, u8f ''outer_ip_frag'' 0x1,
     u8f ''functional_lb_dup'' 0x1]"

definition mlx5_ifc_ste_def33_v1_bits :: layout where
  "mlx5_ifc_ste_def33_v1_bits = Struct [
     u8f ''outer_ip_src_addr'' 0x20, u8f ''outer_ip_dst_addr'' 0x20, u8f ''outer_l4_sport'' 0x10,
     u8f ''outer_l4_dport'' 0x10, rsv 0x60 0x1, u8f ''sx_sniffer'' 0x1,
     u8f ''functional_loopback'' 0x1, u8f ''outer_ip_frag'' 0x1, u8f ''qp_type'' 0x2,
     u8f ''encapsulation_type'' 0x2, u8f ''port'' 0x2, u8f ''outer_l3_type'' 0x2,
     u8f ''outer_l4_type'' 0x2, u8f ''outer_first_vlan_type'' 0x2,
     u8f ''outer_first_vlan_prio'' 0x3, u8f ''outer_first_vlan_cfi'' 0x1,
     u8f ''outer_first_vlan_vid'' 0xc, rsv 0x80 0x20, rsv 0xa0 0x20, rsv 0xc0 0x20,
     u8f ''outer_ip_version'' 0x4, u8f ''outer_ip_ihl'' 0x4, u8f ''inner_ipv4_checksum_ok'' 0x1,
     u8f ''inner_l4_checksum_ok'' 0x1, u8f ''outer_ipv4_checksum_ok'' 0x1,
     u8f ''outer_l4_checksum_ok'' 0x1, u8f ''inner_l3_ok'' 0x1, u8f ''inner_l4_ok'' 0x1,
     u8f ''outer_l3_ok'' 0x1, u8f ''outer_l4_ok'' 0x1, u8f ''outer_ip_ttl'' 0x8,
     u8f ''outer_ip_protocol'' 0x8]"

definition mlx5_ifc_set_action_in_bits :: layout where
  "mlx5_ifc_set_action_in_bits = Struct [
     u8f ''action_type'' 0x4, u8f ''field'' 0xc, rsv 0x10 0x3, u8f ''offset'' 0x5, rsv 0x18 0x3,
     u8f ''length'' 0x5, u8f ''data'' 0x20]"

definition mlx5_ifc_add_action_in_bits :: layout where
  "mlx5_ifc_add_action_in_bits = Struct [
     u8f ''action_type'' 0x4, u8f ''field'' 0xc, rsv 0x10 0x10, u8f ''data'' 0x20]"

definition mlx5_ifc_copy_action_in_bits :: layout where
  "mlx5_ifc_copy_action_in_bits = Struct [
     u8f ''action_type'' 0x4, u8f ''src_field'' 0xc, rsv 0x10 0x3, u8f ''src_offset'' 0x5,
     rsv 0x18 0x3, u8f ''length'' 0x5, rsv 0x20 0x4, u8f ''dst_field'' 0xc, rsv 0x30 0x3,
     u8f ''dst_offset'' 0x5, rsv 0x38 0x8]"

text \<open>Sizes of the layouts used inside others, and the checks.\<close>

lemma size_mkc [ifc_size]:
  "size_bits mlx5_ifc_mkc_bits = 0x200"
  "accessible mlx5_ifc_mkc_bits"
  by (simp_all add: place_ok_def mlx5_ifc_mkc_bits_def)

lemma check_create_mkey_in [ifc_nested]:
  "accessible mlx5_ifc_create_mkey_in_bits"
  "misnamed mlx5_ifc_create_mkey_in_bits = []"
  by (simp_all add: place_ok_def mlx5_ifc_create_mkey_in_bits_def ifc_size)

text \<open>The layouts of this theory by name.\<close>

definition ifc_steering :: "(string \<times> layout) list" where
  "ifc_steering = [
     (''mkc'', mlx5_ifc_mkc_bits), (''create_mkey_out'', mlx5_ifc_create_mkey_out_bits),
     (''create_mkey_in'', mlx5_ifc_create_mkey_in_bits),
     (''destroy_mkey_out'', mlx5_ifc_destroy_mkey_out_bits),
     (''destroy_mkey_in'', mlx5_ifc_destroy_mkey_in_bits), (''l2_hdr'', mlx5_ifc_l2_hdr_bits),
     (''ste_general'', mlx5_ifc_ste_general_bits),
     (''ste_sx_transmit'', mlx5_ifc_ste_sx_transmit_bits),
     (''ste_rx_steering_mult'', mlx5_ifc_ste_rx_steering_mult_bits),
     (''ste_modify_packet'', mlx5_ifc_ste_modify_packet_bits),
     (''ste_single_action_flow_tag_v1'', mlx5_ifc_ste_single_action_flow_tag_v1_bits),
     (''ste_single_action_modify_list_v1'', mlx5_ifc_ste_single_action_modify_list_v1_bits),
     (''ste_single_action_remove_header_v1'', mlx5_ifc_ste_single_action_remove_header_v1_bits),
     (''ste_single_action_remove_header_size_v1'', mlx5_ifc_ste_single_action_remove_header_size_v1_bits),
     (''ste_double_action_copy_v1'', mlx5_ifc_ste_double_action_copy_v1_bits),
     (''ste_double_action_set_v1'', mlx5_ifc_ste_double_action_set_v1_bits),
     (''ste_double_action_add_v1'', mlx5_ifc_ste_double_action_add_v1_bits),
     (''ste_double_action_insert_with_inline_v1'', mlx5_ifc_ste_double_action_insert_with_inline_v1_bits),
     (''ste_double_action_insert_with_ptr_v1'', mlx5_ifc_ste_double_action_insert_with_ptr_v1_bits),
     (''ste_double_action_modify_action_list_v1'', mlx5_ifc_ste_double_action_modify_action_list_v1_bits),
     (''ste_aso_first_hit_action_v1'', mlx5_ifc_ste_aso_first_hit_action_v1_bits),
     (''ste_aso_flow_meter_action_v1'', mlx5_ifc_ste_aso_flow_meter_action_v1_bits),
     (''ste_aso_ct_action_v1'', mlx5_ifc_ste_aso_ct_action_v1_bits),
     (''ste_double_action_aso_v1'', mlx5_ifc_ste_double_action_aso_v1_bits),
     (''ste_match_bwc_v1'', mlx5_ifc_ste_match_bwc_v1_bits),
     (''ste_mask_and_match_v1'', mlx5_ifc_ste_mask_and_match_v1_bits),
     (''ste_eth_l2_src'', mlx5_ifc_ste_eth_l2_src_bits),
     (''ste_eth_l2_src_v1'', mlx5_ifc_ste_eth_l2_src_v1_bits),
     (''ste_eth_l2_dst'', mlx5_ifc_ste_eth_l2_dst_bits),
     (''ste_eth_l2_dst_v1'', mlx5_ifc_ste_eth_l2_dst_v1_bits),
     (''ste_eth_l2_src_dst'', mlx5_ifc_ste_eth_l2_src_dst_bits),
     (''ste_eth_l2_src_dst_v1'', mlx5_ifc_ste_eth_l2_src_dst_v1_bits),
     (''ste_eth_l3_ipv4_5_tuple'', mlx5_ifc_ste_eth_l3_ipv4_5_tuple_bits),
     (''ste_eth_l3_ipv4_5_tuple_v1'', mlx5_ifc_ste_eth_l3_ipv4_5_tuple_v1_bits),
     (''ste_eth_l3_ipv6_dst'', mlx5_ifc_ste_eth_l3_ipv6_dst_bits),
     (''ste_eth_l2_tnl'', mlx5_ifc_ste_eth_l2_tnl_bits),
     (''ste_eth_l2_tnl_v1'', mlx5_ifc_ste_eth_l2_tnl_v1_bits),
     (''ste_eth_l3_ipv6_src'', mlx5_ifc_ste_eth_l3_ipv6_src_bits),
     (''ste_eth_l3_ipv4_misc'', mlx5_ifc_ste_eth_l3_ipv4_misc_bits),
     (''ste_eth_l3_ipv4_misc_v1'', mlx5_ifc_ste_eth_l3_ipv4_misc_v1_bits),
     (''ste_eth_l4'', mlx5_ifc_ste_eth_l4_bits), (''ste_eth_l4_v1'', mlx5_ifc_ste_eth_l4_v1_bits),
     (''ste_eth_l4_misc'', mlx5_ifc_ste_eth_l4_misc_bits),
     (''ste_eth_l4_misc_v1'', mlx5_ifc_ste_eth_l4_misc_v1_bits),
     (''ste_mpls'', mlx5_ifc_ste_mpls_bits), (''ste_mpls_v1'', mlx5_ifc_ste_mpls_v1_bits),
     (''ste_register_0'', mlx5_ifc_ste_register_0_bits),
     (''ste_register_1'', mlx5_ifc_ste_register_1_bits), (''ste_gre'', mlx5_ifc_ste_gre_bits),
     (''ste_gre_v1'', mlx5_ifc_ste_gre_v1_bits),
     (''ste_flex_parser_0'', mlx5_ifc_ste_flex_parser_0_bits),
     (''ste_flex_parser_1'', mlx5_ifc_ste_flex_parser_1_bits),
     (''ste_tunnel_header'', mlx5_ifc_ste_tunnel_header_bits),
     (''ste_tunnel_header_v1'', mlx5_ifc_ste_tunnel_header_v1_bits),
     (''ste_flex_parser_tnl_vxlan_gpe'', mlx5_ifc_ste_flex_parser_tnl_vxlan_gpe_bits),
     (''ste_flex_parser_tnl_geneve'', mlx5_ifc_ste_flex_parser_tnl_geneve_bits),
     (''ste_flex_parser_tnl_gtpu'', mlx5_ifc_ste_flex_parser_tnl_gtpu_bits),
     (''ste_general_purpose'', mlx5_ifc_ste_general_purpose_bits),
     (''ste_src_gvmi_qp'', mlx5_ifc_ste_src_gvmi_qp_bits),
     (''ste_src_gvmi_qp_v1'', mlx5_ifc_ste_src_gvmi_qp_v1_bits),
     (''ste_icmp_v1'', mlx5_ifc_ste_icmp_v1_bits), (''ste_def0_v1'', mlx5_ifc_ste_def0_v1_bits),
     (''ste_def2_v1'', mlx5_ifc_ste_def2_v1_bits), (''ste_def6_v1'', mlx5_ifc_ste_def6_v1_bits),
     (''ste_def16_v1'', mlx5_ifc_ste_def16_v1_bits),
     (''ste_def22_v1'', mlx5_ifc_ste_def22_v1_bits),
     (''ste_def24_v1'', mlx5_ifc_ste_def24_v1_bits),
     (''ste_def25_v1'', mlx5_ifc_ste_def25_v1_bits),
     (''ste_def26_v1'', mlx5_ifc_ste_def26_v1_bits),
     (''ste_def28_v1'', mlx5_ifc_ste_def28_v1_bits),
     (''ste_def33_v1'', mlx5_ifc_ste_def33_v1_bits),
     (''set_action_in'', mlx5_ifc_set_action_in_bits),
     (''add_action_in'', mlx5_ifc_add_action_in_bits),
     (''copy_action_in'', mlx5_ifc_copy_action_in_bits)]"

lemmas ifc_steering_defs =
  mlx5_ifc_mkc_bits_def mlx5_ifc_create_mkey_out_bits_def mlx5_ifc_destroy_mkey_out_bits_def
  mlx5_ifc_destroy_mkey_in_bits_def mlx5_ifc_l2_hdr_bits_def mlx5_ifc_ste_general_bits_def
  mlx5_ifc_ste_sx_transmit_bits_def mlx5_ifc_ste_rx_steering_mult_bits_def
  mlx5_ifc_ste_modify_packet_bits_def mlx5_ifc_ste_single_action_flow_tag_v1_bits_def
  mlx5_ifc_ste_single_action_modify_list_v1_bits_def
  mlx5_ifc_ste_single_action_remove_header_v1_bits_def
  mlx5_ifc_ste_single_action_remove_header_size_v1_bits_def
  mlx5_ifc_ste_double_action_copy_v1_bits_def mlx5_ifc_ste_double_action_set_v1_bits_def
  mlx5_ifc_ste_double_action_add_v1_bits_def
  mlx5_ifc_ste_double_action_insert_with_inline_v1_bits_def
  mlx5_ifc_ste_double_action_insert_with_ptr_v1_bits_def
  mlx5_ifc_ste_double_action_modify_action_list_v1_bits_def
  mlx5_ifc_ste_aso_first_hit_action_v1_bits_def mlx5_ifc_ste_aso_flow_meter_action_v1_bits_def
  mlx5_ifc_ste_aso_ct_action_v1_bits_def mlx5_ifc_ste_double_action_aso_v1_bits_def
  mlx5_ifc_ste_match_bwc_v1_bits_def mlx5_ifc_ste_mask_and_match_v1_bits_def
  mlx5_ifc_ste_eth_l2_src_bits_def mlx5_ifc_ste_eth_l2_src_v1_bits_def
  mlx5_ifc_ste_eth_l2_dst_bits_def mlx5_ifc_ste_eth_l2_dst_v1_bits_def
  mlx5_ifc_ste_eth_l2_src_dst_bits_def mlx5_ifc_ste_eth_l2_src_dst_v1_bits_def
  mlx5_ifc_ste_eth_l3_ipv4_5_tuple_bits_def mlx5_ifc_ste_eth_l3_ipv4_5_tuple_v1_bits_def
  mlx5_ifc_ste_eth_l3_ipv6_dst_bits_def mlx5_ifc_ste_eth_l2_tnl_bits_def
  mlx5_ifc_ste_eth_l2_tnl_v1_bits_def mlx5_ifc_ste_eth_l3_ipv6_src_bits_def
  mlx5_ifc_ste_eth_l3_ipv4_misc_bits_def mlx5_ifc_ste_eth_l3_ipv4_misc_v1_bits_def
  mlx5_ifc_ste_eth_l4_bits_def mlx5_ifc_ste_eth_l4_v1_bits_def mlx5_ifc_ste_eth_l4_misc_bits_def
  mlx5_ifc_ste_eth_l4_misc_v1_bits_def mlx5_ifc_ste_mpls_bits_def mlx5_ifc_ste_mpls_v1_bits_def
  mlx5_ifc_ste_register_0_bits_def mlx5_ifc_ste_register_1_bits_def mlx5_ifc_ste_gre_bits_def
  mlx5_ifc_ste_gre_v1_bits_def mlx5_ifc_ste_flex_parser_0_bits_def
  mlx5_ifc_ste_flex_parser_1_bits_def mlx5_ifc_ste_tunnel_header_bits_def
  mlx5_ifc_ste_tunnel_header_v1_bits_def mlx5_ifc_ste_flex_parser_tnl_vxlan_gpe_bits_def
  mlx5_ifc_ste_flex_parser_tnl_geneve_bits_def mlx5_ifc_ste_flex_parser_tnl_gtpu_bits_def
  mlx5_ifc_ste_general_purpose_bits_def mlx5_ifc_ste_src_gvmi_qp_bits_def
  mlx5_ifc_ste_src_gvmi_qp_v1_bits_def mlx5_ifc_ste_icmp_v1_bits_def
  mlx5_ifc_ste_def0_v1_bits_def mlx5_ifc_ste_def2_v1_bits_def mlx5_ifc_ste_def6_v1_bits_def
  mlx5_ifc_ste_def16_v1_bits_def mlx5_ifc_ste_def22_v1_bits_def mlx5_ifc_ste_def24_v1_bits_def
  mlx5_ifc_ste_def25_v1_bits_def mlx5_ifc_ste_def26_v1_bits_def mlx5_ifc_ste_def28_v1_bits_def
  mlx5_ifc_ste_def33_v1_bits_def mlx5_ifc_set_action_in_bits_def mlx5_ifc_add_action_in_bits_def
  mlx5_ifc_copy_action_in_bits_def

lemma ifc_steering_accessible: "list_all (\<lambda>(_, l). accessible l) ifc_steering"
  by (simp add: place_ok_def ifc_steering_def ifc_nested ifc_steering_defs)

lemma ifc_steering_misnamed: "misnamed_all ifc_steering = [
     (''mkc'', 0x1d9, 0x1da), (''ste_single_action_remove_header_size_v1'', 0x18, 0x19),
     (''ste_def0_v1'', 0x60, 0x80), (''ste_def0_v1'', 0x80, 0xa0), (''ste_def0_v1'', 0x8b, 0xab),
     (''ste_def22_v1'', 0x40, 0x60)]"
  by (simp add: misnamed_all_def ifc_steering_def ifc_nested ifc_steering_defs)

end
