(* ===== verification/Ifc_Header.thy ===== *)
theory Ifc_Header
  imports Ifc_Commands Ifc_Steering
begin

text \<open>
  The command headers as a whole: the command codes and the checks over all 288 layouts.
\<close>

section \<open>Command codes\<close>

definition mlx5_cmd_op :: "(string \<times> u16) list" where
  "mlx5_cmd_op = [
     (''QUERY_HCA_CAP'', 0x100), (''INIT_HCA'', 0x102), (''TEARDOWN_HCA'', 0x103),
     (''ENABLE_HCA'', 0x104), (''QUERY_PAGES'', 0x107), (''MANAGE_PAGES'', 0x108),
     (''SET_HCA_CAP'', 0x109), (''QUERY_ISSI'', 0x10a), (''SET_ISSI'', 0x10b),
     (''CREATE_MKEY'', 0x200), (''DESTROY_MKEY'', 0x202), (''CREATE_EQ'', 0x301),
     (''DESTROY_EQ'', 0x302), (''CREATE_CQ'', 0x400), (''DESTROY_CQ'', 0x401),
     (''CREATE_QP'', 0x500), (''DESTROY_QP'', 0x501), (''RST2INIT_QP'', 0x502),
     (''INIT2RTR_QP'', 0x503), (''RTR2RTS_QP'', 0x504), (''RTS2RTS_QP'', 0x505),
     (''QUERY_QP'', 0x50b), (''INIT2INIT_QP'', 0x50e), (''CREATE_PSV'', 0x600),
     (''DESTROY_PSV'', 0x601), (''CREATE_SRQ'', 0x700), (''DESTROY_SRQ'', 0x701),
     (''CREATE_XRC_SRQ'', 0x705), (''DESTROY_XRC_SRQ'', 0x706), (''CREATE_DCT'', 0x710),
     (''DESTROY_DCT'', 0x711), (''QUERY_DCT'', 0x713), (''CREATE_XRQ'', 0x717),
     (''DESTROY_XRQ'', 0x718), (''QUERY_ESW_FUNCTIONS'', 0x740),
     (''QUERY_ESW_VPORT_CONTEXT'', 0x752), (''QUERY_NIC_VPORT_CONTEXT'', 0x754),
     (''MODIFY_NIC_VPORT_CONTEXT'', 0x755), (''QUERY_ROCE_ADDRESS'', 0x760),
     (''ALLOC_Q_COUNTER'', 0x771), (''DEALLOC_Q_COUNTER'', 0x772),
     (''CREATE_SCHEDULING_ELEMENT'', 0x782), (''DESTROY_SCHEDULING_ELEMENT'', 0x783),
     (''ALLOC_PD'', 0x800), (''DEALLOC_PD'', 0x801), (''ALLOC_UAR'', 0x802),
     (''DEALLOC_UAR'', 0x803), (''ACCESS_REG'', 0x805), (''ATTACH_TO_MCG'', 0x806),
     (''DETACH_FROM_MCG'', 0x807), (''ALLOC_XRCD'', 0x80e), (''DEALLOC_XRCD'', 0x80f),
     (''ALLOC_TRANSPORT_DOMAIN'', 0x816), (''DEALLOC_TRANSPORT_DOMAIN'', 0x817),
     (''ADD_VXLAN_UDP_DPORT'', 0x827), (''DELETE_VXLAN_UDP_DPORT'', 0x828),
     (''SET_L2_TABLE_ENTRY'', 0x829), (''DELETE_L2_TABLE_ENTRY'', 0x82b), (''QUERY_LAG'', 0x842),
     (''CREATE_TIR'', 0x900), (''DESTROY_TIR'', 0x902), (''CREATE_SQ'', 0x904),
     (''MODIFY_SQ'', 0x905), (''DESTROY_SQ'', 0x906), (''CREATE_RQ'', 0x908),
     (''DESTROY_RQ'', 0x90a), (''CREATE_RMP'', 0x90c), (''DESTROY_RMP'', 0x90e),
     (''CREATE_TIS'', 0x912), (''MODIFY_TIS'', 0x913), (''DESTROY_TIS'', 0x914),
     (''QUERY_TIS'', 0x915), (''CREATE_RQT'', 0x916), (''DESTROY_RQT'', 0x918),
     (''CREATE_FLOW_TABLE'', 0x930), (''DESTROY_FLOW_TABLE'', 0x931),
     (''QUERY_FLOW_TABLE'', 0x932), (''CREATE_FLOW_GROUP'', 0x933),
     (''DESTROY_FLOW_GROUP'', 0x934), (''SET_FLOW_TABLE_ENTRY'', 0x936),
     (''DELETE_FLOW_TABLE_ENTRY'', 0x938), (''CREATE_FLOW_COUNTER'', 0x939),
     (''DEALLOC_FLOW_COUNTER'', 0x93a), (''ALLOC_PACKET_REFORMAT_CONTEXT'', 0x93d),
     (''DEALLOC_PACKET_REFORMAT_CONTEXT'', 0x93e), (''ALLOC_MODIFY_HEADER_CONTEXT'', 0x940),
     (''DEALLOC_MODIFY_HEADER_CONTEXT'', 0x941), (''CREATE_GENERAL_OBJECT'', 0xa00),
     (''MODIFY_GENERAL_OBJECT'', 0xa01), (''QUERY_GENERAL_OBJECT'', 0xa02),
     (''DESTROY_GENERAL_OBJECT'', 0xa03), (''CREATE_UMEM'', 0xa08), (''DESTROY_UMEM'', 0xa0a),
     (''SYNC_STEERING'', 0xb00)]"

definition MLX5_CMD_OP :: "string \<Rightarrow> u16" where
  "MLX5_CMD_OP f = the (map_of mlx5_cmd_op f)"

section \<open>All layouts\<close>

definition ifc_header :: "(string \<times> layout) list" where
  "ifc_header = ifc_caps @ ifc_steering @ ifc_objects @ ifc_commands"

lemma ifc_header_accessible: "list_all (\<lambda>(_, l). accessible l) ifc_header"
  by (simp add: ifc_header_def ifc_caps_accessible ifc_steering_accessible ifc_objects_accessible
      ifc_commands_accessible)

text \<open>
  C30. Every field that a path of member names reaches in a layout of the headers, through any
  nesting of structures and unions, named or anonymous, lies inside the layout; one of up to 32 bits lies inside
  one 32-bit word of the command, and a wider one starts at a word.
\<close>

theorem ifc_fields_accessible:
  assumes "(f, l) \<in> set ifc_header" and "field_at l p = Some (off, n)"
  shows "off + n \<le> size_bits l \<and> (n \<le> 32 \<longrightarrow> off mod 32 + n \<le> 32) \<and> (32 < n \<longrightarrow> off mod 32 = 0)"
proof -
  have "accessible l" using assms(1) ifc_header_accessible by (auto simp: list_all_iff)
  then have "place_ok off n" using assms(2) by (rule field_at_place)
  then show ?thesis using field_at_bounds [OF assms(2)] by (auto simp: place_ok_def)
qed

lemma qpc_in_header: "(''qpc'', mlx5_ifc_qpc_bits) \<in> set ifc_header"
  by (simp add: ifc_header_def ifc_objects_def)

lemma qpc_pkey_index: "field_at mlx5_ifc_qpc_bits [''primary_address_path'', ''pkey_index''] = Some (0xd0, 0x10)"
  by (simp add: mlx5_ifc_qpc_bits_def mlx5_ifc_ads_bits_def ifc_size)

text \<open>The members of the one anonymous union of the headers are reached through the structure around it.\<close>

lemma anonymous_union_members:
  "size_bits mlx5_ifc_ste_double_action_aso_v1_bits = 64"
  "field_at mlx5_ifc_ste_double_action_aso_v1_bits [''aso_fields''] = Some (0x30, 0x10)"
  "field_at mlx5_ifc_ste_double_action_aso_v1_bits [''flow_meter'', ''line_id''] = Some (0x3f, 0x1)"
  by (simp_all add: mlx5_ifc_ste_double_action_aso_v1_bits_def mlx5_ifc_ste_aso_first_hit_action_v1_bits_def
      mlx5_ifc_ste_aso_flow_meter_action_v1_bits_def mlx5_ifc_ste_aso_ct_action_v1_bits_def)

theorem ifc_fields_accessible_witness:
  "(0xd0 :: nat) + 0x10 \<le> size_bits mlx5_ifc_qpc_bits \<and> (0xd0 :: nat) mod 32 + 0x10 \<le> 32"
  using ifc_fields_accessible [OF qpc_in_header qpc_pkey_index] by simp

text \<open>
  Of the reserved members of the 288 layouts, named after the bit offset they start at, exactly
  the sixteen listed here start elsewhere; each is given with the offset in its name and the
  offset it has.
\<close>

theorem ifc_reserved_names:
  "length ifc_header = 288 \<and> misnamed_all ifc_header = [
     (''dr_match_set_misc'', 0xe4, 0xd8), (''dr_match_set_misc'', 0xec, 0xe0),
     (''dr_match_set_misc2'', 0x260, 0x1c0), (''dr_match_set_misc3'', 0x150, 0x170),
     (''dr_match_set_misc3'', 0x1c0, 0x1e0), (''cmd_hca_cap'', 0x682, 0x681),
     (''flow_table_nic_cap'', 0x1400, 0x1a00), (''mkc'', 0x1d9, 0x1da),
     (''ste_single_action_remove_header_size_v1'', 0x18, 0x19), (''ste_def0_v1'', 0x60, 0x80),
     (''ste_def0_v1'', 0x80, 0xa0), (''ste_def0_v1'', 0x8b, 0xab), (''ste_def22_v1'', 0x40, 0x60),
     (''flow_meter'', 0x180, 0x200), (''definer'', 0x60, 0xa0), (''esw_vport_context'', 0x40, 0x60)]"
proof
  show "length ifc_header = 288"
    by (simp add: ifc_header_def ifc_caps_def ifc_steering_def ifc_objects_def ifc_commands_def)
  have app: "misnamed_all (xs @ ys) = misnamed_all xs @ misnamed_all ys" for xs ys
    by (simp add: misnamed_all_def)
  show "misnamed_all ifc_header = [
     (''dr_match_set_misc'', 0xe4, 0xd8), (''dr_match_set_misc'', 0xec, 0xe0),
     (''dr_match_set_misc2'', 0x260, 0x1c0), (''dr_match_set_misc3'', 0x150, 0x170),
     (''dr_match_set_misc3'', 0x1c0, 0x1e0), (''cmd_hca_cap'', 0x682, 0x681),
     (''flow_table_nic_cap'', 0x1400, 0x1a00), (''mkc'', 0x1d9, 0x1da),
     (''ste_single_action_remove_header_size_v1'', 0x18, 0x19), (''ste_def0_v1'', 0x60, 0x80),
     (''ste_def0_v1'', 0x80, 0xa0), (''ste_def0_v1'', 0x8b, 0xab), (''ste_def22_v1'', 0x40, 0x60),
     (''flow_meter'', 0x180, 0x200), (''definer'', 0x60, 0xa0), (''esw_vport_context'', 0x40, 0x60)]"
    unfolding ifc_header_def app
    by (simp only: ifc_caps_misnamed ifc_steering_misnamed ifc_objects_misnamed ifc_commands_misnamed append.simps)
qed

end
