(* ===== verification/Mlx5gda_Cmd.thy ===== *)
theory Mlx5gda_Cmd
  imports Ifc_Header "HOL-Library.Log_Nat"
begin

text \<open>
  The device commands that \<^verbatim>\<open>src/ep_ibgda/mlx5gda.cpp\<close> builds: creation of a completion queue and
  of a queue pair, the capability query and the three state changes of a queue pair, each as the
  sequence of field stores of the code on a zeroed command. The access macros are the parameter
  \<open>D\<close>; constants of \<^verbatim>\<open>verbs.h\<close> (the path MTU) come in as arguments.
\<close>

section \<open>Powers of two\<close>

text \<open>
  \<^verbatim>\<open>round_up_pow2\<close> at 32 bits. The shift of the loop can drop the only bit of \<open>pow2\<close>, after which
  the loop never ends: the result is then \<open>None\<close>.
\<close>

partial_function (option) pow2_loop :: "u32 \<Rightarrow> u32 \<Rightarrow> u32 option" where
  "pow2_loop pow2 n = (if pow2 < n then pow2_loop (push_bit 1 pow2) n else Some pow2)"

definition round_up_pow2 :: "u32 \<Rightarrow> u32 option" where
  "round_up_pow2 n = (if n \<le> 1 then Some 1 else pow2_loop 1 n)"

definition IBGDA_ROUND_UP_POW2_OR_0 :: "u32 \<Rightarrow> u32 option" where
  "IBGDA_ROUND_UP_POW2_OR_0 n = (if n = 0 then Some 0 else round_up_pow2 n)"

definition IBGDA_ILOG2_OR0 :: "u32 \<Rightarrow> u32" where
  "IBGDA_ILOG2_OR0 n = (if n = 0 then 0 else of_nat (ceillog2 (unat n)))"

text \<open>\<^verbatim>\<open>__builtin_ctz\<close>\<close>

definition ctz :: "u32 \<Rightarrow> u32" where
  "ctz w = of_nat (length (takeWhile Not (map (bit w) [0..<32])))"

lemma pow2_loop_power:
  assumes "i \<le> k" "k < 32" "unat n \<le> 2 ^ k" "k = 0 \<or> 2 ^ (k - 1) < unat n"
  shows "pow2_loop (2 ^ i) n = Some (2 ^ k)"
  using assms
proof (induction "k - i" arbitrary: i)
  case 0
  then have "i = k" by simp
  then have "\<not> (2 ^ i :: u32) < n" using 0 by (simp add: word_less_nat_alt not_less unat_pow2_32)
  then show ?case using \<open>i = k\<close> by (subst pow2_loop.simps) simp
next
  case (Suc d)
  then have i: "i \<le> k - 1" "i < k" by simp_all
  have "(2::nat) ^ i \<le> 2 ^ (k - 1)" using i by (intro power_increasing) simp_all
  also have "\<dots> < unat n" using Suc.prems(4) i by auto
  finally have "(2 ^ i :: u32) < n" using Suc.prems(2) i by (simp add: word_less_nat_alt unat_pow2_32)
  moreover have "push_bit 1 (2 ^ i :: u32) = 2 ^ Suc i" by (simp add: push_bit_eq_mult)
  moreover have "pow2_loop (2 ^ Suc i) n = Some (2 ^ k)" using Suc i by (intro Suc.hyps) simp_all
  ultimately show ?case by (subst pow2_loop.simps) (simp only: if_True)
qed

lemma pow2_loop_result: "pow2_loop p n = Some r \<Longrightarrow> \<exists>k. r = push_bit k p \<and> n \<le> r"
proof (rule pow2_loop.raw_induct [where P = "\<lambda>p n r. \<exists>k. r = push_bit k p \<and> n \<le> r"])
  fix f p n and r :: u32
  assume IH: "\<And>p n r. f p n = Some r \<Longrightarrow> \<exists>k. r = push_bit k p \<and> n \<le> r"
    and r: "(if p < n then f (push_bit 1 p) n else Some p) = Some r"
  show "\<exists>k. r = push_bit k p \<and> n \<le> r"
  proof (cases "p < n")
    case True
    then obtain k where "r = push_bit k (push_bit 1 p)" "n \<le> r" using r IH by force
    then show ?thesis by (intro exI [of _ "k + 1"]) simp
  next
    case False
    then have "r = p" using r by simp
    then show ?thesis using False by (intro exI [of _ 0]) (simp add: not_less)
  qed
qed

text \<open>The loop ends exactly for arguments up to \<open>2\<^sup>3\<^sup>1\<close>.\<close>

lemma ceil_pow2:
  assumes "0 < n"
  obtains k where "n \<le> 2 ^ k" "k = 0 \<or> 2 ^ (k - 1) < (n::nat)"
proof -
  have ex: "n \<le> 2 ^ n" by (simp add: less_imp_le)
  define k where "k = (LEAST k. n \<le> 2 ^ k)"
  have "n \<le> 2 ^ k" unfolding k_def by (rule LeastI [of _ n]) (rule ex)
  moreover have "k = 0 \<or> 2 ^ (k - 1) < n"
    using not_less_Least [of "k - 1" "\<lambda>k. n \<le> 2 ^ k"] unfolding k_def [symmetric] by fastforce
  ultimately show ?thesis by (rule that)
qed

lemma round_up_pow2_power:
  assumes n: "0 < n" "unat n \<le> 2 ^ 31"
  obtains k where "round_up_pow2 n = Some (2 ^ k)" "k < 32" "unat n \<le> 2 ^ k" "k = 0 \<or> 2 ^ (k - 1) < unat n"
proof -
  have "0 < unat n" using n(1) by (simp add: word_less_nat_alt)
  then obtain k where k: "unat n \<le> 2 ^ k" "k = 0 \<or> 2 ^ (k - 1) < unat n" by (rule ceil_pow2)
  have "k < 32"
  proof (rule ccontr)
    assume "\<not> k < 32"
    then have "(2::nat) ^ 31 \<le> 2 ^ (k - 1)" by (intro power_increasing) simp_all
    then show False using k(2) n(2) \<open>\<not> k < 32\<close> by simp
  qed
  moreover have "round_up_pow2 n = Some (2 ^ k)"
  proof (cases "n \<le> 1")
    case True
    then have "unat n = 1" using \<open>0 < unat n\<close> by (simp add: word_le_nat_alt)
    then have "k = 0" using k(2) by (cases k) simp_all
    then show ?thesis using True by (simp add: round_up_pow2_def)
  next
    case False
    have "pow2_loop (2 ^ 0) n = Some (2 ^ k)"
      by (rule pow2_loop_power [OF _ \<open>k < 32\<close> k]) simp
    then show ?thesis using False by (simp add: round_up_pow2_def)
  qed
  ultimately show ?thesis using k that by blast
qed

lemma round_up_pow2_diverges:
  assumes "2 ^ 31 < unat n"
  shows "round_up_pow2 n = None"
proof (rule ccontr)
  assume "round_up_pow2 n \<noteq> None"
  moreover have "\<not> n \<le> 1" using assms by (simp add: word_le_nat_alt)
  ultimately obtain r where "pow2_loop 1 n = Some r" by (auto simp: round_up_pow2_def)
  then obtain k where k: "r = push_bit k 1" "n \<le> r" using pow2_loop_result by blast
  have "unat r \<le> 2 ^ 31"
  proof (cases "k < 32")
    case True
    then have "(2::nat) ^ k \<le> 2 ^ 31" by (intro power_increasing) simp_all
    then show ?thesis using True by (simp add: k(1) push_bit_of_1 unat_pow2_32)
  next
    case False
    then have "r = 0" unfolding k(1) by (intro bit_word_eqI) (auto simp: bit_simps)
    then show ?thesis by simp
  qed
  then show False using k(2) assms by (simp add: word_le_nat_alt)
qed

section \<open>Command builders\<close>

abbreviation create_cq_in :: layout where "create_cq_in \<equiv> mlx5_ifc_create_cq_in_bits"
abbreviation cqc :: layout where "cqc \<equiv> mlx5_ifc_cqc_bits"
abbreviation create_qp_in :: layout where "create_qp_in \<equiv> mlx5_ifc_create_qp_in_bits"
abbreviation qpc :: layout where "qpc \<equiv> mlx5_ifc_qpc_bits"
abbreviation rst2init_qp_in :: layout where "rst2init_qp_in \<equiv> mlx5_ifc_rst2init_qp_in_bits"
abbreviation query_hca_cap_in :: layout where "query_hca_cap_in \<equiv> mlx5_ifc_query_hca_cap_in_bits"

definition MLX5_CQE_SIZE_64B :: u32 where "MLX5_CQE_SIZE_64B = 0"
definition MLX5_QPC_ST_RC :: u32 where "MLX5_QPC_ST_RC = 0"
definition MLX5_QPC_PM_STATE_MIGRATED :: u32 where "MLX5_QPC_PM_STATE_MIGRATED = 3"
definition MLX5_RQ_TYPE_ZERO_SIZE_RQ :: u32 where "MLX5_RQ_TYPE_ZERO_SIZE_RQ = 3"
definition MLX5_CAP_GENERAL :: u32 where "MLX5_CAP_GENERAL = 0"
definition HCA_CAP_OPMOD_GET_CUR :: u32 where "HCA_CAP_OPMOD_GET_CUR = 1"
definition MLX5_SET_HCA_CAP_OP_MOD_GENERAL_DEVICE :: u32 where
  "MLX5_SET_HCA_CAP_OP_MOD_GENERAL_DEVICE = push_bit 1 0"

abbreviation cmd_op :: "string \<Rightarrow> u32" where
  "cmd_op f \<equiv> ucast (MLX5_CMD_OP f)"

definition create_cq_cmd :: "devx \<Rightarrow> u32 \<Rightarrow> size_t \<Rightarrow> size_t \<Rightarrow> u32 \<Rightarrow> u32 \<Rightarrow> u32 \<Rightarrow> cmd" where
  "create_cq_cmd D umem_id cq_offset dbr_offset num_cqe page_id eqn =
     (let c = zero_cmd create_cq_in;
          c = DEVX_SET D create_cq_in 0 [''opcode''] (cmd_op ''CREATE_CQ'') c;
          c = DEVX_SET D create_cq_in 0 [''cq_umem_id''] umem_id c;
          c = DEVX_SET D create_cq_in 0 [''cq_umem_valid''] 1 c;
          c = DEVX_SET64 D create_cq_in 0 [''cq_umem_offset''] cq_offset c;
          cq_context = DEVX_ADDR_OF create_cq_in 0 [''cq_context''];
          c = DEVX_SET D cqc cq_context [''dbr_umem_valid''] 1 c;
          c = DEVX_SET D cqc cq_context [''cqe_sz''] MLX5_CQE_SIZE_64B c;
          c = DEVX_SET D cqc cq_context [''cc''] 1 c;
          c = DEVX_SET D cqc cq_context [''oi''] 1 c;
          c = DEVX_SET D cqc cq_context [''dbr_umem_id''] umem_id c;
          c = DEVX_SET D cqc cq_context [''log_cq_size''] (ctz num_cqe) c;
          c = DEVX_SET D cqc cq_context [''uar_page''] page_id c;
          c = DEVX_SET D cqc cq_context [''c_eqn''] eqn c;
          c = DEVX_SET64 D cqc cq_context [''dbr_addr''] dbr_offset c
      in c)"

definition query_hca_cap_cmd :: "devx \<Rightarrow> cmd" where
  "query_hca_cap_cmd D =
     (let c = zero_cmd query_hca_cap_in;
          c = DEVX_SET D query_hca_cap_in 0 [''opcode''] (cmd_op ''QUERY_HCA_CAP'') c;
          c = DEVX_SET D query_hca_cap_in 0 [''op_mod'']
                (MLX5_SET_HCA_CAP_OP_MOD_GENERAL_DEVICE OR push_bit 1 MLX5_CAP_GENERAL OR HCA_CAP_OPMOD_GET_CUR) c
      in c)"

definition get_cqe_version :: "devx \<Rightarrow> cmd \<Rightarrow> u32" where
  "get_cqe_version D out =
     (let cap = DEVX_ADDR_OF mlx5_ifc_query_hca_cap_out_bits 0 [''capability'', ''cmd_hca_cap'']
      in DEVX_GET D mlx5_ifc_cmd_hca_cap_bits cap [''cqe_version''] out)"

definition create_qp_cmd ::
  "devx \<Rightarrow> u32 \<Rightarrow> size_t \<Rightarrow> size_t \<Rightarrow> u32 \<Rightarrow> u32 \<Rightarrow> u32 \<Rightarrow> u32 \<Rightarrow> cmd" where
  "create_qp_cmd D umem_id wq_offset dbr_offset num_wqebb pdn page_id cqn =
     (let c = zero_cmd create_qp_in;
          c = DEVX_SET D create_qp_in 0 [''opcode''] (cmd_op ''CREATE_QP'') c;
          c = DEVX_SET D create_qp_in 0 [''wq_umem_id''] umem_id c;
          c = DEVX_SET64 D create_qp_in 0 [''wq_umem_offset''] wq_offset c;
          c = DEVX_SET D create_qp_in 0 [''wq_umem_valid''] 1 c;
          qp_context = DEVX_ADDR_OF create_qp_in 0 [''qpc''];
          c = DEVX_SET D qpc qp_context [''st''] MLX5_QPC_ST_RC c;
          c = DEVX_SET D qpc qp_context [''pm_state''] MLX5_QPC_PM_STATE_MIGRATED c;
          c = DEVX_SET D qpc qp_context [''pd''] pdn c;
          c = DEVX_SET D qpc qp_context [''uar_page''] page_id c;
          c = DEVX_SET D qpc qp_context [''rq_type''] MLX5_RQ_TYPE_ZERO_SIZE_RQ c;
          c = DEVX_SET D qpc qp_context [''cqn_snd''] cqn c;
          c = DEVX_SET D qpc qp_context [''log_sq_size''] (IBGDA_ILOG2_OR0 num_wqebb) c;
          c = DEVX_SET D qpc qp_context [''log_rq_size''] 0 c;
          c = DEVX_SET D qpc qp_context [''dbr_umem_valid''] 1 c;
          c = DEVX_SET64 D qpc qp_context [''dbr_addr''] dbr_offset c;
          c = DEVX_SET D qpc qp_context [''dbr_umem_id''] umem_id c;
          c = DEVX_SET D qpc qp_context [''user_index''] 0 c;
          c = DEVX_SET D qpc qp_context [''page_offset''] 0 c
      in c)"

text \<open>
  The state changes. The code builds all three with the layout of \<^verbatim>\<open>rst2init_qp_in\<close>, on arrays of the
  size of their own layouts. \<open>ib\<close> tells whether the link layer of the port is InfiniBand.
\<close>

definition rst2init_cmd :: "devx \<Rightarrow> u32 \<Rightarrow> u8 \<Rightarrow> bool \<Rightarrow> u16 \<Rightarrow> cmd" where
  "rst2init_cmd D qpn port_num ib pkey_index =
     (let c = zero_cmd rst2init_qp_in;
          c = DEVX_SET D rst2init_qp_in 0 [''opcode''] (cmd_op ''RST2INIT_QP'') c;
          c = DEVX_SET D rst2init_qp_in 0 [''qpn''] qpn c;
          p = DEVX_ADDR_OF rst2init_qp_in 0 [''qpc''];
          c = DEVX_SET D qpc p [''rwe''] 1 c;
          c = DEVX_SET D qpc p [''rre''] 1 c;
          c = DEVX_SET D qpc p [''rae''] 1 c;
          c = DEVX_SET D qpc p [''atomic_mode''] 3 c;
          c = DEVX_SET D qpc p [''primary_address_path'', ''vhca_port_num''] (ucast port_num) c;
          c = (if ib then DEVX_SET D qpc p [''primary_address_path'', ''pkey_index''] (ucast pkey_index) c else c);
          c = DEVX_SET D qpc p [''pm_state''] MLX5_QPC_PM_STATE_MIGRATED c
      in c)"

text \<open>\<^verbatim>\<open>memcpy\<close> into the command at a bit address\<close>

definition cmd_memcpy :: "nat \<Rightarrow> u8 list \<Rightarrow> cmd \<Rightarrow> cmd" where
  "cmd_memcpy p bs c = take (p div 8) c @ bs @ drop (p div 8 + length bs) c"

definition init2rtr_base :: "devx \<Rightarrow> u32 \<Rightarrow> u32 \<Rightarrow> u32 \<Rightarrow> cmd" where
  "init2rtr_base D qpn mtu remote_qpn =
     (let c = zero_cmd mlx5_ifc_init2rtr_qp_in_bits;
          c = DEVX_SET D rst2init_qp_in 0 [''opcode''] (cmd_op ''INIT2RTR_QP'') c;
          c = DEVX_SET D rst2init_qp_in 0 [''qpn''] qpn c;
          p = DEVX_ADDR_OF rst2init_qp_in 0 [''qpc''];
          c = DEVX_SET D qpc p [''mtu''] mtu c;
          c = DEVX_SET D qpc p [''log_msg_max''] 30 c;
          c = DEVX_SET D qpc p [''remote_qpn''] remote_qpn c;
          c = DEVX_SET D qpc p [''min_rnr_nak''] 7 c;
          c = DEVX_SET D qpc p [''log_rra_max''] 1 c
      in c)"

definition init2rtr_ib_cmd :: "devx \<Rightarrow> u32 \<Rightarrow> u32 \<Rightarrow> u32 \<Rightarrow> u8 \<Rightarrow> u16 \<Rightarrow> cmd" where
  "init2rtr_ib_cmd D qpn mtu remote_qpn sl dlid =
     (let p = DEVX_ADDR_OF rst2init_qp_in 0 [''qpc''];
          c = init2rtr_base D qpn mtu remote_qpn;
          c = DEVX_SET D qpc p [''primary_address_path'', ''sl''] (ucast sl) c;
          c = DEVX_SET D qpc p [''primary_address_path'', ''rlid''] (ucast dlid) c
      in c)"

definition init2rtr_eth_cmd :: "devx \<Rightarrow> u32 \<Rightarrow> u32 \<Rightarrow> u32 \<Rightarrow> u8 list \<Rightarrow> u8 list \<Rightarrow> u8 \<Rightarrow> u16 \<Rightarrow> cmd" where
  "init2rtr_eth_cmd D qpn mtu remote_qpn rmac rgid sgid_index dlid =
     (let p = DEVX_ADDR_OF rst2init_qp_in 0 [''qpc''];
          c = init2rtr_base D qpn mtu remote_qpn;
          c = cmd_memcpy (DEVX_ADDR_OF qpc p [''primary_address_path'', ''rmac_47_32'']) rmac c;
          c = DEVX_SET D qpc p [''primary_address_path'', ''hop_limit''] 255 c;
          c = DEVX_SET D qpc p [''primary_address_path'', ''src_addr_index''] (ucast sgid_index) c;
          c = DEVX_SET D qpc p [''primary_address_path'', ''udp_sport''] (ucast dlid) c;
          c = cmd_memcpy (DEVX_ADDR_OF qpc p [''primary_address_path'', ''rgid_rip'']) rgid c
      in c)"

definition rtr2rts_cmd :: "devx \<Rightarrow> u32 \<Rightarrow> cmd" where
  "rtr2rts_cmd D qpn =
     (let c = zero_cmd mlx5_ifc_rtr2rts_qp_in_bits;
          c = DEVX_SET D rst2init_qp_in 0 [''opcode''] (cmd_op ''RTR2RTS_QP'') c;
          c = DEVX_SET D rst2init_qp_in 0 [''qpn''] qpn c;
          p = DEVX_ADDR_OF rst2init_qp_in 0 [''qpc''];
          c = DEVX_SET D qpc p [''log_ack_req_freq''] 0 c;
          c = DEVX_SET D qpc p [''log_sra_max''] 1 c;
          c = DEVX_SET D qpc p [''next_send_psn''] 0 c;
          c = DEVX_SET D qpc p [''retry_count''] 7 c;
          c = DEVX_SET D qpc p [''rnr_retry''] 7 c;
          c = DEVX_SET D qpc p [''primary_address_path'', ''ack_timeout''] 20 c
      in c)"

section \<open>The fields the builders use\<close>

named_theorems devx_field "offsets and widths of the fields that the commands set"

lemma fields_ads [devx_field]:
  "field_at mlx5_ifc_ads_bits [''vhca_port_num''] = Some (0x128, 0x8)"
  "field_at mlx5_ifc_ads_bits [''pkey_index''] = Some (0x10, 0x10)"
  "field_at mlx5_ifc_ads_bits [''sl''] = Some (0x124, 0x4)"
  "field_at mlx5_ifc_ads_bits [''rlid''] = Some (0x30, 0x10)"
  "field_at mlx5_ifc_ads_bits [''rmac_47_32''] = Some (0x130, 0x10)"
  "field_at mlx5_ifc_ads_bits [''hop_limit''] = Some (0x58, 0x8)"
  "field_at mlx5_ifc_ads_bits [''src_addr_index''] = Some (0x48, 0x8)"
  "field_at mlx5_ifc_ads_bits [''udp_sport''] = Some (0x110, 0x10)"
  "field_at mlx5_ifc_ads_bits [''rgid_rip''] = Some (0x80, 0x80)"
  "field_at mlx5_ifc_ads_bits [''ack_timeout''] = Some (0x40, 0x5)"
  by (simp_all add: mlx5_ifc_ads_bits_def devx_field ifc_size)

lemma fields_qpc [devx_field]:
  "field_at mlx5_ifc_qpc_bits [''st''] = Some (0x8, 0x8)"
  "field_at mlx5_ifc_qpc_bits [''pm_state''] = Some (0x13, 0x2)"
  "field_at mlx5_ifc_qpc_bits [''pd''] = Some (0x28, 0x18)"
  "field_at mlx5_ifc_qpc_bits [''uar_page''] = Some (0x68, 0x18)"
  "field_at mlx5_ifc_qpc_bits [''rq_type''] = Some (0x565, 0x3)"
  "field_at mlx5_ifc_qpc_bits [''cqn_snd''] = Some (0x3e8, 0x18)"
  "field_at mlx5_ifc_qpc_bits [''log_sq_size''] = Some (0x51, 0x4)"
  "field_at mlx5_ifc_qpc_bits [''log_rq_size''] = Some (0x49, 0x4)"
  "field_at mlx5_ifc_qpc_bits [''dbr_umem_valid''] = Some (0x683, 0x1)"
  "field_at mlx5_ifc_qpc_bits [''dbr_addr''] = Some (0x500, 0x40)"
  "field_at mlx5_ifc_qpc_bits [''dbr_umem_id''] = Some (0x720, 0x20)"
  "field_at mlx5_ifc_qpc_bits [''user_index''] = Some (0x88, 0x18)"
  "field_at mlx5_ifc_qpc_bits [''page_offset''] = Some (0x494, 0x6)"
  "field_at mlx5_ifc_qpc_bits [''rwe''] = Some (0x491, 0x1)"
  "field_at mlx5_ifc_qpc_bits [''rre''] = Some (0x490, 0x1)"
  "field_at mlx5_ifc_qpc_bits [''rae''] = Some (0x492, 0x1)"
  "field_at mlx5_ifc_qpc_bits [''atomic_mode''] = Some (0x48c, 0x4)"
  "field_at mlx5_ifc_qpc_bits [''mtu''] = Some (0x40, 0x3)"
  "field_at mlx5_ifc_qpc_bits [''log_msg_max''] = Some (0x43, 0x5)"
  "field_at mlx5_ifc_qpc_bits [''remote_qpn''] = Some (0xa8, 0x18)"
  "field_at mlx5_ifc_qpc_bits [''min_rnr_nak''] = Some (0x4a3, 0x5)"
  "field_at mlx5_ifc_qpc_bits [''log_rra_max''] = Some (0x488, 0x3)"
  "field_at mlx5_ifc_qpc_bits [''log_ack_req_freq''] = Some (0x380, 0x4)"
  "field_at mlx5_ifc_qpc_bits [''log_sra_max''] = Some (0x388, 0x3)"
  "field_at mlx5_ifc_qpc_bits [''next_send_psn''] = Some (0x3c8, 0x18)"
  "field_at mlx5_ifc_qpc_bits [''retry_count''] = Some (0x38d, 0x3)"
  "field_at mlx5_ifc_qpc_bits [''rnr_retry''] = Some (0x390, 0x3)"
  "field_at mlx5_ifc_qpc_bits [''primary_address_path'', ''vhca_port_num''] = Some (0x1e8, 0x8)"
  "field_at mlx5_ifc_qpc_bits [''primary_address_path'', ''pkey_index''] = Some (0xd0, 0x10)"
  "field_at mlx5_ifc_qpc_bits [''primary_address_path'', ''sl''] = Some (0x1e4, 0x4)"
  "field_at mlx5_ifc_qpc_bits [''primary_address_path'', ''rlid''] = Some (0xf0, 0x10)"
  "field_at mlx5_ifc_qpc_bits [''primary_address_path'', ''rmac_47_32''] = Some (0x1f0, 0x10)"
  "field_at mlx5_ifc_qpc_bits [''primary_address_path'', ''hop_limit''] = Some (0x118, 0x8)"
  "field_at mlx5_ifc_qpc_bits [''primary_address_path'', ''src_addr_index''] = Some (0x108, 0x8)"
  "field_at mlx5_ifc_qpc_bits [''primary_address_path'', ''udp_sport''] = Some (0x1d0, 0x10)"
  "field_at mlx5_ifc_qpc_bits [''primary_address_path'', ''rgid_rip''] = Some (0x140, 0x80)"
  "field_at mlx5_ifc_qpc_bits [''primary_address_path'', ''ack_timeout''] = Some (0x100, 0x5)"
  by (simp_all add: mlx5_ifc_qpc_bits_def devx_field ifc_size)

lemma fields_cqc [devx_field]:
  "field_at mlx5_ifc_cqc_bits [''dbr_umem_valid''] = Some (0x6, 0x1)"
  "field_at mlx5_ifc_cqc_bits [''cqe_sz''] = Some (0x8, 0x3)"
  "field_at mlx5_ifc_cqc_bits [''cc''] = Some (0xb, 0x1)"
  "field_at mlx5_ifc_cqc_bits [''oi''] = Some (0xe, 0x1)"
  "field_at mlx5_ifc_cqc_bits [''dbr_umem_id''] = Some (0x20, 0x20)"
  "field_at mlx5_ifc_cqc_bits [''log_cq_size''] = Some (0x63, 0x5)"
  "field_at mlx5_ifc_cqc_bits [''uar_page''] = Some (0x68, 0x18)"
  "field_at mlx5_ifc_cqc_bits [''c_eqn''] = Some (0xb8, 0x8)"
  "field_at mlx5_ifc_cqc_bits [''dbr_addr''] = Some (0x1c0, 0x40)"
  by (simp_all add: mlx5_ifc_cqc_bits_def devx_field ifc_size)

lemma fields_create_cq_in [devx_field]:
  "field_at mlx5_ifc_create_cq_in_bits [''opcode''] = Some (0x0, 0x10)"
  "field_at mlx5_ifc_create_cq_in_bits [''cq_umem_id''] = Some (0x2c0, 0x20)"
  "field_at mlx5_ifc_create_cq_in_bits [''cq_umem_valid''] = Some (0x2e0, 0x1)"
  "field_at mlx5_ifc_create_cq_in_bits [''cq_umem_offset''] = Some (0x280, 0x40)"
  "field_at mlx5_ifc_create_cq_in_bits [''cq_context''] = Some (0x80, 0x200)"
  by (simp_all add: mlx5_ifc_create_cq_in_bits_def devx_field ifc_size)

lemma fields_create_cq_out [devx_field]:
  "field_at mlx5_ifc_create_cq_out_bits [''cqn''] = Some (0x48, 0x18)"
  by (simp_all add: mlx5_ifc_create_cq_out_bits_def devx_field ifc_size)

lemma fields_query_hca_cap_in [devx_field]:
  "field_at mlx5_ifc_query_hca_cap_in_bits [''opcode''] = Some (0x0, 0x10)"
  "field_at mlx5_ifc_query_hca_cap_in_bits [''op_mod''] = Some (0x30, 0x10)"
  by (simp_all add: mlx5_ifc_query_hca_cap_in_bits_def devx_field ifc_size)

lemma fields_cmd_hca_cap [devx_field]:
  "field_at mlx5_ifc_cmd_hca_cap_bits [''cqe_version''] = Some (0x1fc, 0x4)"
  by (simp_all add: mlx5_ifc_cmd_hca_cap_bits_def cmd_hca_cap_fields_1_def cmd_hca_cap_fields_2_def
      cmd_hca_cap_fields_3_def devx_field ifc_size)

lemma fields_hca_cap_union [devx_field]:
  "field_at mlx5_ifc_hca_cap_union_bits [''cmd_hca_cap''] = Some (0x0, 0x800)"
  by (simp_all add: mlx5_ifc_hca_cap_union_bits_def devx_field ifc_size)

lemma fields_query_hca_cap_out [devx_field]:
  "field_at mlx5_ifc_query_hca_cap_out_bits [''capability'', ''cmd_hca_cap''] = Some (0x80, 0x800)"
  by (simp_all add: mlx5_ifc_query_hca_cap_out_bits_def devx_field ifc_size)

lemma fields_create_qp_in [devx_field]:
  "field_at mlx5_ifc_create_qp_in_bits [''opcode''] = Some (0x0, 0x10)"
  "field_at mlx5_ifc_create_qp_in_bits [''wq_umem_id''] = Some (0x840, 0x20)"
  "field_at mlx5_ifc_create_qp_in_bits [''wq_umem_offset''] = Some (0x800, 0x40)"
  "field_at mlx5_ifc_create_qp_in_bits [''wq_umem_valid''] = Some (0x860, 0x1)"
  "field_at mlx5_ifc_create_qp_in_bits [''qpc''] = Some (0xc0, 0x740)"
  by (simp_all add: mlx5_ifc_create_qp_in_bits_def devx_field ifc_size)

lemma fields_create_qp_out [devx_field]:
  "field_at mlx5_ifc_create_qp_out_bits [''qpn''] = Some (0x48, 0x18)"
  by (simp_all add: mlx5_ifc_create_qp_out_bits_def devx_field ifc_size)

lemma fields_rst2init_qp_in [devx_field]:
  "field_at mlx5_ifc_rst2init_qp_in_bits [''opcode''] = Some (0x0, 0x10)"
  "field_at mlx5_ifc_rst2init_qp_in_bits [''qpn''] = Some (0x48, 0x18)"
  "field_at mlx5_ifc_rst2init_qp_in_bits [''qpc''] = Some (0xc0, 0x740)"
  by (simp_all add: mlx5_ifc_rst2init_qp_in_bits_def devx_field ifc_size)

lemma fields_init2rtr_qp_in [devx_field]:
  "field_at mlx5_ifc_init2rtr_qp_in_bits [''opcode''] = Some (0x0, 0x10)"
  "field_at mlx5_ifc_init2rtr_qp_in_bits [''qpn''] = Some (0x48, 0x18)"
  "field_at mlx5_ifc_init2rtr_qp_in_bits [''qpc''] = Some (0xc0, 0x740)"
  by (simp_all add: mlx5_ifc_init2rtr_qp_in_bits_def devx_field ifc_size)

lemma fields_rtr2rts_qp_in [devx_field]:
  "field_at mlx5_ifc_rtr2rts_qp_in_bits [''opcode''] = Some (0x0, 0x10)"
  "field_at mlx5_ifc_rtr2rts_qp_in_bits [''qpn''] = Some (0x48, 0x18)"
  "field_at mlx5_ifc_rtr2rts_qp_in_bits [''qpc''] = Some (0xc0, 0x740)"
  by (simp_all add: mlx5_ifc_rtr2rts_qp_in_bits_def devx_field ifc_size)

end
