(* ===== verification/Mlx5gda_Readback.thy ===== *)
theory Mlx5gda_Readback
  imports Mlx5gda_Cmd
begin

text \<open>
  What the device reads in the commands: each command is rewritten into its list of stores, the
  stores are shown to be in range and pairwise apart, and the laws of the access macros give the
  value of every field.
\<close>

section \<open>Commands as lists of stores\<close>

lemma command_sizes:
  "size_bits create_cq_in = 0x880" "size_bits create_qp_in = 0x880" "size_bits rst2init_qp_in = 0x880"
  "size_bits mlx5_ifc_init2rtr_qp_in_bits = 0x880" "size_bits mlx5_ifc_rtr2rts_qp_in_bits = 0x880"
  "size_bits query_hca_cap_in = 0x80"
  by (simp_all add: mlx5_ifc_create_cq_in_bits_def mlx5_ifc_create_qp_in_bits_def
      mlx5_ifc_rst2init_qp_in_bits_def mlx5_ifc_init2rtr_qp_in_bits_def
      mlx5_ifc_rtr2rts_qp_in_bits_def mlx5_ifc_query_hca_cap_in_bits_def ifc_size)

lemmas devx_unfold =
  DEVX_SET_def DEVX_SET64_def DEVX_GET_def DEVX_ADDR_OF_def zero_cmd_def command_sizes devx_field

lemma cmd_ops:
  "MLX5_CMD_OP ''QUERY_HCA_CAP'' = 0x100" "MLX5_CMD_OP ''CREATE_CQ'' = 0x400"
  "MLX5_CMD_OP ''CREATE_QP'' = 0x500" "MLX5_CMD_OP ''RST2INIT_QP'' = 0x502"
  "MLX5_CMD_OP ''INIT2RTR_QP'' = 0x503" "MLX5_CMD_OP ''RTR2RTS_QP'' = 0x504"
  by (simp_all add: MLX5_CMD_OP_def mlx5_cmd_op_def)

definition create_cq_stores :: "u32 \<Rightarrow> size_t \<Rightarrow> size_t \<Rightarrow> u32 \<Rightarrow> u32 \<Rightarrow> u32 \<Rightarrow> store list" where
  "create_cq_stores umem_id cq_offset dbr_offset num_cqe page_id eqn = [
     Set32 0 0x10 0x400, Set32 0x2c0 0x20 umem_id, Set32 0x2e0 1 1, Set64 0x280 cq_offset,
     Set32 0x86 1 1, Set32 0x88 3 0, Set32 0x8b 1 1, Set32 0x8e 1 1, Set32 0xa0 0x20 umem_id,
     Set32 0xe3 5 (ctz num_cqe), Set32 0xe8 0x18 page_id, Set32 0x138 8 eqn, Set64 0x240 dbr_offset]"

lemma create_cq_cmd_stores:
  "create_cq_cmd D umem_id cq_offset dbr_offset num_cqe page_id eqn =
     stores D (create_cq_stores umem_id cq_offset dbr_offset num_cqe page_id eqn) (replicate 272 0)"
  by (simp add: create_cq_cmd_def create_cq_stores_def stores_def devx_unfold cmd_ops
      MLX5_CQE_SIZE_64B_def)

lemma create_cq_stores_ok:
  "list_all (store_ok 272) (create_cq_stores umem_id cq_offset dbr_offset num_cqe page_id eqn)"
  "apart_stores (create_cq_stores umem_id cq_offset dbr_offset num_cqe page_id eqn)"
  by (simp_all add: create_cq_stores_def in_dword_def apart_def)

definition create_qp_stores :: "u32 \<Rightarrow> size_t \<Rightarrow> size_t \<Rightarrow> u32 \<Rightarrow> u32 \<Rightarrow> u32 \<Rightarrow> u32 \<Rightarrow> store list" where
  "create_qp_stores umem_id wq_offset dbr_offset num_wqebb pdn page_id cqn = [
     Set32 0 0x10 0x500, Set32 0x840 0x20 umem_id, Set64 0x800 wq_offset, Set32 0x860 1 1,
     Set32 0xc8 8 0, Set32 0xd3 2 3, Set32 0xe8 0x18 pdn, Set32 0x128 0x18 page_id, Set32 0x625 3 3,
     Set32 0x4a8 0x18 cqn, Set32 0x111 4 (IBGDA_ILOG2_OR0 num_wqebb), Set32 0x109 4 0,
     Set32 0x743 1 1, Set64 0x5c0 dbr_offset, Set32 0x7e0 0x20 umem_id, Set32 0x148 0x18 0,
     Set32 0x554 6 0]"

lemma create_qp_cmd_stores:
  "create_qp_cmd D umem_id wq_offset dbr_offset num_wqebb pdn page_id cqn =
     stores D (create_qp_stores umem_id wq_offset dbr_offset num_wqebb pdn page_id cqn) (replicate 272 0)"
  by (simp add: create_qp_cmd_def create_qp_stores_def stores_def devx_unfold cmd_ops
      MLX5_QPC_ST_RC_def MLX5_QPC_PM_STATE_MIGRATED_def MLX5_RQ_TYPE_ZERO_SIZE_RQ_def)

lemma create_qp_stores_ok:
  "list_all (store_ok 272) (create_qp_stores umem_id wq_offset dbr_offset num_wqebb pdn page_id cqn)"
  "apart_stores (create_qp_stores umem_id wq_offset dbr_offset num_wqebb pdn page_id cqn)"
  by (simp_all add: create_qp_stores_def in_dword_def apart_def)

definition rst2init_stores :: "u32 \<Rightarrow> u8 \<Rightarrow> bool \<Rightarrow> u16 \<Rightarrow> store list" where
  "rst2init_stores qpn port_num ib pkey_index = [
     Set32 0 0x10 0x502, Set32 0x48 0x18 qpn, Set32 0x551 1 1, Set32 0x550 1 1, Set32 0x552 1 1,
     Set32 0x54c 4 3, Set32 0x2a8 8 (ucast port_num)] @
     (if ib then [Set32 0x190 0x10 (ucast pkey_index)] else []) @ [Set32 0xd3 2 3]"

lemma rst2init_cmd_stores:
  "rst2init_cmd D qpn port_num ib pkey_index =
     stores D (rst2init_stores qpn port_num ib pkey_index) (replicate 272 0)"
  by (cases ib) (simp_all add: rst2init_cmd_def rst2init_stores_def stores_def devx_unfold cmd_ops
      MLX5_QPC_PM_STATE_MIGRATED_def)

lemma rst2init_stores_ok:
  "list_all (store_ok 272) (rst2init_stores qpn port_num ib pkey_index)"
  "apart_stores (rst2init_stores qpn port_num ib pkey_index)"
  by (simp_all add: rst2init_stores_def in_dword_def apart_def)

definition init2rtr_base_stores :: "u32 \<Rightarrow> u32 \<Rightarrow> u32 \<Rightarrow> store list" where
  "init2rtr_base_stores qpn mtu remote_qpn = [
     Set32 0 0x10 0x503, Set32 0x48 0x18 qpn, Set32 0x100 3 mtu, Set32 0x103 5 30,
     Set32 0x168 0x18 remote_qpn, Set32 0x563 5 7, Set32 0x548 3 1]"

definition init2rtr_ib_stores :: "u32 \<Rightarrow> u32 \<Rightarrow> u32 \<Rightarrow> u8 \<Rightarrow> u16 \<Rightarrow> store list" where
  "init2rtr_ib_stores qpn mtu remote_qpn sl dlid = init2rtr_base_stores qpn mtu remote_qpn @ [
     Set32 0x2a4 4 (ucast sl), Set32 0x1b0 0x10 (ucast dlid)]"

lemma init2rtr_ib_cmd_stores:
  "init2rtr_ib_cmd D qpn mtu remote_qpn sl dlid =
     stores D (init2rtr_ib_stores qpn mtu remote_qpn sl dlid) (replicate 272 0)"
  by (simp add: init2rtr_ib_cmd_def init2rtr_base_def init2rtr_ib_stores_def init2rtr_base_stores_def
      stores_def devx_unfold cmd_ops)

lemma init2rtr_ib_stores_ok:
  "list_all (store_ok 272) (init2rtr_ib_stores qpn mtu remote_qpn sl dlid)"
  "apart_stores (init2rtr_ib_stores qpn mtu remote_qpn sl dlid)"
  by (simp_all add: init2rtr_ib_stores_def init2rtr_base_stores_def in_dword_def apart_def)

definition rtr2rts_stores :: "u32 \<Rightarrow> store list" where
  "rtr2rts_stores qpn = [
     Set32 0 0x10 0x504, Set32 0x48 0x18 qpn, Set32 0x440 4 0, Set32 0x448 3 1, Set32 0x488 0x18 0,
     Set32 0x44d 3 7, Set32 0x450 3 7, Set32 0x1c0 5 20]"

lemma rtr2rts_cmd_stores: "rtr2rts_cmd D qpn = stores D (rtr2rts_stores qpn) (replicate 272 0)"
  by (simp add: rtr2rts_cmd_def rtr2rts_stores_def stores_def devx_unfold cmd_ops)

lemma rtr2rts_stores_ok:
  "list_all (store_ok 272) (rtr2rts_stores qpn)" "apart_stores (rtr2rts_stores qpn)"
  by (simp_all add: rtr2rts_stores_def in_dword_def apart_def)

section \<open>Reading the fields back\<close>

context devx_macros
begin

lemma read_store:
  assumes "list_all (store_ok n) ss" "apart_stores ss" "Set32 off w v \<in> set ss"
  shows "dget D off w (stores D ss (replicate n 0)) = take_bit w v"
  using assms get_stores [of "replicate n 0"] by simp

text \<open>The two words of a 64-bit field, put together.\<close>

lemma read_store64:
  assumes "list_all (store_ok n) ss" "apart_stores ss" "Set64 off w \<in> set ss"
  shows "push_bit 32 (ucast (dget D off 32 (stores D ss (replicate n 0))) :: u64) OR
         ucast (dget D (off + 32) 32 (stores D ss (replicate n 0))) = w"
proof -
  have "push_bit 32 (ucast (ucast (drop_bit 32 w) :: u32)) OR ucast (ucast w :: u32) = w"
    by (rule bit_word_eqI) (auto simp: bit_simps)
  then show ?thesis using assms get_stores64 [of "replicate n 0"] by simp
qed

lemma read_unset:
  assumes "list_all (store_ok n) ss" "in_dword off w" "off + w \<le> 8 * n"
    and "list_all (\<lambda>s. apart (off, w) (store_range s)) ss"
  shows "dget D off w (stores D ss (replicate n 0)) = 0"
  using assms get_stores_apart [of off w "replicate n 0" ss] get_zero [of off w "replicate n 0"]
  by (simp add: set_replicate_conv_if)

end

definition devx_read64 :: "devx \<Rightarrow> layout \<Rightarrow> nat \<Rightarrow> string list \<Rightarrow> cmd \<Rightarrow> u64" where
  "devx_read64 D typ p fld c =
     (case field_at typ fld of
        Some (off, _) \<Rightarrow> push_bit 32 (ucast (dget D (p + off) 32 c)) OR ucast (dget D (p + off + 32) 32 c)
      | None \<Rightarrow> 0)"

lemma ctz_power:
  assumes "k < 32"
  shows "ctz (2 ^ k) = of_nat k"
proof -
  have b: "bit (2 ^ k :: u32) i \<longleftrightarrow> i = k" if "i < 32" for i
    using that assms by (auto simp: bit_simps)
  have "[0..<32] = [0..<k] @ k # [Suc k..<32]"
    using assms upt_add_eq_append [of 0 k "32 - k"] by (simp add: upt_conv_Cons)
  then have "map (bit (2 ^ k :: u32)) [0..<32] = map (bit (2 ^ k :: u32)) [0..<k] @ bit (2 ^ k :: u32) k # map (bit (2 ^ k :: u32)) [Suc k..<32]"
    by simp
  also have "map (bit (2 ^ k :: u32)) [0..<k] = map (\<lambda>_. False) [0..<k]"
    using assms b by (intro map_cong) auto
  also have "takeWhile Not (map (\<lambda>_. False) [0..<k] @ bit (2 ^ k :: u32) k # map (bit (2 ^ k :: u32)) [Suc k..<32]) = map (\<lambda>_. False) [0..<k]"
    using assms b by (subst takeWhile_append2) auto
  finally show ?thesis by (simp add: ctz_def)
qed

lemma ilog2_power: "k < 32 \<Longrightarrow> IBGDA_ILOG2_OR0 (2 ^ k) = of_nat k"
proof -
  assume k: "k < 32"
  have "(2 ^ k :: u32) \<noteq> 0" using unat_pow2_32 [OF k] by (metis unat_0 power_eq_0_iff zero_neq_numeral)
  then show ?thesis using k by (simp add: IBGDA_ILOG2_OR0_def unat_pow2_32)
qed

lemma take_bit_of_nat_32: "k < 32 \<Longrightarrow> k < 2 ^ n \<Longrightarrow> take_bit n (of_nat k :: u32) = of_nat k"
  by (metis of_nat_take_bit take_bit_nat_eq_self)

section \<open>Properties\<close>

text \<open>
  The command that creates a completion queue carries, whatever the macros behind the accesses
  are as long as they meet their laws: the command code, the registered memory and the offsets of
  the queue and of its doorbell record, a collapsed queue with overrun ignored, the user-access
  page and event queue (at the widths of their fields), and the binary logarithm of the number of
  entries, which fits its field for every size the code can ask for.
\<close>

theorem create_cq_command:
  assumes D: "devx_macros D" and k: "k < 32"
  shows "let c = create_cq_cmd D umem_id cq_offset dbr_offset (2 ^ k) page_id eqn;
             p = DEVX_ADDR_OF create_cq_in 0 [''cq_context'']
         in DEVX_GET D create_cq_in 0 [''opcode''] c = 0x400 \<and>
            DEVX_GET D create_cq_in 0 [''cq_umem_id''] c = umem_id \<and>
            DEVX_GET D create_cq_in 0 [''cq_umem_valid''] c = 1 \<and>
            devx_read64 D create_cq_in 0 [''cq_umem_offset''] c = cq_offset \<and>
            DEVX_GET D cqc p [''dbr_umem_valid''] c = 1 \<and>
            DEVX_GET D cqc p [''cqe_sz''] c = 0 \<and>
            DEVX_GET D cqc p [''cc''] c = 1 \<and>
            DEVX_GET D cqc p [''oi''] c = 1 \<and>
            DEVX_GET D cqc p [''dbr_umem_id''] c = umem_id \<and>
            DEVX_GET D cqc p [''log_cq_size''] c = of_nat k \<and>
            DEVX_GET D cqc p [''uar_page''] c = take_bit 24 page_id \<and>
            DEVX_GET D cqc p [''c_eqn''] c = take_bit 8 eqn \<and>
            devx_read64 D cqc p [''dbr_addr''] c = dbr_offset"
proof -
  let ?ss = "create_cq_stores umem_id cq_offset dbr_offset (2 ^ k) page_id eqn"
  note ok = create_cq_stores_ok [of umem_id cq_offset dbr_offset "2 ^ k" page_id eqn]
  have g: "dget D off w (stores D ?ss (replicate 272 0)) = take_bit w v" if "Set32 off w v \<in> set ?ss" for off w v
    by (rule devx_macros.read_store [OF D ok that])
  have g64: "push_bit 32 (ucast (dget D off 32 (stores D ?ss (replicate 272 0))) :: u64) OR
      ucast (dget D (off + 32) 32 (stores D ?ss (replicate 272 0))) = w" if "Set64 off w \<in> set ?ss" for off w
    by (rule devx_macros.read_store64 [OF D ok that])
  have log: "take_bit 5 (of_nat k :: u32) = of_nat k" using k by (intro take_bit_of_nat_32) simp_all
  note vals = g [of 0 "0x10" "0x400"] g [of "0x2c0" "0x20" umem_id] g [of "0x2e0" 1 1] g64 [of "0x280" cq_offset]
    g [of "0x86" 1 1] g [of "0x88" 3 0] g [of "0x8b" 1 1] g [of "0x8e" 1 1] g [of "0xa0" "0x20" umem_id]
    g [of "0xe3" 5 "of_nat k"] g [of "0xe8" "0x18" page_id] g [of "0x138" 8 eqn] g64 [of "0x240" dbr_offset]
  show ?thesis
    unfolding create_cq_cmd_stores
    using vals by (simp add: Let_def devx_unfold devx_read64_def create_cq_stores_def ctz_power [OF k] log
        take_bit_word_eq_self)
qed

theorem create_cq_command_witness:
  "DEVX_GET be_devx cqc (DEVX_ADDR_OF create_cq_in 0 [''cq_context'']) [''log_cq_size'']
     (create_cq_cmd be_devx 7 0x1000 0x200000 (2 ^ 14) 9 3) = 14"
  using create_cq_command [OF be.devx_macros_axioms, of 14 7 "0x1000" "0x200000" 9 3] by (simp add: Let_def)

text \<open>
  C31. The command that creates a queue pair carries the command code, the registered memory and the
  offsets of the work queue and of the doorbell record, the protection domain, user-access page and
  completion queue, no receive queue, and the logarithm of the number of work-queue blocks modulo
  16: the field has four bits, so the device is told the real size exactly for up to \<open>2\<^sup>1\<^sup>5\<close> blocks
  (the program asks for \<open>2\<^sup>1\<^sup>4\<close>).
\<close>

theorem create_qp_command:
  assumes D: "devx_macros D" and k: "k < 32"
  shows "let c = create_qp_cmd D umem_id wq_offset dbr_offset (2 ^ k) pdn page_id cqn;
             p = DEVX_ADDR_OF create_qp_in 0 [''qpc'']
         in DEVX_GET D create_qp_in 0 [''opcode''] c = 0x500 \<and>
            DEVX_GET D create_qp_in 0 [''wq_umem_id''] c = umem_id \<and>
            DEVX_GET D create_qp_in 0 [''wq_umem_valid''] c = 1 \<and>
            devx_read64 D create_qp_in 0 [''wq_umem_offset''] c = wq_offset \<and>
            DEVX_GET D qpc p [''st''] c = MLX5_QPC_ST_RC \<and>
            DEVX_GET D qpc p [''pm_state''] c = MLX5_QPC_PM_STATE_MIGRATED \<and>
            DEVX_GET D qpc p [''pd''] c = take_bit 24 pdn \<and>
            DEVX_GET D qpc p [''uar_page''] c = take_bit 24 page_id \<and>
            DEVX_GET D qpc p [''rq_type''] c = MLX5_RQ_TYPE_ZERO_SIZE_RQ \<and>
            DEVX_GET D qpc p [''cqn_snd''] c = take_bit 24 cqn \<and>
            DEVX_GET D qpc p [''log_sq_size''] c = of_nat (k mod 16) \<and>
            (DEVX_GET D qpc p [''log_sq_size''] c = of_nat k \<longleftrightarrow> k < 16) \<and>
            DEVX_GET D qpc p [''dbr_umem_valid''] c = 1 \<and>
            DEVX_GET D qpc p [''dbr_umem_id''] c = umem_id \<and>
            devx_read64 D qpc p [''dbr_addr''] c = dbr_offset"
proof -
  let ?ss = "create_qp_stores umem_id wq_offset dbr_offset (2 ^ k) pdn page_id cqn"
  note ok = create_qp_stores_ok [of umem_id wq_offset dbr_offset "2 ^ k" pdn page_id cqn]
  have g: "dget D off w (stores D ?ss (replicate 272 0)) = take_bit w v" if "Set32 off w v \<in> set ?ss" for off w v
    by (rule devx_macros.read_store [OF D ok that])
  have g64: "push_bit 32 (ucast (dget D off 32 (stores D ?ss (replicate 272 0))) :: u64) OR
      ucast (dget D (off + 32) 32 (stores D ?ss (replicate 272 0))) = w" if "Set64 off w \<in> set ?ss" for off w
    by (rule devx_macros.read_store64 [OF D ok that])
  have log: "take_bit 4 (of_nat k :: u32) = of_nat (k mod 16)"
    by (subst of_nat_take_bit [symmetric]) (simp add: take_bit_eq_mod)
  have inj: "(of_nat (k mod 16) :: u32) = of_nat k \<longleftrightarrow> k < 16"
  proof
    assume "(of_nat (k mod 16) :: u32) = of_nat k"
    then have "unat (of_nat (k mod 16) :: u32) = unat (of_nat k :: u32)" by (rule arg_cong)
    then have "k mod 16 = k" using k by (simp add: unat_of_nat take_bit_nat_eq_self)
    then show "k < 16" by (metis mod_less_divisor zero_less_numeral)
  qed simp
  note vals = g [of 0 "0x10" "0x500"] g [of "0x840" "0x20" umem_id] g [of "0x860" 1 1] g64 [of "0x800" wq_offset]
    g [of "0xc8" 8 0] g [of "0xd3" 2 3] g [of "0xe8" "0x18" pdn] g [of "0x128" "0x18" page_id] g [of "0x625" 3 3]
    g [of "0x4a8" "0x18" cqn] g [of "0x111" 4 "of_nat k"] g [of "0x743" 1 1] g [of "0x7e0" "0x20" umem_id]
    g64 [of "0x5c0" dbr_offset]
  show ?thesis
    unfolding create_qp_cmd_stores
    using vals inj by (simp add: Let_def devx_unfold devx_read64_def create_qp_stores_def ilog2_power [OF k] log
        take_bit_word_eq_self MLX5_QPC_ST_RC_def MLX5_QPC_PM_STATE_MIGRATED_def MLX5_RQ_TYPE_ZERO_SIZE_RQ_def)
qed

theorem create_qp_command_witness:
  "DEVX_GET be_devx qpc (DEVX_ADDR_OF create_qp_in 0 [''qpc'']) [''log_sq_size'']
     (create_qp_cmd be_devx 7 0x1000 0x200000 (2 ^ 14) 9 3 5) = 14"
  using create_qp_command [OF be.devx_macros_axioms, of 14 7 "0x1000" "0x200000" 9 3 5] by (simp add: Let_def)

lemma take_bit_ucast:
  "take_bit 16 (ucast (x :: u16) :: u32) = ucast x" "take_bit 8 (ucast (y :: u8) :: u32) = ucast y"
  by (rule bit_word_eqI, auto simp: bit_simps dest: bit_imp_le_length)+

lemma rst2init_reads:
  assumes D: "devx_macros D"
  shows "let c = stores D (rst2init_stores qpn port_num ib pkey_index) (replicate 272 0)
         in dget D 0 16 c = 0x502 \<and> dget D 0x48 24 c = take_bit 24 qpn \<and> dget D 0x551 1 c = 1 \<and>
            dget D 0x550 1 c = 1 \<and> dget D 0x552 1 c = 1 \<and> dget D 0x54c 4 c = 3 \<and>
            dget D 0x2a8 8 c = ucast port_num \<and> dget D 0x190 16 c = (if ib then ucast pkey_index else 0)"
proof -
  let ?ss = "rst2init_stores qpn port_num ib pkey_index"
  note ok = rst2init_stores_ok [of qpn port_num ib pkey_index]
  have g: "dget D off w (stores D ?ss (replicate 272 0)) = take_bit w v" if "Set32 off w v \<in> set ?ss" for off w v
    by (rule devx_macros.read_store [OF D ok that])
  note vals = g [of 0 16 "0x502"] g [of "0x48" 24 qpn] g [of "0x551" 1 1] g [of "0x550" 1 1] g [of "0x552" 1 1]
    g [of "0x54c" 4 3] g [of "0x2a8" 8 "ucast port_num"] g [of "0x190" 16 "ucast pkey_index"]
    devx_macros.read_unset [OF D ok(1), of "0x190" 16]
  show ?thesis
    using vals by (cases ib) (simp_all add: Let_def rst2init_stores_def take_bit_ucast in_dword_def apart_def)
qed

lemma init2rtr_ib_reads:
  assumes D: "devx_macros D"
  shows "let c = stores D (init2rtr_ib_stores qpn mtu remote_qpn sl dlid) (replicate 272 0)
         in dget D 0 16 c = 0x503 \<and> dget D 0x48 24 c = take_bit 24 qpn \<and> dget D 0x100 3 c = take_bit 3 mtu \<and>
            dget D 0x168 24 c = take_bit 24 remote_qpn \<and> dget D 0x2a4 4 c = take_bit 4 (ucast sl) \<and>
            dget D 0x1b0 16 c = ucast dlid"
proof -
  let ?ss = "init2rtr_ib_stores qpn mtu remote_qpn sl dlid"
  note ok = init2rtr_ib_stores_ok [of qpn mtu remote_qpn sl dlid]
  have g: "dget D off w (stores D ?ss (replicate 272 0)) = take_bit w v" if "Set32 off w v \<in> set ?ss" for off w v
    by (rule devx_macros.read_store [OF D ok that])
  note vals = g [of 0 16 "0x503"] g [of "0x48" 24 qpn] g [of "0x100" 3 mtu] g [of "0x168" 24 remote_qpn]
    g [of "0x2a4" 4 "ucast sl"] g [of "0x1b0" 16 "ucast dlid"]
  show ?thesis
    using vals by (simp add: Let_def init2rtr_ib_stores_def init2rtr_base_stores_def take_bit_ucast)
qed

lemma rtr2rts_reads:
  assumes D: "devx_macros D"
  shows "let c = stores D (rtr2rts_stores qpn) (replicate 272 0)
         in dget D 0 16 c = 0x504 \<and> dget D 0x48 24 c = take_bit 24 qpn \<and> dget D 0x44d 3 c = 7 \<and>
            dget D 0x450 3 c = 7 \<and> dget D 0x1c0 5 c = 20"
proof -
  note ok = rtr2rts_stores_ok [of qpn]
  have g: "dget D off w (stores D (rtr2rts_stores qpn) (replicate 272 0)) = take_bit w v"
    if "Set32 off w v \<in> set (rtr2rts_stores qpn)" for off w v
    by (rule devx_macros.read_store [OF D ok that])
  note vals = g [of 0 16 "0x504"] g [of "0x48" 24 qpn] g [of "0x44d" 3 7] g [of "0x450" 3 7] g [of "0x1c0" 5 20]
  show ?thesis using vals by (simp add: Let_def rtr2rts_stores_def)
qed

text \<open>
  The three state changes of a queue pair are built with the layout of the first of them, yet
  the device, which decodes each with its own layout, finds the right command code, queue-pair
  number and context in each: the layouts place these fields alike. Reset-to-init enables remote
  reads, writes and atomics; init-to-ready on InfiniBand carries the remote queue pair and the
  destination; ready-to-send the retry limits.
\<close>

theorem qp_state_commands:
  assumes D: "devx_macros D"
  shows "let ctx = DEVX_ADDR_OF rst2init_qp_in 0 [''qpc''];
      init = rst2init_cmd D qpn port_num ib pkey_index;
      rtr = init2rtr_ib_cmd D qpn mtu remote_qpn sl dlid;
      rts = rtr2rts_cmd D qpn
    in DEVX_ADDR_OF mlx5_ifc_init2rtr_qp_in_bits 0 [''qpc''] = ctx \<and>
    DEVX_ADDR_OF mlx5_ifc_rtr2rts_qp_in_bits 0 [''qpc''] = ctx \<and>
    DEVX_GET D rst2init_qp_in 0 [''opcode''] init = 0x502 \<and>
    DEVX_GET D mlx5_ifc_init2rtr_qp_in_bits 0 [''opcode''] rtr = 0x503 \<and>
    DEVX_GET D mlx5_ifc_rtr2rts_qp_in_bits 0 [''opcode''] rts = 0x504 \<and>
    DEVX_GET D rst2init_qp_in 0 [''qpn''] init = take_bit 24 qpn \<and>
    DEVX_GET D mlx5_ifc_init2rtr_qp_in_bits 0 [''qpn''] rtr = take_bit 24 qpn \<and>
    DEVX_GET D mlx5_ifc_rtr2rts_qp_in_bits 0 [''qpn''] rts = take_bit 24 qpn \<and>
    DEVX_GET D qpc ctx [''rwe''] init = 1 \<and> DEVX_GET D qpc ctx [''rre''] init = 1 \<and>
    DEVX_GET D qpc ctx [''rae''] init = 1 \<and> DEVX_GET D qpc ctx [''atomic_mode''] init = 3 \<and>
    DEVX_GET D qpc ctx [''primary_address_path'', ''vhca_port_num''] init = ucast port_num \<and>
    DEVX_GET D qpc ctx [''primary_address_path'', ''pkey_index''] init = (if ib then ucast pkey_index else 0) \<and>
    DEVX_GET D qpc ctx [''mtu''] rtr = take_bit 3 mtu \<and>
    DEVX_GET D qpc ctx [''remote_qpn''] rtr = take_bit 24 remote_qpn \<and>
    DEVX_GET D qpc ctx [''primary_address_path'', ''sl''] rtr = take_bit 4 (ucast sl) \<and>
    DEVX_GET D qpc ctx [''primary_address_path'', ''rlid''] rtr = ucast dlid \<and>
    DEVX_GET D qpc ctx [''retry_count''] rts = 7 \<and> DEVX_GET D qpc ctx [''rnr_retry''] rts = 7 \<and>
    DEVX_GET D qpc ctx [''primary_address_path'', ''ack_timeout''] rts = 20"
  unfolding rst2init_cmd_stores init2rtr_ib_cmd_stores rtr2rts_cmd_stores
  using rst2init_reads [OF D, of qpn port_num ib pkey_index]
    init2rtr_ib_reads [OF D, of qpn mtu remote_qpn sl dlid] rtr2rts_reads [OF D, of qpn]
  by (simp add: Let_def devx_unfold)

theorem qp_state_commands_witness:
  "DEVX_GET be_devx mlx5_ifc_init2rtr_qp_in_bits 0 [''qpn''] (init2rtr_ib_cmd be_devx 77 5 99 0 3) = 77"
  using qp_state_commands [OF be.devx_macros_axioms, of 77 1 True 0 5 99 0 3] by (simp add: Let_def)

text \<open>
  C32. \<^verbatim>\<open>round_up_pow2\<close> returns exactly for arguments up to \<open>2\<^sup>3\<^sup>1\<close>, and then it returns the least power
  of two that is not smaller than its (positive) argument; above, its loop never ends. The queue
  sizes the program passes are positive \<^verbatim>\<open>int\<close>s, so both calls return.
\<close>

theorem round_up_pow2_total:
  "(round_up_pow2 n \<noteq> None \<longleftrightarrow> unat n \<le> 2 ^ 31) \<and>
   (0 < n \<longrightarrow> unat n \<le> 2 ^ 31 \<longrightarrow>
      (\<exists>k<32. round_up_pow2 n = Some (2 ^ k) \<and> unat n \<le> 2 ^ k \<and> (\<forall>j. unat n \<le> 2 ^ j \<longrightarrow> k \<le> j)))"
proof (cases "0 < n \<and> unat n \<le> 2 ^ 31")
  case True
  then obtain k where k: "round_up_pow2 n = Some (2 ^ k)" "k < 32" "unat n \<le> 2 ^ k" "k = 0 \<or> 2 ^ (k - 1) < unat n"
    using round_up_pow2_power by blast
  have "k \<le> j" if "unat n \<le> 2 ^ j" for j
  proof (rule ccontr)
    assume "\<not> k \<le> j"
    then have "(2::nat) ^ j \<le> 2 ^ (k - 1)" by (intro power_increasing) simp_all
    moreover have "2 ^ (k - 1) < unat n" using k(4) \<open>\<not> k \<le> j\<close> by auto
    ultimately show False using that by linarith
  qed
  with k True show ?thesis by auto
next
  case False
  then consider "n = 0" | "2 ^ 31 < unat n" by (auto simp: word_gt_0)
  then show ?thesis
    by cases (simp add: round_up_pow2_def, simp add: round_up_pow2_diverges)
qed

theorem round_up_pow2_total_witness: "round_up_pow2 16384 \<noteq> None"
  using round_up_pow2_total [of 16384] by simp

end
