(* ===== verification/Mlx5gda.thy ===== *)
theory Mlx5gda
  imports Mlx5gda_Readback Memheap
begin

text \<open>
  The queues of the NIC (\<^verbatim>\<open>src/ep_ibgda/mlx5gda.cpp\<close>, \<^verbatim>\<open>include/ep_ibgda/mlx5gda.h\<close>): creation of
  completion queues and queue pairs with every failure path, their destruction, and the state
  changes. The calls into the CUDA runtime, libmlx5 and libibverbs are parameters: an environment
  record holds the answers that the calls of one invocation get. The functions return, with their
  result, the new state of the control-buffer heap and the trace of the resources they acquired
  and released.
\<close>

section \<open>Data\<close>

datatype fail = Errno errno | Sys

text \<open>\<^verbatim>\<open>Sys\<close> is a failure whose \<^verbatim>\<open>errno\<close> is what the failing library call left.\<close>

record devx_uar =
  uar_handle :: nat
  page_id :: u32
  reg_addr :: u64

record mlx5gda_cq =
  mcq :: nat
  cq_uar :: devx_uar
  cqn :: u32
  cqe :: u32
  cq_offset :: size_t
  cq_dbr_offset :: size_t

datatype link_layer = Link_infiniband | Link_ethernet | Link_unspecified

record ibv_port_attr =
  lid :: u16
  link_layer :: link_layer

record mlx5gda_qp =
  mqp :: nat
  send_cq :: mlx5gda_cq
  qp_uar :: devx_uar
  port_num :: u8
  port_attr :: ibv_port_attr
  qpn :: u32
  num_wqebb :: u32
  wq_offset :: size_t
  dbr_offset :: size_t

text \<open>Resources outside the heap, and the trace of what happens to them.\<close>

datatype resource = Cq_struct | Qp_struct | Uar nat | Mapped nat | Obj nat | Addr_handle

datatype 'r event = Acq 'r | Rel 'r

definition live :: "'r event list \<Rightarrow> 'r \<Rightarrow> int" where
  "live es r = int (count_list es (Acq r)) - int (count_list es (Rel r))"

text \<open>The answers of the libraries during one creation.\<close>

record cq_env =
  cq_memset_ok :: bool
  cq_malloc_ok :: bool
  query_eqn :: "u32 option"
  alloc_nc_uar :: "devx_uar option"
  cq_sync_ok :: bool
  cq_obj_create :: "cmd \<Rightarrow> (nat \<times> cmd) option"

record qp_env =
  qp_calloc_ok :: bool
  query_port :: "ibv_port_attr option"
  general_cmd :: "cmd \<Rightarrow> cmd option"
  for_cq :: cq_env
  alloc_bf_uar :: "devx_uar option"
  host_register_ok :: bool
  dbr_memset_ok :: bool
  qp_sync_ok :: bool
  qp_obj_create :: "cmd \<Rightarrow> (nat \<times> cmd) option"

text \<open>What the creations are given besides: the macros, the registered control buffer, the domain.\<close>

record ctrl =
  macros :: devx
  umem_id :: u32
  pdn :: u32

section \<open>User-access regions\<close>

definition create_uar :: "devx_uar option \<Rightarrow> bool \<Rightarrow> (fail + devx_uar) \<times> resource event list" where
  "create_uar alloc register_ok =
     (case alloc of
        None \<Rightarrow> (Inl (Errno EIO), [])
      | Some uar \<Rightarrow>
          if register_ok then (Inr uar, [Acq (Uar (uar_handle uar)), Acq (Mapped (uar_handle uar))])
          else (Inl (Errno EIO), [Acq (Uar (uar_handle uar)), Rel (Uar (uar_handle uar))]))"

definition destroy_uar :: "devx_uar \<Rightarrow> resource event list" where
  "destroy_uar uar = [Rel (Mapped (uar_handle uar)), Rel (Uar (uar_handle uar))]"

section \<open>Completion queues\<close>

text \<open>
  \<^verbatim>\<open>mlx5gda_create_cq\<close>. The outer \<open>None\<close> is a call that does not return. The label \<^verbatim>\<open>fail\<close> frees the
  user-access region and the structure, in this order, if they were allocated.
\<close>

abbreviation sizeof_cqe64 :: size_t where "sizeof_cqe64 \<equiv> 64"
abbreviation sizeof_cq_dbr :: size_t where "sizeof_cq_dbr \<equiv> 8"
abbreviation sizeof_wqebb :: size_t where "sizeof_wqebb \<equiv> 64"
abbreviation sizeof_wq_dbr :: size_t where "sizeof_wq_dbr \<equiv> 8"
abbreviation adapter_page :: size_t where "adapter_page \<equiv> push_bit 12 1"

definition cq_fail :: "devx_uar option \<Rightarrow> bool \<Rightarrow> resource event list" where
  "cq_fail uar cq = (case uar of None \<Rightarrow> [] | Some u \<Rightarrow> [Rel (Uar (uar_handle u))]) @ (if cq then [Rel Cq_struct] else [])"

definition mlx5gda_create_cq ::
  "ctrl \<Rightarrow> cq_env \<Rightarrow> cint \<Rightarrow> memheap \<Rightarrow> ((fail + mlx5gda_cq) \<times> memheap \<times> resource event list) option" where
  "mlx5gda_create_cq C env n heap =
     (if sint n \<le> 0 then Some (Inl (Errno EINVAL), heap, [])
      else case IBGDA_ROUND_UP_POW2_OR_0 n of
        None \<Rightarrow> None
      | Some num_cqe \<Rightarrow> Some (
          case memheap_aligned_alloc heap (ucast num_cqe * sizeof_cqe64) adapter_page of (heap, cq_off, err) \<Rightarrow>
          if cq_off = SIZE_MAX then (Inl (case err of Some e \<Rightarrow> Errno e | None \<Rightarrow> Sys), heap, cq_fail None False)
          else if \<not> cq_memset_ok env then (Inl Sys, heap, cq_fail None False)
          else case memheap_alloc heap sizeof_cq_dbr of (heap, dbr_off, err) \<Rightarrow>
          if dbr_off = SIZE_MAX then (Inl (case err of Some e \<Rightarrow> Errno e | None \<Rightarrow> Sys), heap, cq_fail None False)
          else if \<not> cq_malloc_ok env then (Inl Sys, heap, cq_fail None False)
          else case query_eqn env of
            None \<Rightarrow> (Inl Sys, heap, [Acq Cq_struct] @ cq_fail None True)
          | Some eqn \<Rightarrow> (case alloc_nc_uar env of
              None \<Rightarrow> (Inl Sys, heap, [Acq Cq_struct] @ cq_fail None True)
            | Some uar \<Rightarrow>
                if \<not> cq_sync_ok env
                then (Inl Sys, heap, [Acq Cq_struct, Acq (Uar (uar_handle uar))] @ cq_fail (Some uar) True)
                else (case cq_obj_create env
                         (create_cq_cmd (macros C) (umem_id C) cq_off dbr_off num_cqe (page_id uar) eqn) of
                  None \<Rightarrow> (Inl Sys, heap, [Acq Cq_struct, Acq (Uar (uar_handle uar))] @ cq_fail (Some uar) True)
                | Some (obj, out) \<Rightarrow>
                    (Inr \<lparr>mcq = obj, cq_uar = uar,
                          cqn = DEVX_GET (macros C) mlx5_ifc_create_cq_out_bits 0 [''cqn''] out,
                          cqe = num_cqe, cq_offset = cq_off, cq_dbr_offset = dbr_off\<rparr>,
                     heap, [Acq Cq_struct, Acq (Uar (uar_handle uar)), Acq (Obj obj)])))))"

definition mlx5gda_destroy_cq :: "memheap \<Rightarrow> mlx5gda_cq \<Rightarrow> memheap \<times> resource event list" where
  "mlx5gda_destroy_cq heap cq =
     (memheap_free (memheap_free heap (cq_offset cq)) (cq_dbr_offset cq),
      [Rel (Obj (mcq cq)), Rel (Uar (uar_handle (cq_uar cq))), Rel Cq_struct])"

section \<open>Queue pairs\<close>

text \<open>
  The label \<^verbatim>\<open>fail\<close> of \<^verbatim>\<open>mlx5gda_create_rc_qp\<close>: destroy the user-access region and the completion
  queue, free the structure, then the two heap blocks. (The device object is created last, so it
  never exists there.)
\<close>

definition qp_fail ::
  "memheap \<Rightarrow> devx_uar option \<Rightarrow> mlx5gda_cq option \<Rightarrow> bool \<Rightarrow> size_t \<Rightarrow> size_t \<Rightarrow> memheap \<times> resource event list" where
  "qp_fail heap uar cq qp wq_off dbr_off =
     (let e1 = (case uar of None \<Rightarrow> [] | Some u \<Rightarrow> destroy_uar u);
          (heap, e2) = (case cq of None \<Rightarrow> (heap, []) | Some q \<Rightarrow> mlx5gda_destroy_cq heap q);
          e3 = (if qp then [Rel Qp_struct] else []);
          heap = (if wq_off \<noteq> SIZE_MAX then memheap_free heap wq_off else heap);
          heap = (if dbr_off \<noteq> SIZE_MAX then memheap_free heap dbr_off else heap)
      in (heap, e1 @ e2 @ e3))"

definition qp_failed ::
  "fail \<Rightarrow> resource event list \<Rightarrow> memheap \<times> resource event list \<Rightarrow> (fail + mlx5gda_qp) \<times> memheap \<times> resource event list" where
  "qp_failed f es r = (Inl f, fst r, es @ snd r)"

text \<open>From the work-queue allocation on, when the completion queue and the user-access region exist.\<close>

definition create_rc_qp_rest ::
  "ctrl \<Rightarrow> qp_env \<Rightarrow> u8 \<Rightarrow> ibv_port_attr \<Rightarrow> u32 \<Rightarrow> mlx5gda_cq \<Rightarrow> devx_uar \<Rightarrow> memheap \<Rightarrow> resource event list \<Rightarrow>
   (fail + mlx5gda_qp) \<times> memheap \<times> resource event list" where
  "create_rc_qp_rest C env port attr wqebb cq uar heap es =
     (case memheap_aligned_alloc heap (ucast wqebb * sizeof_wqebb) adapter_page of (heap, wq_off, err) \<Rightarrow>
      if wq_off = SIZE_MAX
      then qp_failed (case err of Some e \<Rightarrow> Errno e | None \<Rightarrow> Sys) es
             (qp_fail heap (Some uar) (Some cq) True SIZE_MAX SIZE_MAX)
      else case memheap_alloc heap sizeof_wq_dbr of (heap, dbr_off, err) \<Rightarrow>
      if dbr_off = SIZE_MAX
      then qp_failed (case err of Some e \<Rightarrow> Errno e | None \<Rightarrow> Sys) es
             (qp_fail heap (Some uar) (Some cq) True wq_off SIZE_MAX)
      else if \<not> dbr_memset_ok env
      then qp_failed Sys es (qp_fail heap (Some uar) (Some cq) True wq_off dbr_off)
      else if \<not> qp_sync_ok env
      then qp_failed Sys es (qp_fail heap (Some uar) (Some cq) True wq_off dbr_off)
      else case qp_obj_create env
          (create_qp_cmd (macros C) (umem_id C) wq_off dbr_off wqebb (pdn C) (page_id uar) (cqn cq)) of
        None \<Rightarrow> qp_failed Sys es (qp_fail heap (Some uar) (Some cq) True wq_off dbr_off)
      | Some (obj, out) \<Rightarrow>
          (Inr \<lparr>mqp = obj, send_cq = cq, qp_uar = uar, port_num = port, port_attr = attr,
                qpn = DEVX_GET (macros C) mlx5_ifc_create_qp_out_bits 0 [''qpn''] out,
                num_wqebb = wqebb, wq_offset = wq_off, dbr_offset = dbr_off\<rparr>,
           heap, es @ [Acq (Obj obj)]))"

definition mlx5gda_create_rc_qp ::
  "ctrl \<Rightarrow> qp_env \<Rightarrow> cint \<Rightarrow> u8 \<Rightarrow> memheap \<Rightarrow> ((fail + mlx5gda_qp) \<times> memheap \<times> resource event list) option" where
  "mlx5gda_create_rc_qp C env wqe port heap =
     (if sint wqe \<le> 0 then Some (Inl (Errno EINVAL), heap, [])
      else case IBGDA_ROUND_UP_POW2_OR_0 wqe of
        None \<Rightarrow> None
      | Some wqebb \<Rightarrow>
          if \<not> qp_calloc_ok env then Some (qp_failed Sys [] (qp_fail heap None None False SIZE_MAX SIZE_MAX))
          else case query_port env of
            None \<Rightarrow> Some (qp_failed Sys [Acq Qp_struct] (qp_fail heap None None True SIZE_MAX SIZE_MAX))
          | Some attr \<Rightarrow> (case general_cmd env (query_hca_cap_cmd (macros C)) of
              None \<Rightarrow> Some (qp_failed Sys [Acq Qp_struct] (qp_fail heap None None True SIZE_MAX SIZE_MAX))
            | Some out \<Rightarrow>
                if get_cqe_version (macros C) out \<noteq> 1
                then Some (qp_failed (Errno ENOTSUP) [Acq Qp_struct] (qp_fail heap None None True SIZE_MAX SIZE_MAX))
                else (case mlx5gda_create_cq C (for_cq env) wqe heap of
                  None \<Rightarrow> None
                | Some (Inl f, heap, es) \<Rightarrow>
                    Some (qp_failed f (Acq Qp_struct # es) (qp_fail heap None None True SIZE_MAX SIZE_MAX))
                | Some (Inr cq, heap, es) \<Rightarrow> Some (
                    case create_uar (alloc_bf_uar env) (host_register_ok env) of
                      (Inl f, es') \<Rightarrow>
                        qp_failed f (Acq Qp_struct # es @ es') (qp_fail heap None (Some cq) True SIZE_MAX SIZE_MAX)
                    | (Inr uar, es') \<Rightarrow>
                        create_rc_qp_rest C env port attr wqebb cq uar heap (Acq Qp_struct # es @ es')))))"

definition mlx5gda_destroy_qp :: "memheap \<Rightarrow> mlx5gda_qp \<Rightarrow> memheap \<times> resource event list" where
  "mlx5gda_destroy_qp heap qp =
     (let (heap, es) = mlx5gda_destroy_cq heap (send_cq qp);
          heap = (if wq_offset qp \<noteq> SIZE_MAX then memheap_free heap (wq_offset qp) else heap);
          heap = (if dbr_offset qp \<noteq> SIZE_MAX then memheap_free heap (dbr_offset qp) else heap)
      in (heap, [Rel (Obj (mqp qp))] @ destroy_uar (qp_uar qp) @ es @ [Rel Qp_struct]))"

section \<open>State changes\<close>

text \<open>
  The commands sent to the device, and the result the device's answer gives. \<open>create_ah\<close> is the
  address handle the library resolves for an Ethernet link: the remote MAC and GID, or a failure.
\<close>

record ibv_ah_attr =
  is_global :: u8
  dgid :: "u64 \<times> u64"
  sgid_index :: u8
  hop_limit :: u8
  sl :: u8
  dlid :: u16
  ah_port_num :: u8

definition mlx5gda_modify_rc_qp_rst2init :: "devx \<Rightarrow> (cmd \<Rightarrow> cint) \<Rightarrow> mlx5gda_qp option \<Rightarrow> u16 \<Rightarrow> cmd option \<times> cint" where
  "mlx5gda_modify_rc_qp_rst2init D obj_modify qp pkey_index =
     (case qp of
        None \<Rightarrow> (None, - 1)
      | Some q \<Rightarrow>
          let c = rst2init_cmd D (qpn q) (port_num q) (link_layer (port_attr q) = Link_infiniband) pkey_index
          in (Some c, obj_modify c))"

definition mlx5gda_modify_rc_qp_init2rtr ::
  "devx \<Rightarrow> (cmd \<Rightarrow> cint) \<Rightarrow> (ibv_ah_attr \<Rightarrow> (u8 list \<times> u8 list) option) \<Rightarrow> mlx5gda_qp option \<Rightarrow> ibv_ah_attr \<Rightarrow>
   u32 \<Rightarrow> u32 \<Rightarrow> cmd option \<times> cint \<times> resource event list" where
  "mlx5gda_modify_rc_qp_init2rtr D obj_modify create_ah qp ah_attr remote_qpn mtu =
     (case qp of
        None \<Rightarrow> (None, - 1, [])
      | Some q \<Rightarrow> (case link_layer (port_attr q) of
          Link_infiniband \<Rightarrow>
            let c = init2rtr_ib_cmd D (qpn q) mtu remote_qpn (sl ah_attr) (dlid ah_attr) in (Some c, obj_modify c, [])
        | Link_ethernet \<Rightarrow> (case create_ah ah_attr of
            None \<Rightarrow> (None, - 1, [])
          | Some (rmac, rgid) \<Rightarrow>
              let c = init2rtr_eth_cmd D (qpn q) mtu remote_qpn rmac rgid (sgid_index ah_attr) (dlid ah_attr)
              in (Some c, obj_modify c, [Acq Addr_handle, Rel Addr_handle]))
        | Link_unspecified \<Rightarrow>
            let c = init2rtr_base D (qpn q) mtu remote_qpn in (Some c, obj_modify c, [])))"

definition mlx5gda_modify_rc_qp_rtr2rts :: "devx \<Rightarrow> (cmd \<Rightarrow> cint) \<Rightarrow> mlx5gda_qp option \<Rightarrow> cmd option \<times> cint" where
  "mlx5gda_modify_rc_qp_rtr2rts D obj_modify qp =
     (case qp of
        None \<Rightarrow> (None, - 1)
      | Some q \<Rightarrow> let c = rtr2rts_cmd D (qpn q) in (Some c, obj_modify c))"

section \<open>Resources\<close>

lemma live_append [simp]: "live (xs @ ys) r = live xs r + live ys r"
  by (simp add: live_def)

lemma live_Nil [simp]: "live [] r = 0"
  by (simp add: live_def)

lemma live_Cons [simp]:
  "live (Acq s # es) r = (if s = r then 1 else 0) + live es r"
  "live (Rel s # es) r = live es r - (if s = r then 1 else 0)"
  by (simp_all add: live_def)

lemma create_cq_live:
  assumes "mlx5gda_create_cq C env n heap = Some (res, heap', es)"
  shows "case res of
      Inl _ \<Rightarrow> live es r = 0
    | Inr cq \<Rightarrow> live es r + live (snd (mlx5gda_destroy_cq h cq)) r = 0"
  using assms
  by (auto simp: mlx5gda_create_cq_def cq_fail_def mlx5gda_destroy_cq_def
      split: if_splits option.splits prod.splits sum.splits)

lemma create_uar_live:
  "case create_uar a ok of (Inl _, es) \<Rightarrow> live es r = 0 | (Inr u, es) \<Rightarrow> live es r + live (destroy_uar u) r = 0"
  by (auto simp: create_uar_def destroy_uar_def split: option.splits)

lemma qp_fail_live:
  "live (snd (qp_fail heap uar cq qp w d)) r =
     (case uar of None \<Rightarrow> 0 | Some u \<Rightarrow> live (destroy_uar u) r) +
     (case cq of None \<Rightarrow> 0 | Some q \<Rightarrow> live (snd (mlx5gda_destroy_cq h q)) r) +
     (if qp then live [Rel Qp_struct] r else 0)"
  by (auto simp: qp_fail_def mlx5gda_destroy_cq_def Let_def split: option.splits)

lemma qp_fail_early [simp]:
  "qp_fail heap None None q SIZE_MAX SIZE_MAX = (heap, if q then [Rel Qp_struct] else [])"
  by (simp add: qp_fail_def Let_def)

lemma destroy_qp_live:
  "live (snd (mlx5gda_destroy_qp h qp)) r =
     live [Rel (Obj (mqp qp))] r + live (destroy_uar (qp_uar qp)) r +
     live (snd (mlx5gda_destroy_cq h (send_cq qp))) r + live [Rel Qp_struct] r"
  by (auto simp: mlx5gda_destroy_qp_def Let_def split: prod.splits)

lemma create_rc_qp_rest_live:
  assumes es: "live es r + live (destroy_uar uar) r + live (snd (mlx5gda_destroy_cq h cq)) r + live [Rel Qp_struct] r = 0"
    and res: "create_rc_qp_rest C env port attr w cq uar heap es = (res, heap', es')"
  shows "case res of Inl _ \<Rightarrow> live es' r = 0 | Inr qp \<Rightarrow> live es' r + live (snd (mlx5gda_destroy_qp h qp)) r = 0"
proof -
  have f: "live es r + live (snd (qp_fail hp (Some uar) (Some cq) True a b)) r = 0" for hp a b
    using es by (simp add: qp_fail_live [where h = h])
  show ?thesis
    using res f es
    by (auto simp: create_rc_qp_rest_def qp_failed_def destroy_qp_live split: if_splits option.splits prod.splits sum.splits)
qed

section \<open>Properties\<close>

text \<open>
  C13. Whatever the libraries answer, the creation of a queue pair either fails and has then released
  every structure, device object and user-access region it acquired, exactly once each, or
  succeeds and holds exactly what the destruction of the queue pair releases.
\<close>

theorem create_rc_qp_no_leak:
  assumes res: "mlx5gda_create_rc_qp C env wqe port heap = Some (res, heap', es)"
  shows "case res of
      Inl _ \<Rightarrow> live es r = 0
    | Inr qp \<Rightarrow> live (es @ snd (mlx5gda_destroy_qp h qp)) r = 0"
proof -
  consider
      (early) f where "res = Inl f" "live es r = 0"
    | (cq_failed) f hp es1 where "mlx5gda_create_cq C (for_cq env) wqe heap = Some (Inl f, hp, es1)"
        "(res, heap', es) = qp_failed f (Acq Qp_struct # es1) (qp_fail hp None None True SIZE_MAX SIZE_MAX)"
    | (uar_failed) cq hp es1 f es2 where "mlx5gda_create_cq C (for_cq env) wqe heap = Some (Inr cq, hp, es1)"
        "create_uar (alloc_bf_uar env) (host_register_ok env) = (Inl f, es2)"
        "(res, heap', es) = qp_failed f (Acq Qp_struct # es1 @ es2) (qp_fail hp None (Some cq) True SIZE_MAX SIZE_MAX)"
    | (rest) cq hp es1 uar es2 attr w where "mlx5gda_create_cq C (for_cq env) wqe heap = Some (Inr cq, hp, es1)"
        "create_uar (alloc_bf_uar env) (host_register_ok env) = (Inr uar, es2)"
        "create_rc_qp_rest C env port attr w cq uar hp (Acq Qp_struct # es1 @ es2) = (res, heap', es)"
    using res unfolding mlx5gda_create_rc_qp_def
    by (auto simp: qp_failed_def split: if_splits option.splits prod.splits sum.splits)
  then show ?thesis
  proof cases
    case early
    then show ?thesis by simp
  next
    case cq_failed
    then show ?thesis using create_cq_live [OF cq_failed(1), of r h] by (auto simp: qp_failed_def)
  next
    case uar_failed
    then show ?thesis
      using create_cq_live [OF uar_failed(1), of r h] create_uar_live [of r "alloc_bf_uar env" "host_register_ok env"]
      by (auto simp: qp_failed_def qp_fail_live [where h = h])
  next
    case rest
    have "live (Acq Qp_struct # es1 @ es2) r + live (destroy_uar uar) r +
        live (snd (mlx5gda_destroy_cq h cq)) r + live [Rel Qp_struct] r = 0"
      using create_cq_live [OF rest(1), of r h] create_uar_live [of r "alloc_bf_uar env" "host_register_ok env"] rest(2)
      by simp
    from create_rc_qp_rest_live [OF this rest(3)] show ?thesis by (simp split: sum.splits)
  qed
qed

text \<open>A device and libraries for which every call succeeds, for the concrete instances below.\<close>

definition demo_uar :: "nat \<Rightarrow> devx_uar" where
  "demo_uar i = \<lparr>uar_handle = i, page_id = of_nat i, reg_addr = 0\<rparr>"

definition good_cq_env :: "nat \<Rightarrow> cq_env" where
  "good_cq_env i = \<lparr>cq_memset_ok = True, cq_malloc_ok = True, query_eqn = Some 0,
     alloc_nc_uar = Some (demo_uar (2 * i)), cq_sync_ok = True, cq_obj_create = \<lambda>_. Some (2 * i, [])\<rparr>"

definition good_qp_env :: "nat \<Rightarrow> qp_env" where
  "good_qp_env i = \<lparr>qp_calloc_ok = True, query_port = Some \<lparr>lid = 0, link_layer = Link_infiniband\<rparr>,
     general_cmd = \<lambda>_. Some [], for_cq = good_cq_env i, alloc_bf_uar = Some (demo_uar (2 * i + 1)),
     host_register_ok = True, dbr_memset_ok = True, qp_sync_ok = True,
     qp_obj_create = \<lambda>_. Some (2 * i + 1, [])\<rparr>"

definition demo_ctrl :: ctrl where
  "demo_ctrl = \<lparr>macros = \<lparr>dset = \<lambda>_ _ _ c. c, dset64 = \<lambda>_ _ c. c, dget = \<lambda>_ _ _. 1\<rparr>, umem_id = 1, pdn = 1\<rparr>"

lemma demo_cqe_version: "get_cqe_version (macros demo_ctrl) out = 1"
  by (simp add: get_cqe_version_def DEVX_GET_def DEVX_ADDR_OF_def devx_field demo_ctrl_def)

lemma round_up_16384: "IBGDA_ROUND_UP_POW2_OR_0 16384 = Some 16384"
proof -
  have "pow2_loop (2 ^ 0) 16384 = Some (2 ^ 14)" by (rule pow2_loop_power) simp_all
  moreover have "\<not> (16384 :: u32) \<le> 1" by (simp add: word_le_nat_alt)
  ultimately show ?thesis by (simp add: IBGDA_ROUND_UP_POW2_OR_0_def round_up_pow2_def)
qed

section \<open>The control buffer with many queues\<close>

text \<open>
  Every queue of the program has 16384 entries of 64 bytes, aligned to the adapter page, followed by
  a doorbell record of 8 bytes. \<open>queue_heap cap m\<close> is the heap after \<open>m\<close> such pairs: the pairs lie
  at multiples of \<open>pair_stride\<close>.
\<close>

definition pair_stride :: nat where
  "pair_stride = 2 ^ 20 + 4096"

definition queue_pair_recs :: "nat \<Rightarrow> memheap_allocation list" where
  "queue_pair_recs j = [
     \<lparr>a_offset = of_nat (j * pair_stride), a_size = 2 ^ 20, a_used = True\<rparr>,
     \<lparr>a_offset = of_nat (j * pair_stride + 2 ^ 20), a_size = 8, a_used = True\<rparr>]"

definition queue_heap :: "size_t \<Rightarrow> nat \<Rightarrow> memheap" where
  "queue_heap cap m = \<lparr>heap_size = cap,
     allocated = (if m = 0 then 0 else of_nat ((m - 1) * pair_stride + 2 ^ 20 + 8)),
     allocs = concat (map queue_pair_recs [0..<m])\<rparr>"

lemma queue_heap_length: "length (concat (map queue_pair_recs [0..<m])) = 2 * m"
  by (induction m) (simp_all add: queue_pair_recs_def)

lemma alloc_align_8: "memheap_alloc_align 8 = 8"
  by (simp add: memheap_alloc_align_def Let_def)

lemma queue_heap_allocated:
  assumes "Suc m * pair_stride \<le> unat (cap :: size_t)"
  shows "unat (allocated (queue_heap cap m)) = (if m = 0 then 0 else (m - 1) * pair_stride + 2 ^ 20 + 8)"
proof (cases "m = 0")
  case False
  have "(m - 1) * pair_stride + 2 ^ 20 + 8 \<le> Suc m * pair_stride"
    using False by (cases m) (simp_all add: pair_stride_def)
  also have "\<dots> < 2 ^ 64" using assms unat_less_64 [of cap] by linarith
  finally have "unat (of_nat ((m - 1) * pair_stride + 2 ^ 20 + 8) :: size_t) = (m - 1) * pair_stride + 2 ^ 20 + 8"
    by (rule unat_of_nat_64)
  then show ?thesis using False by (simp only: queue_heap_def memheap.simps if_False)
qed (simp add: queue_heap_def)

lemma round_up_pair: "round_up (if m = 0 then 0 else (m - 1) * pair_stride + 2 ^ 20 + 8) 4096 = m * pair_stride"
proof (cases m)
  case (Suc k)
  have eq: "k * pair_stride + 2 ^ 20 + 8 = 8 + (257 * k + 256) * 4096" by (simp add: pair_stride_def)
  have "(k * pair_stride + 2 ^ 20 + 8) mod 4096 = 8" unfolding eq mod_mult_self1 by simp
  then show ?thesis using Suc round_up_not_dvd [of 4096 "k * pair_stride + 2 ^ 20 + 8"]
    by (simp add: pair_stride_def)
qed (simp add: round_up_def)

lemma alloc_pair:
  fixes cap :: size_t
  assumes b: "bump_heap (queue_heap cap m)" and m: "m < 512" and cap: "Suc m * pair_stride \<le> unat cap"
  obtains h1 where "memheap_aligned_alloc (queue_heap cap m) 1048576 4096 = (h1, of_nat (m * pair_stride), None)"
    and "memheap_alloc h1 8 = (queue_heap cap (Suc m), of_nat (m * pair_stride + 2 ^ 20), None)"
    and "bump_heap (queue_heap cap (Suc m))"
proof -
  define h where "h = queue_heap cap m"
  define o1 o2 :: size_t where "o1 = of_nat (m * pair_stride)" and "o2 = of_nat (m * pair_stride + 2 ^ 20)"
  define h1 where "h1 = (push_alloc h o1 1048576 True)\<lparr>allocated := o1 + 1048576\<rparr>"
  have lt: "m * pair_stride + 2 ^ 20 + 8 \<le> unat cap" using cap by (simp add: pair_stride_def)
  have size: "heap_size h = cap" "length (allocs h) = 2 * m"
    by (simp_all add: h_def queue_heap_def queue_heap_length)
  have al: "round_up (unat (allocated h)) (2 ^ 12) = m * pair_stride"
    unfolding h_def queue_heap_allocated [OF cap] using round_up_pair by simp
  have r1: "memheap_aligned_alloc h 1048576 4096 = (h1, o1, None)"
    unfolding h1_def o1_def al [symmetric]
    by (rule bump_heap_fits) (use b lt al size in \<open>simp_all add: h_def request_ok_def\<close>)
  have "unat o1 = m * pair_stride" unfolding o1_def
    by (rule unat_of_nat_64) (use lt unat_less_64 [of cap] in linarith)
  then have ne: "o1 \<noteq> SIZE_MAX" using lt unat_less_64 [of cap] by (intro not_SIZE_MAX) linarith
  note a1 = bump_heap_alloc [OF b [folded h_def] _ r1 ne]
  have b1: "bump_heap h1" by (rule a1(1)) (simp add: request_ok_def)
  have al1: "unat (allocated h1) = m * pair_stride + 2 ^ 20"
    using a1(3) \<open>unat o1 = _\<close> by (simp add: request_ok_def)
  have size1: "heap_size h1 = cap" by (simp add: h1_def size)
  have "8 dvd m * pair_stride + 2 ^ 20" by (simp add: pair_stride_def)
  then have ru: "round_up (unat (allocated h1)) (2 ^ 3) = m * pair_stride + 2 ^ 20"
    unfolding al1 by (subst round_up_dvd_eq) simp_all
  have r2: "memheap_alloc h1 8 = ((push_alloc h1 o2 8 True)\<lparr>allocated := o2 + 8\<rparr>, o2, None)"
    unfolding memheap_alloc_def alloc_align_8 o2_def ru [symmetric]
    by (rule bump_heap_fits) (use b1 lt ru size1 in \<open>simp_all add: request_ok_def\<close>)
  have eq: "(push_alloc h1 o2 8 True)\<lparr>allocated := o2 + 8\<rparr> = queue_heap cap (Suc m)"
    using m size by (simp add: h1_def o1_def o2_def push_alloc_def h_def queue_heap_def queue_heap_length queue_pair_recs_def algebra_simps)
  have "unat o2 = m * pair_stride + 2 ^ 20" unfolding o2_def
    by (rule unat_of_nat_64) (use lt unat_less_64 [of cap] in linarith)
  then have ne2: "o2 \<noteq> SIZE_MAX" using lt unat_less_64 [of cap] by (intro not_SIZE_MAX) linarith
  have "bump_heap (queue_heap cap (Suc m))"
    using bump_heap_alloc(1) [OF b1 _ r2 [unfolded memheap_alloc_def alloc_align_8] ne2] eq by (simp add: request_ok_def)
  with r1 r2 eq show ?thesis using that h_def o1_def o2_def by simp
qed

text \<open>Libraries and a device that grant every request.\<close>

definition cq_env_ok :: "cq_env \<Rightarrow> bool" where
  "cq_env_ok e \<longleftrightarrow> cq_memset_ok e \<and> cq_malloc_ok e \<and> query_eqn e \<noteq> None \<and> alloc_nc_uar e \<noteq> None \<and>
     cq_sync_ok e \<and> (\<forall>c. cq_obj_create e c \<noteq> None)"

definition qp_env_ok :: "ctrl \<Rightarrow> qp_env \<Rightarrow> bool" where
  "qp_env_ok C e \<longleftrightarrow> qp_calloc_ok e \<and> query_port e \<noteq> None \<and>
     (\<forall>c. \<exists>out. general_cmd e c = Some out \<and> get_cqe_version (macros C) out = 1) \<and>
     cq_env_ok (for_cq e) \<and> alloc_bf_uar e \<noteq> None \<and> host_register_ok e \<and> dbr_memset_ok e \<and> qp_sync_ok e \<and>
     (\<forall>c. qp_obj_create e c \<noteq> None)"

lemma ucast_16384: "ucast (16384 :: u32) * (64 :: size_t) = 1048576"
  by simp

lemma of_nat_not_SIZE_MAX: "n < 2 ^ 64 - 1 \<Longrightarrow> (of_nat n :: size_t) \<noteq> SIZE_MAX"
  using not_SIZE_MAX [of "of_nat n"] unat_of_nat_64 [of n] by simp

text \<open>Creation when the heap grants its requests.\<close>

lemma create_cq_granted:
  assumes env: "cq_env_ok env"
    and h: "memheap_aligned_alloc h 1048576 4096 = (h1, o1, e1)" "memheap_alloc h1 8 = (h2, o2, e2)"
    and ne: "o1 \<noteq> SIZE_MAX" "o2 \<noteq> SIZE_MAX"
  obtains cq es where "mlx5gda_create_cq C env 16384 h = Some (Inr cq, h2, es)"
    and "cq_offset cq = o1" and "cq_dbr_offset cq = o2"
proof -
  obtain eqn uar where "query_eqn env = Some eqn" "alloc_nc_uar env = Some uar"
    using env by (auto simp: cq_env_ok_def)
  moreover obtain obj out where
    "cq_obj_create env (create_cq_cmd (macros C) (umem_id C) o1 o2 16384 (page_id uar) eqn) = Some (obj, out)"
    using env unfolding cq_env_ok_def by (metis not_None_eq surj_pair)
  ultimately show ?thesis
    using env h ne that by (simp add: mlx5gda_create_cq_def round_up_16384 cq_env_ok_def)
qed

text \<open>The places of queue pair \<open>i\<close> in the control buffer.\<close>

definition qp_at :: "nat \<Rightarrow> mlx5gda_qp \<Rightarrow> bool" where
  "qp_at i qp \<longleftrightarrow>
     cq_offset (send_cq qp) = of_nat (2 * i * pair_stride) \<and>
     cq_dbr_offset (send_cq qp) = of_nat (2 * i * pair_stride + 2 ^ 20) \<and>
     wq_offset qp = of_nat ((2 * i + 1) * pair_stride) \<and>
     dbr_offset qp = of_nat ((2 * i + 1) * pair_stride + 2 ^ 20) \<and> num_wqebb qp = 16384"

lemma create_rc_qp_granted:
  assumes env: "qp_env_ok C env"
    and h: "memheap_aligned_alloc h 1048576 4096 = (h1, o1, e1)" "memheap_alloc h1 8 = (h2, o2, e2)"
      "memheap_aligned_alloc h2 1048576 4096 = (h3, o3, e3)" "memheap_alloc h3 8 = (h4, o4, e4)"
    and ne: "o1 \<noteq> SIZE_MAX" "o2 \<noteq> SIZE_MAX" "o3 \<noteq> SIZE_MAX" "o4 \<noteq> SIZE_MAX"
  obtains qp es where "mlx5gda_create_rc_qp C env 16384 port h = Some (Inr qp, h4, es)"
    and "cq_offset (send_cq qp) = o1" and "cq_dbr_offset (send_cq qp) = o2" and "wq_offset qp = o3" and "dbr_offset qp = o4"
    and "num_wqebb qp = 16384"
proof -
  have "cq_env_ok (for_cq env)" using env by (simp add: qp_env_ok_def)
  then obtain cq es where cq: "mlx5gda_create_cq C (for_cq env) 16384 h = Some (Inr cq, h2, es)"
    "cq_offset cq = o1" "cq_dbr_offset cq = o2"
    using create_cq_granted h(1,2) ne(1,2) by metis
  obtain attr out uar where e: "query_port env = Some attr" "general_cmd env (query_hca_cap_cmd (macros C)) = Some out"
    "get_cqe_version (macros C) out = 1" "alloc_bf_uar env = Some uar"
    using env unfolding qp_env_ok_def by blast
  obtain obj out2 where o: "qp_obj_create env (create_qp_cmd (macros C) (umem_id C) o3 o4 16384 (pdn C) (page_id uar) (cqn cq)) =
      Some (obj, out2)"
    using env unfolding qp_env_ok_def by (metis not_None_eq surj_pair)
  show ?thesis
    using env e o cq h(3,4) ne(3,4) that
    by (simp add: mlx5gda_create_rc_qp_def create_rc_qp_rest_def create_uar_def round_up_16384 qp_env_ok_def)
qed

lemma create_rc_qp_ok:
  fixes cap :: size_t
  assumes env: "qp_env_ok C env" and b: "bump_heap (queue_heap cap (2 * i))" and i: "i < 256"
    and cap: "(2 * i + 2) * pair_stride \<le> unat cap"
  obtains qp es where "mlx5gda_create_rc_qp C env 16384 port (queue_heap cap (2 * i)) =
      Some (Inr qp, queue_heap cap (2 * i + 2), es)"
    and "qp_at i qp" and "bump_heap (queue_heap cap (2 * i + 2))"
proof -
  let ?h1 = "queue_heap cap (2 * i + 1)"
  have cap1: "Suc (2 * i) * pair_stride \<le> unat cap" and cap2: "Suc (2 * i + 1) * pair_stride \<le> unat cap"
    using cap by (simp_all add: pair_stride_def)
  obtain h1 where h1: "memheap_aligned_alloc (queue_heap cap (2 * i)) 1048576 4096 = (h1, of_nat (2 * i * pair_stride), None)"
    "memheap_alloc h1 8 = (?h1, of_nat (2 * i * pair_stride + 2 ^ 20), None)" "bump_heap ?h1"
    using alloc_pair [OF b _ cap1] i by auto
  obtain h2 where h2: "memheap_aligned_alloc ?h1 1048576 4096 = (h2, of_nat ((2 * i + 1) * pair_stride), None)"
    "memheap_alloc h2 8 = (queue_heap cap (2 * i + 2), of_nat ((2 * i + 1) * pair_stride + 2 ^ 20), None)"
    "bump_heap (queue_heap cap (2 * i + 2))"
    using alloc_pair [OF h1(3) _ cap2] i by auto
  have "(2 * i + 1) * pair_stride + 2 ^ 20 < 2 ^ 64 - 1" using cap unat_less_64 [of cap] by (simp add: pair_stride_def)
  then have lt: "2 * i * pair_stride < 2 ^ 64 - 1" "2 * i * pair_stride + 2 ^ 20 < 2 ^ 64 - 1"
    "(2 * i + 1) * pair_stride < 2 ^ 64 - 1" "(2 * i + 1) * pair_stride + 2 ^ 20 < 2 ^ 64 - 1"
    by simp_all
  show ?thesis
    using create_rc_qp_granted [OF env h1(1,2) h2(1,2) lt [THEN of_nat_not_SIZE_MAX], of port] that h2(3)
    by (auto simp: qp_at_def)
qed

lemma queue_heap_0: "memheap_create True cap = Some (queue_heap cap 0)"
  by (simp add: memheap_create_def queue_heap_def)

lemma bump_queue_heap_0: "unat cap \<le> 2 ^ 48 \<Longrightarrow> bump_heap (queue_heap cap 0)"
  using bump_heap_create queue_heap_0 by blast

lemma good_envs: "qp_env_ok demo_ctrl (good_qp_env i)"
  using demo_cqe_version by (simp add: qp_env_ok_def cq_env_ok_def good_qp_env_def good_cq_env_def)

abbreviation CTRL_BUF_SIZE :: size_t where
  "CTRL_BUF_SIZE \<equiv> 1073741824"

theorem create_rc_qp_no_leak_witness:
  "\<exists>qp heap' es. mlx5gda_create_rc_qp demo_ctrl (good_qp_env 0) 16384 1 (queue_heap CTRL_BUF_SIZE 0) = Some (Inr qp, heap', es) \<and>
     live (es @ snd (mlx5gda_destroy_qp heap' qp)) (Uar 1) = 0"
proof -
  have "bump_heap (queue_heap CTRL_BUF_SIZE (2 * 0))" using bump_queue_heap_0 [of CTRL_BUF_SIZE] by simp
  then obtain qp heap' es where
    qp: "mlx5gda_create_rc_qp demo_ctrl (good_qp_env 0) 16384 1 (queue_heap CTRL_BUF_SIZE (2 * 0)) = Some (Inr qp, heap', es)"
    by (rule create_rc_qp_ok [OF good_envs [of 0], where port = 1]) (auto simp: pair_stride_def)
  then show ?thesis using create_rc_qp_no_leak [OF qp, of "Uar 1" heap'] by auto
qed

text \<open>
  The error path of \<^verbatim>\<open>mlx5gda_create_cq\<close> does not return its two heap blocks: when the device
  refuses the completion queue of the first queue pair, the creation of the queue pair fails with
  everything else released, but the megabyte of the queue and its doorbell record stay marked as
  used in the control-buffer heap.
\<close>

theorem create_cq_failure_keeps_heap_blocks:
  "\<exists>heap0 heap' es.
     memheap_create True CTRL_BUF_SIZE = Some heap0 \<and>
     mlx5gda_create_rc_qp demo_ctrl ((good_qp_env 0)\<lparr>for_cq := (good_cq_env 0)\<lparr>cq_obj_create := \<lambda>_. None\<rparr>\<rparr>)
       16384 1 heap0 = Some (Inl Sys, heap', es) \<and>
     (\<forall>r. live es r = 0) \<and> used_bytes (allocs heap0) = 0 \<and> used_bytes (allocs heap') = 1048584"
proof -
  have "bump_heap (queue_heap CTRL_BUF_SIZE 0)" using bump_queue_heap_0 [of CTRL_BUF_SIZE] by simp
  then obtain h1 where
    h1: "memheap_aligned_alloc (queue_heap CTRL_BUF_SIZE 0) 1048576 4096 = (h1, of_nat (0 * pair_stride), None)"
      "memheap_alloc h1 8 = (queue_heap CTRL_BUF_SIZE (Suc 0), of_nat (0 * pair_stride + 2 ^ 20), None)"
    by (rule alloc_pair) (simp_all add: pair_stride_def)
  have "used_bytes (allocs (queue_heap CTRL_BUF_SIZE 0)) = 0"
    "used_bytes (allocs (queue_heap CTRL_BUF_SIZE (Suc 0))) = 1048584"
    by (simp_all add: queue_heap_def queue_pair_recs_def used_bytes_def)
  moreover have "\<exists>es. mlx5gda_create_rc_qp demo_ctrl
      ((good_qp_env 0)\<lparr>for_cq := (good_cq_env 0)\<lparr>cq_obj_create := \<lambda>_. None\<rparr>\<rparr>) 16384 1 (queue_heap CTRL_BUF_SIZE 0) =
        Some (Inl Sys, queue_heap CTRL_BUF_SIZE (Suc 0), es) \<and> (\<forall>r. live es r = 0)"
    using h1 demo_cqe_version
    by (simp add: mlx5gda_create_rc_qp_def mlx5gda_create_cq_def round_up_16384 good_qp_env_def good_cq_env_def
        qp_failed_def cq_fail_def)
  ultimately show ?thesis using queue_heap_0 by blast
qed

end
