(* ===== verification/Device_Qp.thy ===== *)
theory Device_Qp
  imports EP_Prelude
begin

text \<open>
  The device side of a queue pair: the context a kernel thread posts work with
  (\<^verbatim>\<open>mlx5gda_qp_devctx\<close> of \<^verbatim>\<open>include/ep_ibgda/mlx5gda.h\<close>) and the functions of \<^verbatim>\<open>src/ep_kernel.cu\<close>
  that lock it, write work-queue entries, ring the doorbell and read completions. Opcodes and flags
  of \<^verbatim>\<open>mlx5dv.h\<close> are parameters. Everything the NIC reads is big-endian in memory of a little-endian
  device.
\<close>

section \<open>Byte order\<close>

text \<open>
  \<^verbatim>\<open>__byte_perm(x, y, s)\<close>: byte \<open>i\<close> of the result is the byte of the eight bytes of \<open>x\<close> (0 to 3) and
  \<open>y\<close> (4 to 7) that the low three bits of nibble \<open>i\<close> of \<open>s\<close> select.
\<close>

definition byte_of :: "u32 \<Rightarrow> nat \<Rightarrow> u32" where
  "byte_of x i = drop_bit (8 * i) x AND 0xff"

definition byte_perm :: "u32 \<Rightarrow> u32 \<Rightarrow> nat \<Rightarrow> u32" where
  "byte_perm x y s =
     (let sel = (\<lambda>i. s div 16 ^ i mod 8);
          pick = (\<lambda>i. if sel i < 4 then byte_of x (sel i) else byte_of y (sel i - 4))
      in pick 0 OR push_bit 8 (pick 1) OR push_bit 16 (pick 2) OR push_bit 24 (pick 3))"

definition device_byteswap16 :: "u16 \<Rightarrow> u16" where
  "device_byteswap16 x = ucast (byte_perm (ucast x) (ucast x) 0x2301)"

definition device_byteswap32 :: "u32 \<Rightarrow> u32" where
  "device_byteswap32 x = byte_perm x x 0x0123"

definition device_byteswap64 :: "u64 \<Rightarrow> u64" where
  "device_byteswap64 x =
     (let hi = ucast (drop_bit 32 x) :: u32;
          lo = ucast x :: u32;
          hi = byte_perm hi hi 0x0123;
          lo = byte_perm lo lo 0x0123
      in push_bit 32 (ucast lo) OR ucast hi)"

lemma byteswap32_eq:
  "device_byteswap32 x =
     push_bit 24 (x AND 0xff) OR push_bit 16 (drop_bit 8 x AND 0xff) OR
     push_bit 8 (drop_bit 16 x AND 0xff) OR (drop_bit 24 x AND 0xff)"
  by (simp add: device_byteswap32_def byte_perm_def byte_of_def Let_def or.commute or.left_commute)

lemma mask_ff: "(0xff :: 'a::len word) = mask 8"
  by (simp add: mask_eq_exp_minus_1)

lemma bit_byteswap32: "n < 32 \<Longrightarrow> bit (device_byteswap32 x) n \<longleftrightarrow> bit x (8 * (3 - n div 8) + n mod 8)"
proof -
  assume n: "n < 32"
  consider "n < 8" | "8 \<le> n \<and> n < 16" | "16 \<le> n \<and> n < 24" | "24 \<le> n \<and> n < 32" using n by linarith
  then show ?thesis
  proof cases
    case 1
    then have "n div 8 = 0" "n mod 8 = n" by simp_all
    with 1 show ?thesis by (simp add: byteswap32_eq bit_simps mask_ff)
  next
    case 2
    then have "n div 8 = 1" "n mod 8 = n - 8" by presburger+
    with 2 show ?thesis by (auto simp: byteswap32_eq bit_simps mask_ff)
  next
    case 3
    then have "n div 8 = 2" "n mod 8 = n - 16" by presburger+
    with 3 show ?thesis by (auto simp: byteswap32_eq bit_simps mask_ff)
  next
    case 4
    then have "n div 8 = 3" "n mod 8 = n - 24" by presburger+
    with 4 show ?thesis by (auto simp: byteswap32_eq bit_simps mask_ff)
  qed
qed

lemma byteswap32_involutive [simp]: "device_byteswap32 (device_byteswap32 x) = x"
proof (rule bit_word_eqI)
  fix n assume "n < LENGTH(32)"
  then have n: "n < 32" by simp
  define q r where "q = n div 8" and "r = n mod 8"
  have qr: "n = 8 * q + r" "q < 4" "r < 8" using n by (auto simp: q_def r_def)
  have m: "8 * (3 - q) + r < 32" "(8 * (3 - q) + r) div 8 = 3 - q" "(8 * (3 - q) + r) mod 8 = r"
    using qr by simp_all
  have "bit (device_byteswap32 (device_byteswap32 x)) n \<longleftrightarrow> bit x (8 * (3 - (3 - q)) + r)"
    using bit_byteswap32 [OF n, of "device_byteswap32 x"] bit_byteswap32 [OF m(1), of x] m(2,3)
    by (simp only: q_def r_def)
  also have "8 * (3 - (3 - q)) + r = n" using qr by simp
  finally show "bit (device_byteswap32 (device_byteswap32 x)) n \<longleftrightarrow> bit x n" .
qed

lemma byteswap64_eq:
  "device_byteswap64 x =
     push_bit 32 (ucast (device_byteswap32 (ucast x))) OR ucast (device_byteswap32 (ucast (drop_bit 32 x)))"
  by (simp add: device_byteswap64_def device_byteswap32_def Let_def)

lemma word64_halves:
  "(ucast (push_bit 32 (ucast (a :: u32)) OR ucast (b :: u32) :: u64) :: u32) = b"
  "(ucast (drop_bit 32 (push_bit 32 (ucast (a :: u32)) OR ucast (b :: u32) :: u64)) :: u32) = a"
  by (rule bit_word_eqI, auto simp: bit_simps dest: bit_imp_le_length)+

lemma word64_join: "push_bit 32 (ucast (ucast (drop_bit 32 x) :: u32)) OR ucast (ucast x :: u32) = (x :: u64)"
  by (rule bit_word_eqI) (auto simp: bit_simps)

lemma byteswap64_involutive [simp]: "device_byteswap64 (device_byteswap64 x) = x"
  by (simp only: byteswap64_eq [of "device_byteswap64 x"])
    (simp only: byteswap64_eq [of x] word64_halves byteswap32_involutive word64_join)

lemma byteswap16_eq: "device_byteswap16 x = push_bit 8 (x AND 0xff) OR (drop_bit 8 x AND 0xff)"
proof -
  have "byte_perm (ucast x) (ucast x) 0x2301 =
    (drop_bit 8 (ucast x) AND 0xff) OR push_bit 8 (ucast x AND 0xff) OR push_bit 16 (byte_of (ucast x) 3) OR
    push_bit 24 (byte_of (ucast x) 2)"
    by (simp add: byte_perm_def byte_of_def Let_def)
  then show ?thesis
    unfolding device_byteswap16_def
    by (intro bit_word_eqI) (auto simp: bit_simps mask_ff byte_of_def)
qed

lemma byteswap16_involutive [simp]: "device_byteswap16 (device_byteswap16 x) = x"
  unfolding byteswap16_eq
proof (rule bit_word_eqI)
  fix n assume "n < LENGTH(16)"
  then show "bit (push_bit 8 ((push_bit 8 (x AND 0xff) OR (drop_bit 8 x AND 0xff)) AND 0xff) OR
      (drop_bit 8 (push_bit 8 (x AND 0xff) OR (drop_bit 8 x AND 0xff)) AND 0xff)) n \<longleftrightarrow> bit x n"
    by (auto simp: bit_simps mask_ff dest: bit_imp_le_length)
qed

section \<open>Work-queue entries\<close>

text \<open>
  The segments of an entry, with the byte order of the memory the NIC reads. The control segment is
  zeroed first, so the fields left out here are zero.
\<close>

record ctrl_seg =
  opmod_idx_opcode :: u32
  qpn_ds :: u32
  fm_ce_se :: u8

record raddr_seg =
  raddr :: u64
  rkey :: u32
  r_reserved :: u32

record data_seg =
  byte_count :: u32
  lkey :: u32
  addr :: u64

record atomic_add_32_seg =
  add_data :: u32
  field_boundary :: u32
  compare :: u64

datatype wqe =
    Rdma_write (ctrl: ctrl_seg) (raddr_of: raddr_seg) (data: data_seg)
  | Rdma_atomic (ctrl: ctrl_seg) (raddr_of: raddr_seg) (atomic: atomic_add_32_seg) (data: data_seg)

text \<open>Constants of \<^verbatim>\<open>mlx5dv.h\<close>.\<close>

record dv_consts =
  MLX5_OPCODE_RDMA_WRITE :: u32
  MLX5_OPCODE_ATOMIC_MASKED_FA :: u32
  MLX5_WQE_CTRL_CQ_UPDATE :: u8

text \<open>
  The context. The ring, the doorbell record and the BlueField register are the memory the pointers
  \<^verbatim>\<open>wq\<close>, \<^verbatim>\<open>dbr\<close> and \<^verbatim>\<open>bf\<close> lead to; \<open>bf_writes\<close> is the sequence of stores to the register.
\<close>

record mlx5gda_qp_devctx =
  d_qpn :: u32
  wqeid_mask :: u32
  wq :: "u32 \<Rightarrow> wqe option"
  send_counter :: u32
  bf_writes :: "(u32 \<times> u64) list"
  bf_offset :: u32
  wq_head :: u16
  wq_tail :: u16

abbreviation MLX5GDA_BF_SIZE :: u32 where
  "MLX5GDA_BF_SIZE \<equiv> 256"

text \<open>The two writers: which entry they build, and the context after they stored it.\<close>

definition rdma_write_wqe :: "dv_consts \<Rightarrow> u32 \<Rightarrow> u16 \<Rightarrow> u64 \<Rightarrow> u32 \<Rightarrow> u64 \<Rightarrow> u32 \<Rightarrow> u32 \<Rightarrow> wqe" where
  "rdma_write_wqe K qpn head laddr lk ra rk bytes = Rdma_write
     \<lparr>opmod_idx_opcode = device_byteswap32 (push_bit 8 (ucast head) OR MLX5_OPCODE_RDMA_WRITE K),
      qpn_ds = device_byteswap32 (push_bit 8 qpn OR 3),
      fm_ce_se = MLX5_WQE_CTRL_CQ_UPDATE K\<rparr>
     \<lparr>raddr = device_byteswap64 ra, rkey = rk, r_reserved = 0\<rparr>
     \<lparr>byte_count = device_byteswap32 bytes, lkey = lk, addr = device_byteswap64 laddr\<rparr>"

definition rdma_atomic_add_wqe :: "dv_consts \<Rightarrow> u32 \<Rightarrow> u16 \<Rightarrow> cint \<Rightarrow> u64 \<Rightarrow> u32 \<Rightarrow> u64 \<Rightarrow> u32 \<Rightarrow> wqe" where
  "rdma_atomic_add_wqe K qpn head value laddr lk ra rk = Rdma_atomic
     \<lparr>opmod_idx_opcode = device_byteswap32 (MLX5_OPCODE_ATOMIC_MASKED_FA K OR push_bit 8 (ucast head) OR 0x08000000),
      qpn_ds = device_byteswap32 (push_bit 8 qpn OR 4),
      fm_ce_se = MLX5_WQE_CTRL_CQ_UPDATE K\<rparr>
     \<lparr>raddr = device_byteswap64 ra, rkey = rk, r_reserved = 0\<rparr>
     \<lparr>add_data = device_byteswap32 value, field_boundary = 0, compare = 0\<rparr>
     \<lparr>byte_count = device_byteswap32 4, lkey = lk, addr = device_byteswap64 laddr\<rparr>"

definition put_wqe :: "wqe \<Rightarrow> mlx5gda_qp_devctx \<Rightarrow> mlx5gda_qp_devctx" where
  "put_wqe w ctx = ctx\<lparr>wq := (wq ctx)(ucast (wq_head ctx) AND wqeid_mask ctx \<mapsto> w), wq_head := wq_head ctx + 1\<rparr>"

definition write_rdma_write_wqe ::
  "dv_consts \<Rightarrow> u64 \<Rightarrow> u32 \<Rightarrow> u64 \<Rightarrow> u32 \<Rightarrow> u32 \<Rightarrow> mlx5gda_qp_devctx \<Rightarrow> mlx5gda_qp_devctx" where
  "write_rdma_write_wqe K laddr lk ra rk bytes ctx =
     put_wqe (rdma_write_wqe K (d_qpn ctx) (wq_head ctx) laddr lk ra rk bytes) ctx"

definition write_rdma_atomic_add_wqe ::
  "dv_consts \<Rightarrow> cint \<Rightarrow> u64 \<Rightarrow> u32 \<Rightarrow> u64 \<Rightarrow> u32 \<Rightarrow> mlx5gda_qp_devctx \<Rightarrow> mlx5gda_qp_devctx" where
  "write_rdma_atomic_add_wqe K value laddr lk ra rk ctx =
     put_wqe (rdma_atomic_add_wqe K (d_qpn ctx) (wq_head ctx) value laddr lk ra rk) ctx"

text \<open>The first 64 bits of an entry, read by a little-endian load.\<close>

definition first_qword :: "wqe \<Rightarrow> u64" where
  "first_qword w = push_bit 32 (ucast (qpn_ds (ctrl w))) OR ucast (opmod_idx_opcode (ctrl w))"

definition post_send_db :: "mlx5gda_qp_devctx \<Rightarrow> mlx5gda_qp_devctx" where
  "post_send_db ctx =
     (let num_posted_wqe = ucast (wq_head ctx) :: u32;
          last_wqe = (num_posted_wqe - 1) AND wqeid_mask ctx
      in ctx\<lparr>send_counter := device_byteswap32 (ucast (wq_head ctx)),
            bf_writes := bf_writes ctx @ [(bf_offset ctx, case wq ctx last_wqe of Some w \<Rightarrow> first_qword w | None \<Rightarrow> 0)],
            bf_offset := bf_offset ctx XOR MLX5GDA_BF_SIZE\<rparr>)"

text \<open>
  The poll of the completion queue, over the successive values of the (collapsed) completion entry
  that its reads return: a big-endian entry counter and an opcode byte. \<open>Inl\<close> is the trap of the
  failed assertion; \<open>None\<close> means that the loop still runs when the values are used up. The tail is
  a signed 16-bit comparison.
\<close>

fun poll_cq_loop :: "u16 \<Rightarrow> u16 \<Rightarrow> (u16 \<times> u8) list \<Rightarrow> (unit + u16) option" where
  "poll_cq_loop tail expect cqes =
     (if sint (tail - expect) \<le> 0 then
        case cqes of
          [] \<Rightarrow> None
        | (counter_be, op_own) # cqes' \<Rightarrow>
            let opcode = drop_bit 4 op_own in
            if opcode = 0 \<or> opcode = 0xF then poll_cq_loop (device_byteswap16 counter_be + 1) expect cqes'
            else Some (Inl ())
      else Some (Inr tail))"

definition poll_cq :: "u16 \<Rightarrow> (u16 \<times> u8) list \<Rightarrow> mlx5gda_qp_devctx \<Rightarrow> (unit + mlx5gda_qp_devctx) option" where
  "poll_cq expect cqes ctx =
     (case poll_cq_loop (wq_tail ctx) expect cqes of
        None \<Rightarrow> None
      | Some (Inl t) \<Rightarrow> Some (Inl t)
      | Some (Inr tail) \<Rightarrow> Some (Inr (if tail \<noteq> wq_tail ctx then ctx\<lparr>wq_tail := tail\<rparr> else ctx)))"

section \<open>Polling\<close>

declare poll_cq_loop.simps [simp del]

text \<open>
  The poll returns only with a tail beyond the entry it waits for, and the tail is the old one or comes from
  a completion that was read; a trap means that one of the completions read was an error.
\<close>

lemma poll_cq_loop_result:
  "poll_cq_loop tail expect cqes = Some (Inr t) \<Longrightarrow>
     0 < sint (t - expect) \<and> (t = tail \<or> t \<in> (\<lambda>(c, op). device_byteswap16 c + 1) ` set cqes)"
proof (induction tail expect cqes rule: poll_cq_loop.induct)
  case (1 tail expect cqes)
  show ?case
  proof (cases "sint (tail - expect) \<le> 0")
    case True
    then obtain c op cqes' where c: "cqes = (c, op) # cqes'" "poll_cq_loop (device_byteswap16 c + 1) expect cqes' = Some (Inr t)"
      "drop_bit 4 op = 0 \<or> drop_bit 4 op = 0xF"
      using 1(2) by (subst (asm) poll_cq_loop.simps) (auto simp: Let_def split: list.splits if_splits)
    from 1(1) [OF True c(1) refl refl c(3) c(2)] show ?thesis using c(1) by auto
  next
    case False
    then show ?thesis using 1(2) by (subst (asm) poll_cq_loop.simps) auto
  qed
qed

lemma poll_cq_loop_trap:
  "poll_cq_loop tail expect cqes = Some (Inl u) \<Longrightarrow> \<exists>(c, op)\<in>set cqes. drop_bit 4 op \<noteq> 0 \<and> drop_bit 4 op \<noteq> 0xF"
proof (induction cqes arbitrary: tail)
  case Nil
  then show ?case by (subst (asm) poll_cq_loop.simps) (auto split: if_splits)
next
  case (Cons x cqes)
  obtain c op where x: "x = (c, op)" by (cases x)
  show ?case
  proof (cases "drop_bit 4 op = 0 \<or> drop_bit 4 op = 0xF")
    case True
    then have "poll_cq_loop (device_byteswap16 c + 1) expect cqes = Some (Inl u)"
      using Cons.prems x by (subst (asm) poll_cq_loop.simps) (auto simp: Let_def split: if_splits)
    then show ?thesis using Cons.IH x by auto
  qed (use x in auto)
qed

text \<open>It returns as soon as a completion at or beyond the entry is read.\<close>

lemma poll_cq_loop_returns:
  assumes "k < length cqes" and "0 < sint (device_byteswap16 (fst (cqes ! k)) + 1 - expect)"
  shows "poll_cq_loop tail expect cqes \<noteq> None"
  using assms
proof (induction cqes arbitrary: tail k)
  case (Cons x cqes)
  obtain c op where x: "x = (c, op)" by (cases x)
  have "poll_cq_loop (device_byteswap16 c + 1) expect cqes \<noteq> None"
  proof (cases k)
    case 0
    then have "\<not> sint (device_byteswap16 c + 1 - expect) \<le> 0" using Cons.prems(2) x by simp
    then show ?thesis by (subst poll_cq_loop.simps) simp
  next
    case (Suc j)
    then show ?thesis using Cons.IH [of j] Cons.prems by simp
  qed
  then show ?case using x by (subst poll_cq_loop.simps) (simp add: Let_def)
qed simp

lemma poll_cq_result:
  assumes "poll_cq expect cqes ctx = Some (Inr ctx')"
  shows "0 < sint (wq_tail ctx' - expect)" and "ctx' = ctx\<lparr>wq_tail := wq_tail ctx'\<rparr>"
proof -
  obtain t where t: "poll_cq_loop (wq_tail ctx) expect cqes = Some (Inr t)" "ctx' = ctx\<lparr>wq_tail := t\<rparr>"
    using assms by (auto simp: poll_cq_def split: option.splits sum.splits if_splits)
  show "0 < sint (wq_tail ctx' - expect)" using poll_cq_loop_result [OF t(1)] t(2) by simp
  show "ctx' = ctx\<lparr>wq_tail := wq_tail ctx'\<rparr>" using t(2) by simp
qed

section \<open>Posting an entry\<close>

text \<open>The index that the doorbell recomputes from the new head is the slot just written.\<close>

lemma last_slot:
  assumes "k \<le> 16"
  shows "(ucast (head + 1 :: u16) - 1) AND mask k = (ucast head AND mask k :: u32)"
proof (cases "head = - 1")
  case True
  show ?thesis unfolding True using assms by (intro bit_word_eqI) (auto simp: bit_simps)
next
  case False
  then have "head + 1 \<noteq> 0" by (simp add: eq_neg_iff_add_eq_0)
  then have "unat (head + 1) = Suc (unat head)" using unatSuc [of head] by (simp add: add.commute)
  moreover have "(ucast x :: u32) = of_nat (unat x)" for x :: u16 by simp
  ultimately have "(ucast (head + 1) :: u32) = ucast head + 1" by (metis of_nat_Suc add.commute)
  then show ?thesis by simp
qed

text \<open>How the NIC reads a control segment.\<close>

definition nic_opcode :: "ctrl_seg \<Rightarrow> u32" where
  "nic_opcode c = take_bit 8 (device_byteswap32 (opmod_idx_opcode c))"

definition nic_index :: "ctrl_seg \<Rightarrow> u32" where
  "nic_index c = take_bit 16 (drop_bit 8 (device_byteswap32 (opmod_idx_opcode c)))"

definition nic_opmod :: "ctrl_seg \<Rightarrow> u32" where
  "nic_opmod c = drop_bit 24 (device_byteswap32 (opmod_idx_opcode c))"

definition nic_ds :: "ctrl_seg \<Rightarrow> u32" where
  "nic_ds c = take_bit 6 (device_byteswap32 (qpn_ds c))"

definition nic_qpn :: "ctrl_seg \<Rightarrow> u32" where
  "nic_qpn c = drop_bit 8 (device_byteswap32 (qpn_ds c))"

text \<open>The number of 16-byte segments of an entry; an entry must fit its 64-byte slot.\<close>

fun segments :: "wqe \<Rightarrow> nat" where
  "segments (Rdma_write _ _ _) = 3"
| "segments (Rdma_atomic _ _ _ _) = 4"

lemma bits_above: "take_bit m w = w \<Longrightarrow> bit w n \<Longrightarrow> n < m" for w :: "'a::len word"
  by (metis bit_take_bit_iff)

lemma ctrl_word_fields:
  fixes op :: u32 and head :: u16
  assumes "take_bit 8 op = op"
  shows "take_bit 8 (push_bit 8 (ucast head) OR op) = op"
    and "take_bit 16 (drop_bit 8 (push_bit 8 (ucast head) OR op)) = ucast head"
    and "drop_bit 24 (push_bit 8 (ucast head) OR op) = 0"
  by (rule bit_word_eqI, auto simp: bit_simps dest: bits_above [OF assms] bit_imp_le_length)+

lemma atomic_word_fields:
  fixes op :: u32 and head :: u16
  assumes "take_bit 8 op = op"
  shows "take_bit 8 (op OR push_bit 8 (ucast head) OR push_bit 27 1) = op"
    and "take_bit 16 (drop_bit 8 (op OR push_bit 8 (ucast head) OR push_bit 27 1)) = ucast head"
    and "drop_bit 24 (op OR push_bit 8 (ucast head) OR push_bit 27 1) = push_bit 3 1"
  by (rule bit_word_eqI, auto simp: bit_simps dest: bits_above [OF assms] bit_imp_le_length)+

lemma qpn_word_fields:
  fixes q s :: u32
  assumes "take_bit 24 q = q" and "take_bit 6 s = s"
  shows "take_bit 6 (push_bit 8 q OR s) = s" and "drop_bit 8 (push_bit 8 q OR s) = q"
  by (rule bit_word_eqI, auto simp: bit_simps dest: bits_above [OF assms(1)] bits_above [OF assms(2)])+

section \<open>Properties of posting\<close>

text \<open>
  C18. What the NIC decodes in the entries the kernels write: the opcode, the index of the entry, the
  queue pair and a segment count that is the real number of segments of the entry; the atomic add
  has the extended mode 8 (a 4-byte masked fetch-and-add), and addresses, lengths and the value to
  add come out in the byte order they were given. (Opcodes have 8 bits and queue-pair numbers 24.)
\<close>

theorem wqe_decodes:
  assumes op: "take_bit 8 (MLX5_OPCODE_RDMA_WRITE K) = MLX5_OPCODE_RDMA_WRITE K"
      "take_bit 8 (MLX5_OPCODE_ATOMIC_MASKED_FA K) = MLX5_OPCODE_ATOMIC_MASKED_FA K"
    and qpn: "take_bit 24 qpn = qpn"
  shows "let w = rdma_write_wqe K qpn head laddr lk ra rk bytes; a = rdma_atomic_add_wqe K qpn head v laddr lk ra rk
    in nic_opcode (ctrl w) = MLX5_OPCODE_RDMA_WRITE K \<and> nic_opcode (ctrl a) = MLX5_OPCODE_ATOMIC_MASKED_FA K \<and>
       nic_opmod (ctrl w) = 0 \<and> nic_opmod (ctrl a) = 8 \<and>
       (\<forall>x\<in>{w, a}. nic_index (ctrl x) = ucast head \<and> nic_qpn (ctrl x) = qpn \<and>
          unat (nic_ds (ctrl x)) = segments x \<and> segments x * 16 \<le> 64 \<and>
          device_byteswap64 (raddr (raddr_of x)) = ra \<and> rkey (raddr_of x) = rk \<and>
          device_byteswap64 (addr (data x)) = laddr \<and> lkey (data x) = lk) \<and>
       device_byteswap32 (byte_count (data w)) = bytes \<and> device_byteswap32 (byte_count (data a)) = 4 \<and>
       device_byteswap32 (add_data (atomic a)) = v"
proof -
  have c: "(0x08000000 :: u32) = push_bit 27 1" "(8 :: u32) = push_bit 3 1" by simp_all
  have s: "take_bit 6 (3 :: u32) = 3" "take_bit 6 (4 :: u32) = 4" by simp_all
  show ?thesis
    unfolding Let_def rdma_write_wqe_def rdma_atomic_add_wqe_def nic_opcode_def nic_opmod_def nic_index_def nic_qpn_def
      nic_ds_def c
    using ctrl_word_fields [OF op(1), of head] atomic_word_fields [OF op(2), of head]
      qpn_word_fields [OF qpn s(1)] qpn_word_fields [OF qpn s(2)]
    by (simp del: push_bit_numeral)
qed

theorem wqe_decodes_witness:
  "let K = \<lparr>MLX5_OPCODE_RDMA_WRITE = 8, MLX5_OPCODE_ATOMIC_MASKED_FA = 21, MLX5_WQE_CTRL_CQ_UPDATE = 8\<rparr>
   in nic_index (ctrl (rdma_write_wqe K 77 65535 0 1 2 3 4)) = 65535 \<and>
      device_byteswap32 (add_data (atomic (rdma_atomic_add_wqe K 77 65535 (- 6) 0 1 2 3))) = - 6"
  using wqe_decodes [of "\<lparr>MLX5_OPCODE_RDMA_WRITE = 8, MLX5_OPCODE_ATOMIC_MASKED_FA = 21, MLX5_WQE_CTRL_CQ_UPDATE = 8\<rparr>"
      77 65535 0 1 2 3 4 "- 6"]
  by (simp add: Let_def)

end
