(* ===== verification/Spin_Lock.thy ===== *)
theory Spin_Lock
  imports EP_Prelude
begin

text \<open>
  The spin lock of the kernels (\<^verbatim>\<open>device_mutex_lock_system\<close>, \<^verbatim>\<open>device_mutex_unlock_system\<close> of
  \<^verbatim>\<open>src/ep_kernel.cu\<close>) as a step relation over any number of threads. A thread has a list of requests;
  for each it spins on the exchange, runs the body of the critical section one memory access at a
  time, and stores zero. The body is an argument: \<open>body r pc m\<close> is the next access of request \<open>r\<close> at
  control point \<open>pc\<close>, or \<open>None\<close> at the end of the section. The acquire and release orderings of the
  source make the accesses of a section visible to the next holder, which is what one shared memory
  expresses.
\<close>

section \<open>The lock\<close>

record ('r, 'pc, 'm) lock_sys =
  mutex :: u32
  mem :: 'm
  at :: "nat \<Rightarrow> 'pc option"
  todo :: "nat \<Rightarrow> 'r list"
  served :: "(nat \<times> 'r) list"

text \<open>One \<^verbatim>\<open>exchange(1)\<close>: the value it returns and the new value of the word; the unlocking store.\<close>

definition mutex_exchange :: "u32 \<Rightarrow> u32 \<times> u32" where
  "mutex_exchange w = (w, 1)"

definition device_mutex_unlock_system :: "u32 \<Rightarrow> u32" where
  "device_mutex_unlock_system w = 0"

text \<open>
  One iteration of the loop of \<^verbatim>\<open>device_mutex_lock_system\<close>: whether the loop ends, and the word.
\<close>

definition device_mutex_lock_system :: "u32 \<Rightarrow> bool \<times> u32" where
  "device_mutex_lock_system w = (let (old, new) = mutex_exchange w in (old = 0, new))"

inductive lock_step ::
  "('r \<Rightarrow> 'pc \<Rightarrow> 'm \<Rightarrow> ('pc \<times> 'm) option) \<Rightarrow> 'pc \<Rightarrow> ('r, 'pc, 'm) lock_sys \<Rightarrow> ('r, 'pc, 'm) lock_sys \<Rightarrow> bool"
  for body enter where
  spin: "at s t = None \<Longrightarrow> todo s t = r # rs \<Longrightarrow> device_mutex_lock_system (mutex s) = (False, w) \<Longrightarrow>
    lock_step body enter s (s\<lparr>mutex := w\<rparr>)"
| acquire: "at s t = None \<Longrightarrow> todo s t = r # rs \<Longrightarrow> device_mutex_lock_system (mutex s) = (True, w) \<Longrightarrow>
    lock_step body enter s (s\<lparr>mutex := w, at := (at s)(t \<mapsto> enter)\<rparr>)"
| inside: "at s t = Some pc \<Longrightarrow> todo s t = r # rs \<Longrightarrow> body r pc (mem s) = Some (pc', m') \<Longrightarrow>
    lock_step body enter s (s\<lparr>mem := m', at := (at s)(t \<mapsto> pc')\<rparr>)"
| release: "at s t = Some pc \<Longrightarrow> todo s t = r # rs \<Longrightarrow> body r pc (mem s) = None \<Longrightarrow>
    lock_step body enter s (s\<lparr>mutex := device_mutex_unlock_system (mutex s), at := (at s)(t := None),
      todo := (todo s)(t := rs), served := served s @ [(t, r)]\<rparr>)"

definition lock_init :: "'m \<Rightarrow> (nat \<Rightarrow> 'r list) \<Rightarrow> ('r, 'pc, 'm) lock_sys" where
  "lock_init m work = \<lparr>mutex = 0, mem = m, at = (\<lambda>_. None), todo = work, served = []\<rparr>"

section \<open>Serialisation\<close>

text \<open>
  What a client of the lock promises: \<open>rest r pc m\<close> is the memory at the end of the section when
  request \<open>r\<close> runs alone from control point \<open>pc\<close>, \<open>whole r\<close> is the effect of the section in one
  piece, and \<open>left\<close> bounds the accesses still to come.
\<close>

locale critical_section =
  fixes body :: "'r \<Rightarrow> 'pc \<Rightarrow> 'm \<Rightarrow> ('pc \<times> 'm) option"
    and enter :: 'pc
    and whole :: "'r \<Rightarrow> 'm \<Rightarrow> 'm"
    and rest :: "'r \<Rightarrow> 'pc \<Rightarrow> 'm \<Rightarrow> 'm"
    and left :: "'pc \<Rightarrow> nat"
  assumes rest_enter: "rest r enter m = whole r m"
    and rest_step: "body r pc m = Some (pc', m') \<Longrightarrow> rest r pc' m' = rest r pc m"
    and rest_stop: "body r pc m = None \<Longrightarrow> rest r pc m = m"
    and left_step: "body r pc m = Some (pc', m') \<Longrightarrow> left pc' < left pc"
begin

abbreviation serial :: "(nat \<times> 'r) list \<Rightarrow> 'm \<Rightarrow> 'm" where
  "serial log \<equiv> fold (whole \<circ> snd) log"

text \<open>The word is zero exactly when nobody is inside; who is inside continues a serial execution.\<close>

definition inv :: "'m \<Rightarrow> (nat \<Rightarrow> 'r list) \<Rightarrow> ('r, 'pc, 'm) lock_sys \<Rightarrow> bool" where
  "inv m0 work s \<longleftrightarrow>
     (\<forall>t. map snd (filter (\<lambda>e. fst e = t) (served s)) @ todo s t = work t) \<and>
     (if mutex s = 0 then (\<forall>t. at s t = None) \<and> mem s = serial (served s) m0
      else \<exists>t pc r rs. (\<forall>u. u \<noteq> t \<longrightarrow> at s u = None) \<and> at s t = Some pc \<and> todo s t = r # rs \<and>
        rest r pc (mem s) = whole r (serial (served s) m0))"

lemma inv_init: "inv m0 work (lock_init m0 work)"
  by (simp add: inv_def lock_init_def)

lemma inv_inside:
  assumes "inv m0 work s" and "at s t = Some pc" and "todo s t = r # rs"
  shows "mutex s \<noteq> 0 \<and> (\<forall>u. u \<noteq> t \<longrightarrow> at s u = None) \<and> rest r pc (mem s) = whole r (serial (served s) m0)"
  using assms by (auto simp: inv_def split: if_splits) (metis option.distinct(1) option.inject list.inject)+

lemma inv_step:
  assumes "lock_step body enter s s'" and "inv m0 work s"
  shows "inv m0 work s'"
  using assms
proof cases
  case (spin t r rs w)
  then show ?thesis using assms(2)
    by (auto simp: inv_def device_mutex_lock_system_def mutex_exchange_def)
next
  case (acquire t r rs w)
  then show ?thesis using assms(2)
    by (auto simp: inv_def device_mutex_lock_system_def mutex_exchange_def rest_enter)
next
  case (inside t pc r rs pc' m')
  then show ?thesis using assms(2) inv_inside [OF assms(2) inside(2,3)] rest_step [OF inside(4)]
    by (auto simp: inv_def)
next
  case (release t pc r rs)
  note in_t = inv_inside [OF assms(2) release(2,3)]
  have order: "map snd (filter (\<lambda>e. fst e = u) (served s)) @ todo s u = work u" for u
    using assms(2) by (simp add: inv_def)
  show ?thesis using order [of t] order in_t release rest_stop [OF release(4)]
    by (auto simp: inv_def device_mutex_unlock_system_def)
qed

lemma inv_reachable: "(lock_step body enter)\<^sup>*\<^sup>* (lock_init m0 work) s \<Longrightarrow> inv m0 work s"
  by (induction rule: rtranclp_induct) (auto intro: inv_init inv_step)

text \<open>Any interleaving has the effect of the served requests one after the other.\<close>

lemma serialises:
  assumes "(lock_step body enter)\<^sup>*\<^sup>* (lock_init m0 work) s"
  shows "(\<forall>t u. at s t \<noteq> None \<longrightarrow> at s u \<noteq> None \<longrightarrow> t = u) \<and>
    (\<forall>t. map snd (filter (\<lambda>e. fst e = t) (served s)) @ todo s t = work t) \<and>
    ((\<forall>t. at s t = None) \<longrightarrow> mem s = serial (served s) m0)"
proof (intro conjI)
  note i = inv_reachable [OF assms]
  show "\<forall>t u. at s t \<noteq> None \<longrightarrow> at s u \<noteq> None \<longrightarrow> t = u"
    using i unfolding inv_def by metis
  show "\<forall>t. map snd (filter (\<lambda>e. fst e = t) (served s)) @ todo s t = work t"
    using i by (simp add: inv_def)
  show "(\<forall>t. at s t = None) \<longrightarrow> mem s = serial (served s) m0"
    using i by (auto simp: inv_def split: if_splits)
qed

section \<open>Progress\<close>

text \<open>
  The work still to do of \<open>n\<close> threads. A spinning exchange leaves the state as it is; every other
  step makes the amount smaller, and as long as a request is pending some thread can make such a
  step.
\<close>

definition owed :: "('r, 'pc, 'm) lock_sys \<Rightarrow> nat \<Rightarrow> nat" where
  "owed s t = (case at s t of
      None \<Rightarrow> length (todo s t) * (left enter + 2)
    | Some pc \<Rightarrow> (length (todo s t) - 1) * (left enter + 2) + left pc + 1)"

definition pending :: "nat \<Rightarrow> ('r, 'pc, 'm) lock_sys \<Rightarrow> nat" where
  "pending n s = (\<Sum>t<n. owed s t)"

lemma pending_less:
  assumes "t < n" and "\<And>u. u \<noteq> t \<Longrightarrow> owed s' u = owed s u" and "owed s' t < owed s t"
  shows "pending n s' < pending n s"
  unfolding pending_def using assms by (intro sum_strict_mono_ex1) (auto, metis order.refl less_imp_le)

lemma step_pending:
  assumes "lock_step body enter s s'" and "s' \<noteq> s" and "mutex s \<in> {0, 1}" and "\<forall>t\<ge>n. todo s t = []"
  shows "pending n s' < pending n s"
  using assms(1)
proof cases
  case (spin t r rs w)
  then have "s' = s" using assms(3)
    by (auto simp: device_mutex_lock_system_def mutex_exchange_def)
  then show ?thesis using assms(2) by simp
next
  case (acquire t r rs w)
  show ?thesis
    by (rule pending_less [of t]) (use acquire assms(4) in \<open>auto simp: owed_def not_less [symmetric] split: option.splits\<close>)
next
  case (inside t pc r rs pc' m')
  show ?thesis
    by (rule pending_less [of t]) (use inside assms(4) left_step [OF inside(4)] in \<open>auto simp: owed_def not_less [symmetric] split: option.splits\<close>)
next
  case (release t pc r rs)
  show ?thesis
    by (rule pending_less [of t]) (use release assms(4) in \<open>auto simp: owed_def not_less [symmetric] split: option.splits\<close>)
qed

lemma mutex_bit:
  "(lock_step body enter)\<^sup>*\<^sup>* (lock_init m0 work) s \<Longrightarrow> mutex s \<in> {0, 1}"
proof (induction rule: rtranclp_induct)
  case base
  then show ?case by (simp add: lock_init_def)
next
  case (step s s')
  then show ?case
    by (auto elim!: lock_step.cases
        simp: device_mutex_lock_system_def mutex_exchange_def device_mutex_unlock_system_def)
qed

lemma todo_suffix:
  "(lock_step body enter)\<^sup>*\<^sup>* (lock_init m0 work) s \<Longrightarrow> work t = [] \<Longrightarrow> todo s t = []"
  using inv_reachable [of m0 work s] by (auto simp: inv_def) (metis append_is_Nil_conv)

lemma can_step:
  assumes "inv m0 work s" and "todo s t = r # rs"
  shows "\<exists>s'. lock_step body enter s s' \<and> s' \<noteq> s"
proof (cases "mutex s = 0")
  case True
  have "device_mutex_lock_system (mutex s) = (True, 1)"
    using True by (simp add: device_mutex_lock_system_def mutex_exchange_def)
  moreover have "at s t = None" using assms(1) True by (simp add: inv_def)
  ultimately have "lock_step body enter s (s\<lparr>mutex := 1, at := (at s)(t \<mapsto> enter)\<rparr>)"
    using assms(2) by (intro lock_step.acquire)
  moreover have "mutex (s\<lparr>mutex := 1, at := (at s)(t \<mapsto> enter)\<rparr>) \<noteq> mutex s" using True by simp
  ultimately show ?thesis by metis
next
  case False
  then obtain u pc q qs where u: "at s u = Some pc" "todo s u = q # qs"
    using assms(1) by (auto simp: inv_def)
  show ?thesis
  proof (cases "body q pc (mem s)")
    case None
    let ?s = "s\<lparr>mutex := device_mutex_unlock_system (mutex s), at := (at s)(u := None),
      todo := (todo s)(u := qs), served := served s @ [(u, q)]\<rparr>"
    have "lock_step body enter s ?s" using u None by (rule lock_step.release)
    moreover have "mutex ?s \<noteq> mutex s" using False by (simp add: device_mutex_unlock_system_def)
    ultimately show ?thesis by metis
  next
    case (Some pm)
    then obtain pc' m' where b: "body q pc (mem s) = Some (pc', m')" by (cases pm) auto
    let ?s = "s\<lparr>mem := m', at := (at s)(u \<mapsto> pc')\<rparr>"
    have "lock_step body enter s ?s" using u b by (rule lock_step.inside)
    moreover have "at ?s u \<noteq> at s u" using left_step [OF b] u by auto
    ultimately show ?thesis by metis
  qed
qed

lemma drains:
  assumes "(lock_step body enter)\<^sup>*\<^sup>* (lock_init m0 work) s" and "\<forall>t\<ge>n. work t = []"
  shows "\<exists>s'. (lock_step body enter)\<^sup>*\<^sup>* s s' \<and> (\<forall>t. todo s' t = [])"
  using assms(1)
proof (induction "pending n s" arbitrary: s rule: less_induct)
  case less
  note reach = less.prems
  show ?case
  proof (cases "\<forall>t. todo s t = []")
    case False
    then obtain t r rs where "todo s t = r # rs" by (metis neq_Nil_conv)
    then obtain s' where s': "lock_step body enter s s'" "s' \<noteq> s"
      using can_step inv_reachable [OF reach] by blast
    have "pending n s' < pending n s"
      using s' mutex_bit [OF reach] todo_suffix [OF reach] assms(2) by (intro step_pending) auto
    moreover have "(lock_step body enter)\<^sup>*\<^sup>* (lock_init m0 work) s'" using reach s'(1) by simp
    ultimately obtain s'' where "(lock_step body enter)\<^sup>*\<^sup>* s' s''" "\<forall>t. todo s'' t = []"
      using less.hyps by blast
    then show ?thesis using s'(1) by (meson converse_rtranclp_into_rtranclp)
  qed auto
qed

end

end
