(* ===== verification/Device_Post.thy ===== *)
theory Device_Post
  imports Device_Qp Spin_Lock
begin

text \<open>
  Posting to a queue pair as the kernels do it (the sequence lock, write the entry, ring the doorbell,
  unlock of \<^verbatim>\<open>src/ep_kernel.cu\<close>), by any number of threads that share the context. The critical section
  is split into its memory accesses; the lock makes them behave as the posts one after the other,
  and a sequence of posts fills the ring in the order of the indices the NIC sees.
\<close>

section \<open>A post\<close>

text \<open>The arguments of the two writers.\<close>

datatype send =
    Send_write u64 u32 u64 u32 u32
  | Send_add cint u64 u32 u64 u32

fun send_wqe :: "dv_consts \<Rightarrow> u32 \<Rightarrow> u16 \<Rightarrow> send \<Rightarrow> wqe" where
  "send_wqe K qpn head (Send_write laddr lk ra rk bytes) = rdma_write_wqe K qpn head laddr lk ra rk bytes"
| "send_wqe K qpn head (Send_add v laddr lk ra rk) = rdma_atomic_add_wqe K qpn head v laddr lk ra rk"

text \<open>Write the entry and ring the doorbell, as one operation.\<close>

fun post :: "dv_consts \<Rightarrow> send \<Rightarrow> mlx5gda_qp_devctx \<Rightarrow> mlx5gda_qp_devctx" where
  "post K (Send_write laddr lk ra rk bytes) ctx = post_send_db (write_rdma_write_wqe K laddr lk ra rk bytes ctx)"
| "post K (Send_add v laddr lk ra rk) ctx = post_send_db (write_rdma_atomic_add_wqe K v laddr lk ra rk ctx)"

lemma post_eq: "post K r ctx = post_send_db (put_wqe (send_wqe K (d_qpn ctx) (wq_head ctx) r) ctx)"
  by (cases r) (simp_all add: write_rdma_write_wqe_def write_rdma_atomic_add_wqe_def)

text \<open>The same accesses one by one; increments and the toggle read into a register first.\<close>

datatype post_pc =
    Write_entry | Load_head | Store_head u16 | Store_dbr | Store_bf | Load_bf_offset | Store_bf_offset u32 | Posted

fun post_body :: "dv_consts \<Rightarrow> send \<Rightarrow> post_pc \<Rightarrow> mlx5gda_qp_devctx \<Rightarrow> (post_pc \<times> mlx5gda_qp_devctx) option" where
  "post_body K r Write_entry c = Some (Load_head,
     c\<lparr>wq := (wq c)(ucast (wq_head c) AND wqeid_mask c \<mapsto> send_wqe K (d_qpn c) (wq_head c) r)\<rparr>)"
| "post_body K r Load_head c = Some (Store_head (wq_head c), c)"
| "post_body K r (Store_head h) c = Some (Store_dbr, c\<lparr>wq_head := h + 1\<rparr>)"
| "post_body K r Store_dbr c = Some (Store_bf, c\<lparr>send_counter := device_byteswap32 (ucast (wq_head c))\<rparr>)"
| "post_body K r Store_bf c = Some (Load_bf_offset,
     c\<lparr>bf_writes := bf_writes c @ [(bf_offset c,
        case wq c ((ucast (wq_head c) - 1) AND wqeid_mask c) of Some w \<Rightarrow> first_qword w | None \<Rightarrow> 0)]\<rparr>)"
| "post_body K r Load_bf_offset c = Some (Store_bf_offset (bf_offset c), c)"
| "post_body K r (Store_bf_offset b) c = Some (Posted, c\<lparr>bf_offset := b XOR MLX5GDA_BF_SIZE\<rparr>)"
| "post_body K r Posted c = None"

fun accesses_left :: "post_pc \<Rightarrow> nat" where
  "accesses_left Write_entry = 7"
| "accesses_left Load_head = 6"
| "accesses_left (Store_head _) = 5"
| "accesses_left Store_dbr = 4"
| "accesses_left Store_bf = 3"
| "accesses_left Load_bf_offset = 2"
| "accesses_left (Store_bf_offset _) = 1"
| "accesses_left Posted = 0"

fun run_accesses :: "nat \<Rightarrow> dv_consts \<Rightarrow> send \<Rightarrow> post_pc \<Rightarrow> mlx5gda_qp_devctx \<Rightarrow> mlx5gda_qp_devctx" where
  "run_accesses 0 K r pc c = c"
| "run_accesses (Suc n) K r pc c =
     (case post_body K r pc c of None \<Rightarrow> c | Some (pc', c') \<Rightarrow> run_accesses n K r pc' c')"

lemma run_accesses_post: "run_accesses 7 K r Write_entry c = post K r c"
  by (simp add: post_eq put_wqe_def post_send_db_def Let_def numeral_eq_Suc)

lemma accesses_left_step: "post_body K r pc c = Some (pc', c') \<Longrightarrow> accesses_left pc = Suc (accesses_left pc')"
  by (cases pc) auto

interpretation qp_lock: critical_section "post_body K" Write_entry "post K"
  "\<lambda>r pc. run_accesses (accesses_left pc) K r pc" accesses_left for K
proof
  show "run_accesses (accesses_left Write_entry) K r Write_entry c = post K r c" for r c
    using run_accesses_post by simp
  show "run_accesses (accesses_left pc') K r pc' c' = run_accesses (accesses_left pc) K r pc c"
    if "post_body K r pc c = Some (pc', c')" for r pc c pc' c'
    using that by (simp add: accesses_left_step [OF that])
  show "run_accesses (accesses_left pc) K r pc c = c" if "post_body K r pc c = None" for r pc c
    using that by (cases pc) auto
  show "accesses_left pc' < accesses_left pc" if "post_body K r pc c = Some (pc', c')" for r pc c pc' c'
    using accesses_left_step [OF that] by simp
qed

section \<open>The ring\<close>

lemma post_sel [simp]:
  "d_qpn (post K r c) = d_qpn c" "wqeid_mask (post K r c) = wqeid_mask c" "wq_head (post K r c) = wq_head c + 1"
  "bf_offset (post K r c) = bf_offset c XOR MLX5GDA_BF_SIZE" "wq_tail (post K r c) = wq_tail c"
  "send_counter (post K r c) = device_byteswap32 (ucast (wq_head c + 1))"
  "wq (post K r c) = (wq c)(ucast (wq_head c) AND wqeid_mask c \<mapsto> send_wqe K (d_qpn c) (wq_head c) r)"
  by (simp_all add: post_eq post_send_db_def put_wqe_def Let_def)

lemma post_bf_writes:
  assumes "wqeid_mask c = mask k" and "k \<le> 16"
  shows "bf_writes (post K r c) = bf_writes c @ [(bf_offset c, first_qword (send_wqe K (d_qpn c) (wq_head c) r))]"
  using last_slot [OF assms(2), of "wq_head c"]
  by (simp add: post_eq post_send_db_def put_wqe_def Let_def assms(1))

lemma posts_sel [simp]:
  "d_qpn (fold (post K) rs c) = d_qpn c" "wqeid_mask (fold (post K) rs c) = wqeid_mask c"
  "wq_head (fold (post K) rs c) = wq_head c + of_nat (length rs)" "wq_tail (fold (post K) rs c) = wq_tail c"
  by (induction rs arbitrary: c) simp_all

definition slot_of :: "nat \<Rightarrow> u16 \<Rightarrow> u32" where
  "slot_of k h = ucast h AND mask k"

lemma unat_slot_of: "k \<le> 16 \<Longrightarrow> unat (slot_of k h) = unat h mod 2 ^ k"
proof -
  have "unat (ucast h :: u32) = unat h" using unsigned_less [of h, where 'a = nat] by (simp add: unsigned_ucast_eq take_bit_nat_eq_self)
  then show ?thesis by (simp add: slot_of_def take_bit_eq_mask [symmetric] unsigned_take_bit_eq take_bit_eq_mod [of k "unat h"])
qed

lemma slot_of_eq:
  assumes "k \<le> 16" and "i \<le> j"
  shows "slot_of k (h + of_nat i) = slot_of k (h + of_nat j) \<longleftrightarrow> 2 ^ k dvd j - i"
proof -
  have d: "(2::nat) ^ k dvd 2 ^ 16" using assms(1) by (rule le_imp_power_dvd)
  have u: "unat (slot_of k (h + of_nat n)) = (unat h + n) mod 2 ^ k" for n
    using assms(1) by (simp add: unat_slot_of unat_word_ariths unat_of_nat mod_add_right_eq mod_mod_cancel [OF d, simplified])
  have "slot_of k (h + of_nat i) = slot_of k (h + of_nat j) \<longleftrightarrow> (unat h + j) mod 2 ^ k = (unat h + i) mod 2 ^ k"
    by (simp only: word_unat_eq_iff u) metis
  also have "\<dots> \<longleftrightarrow> 2 ^ k dvd (unat h + j) - (unat h + i)" using assms(2) by (intro mod_eq_dvd_iff_nat) simp
  finally show ?thesis by simp
qed

text \<open>
  A sequence of posts on a ring of \<open>2 ^ k\<close> entries: where the entries are, what the doorbell record
  says and what is written to the BlueField register.
\<close>

lemma posts_wq:
  assumes "wqeid_mask c = mask k" and "k \<le> 16" and "i < length rs" and "length rs \<le> i + 2 ^ k"
  shows "wq (fold (post K) rs c) (slot_of k (wq_head c + of_nat i)) =
    Some (send_wqe K (d_qpn c) (wq_head c + of_nat i) (rs ! i))"
  using assms(3,4)
proof (induction rs rule: rev_induct)
  case (snoc r rs)
  show ?case
  proof (cases "i = length rs")
    case True
    then show ?thesis using assms(1) by (simp add: slot_of_def)
  next
    case False
    then have i: "i < length rs" "length rs - i < 2 ^ k" using snoc.prems by auto
    have "slot_of k (wq_head c + of_nat i) \<noteq> slot_of k (wq_head c + of_nat (length rs))"
      using slot_of_eq [OF assms(2), of i "length rs"] i by (simp add: nat_dvd_not_less)
    then show ?thesis using snoc i assms(1) by (simp add: nth_append slot_of_def)
  qed
qed simp

lemma posts_bf_offset: "bf_offset (fold (post K) rs c) = (if even (length rs) then bf_offset c else bf_offset c XOR MLX5GDA_BF_SIZE)"
  by (induction rs arbitrary: c) (auto simp: xor.assoc)

lemma posts_bf:
  assumes "wqeid_mask c = mask k" and "k \<le> 16"
  shows "bf_writes (fold (post K) rs c) = bf_writes c @
    map (\<lambda>i. (if even i then bf_offset c else bf_offset c XOR MLX5GDA_BF_SIZE,
              first_qword (send_wqe K (d_qpn c) (wq_head c + of_nat i) (rs ! i)))) [0..<length rs]"
proof (induction rs rule: rev_induct)
  case (snoc r rs)
  have m: "map (\<lambda>i. (if even i then bf_offset c else bf_offset c XOR MLX5GDA_BF_SIZE,
              first_qword (send_wqe K (d_qpn c) (wq_head c + of_nat i) (rs ! i)))) [0..<length rs] =
      map (\<lambda>i. (if even i then bf_offset c else bf_offset c XOR MLX5GDA_BF_SIZE,
              first_qword (send_wqe K (d_qpn c) (wq_head c + of_nat i) ((rs @ [r]) ! i)))) [0..<length rs]"
    by (intro map_cong) (auto simp: nth_append)
  show ?case using snoc m assms by (simp add: post_bf_writes [OF _ assms(2)] posts_bf_offset)
qed simp

section \<open>Properties\<close>

text \<open>
  C11. Threads that post to one queue pair through the lock: at most one is inside the critical section,
  each thread's posts take effect in its program order, and whenever nobody is inside, the context
  is what the posts served so far give when executed whole, one after the other.
\<close>

theorem qp_posts_serialise:
  assumes "(lock_step (post_body K) Write_entry)\<^sup>*\<^sup>* (lock_init ctx work) s"
  shows "(\<forall>t u. at s t \<noteq> None \<longrightarrow> at s u \<noteq> None \<longrightarrow> t = u) \<and>
    (\<forall>t. map snd (filter (\<lambda>e. fst e = t) (served s)) @ todo s t = work t) \<and>
    ((\<forall>t. at s t = None) \<longrightarrow> mem s = fold (post K \<circ> snd) (served s) ctx)"
  using assms by (rule qp_lock.serialises)

definition demo_consts :: dv_consts where
  "demo_consts = \<lparr>MLX5_OPCODE_RDMA_WRITE = 8, MLX5_OPCODE_ATOMIC_MASKED_FA = 21, MLX5_WQE_CTRL_CQ_UPDATE = 8\<rparr>"

definition demo_ctx :: mlx5gda_qp_devctx where
  "demo_ctx = \<lparr>d_qpn = 77, wqeid_mask = mask 14, wq = (\<lambda>_. None), send_counter = 0, bf_writes = [], bf_offset = 0,
     wq_head = 65535, wq_tail = 0\<rparr>"

definition demo_work :: "nat \<Rightarrow> send list" where
  "demo_work = (\<lambda>_. [])(0 := [Send_write 4096 1 8192 2 64], 1 := [Send_add (- 6) 4096 1 8192 2])"

definition demo_locked :: "(send, post_pc, mlx5gda_qp_devctx) lock_sys" where
  "demo_locked = (lock_init demo_ctx demo_work)\<lparr>mutex := 1, at := (\<lambda>_. None)(1 \<mapsto> Write_entry)\<rparr>"

lemma demo_locked_reachable: "(lock_step (post_body demo_consts) Write_entry)\<^sup>*\<^sup>* (lock_init demo_ctx demo_work) demo_locked"
proof -
  have "lock_step (post_body demo_consts) Write_entry (lock_init demo_ctx demo_work)
      ((lock_init demo_ctx demo_work)\<lparr>mutex := 1, at := (at (lock_init demo_ctx demo_work :: (send, post_pc, _) lock_sys))(1 \<mapsto> Write_entry)\<rparr>)"
    by (rule lock_step.acquire [where r = "Send_add (- 6) 4096 1 8192 2" and rs = "[]"])
      (simp_all add: lock_init_def demo_work_def device_mutex_lock_system_def mutex_exchange_def)
  then show ?thesis by (simp add: demo_locked_def lock_init_def r_into_rtranclp)
qed

theorem qp_posts_serialise_witness:
  "at demo_locked 1 = Some Write_entry \<and> at demo_locked 0 = None \<and> todo demo_locked 0 = demo_work 0"
  using qp_posts_serialise [OF demo_locked_reachable]
  by (auto simp: demo_locked_def lock_init_def)

text \<open>
  C12. No post is lost or blocked for ever by the lock: from every reachable state of a finite number
  of threads the remaining posts can all be served, and every step that is not a failed exchange
  of a spinning thread brings the threads closer to that.
\<close>

theorem qp_posts_drain:
  assumes "(lock_step (post_body K) Write_entry)\<^sup>*\<^sup>* (lock_init ctx work) s" and "\<forall>t\<ge>n. work t = []"
  shows "(\<exists>s'. (lock_step (post_body K) Write_entry)\<^sup>*\<^sup>* s s' \<and> (\<forall>t. todo s' t = [])) \<and>
    (\<forall>s'. lock_step (post_body K) Write_entry s s' \<longrightarrow> s' \<noteq> s \<longrightarrow> qp_lock.pending n s' < qp_lock.pending n s)"
  using qp_lock.drains [OF assms] qp_lock.step_pending [OF _ _ qp_lock.mutex_bit [OF assms(1)]]
    qp_lock.todo_suffix [OF assms(1)] assms(2) by blast

theorem qp_posts_drain_witness:
  "\<exists>s. (lock_step (post_body demo_consts) Write_entry)\<^sup>*\<^sup>* demo_locked s \<and> (\<forall>t. todo s t = [])"
proof -
  have "\<forall>t\<ge>2. demo_work t = []" by (simp add: demo_work_def)
  from qp_posts_drain [OF demo_locked_reachable this] show ?thesis by blast
qed

text \<open>
  C33. The ring after a sequence of posts: the head has advanced by their number modulo \<open>2 ^ 16\<close>; the
  last \<open>2 ^ k\<close> entries are in their slots with the index the NIC expects; the doorbell record shows
  the head; the BlueField register was written once per post, with the first words of that entry,
  alternating between its two halves. Earlier entries are overwritten whether or not they have
  completed: nothing here depends on the completions (\<open>wq_tail\<close> never moves).
\<close>

theorem posts_fill_ring:
  assumes "wqeid_mask ctx = mask k" and "k \<le> 16"
  shows "let c = fold (post K) rs ctx; entry = (\<lambda>i. send_wqe K (d_qpn ctx) (wq_head ctx + of_nat i) (rs ! i)) in
    wq_head c = wq_head ctx + of_nat (length rs) \<and> wq_tail c = wq_tail ctx \<and>
    (\<forall>i. i < length rs \<and> length rs \<le> i + 2 ^ k \<longrightarrow> wq c (slot_of k (wq_head ctx + of_nat i)) = Some (entry i)) \<and>
    (rs \<noteq> [] \<longrightarrow> device_byteswap32 (send_counter c) = ucast (wq_head c)) \<and>
    bf_writes c = bf_writes ctx @
      map (\<lambda>i. (if even i then bf_offset ctx else bf_offset ctx XOR MLX5GDA_BF_SIZE, first_qword (entry i))) [0..<length rs]"
proof -
  have "rs \<noteq> [] \<Longrightarrow> device_byteswap32 (send_counter (fold (post K) rs ctx)) = ucast (wq_head (fold (post K) rs ctx))"
    by (induction rs rule: rev_induct) simp_all
  then show ?thesis
    unfolding Let_def by (intro conjI allI impI posts_bf [OF assms]) (auto intro: posts_wq [OF assms])
qed

theorem posts_fill_ring_witness:
  "let c = fold (post demo_consts) [Send_write 4096 1 8192 2 64, Send_add (- 6) 4096 1 8192 2] demo_ctx in
    wq_head c = 1 \<and> wq c 16383 \<noteq> None \<and> wq c 0 \<noteq> None \<and> map fst (bf_writes c) = [0, 256]"
proof -
  have s: "slot_of 14 65535 = 16383" "slot_of 14 65536 = 0" by (simp_all add: slot_of_def mask_eq_exp_minus_1)
  let ?c = "fold (post demo_consts) [Send_write 4096 1 8192 2 64, Send_add (- 6) 4096 1 8192 2] demo_ctx"
  have d: "wqeid_mask demo_ctx = mask 14" "wq_head demo_ctx = 65535" "bf_offset demo_ctx = 0" "bf_writes demo_ctx = []"
    by (simp_all add: demo_ctx_def)
  note f = posts_fill_ring [OF d(1), of demo_consts "[Send_write 4096 1 8192 2 64, Send_add (- 6) 4096 1 8192 2]",
      unfolded Let_def d(2-4)]
  have "wq_head ?c = 1" using f by simp
  moreover have "wq ?c 16383 \<noteq> None" using f [THEN conjunct2, THEN conjunct2, THEN conjunct1, rule_format, of 0] s by simp
  moreover have "wq ?c 0 \<noteq> None" using f [THEN conjunct2, THEN conjunct2, THEN conjunct1, rule_format, of 1] s by simp
  moreover have "map fst (bf_writes ?c) = [0, 256]" using f by (simp add: upt_rec)
  ultimately show ?thesis by (simp add: Let_def)
qed

end
