(* ===== verification/Ep_Helpers.thy ===== *)
theory Ep_Helpers
  imports Device_Qp
begin

text \<open>
  The stateless parts of \<^verbatim>\<open>EpBuffer\<close> (\<^verbatim>\<open>src/ep_buffer.cpp\<close>): the test for fabric memory, the choice of
  the GID, the size of a fabric allocation, and the assignment of queue pairs to ranks, on the host
  and in the kernels. The environment variable, the CUDA driver and libibverbs are parameters.
\<close>

section \<open>Fabric memory\<close>

text \<open>
  \<open>nvlink_ipc\<close> is the value of \<^verbatim>\<open>MC_USE_NVLINK_IPC\<close>, \<open>device_count\<close> the answer of \<^verbatim>\<open>cudaGetDeviceCount\<close>
  (\<open>None\<close> an error) and \<open>supported dev\<close> the attribute the driver reports (0 if the query fails).
\<close>

fun all_supported :: "(nat \<Rightarrow> int) \<Rightarrow> nat \<Rightarrow> nat \<Rightarrow> bool" where
  "all_supported supported dev 0 = True"
| "all_supported supported dev (Suc n) = (if supported dev = 0 then False else all_supported supported (Suc dev) n)"

definition supportFabricMem :: "string option \<Rightarrow> nat option \<Rightarrow> (nat \<Rightarrow> int) \<Rightarrow> bool" where
  "supportFabricMem nvlink_ipc device_count supported =
     (let fabric_enabled = (case nvlink_ipc of None \<Rightarrow> False | Some v \<Rightarrow> v = ''0'') in
      if \<not> fabric_enabled then False
      else case device_count of
        None \<Rightarrow> False
      | Some num_devices \<Rightarrow> if num_devices = 0 then False else all_supported supported 0 num_devices)"

lemma all_supported_iff: "all_supported supported dev n \<longleftrightarrow> (\<forall>d. dev \<le> d \<and> d < dev + n \<longrightarrow> supported d \<noteq> 0)"
proof (induction n arbitrary: dev)
  case (Suc n)
  have "dev \<le> d \<longleftrightarrow> d = dev \<or> Suc dev \<le> d" for d by auto
  then have "(\<forall>d. dev \<le> d \<and> d < dev + Suc n \<longrightarrow> supported d \<noteq> 0) \<longleftrightarrow>
      supported dev \<noteq> 0 \<and> (\<forall>d. Suc dev \<le> d \<and> d < Suc dev + n \<longrightarrow> supported d \<noteq> 0)"
    by auto
  then show ?case using Suc [of "Suc dev"] by simp
qed simp

text \<open>The size given to \<^verbatim>\<open>cuMemCreate\<close>.\<close>

definition fabric_alloc_size :: "size_t \<Rightarrow> size_t \<Rightarrow> size_t" where
  "fabric_alloc_size num_ep_buffer_bytes granularity =
     (let size = (num_ep_buffer_bytes + granularity - 1) AND NOT (granularity - 1)
      in if size = 0 then granularity else size)"

section \<open>The GID\<close>

text \<open>The four words of an IPv6 address as a little-endian host loads them, and \<^verbatim>\<open>htonl\<close> on it.\<close>

definition s6_addr32 :: "u8 list \<Rightarrow> nat \<Rightarrow> u32" where
  "s6_addr32 a i =
     ucast (a ! (4 * i)) OR push_bit 8 (ucast (a ! (4 * i + 1))) OR
     push_bit 16 (ucast (a ! (4 * i + 2))) OR push_bit 24 (ucast (a ! (4 * i + 3)))"

definition htonl :: "u32 \<Rightarrow> u32" where
  "htonl x = device_byteswap32 x"

definition ipv6_addr_v4mapped :: "u8 list \<Rightarrow> bool" where
  "ipv6_addr_v4mapped a \<longleftrightarrow>
     (s6_addr32 a 0 OR s6_addr32 a 1) = 0 \<and> s6_addr32 a 2 = htonl 0x0000ffff"

datatype gid_type = IBV_GID_TYPE_IB | IBV_GID_TYPE_ROCE_V1 | IBV_GID_TYPE_ROCE_V2

record ibv_gid_entry =
  gid_raw :: "u8 list"
  gid_type :: gid_type

text \<open>
  The loop over the GID table; \<open>query i\<close> is the answer of \<^verbatim>\<open>ibv_query_gid_ex\<close>, \<open>None\<close> an error.
\<close>

function find_gid :: "(nat \<Rightarrow> ibv_gid_entry option) \<Rightarrow> nat \<Rightarrow> nat \<Rightarrow> int" where
  "find_gid query gid_tbl_len i =
     (if i < gid_tbl_len then
        case query i of
          None \<Rightarrow> find_gid query gid_tbl_len (Suc i)
        | Some e \<Rightarrow>
            let is_v4mapped = ipv6_addr_v4mapped (gid_raw e) in
            if (is_v4mapped \<and> gid_type e = IBV_GID_TYPE_ROCE_V2) \<or> gid_type e = IBV_GID_TYPE_IB then int i
            else find_gid query gid_tbl_len (Suc i)
      else - 1)"
  by pat_completeness auto
termination by (relation "measure (\<lambda>(_, n, i). n - i)") auto

declare find_gid.simps [simp del]

definition findBestGidIndex :: "(nat \<Rightarrow> ibv_gid_entry option) \<Rightarrow> nat \<Rightarrow> int" where
  "findBestGidIndex query gid_tbl_len = find_gid query gid_tbl_len 0"

section \<open>Queue pairs and ranks\<close>

abbreviation MAX_QP_COUNT :: nat where
  "MAX_QP_COUNT \<equiv> 256"

definition USE_QP_COUNT :: "nat \<Rightarrow> nat" where
  "USE_QP_COUNT num_ranks = MAX_QP_COUNT div num_ranks * num_ranks"

text \<open>The rank that queue pair \<open>i\<close> is connected to by \<^verbatim>\<open>sync_ib\<close> and \<^verbatim>\<open>sync_roce\<close>.\<close>

definition peer_rank :: "nat \<Rightarrow> nat \<Rightarrow> nat" where
  "peer_rank num_ranks i = i * num_ranks div USE_QP_COUNT num_ranks"

text \<open>The queue pair that the kernels use for an expert of rank \<open>dst_rank\<close>.\<close>

definition num_qp_per_rank :: "nat \<Rightarrow> nat" where
  "num_qp_per_rank num_ranks = MAX_QP_COUNT div num_ranks"

definition qp_index :: "nat \<Rightarrow> nat \<Rightarrow> nat \<Rightarrow> nat" where
  "qp_index num_ranks dst_rank local_expert_idx =
     dst_rank * num_qp_per_rank num_ranks + local_expert_idx mod num_qp_per_rank num_ranks"

section \<open>Properties\<close>

lemma s6_addr32_bytes:
  assumes "4 * i + 4 \<le> length a"
  shows "s6_addr32 a i = v \<longleftrightarrow> (\<forall>k<4. a ! (4 * i + k) = ucast (drop_bit (8 * k) v))"
proof -
  have le: "n < 32 \<Longrightarrow> bit (s6_addr32 a i) n \<longleftrightarrow> bit (a ! (4 * i + n div 8)) (n mod 8)" for n
  proof -
    assume n: "n < 32"
    consider "n < 8" | "8 \<le> n \<and> n < 16" | "16 \<le> n \<and> n < 24" | "24 \<le> n \<and> n < 32" using n by linarith
    then show ?thesis
    proof cases
      case 1
      then have "n div 8 = 0" "n mod 8 = n" by simp_all
      with 1 show ?thesis by (auto simp: s6_addr32_def bit_simps)
    next
      case 2
      then have "n div 8 = 1" "n mod 8 = n - 8" by presburger+
      with 2 show ?thesis by (auto simp: s6_addr32_def bit_simps dest: bit_imp_le_length)
    next
      case 3
      then have "n div 8 = 2" "n mod 8 = n - 16" by presburger+
      with 3 show ?thesis by (auto simp: s6_addr32_def bit_simps dest: bit_imp_le_length)
    next
      case 4
      then have "n div 8 = 3" "n mod 8 = n - 24" by presburger+
      with 4 show ?thesis by (auto simp: s6_addr32_def bit_simps dest: bit_imp_le_length)
    qed
  qed
  show ?thesis
  proof
    assume v: "s6_addr32 a i = v"
    show "\<forall>k<4. a ! (4 * i + k) = ucast (drop_bit (8 * k) v)"
    proof (intro allI impI bit_word_eqI)
      fix k n assume k: "(k :: nat) < 4" and "n < LENGTH(8)"
      then have n: "n < 8" by simp
      have "(8 * k + n) div 8 = k" "(8 * k + n) mod 8 = n" using n by simp_all
      then show "bit (a ! (4 * i + k)) n \<longleftrightarrow> bit (ucast (drop_bit (8 * k) v) :: u8) n"
        using le [of "8 * k + n"] k n v by (simp add: bit_simps)
    qed
  next
    assume r: "\<forall>k<4. a ! (4 * i + k) = ucast (drop_bit (8 * k) v)"
    show "s6_addr32 a i = v"
    proof (rule bit_word_eqI)
      fix n assume "n < LENGTH(32)"
      then have n: "n < 32" by simp
      then have "n div 8 < 4" "8 * (n div 8) + n mod 8 = n" by simp_all
      then show "bit (s6_addr32 a i) n \<longleftrightarrow> bit v n" using le [OF n] r by (simp add: bit_simps)
    qed
  qed
qed

definition v4mapped_prefix :: "u8 list" where
  "v4mapped_prefix = replicate 10 0 @ [0xff, 0xff]"

lemma all_less_4: "(\<forall>k<4. P k) \<longleftrightarrow> P 0 \<and> P 1 \<and> P 2 \<and> P (3::nat)"
  by (auto simp: numeral_eq_Suc All_less_Suc)

lemma all_less_12: "(\<forall>i<12. P i) \<longleftrightarrow> (\<forall>k<4. P k) \<and> (\<forall>k<4. P (4 + k)) \<and> (\<forall>k<4. P (8 + k :: nat))"
  by (auto simp: numeral_eq_Suc All_less_Suc)

lemma v4mapped_iff:
  assumes "length a = 16"
  shows "ipv6_addr_v4mapped a \<longleftrightarrow> take 12 a = v4mapped_prefix"
proof -
  have w: "(4294901760 :: u8) = 0" "(16776960 :: u8) = 0" "(65535 :: u8) = 255" by simp_all
  have h: "htonl 0x0000ffff = 0xffff0000" by (simp add: htonl_def byteswap32_eq)
  have "ipv6_addr_v4mapped a \<longleftrightarrow> s6_addr32 a 0 = 0 \<and> s6_addr32 a 1 = 0 \<and> s6_addr32 a 2 = 0xffff0000"
    by (simp add: ipv6_addr_v4mapped_def h or_eq_0_iff)
  also have "\<dots> \<longleftrightarrow> (\<forall>k<4. a ! k = 0) \<and> (\<forall>k<4. a ! (4 + k) = 0) \<and>
      (\<forall>k<4. a ! (8 + k) = ucast (drop_bit (8 * k) (0xffff0000 :: u32)))"
    using s6_addr32_bytes [of 0 a] s6_addr32_bytes [of 1 a] s6_addr32_bytes [of 2 a] assms by simp
  also have "\<dots> \<longleftrightarrow> (\<forall>i<12. a ! i = v4mapped_prefix ! i)"
    by (simp add: v4mapped_prefix_def all_less_12 all_less_4 nth_append w)
  also have "\<dots> \<longleftrightarrow> take 12 a = v4mapped_prefix"
    using assms by (auto simp: list_eq_iff_nth_eq v4mapped_prefix_def)
  finally show ?thesis .
qed

text \<open>A table entry that can be used: an InfiniBand GID, or a RoCE v2 one that maps an IPv4 address.\<close>

definition suitable :: "(nat \<Rightarrow> ibv_gid_entry option) \<Rightarrow> nat \<Rightarrow> bool" where
  "suitable query i \<longleftrightarrow> (case query i of None \<Rightarrow> False | Some e \<Rightarrow>
     gid_type e = IBV_GID_TYPE_IB \<or> gid_type e = IBV_GID_TYPE_ROCE_V2 \<and> take 12 (gid_raw e) = v4mapped_prefix)"

lemma find_gid_step:
  assumes "\<forall>e. query i = Some e \<longrightarrow> length (gid_raw e) = 16"
  shows "find_gid query n i = (if i < n then if suitable query i then int i else find_gid query n (Suc i) else - 1)"
  using assms by (subst find_gid.simps) (auto simp: suitable_def v4mapped_iff Let_def split: option.splits)

lemma find_gid_least:
  assumes "\<forall>i e. query i = Some e \<longrightarrow> length (gid_raw e) = 16"
  shows "(if \<exists>j. i \<le> j \<and> j < n \<and> suitable query j
     then \<exists>j. find_gid query n i = int j \<and> i \<le> j \<and> j < n \<and> suitable query j \<and> (\<forall>m. i \<le> m \<and> m < j \<longrightarrow> \<not> suitable query m)
     else find_gid query n i = - 1)"
proof (induction "n - i" arbitrary: i)
  case 0
  then show ?case using assms by (auto simp: find_gid_step)
next
  case (Suc d)
  have step: "find_gid query n i = (if suitable query i then int i else find_gid query n (Suc i))"
    using assms Suc.hyps(2) by (subst find_gid_step) auto
  show ?case
  proof (cases "suitable query i")
    case True
    then show ?thesis using step Suc.hyps(2) by (auto intro!: exI [of _ i])
  next
    case False
    have ge: "i \<le> j \<and> suitable query j \<longleftrightarrow> Suc i \<le> j \<and> suitable query j" for j
      using False by (metis Suc_leD not_less_eq_eq le_antisym)
    have "d = n - Suc i" using Suc.hyps(2) by simp
    from Suc.hyps(1) [OF this] show ?thesis
      using step False ge by (auto split: if_splits)
  qed
qed

lemma use_qp_count: "USE_QP_COUNT R = num_qp_per_rank R * R"
  by (simp add: USE_QP_COUNT_def num_qp_per_rank_def)

lemma num_qp_per_rank_pos: "0 < R \<Longrightarrow> R \<le> 256 \<Longrightarrow> 0 < num_qp_per_rank R"
  by (simp add: num_qp_per_rank_def div_greater_zero_iff)

lemma peer_rank_eq:
  assumes "0 < R" and "R \<le> 256"
  shows "peer_rank R i = i div num_qp_per_rank R"
proof -
  have "peer_rank R i = i * R div (num_qp_per_rank R * R)" by (simp add: peer_rank_def use_qp_count)
  also have "\<dots> = i div num_qp_per_rank R" using assms(1) by simp
  finally show ?thesis .
qed

lemma qp_index_bound:
  assumes "0 < R" and "R \<le> 256" and "d < R"
  shows "qp_index R d l < USE_QP_COUNT R"
proof -
  have "qp_index R d l < (d + 1) * num_qp_per_rank R"
    using num_qp_per_rank_pos [OF assms(1,2)] by (simp add: qp_index_def algebra_simps)
  also have "\<dots> \<le> R * num_qp_per_rank R" using assms(3) by (intro mult_le_mono1) simp
  finally show ?thesis by (simp add: use_qp_count mult.commute)
qed

text \<open>
  C34. The queue pair that a kernel picks for an expert is always one that the host connected to the
  rank of that expert: with 1 to 256 ranks the index is below the number of queue pairs, and the
  peer \<^verbatim>\<open>sync_ib\<close> and \<^verbatim>\<open>sync_roce\<close> compute for it is the destination rank. Every rank gets the same
  number of queue pairs, at least one, and experts of one rank share a queue pair exactly when
  their local indices agree modulo that number.
\<close>

theorem qp_index_reaches_rank:
  assumes "0 < num_ranks" and "num_ranks \<le> 256" and "dst_rank < num_ranks"
  shows "let i = qp_index num_ranks dst_rank l in
    i < USE_QP_COUNT num_ranks \<and> USE_QP_COUNT num_ranks \<le> MAX_QP_COUNT \<and> peer_rank num_ranks i = dst_rank \<and>
    card {j. j < USE_QP_COUNT num_ranks \<and> peer_rank num_ranks j = dst_rank} = num_qp_per_rank num_ranks \<and>
    (\<forall>l'. qp_index num_ranks dst_rank l' = i \<longleftrightarrow> l' mod num_qp_per_rank num_ranks = l mod num_qp_per_rank num_ranks)"
proof -
  let ?q = "num_qp_per_rank num_ranks"
  have q: "0 < ?q" using num_qp_per_rank_pos assms by simp
  have "{j. j < USE_QP_COUNT num_ranks \<and> peer_rank num_ranks j = dst_rank} = {dst_rank * ?q..<dst_rank * ?q + ?q}"
  proof (intro set_eqI iffI)
    fix j assume "j \<in> {j. j < USE_QP_COUNT num_ranks \<and> peer_rank num_ranks j = dst_rank}"
    then have "j div ?q = dst_rank" using peer_rank_eq assms by simp
    then show "j \<in> {dst_rank * ?q..<dst_rank * ?q + ?q}"
      using q div_mult_mod_eq [of j ?q] mod_less_divisor [OF q, of j] by auto
  next
    fix j assume j: "j \<in> {dst_rank * ?q..<dst_rank * ?q + ?q}"
    then obtain r where r: "j = dst_rank * ?q + r" "r < ?q" by (auto simp: le_iff_add)
    have "j = qp_index num_ranks dst_rank r" using r by (simp add: qp_index_def)
    then have "j < USE_QP_COUNT num_ranks" using qp_index_bound [OF assms] by simp
    moreover have "j div ?q = dst_rank" using r q by simp
    ultimately show "j \<in> {j. j < USE_QP_COUNT num_ranks \<and> peer_rank num_ranks j = dst_rank}"
      using peer_rank_eq [OF assms(1,2)] by simp
  qed
  moreover have "USE_QP_COUNT num_ranks \<le> MAX_QP_COUNT" by (simp add: USE_QP_COUNT_def)
  moreover have "peer_rank num_ranks (qp_index num_ranks dst_rank l) = dst_rank"
    using q peer_rank_eq [OF assms(1,2)] by (simp add: qp_index_def)
  ultimately show ?thesis using qp_index_bound [OF assms] by (auto simp: Let_def qp_index_def)
qed

theorem qp_index_reaches_rank_witness:
  "qp_index 8 7 100 < USE_QP_COUNT 8 \<and> peer_rank 8 (qp_index 8 7 100) = 7 \<and> num_qp_per_rank 8 = 32"
  using qp_index_reaches_rank [of 8 7 100] by (simp add: Let_def num_qp_per_rank_def)

text \<open>
  \<^verbatim>\<open>findBestGidIndex\<close> returns the first usable entry of the GID table (an InfiniBand GID, or a RoCE
  v2 GID whose sixteen bytes start with ten zeros and two \<^verbatim>\<open>ff\<close>), skipping entries whose query fails,
  and -1 exactly when there is none.
\<close>

theorem findBestGidIndex_first:
  assumes "\<forall>i e. query i = Some e \<longrightarrow> length (gid_raw e) = 16"
  shows "if \<exists>i<gid_tbl_len. suitable query i
    then \<exists>i<gid_tbl_len. findBestGidIndex query gid_tbl_len = int i \<and> suitable query i \<and> (\<forall>j<i. \<not> suitable query j)
    else findBestGidIndex query gid_tbl_len = - 1"
  using find_gid_least [OF assms, of 0 gid_tbl_len] by (auto simp: findBestGidIndex_def split: if_splits)

definition demo_gids :: "nat \<Rightarrow> ibv_gid_entry option" where
  "demo_gids i =
     (if i = 0 then Some \<lparr>gid_raw = replicate 16 0, gid_type = IBV_GID_TYPE_ROCE_V2\<rparr>
      else if i = 3 then Some \<lparr>gid_raw = v4mapped_prefix @ [10, 0, 0, 1], gid_type = IBV_GID_TYPE_ROCE_V2\<rparr>
      else None)"

theorem findBestGidIndex_first_witness:
  "\<exists>i<5. findBestGidIndex demo_gids 5 = int i \<and> suitable demo_gids i"
proof -
  have "\<forall>i e. demo_gids i = Some e \<longrightarrow> length (gid_raw e) = 16"
    by (simp add: demo_gids_def v4mapped_prefix_def)
  moreover have "suitable demo_gids 3" by (simp add: suitable_def demo_gids_def v4mapped_prefix_def)
  then have "\<exists>i<5. suitable demo_gids i" by (intro exI [of _ 3]) simp
  ultimately show ?thesis using findBestGidIndex_first [of demo_gids 5] by auto
qed

text \<open>
  The size of a fabric allocation: for a granularity that is a power of two the result is the
  least multiple of it that holds the requested bytes and is not zero, unless the rounding wraps
  around \<open>2 ^ 64\<close>.
\<close>

theorem fabric_alloc_size_rounds:
  assumes g: "unat granularity = 2 ^ k" and n: "unat n + 2 ^ k \<le> 2 ^ 64"
  shows "unat (fabric_alloc_size n granularity) = (if n = 0 then 2 ^ k else round_up (unat n) (2 ^ k))"
proof -
  let ?m = "n + granularity - 1"
  have "unat (granularity - 1) = 2 ^ k - 1" using g unat_sub_le [of 1 granularity] by simp
  moreover have "?m = n + (granularity - 1)" by simp
  moreover have "unat n + (2 ^ k - 1) < 2 ^ 64" using n by (simp add: Suc_diff_le)
  ultimately have m: "unat ?m = unat n + (2 ^ k - 1)" by (simp only: unat_add_64)
  have "unat (?m AND NOT (granularity - 1)) = (unat n + (2 ^ k - 1)) div 2 ^ k * 2 ^ k"
    using unat_and_not_mask [OF g, of ?m] m by simp
  also have "\<dots> = round_up (unat n) (2 ^ k)" by (simp add: round_up_def)
  finally have r: "unat (?m AND NOT (granularity - 1)) = round_up (unat n) (2 ^ k)" .
  have "round_up (unat n) (2 ^ k) = 0 \<longleftrightarrow> n = 0"
    using round_up_ge [of "2 ^ k" "unat n"] by (auto simp: round_up_def unat_eq_0)
  then show ?thesis using r g by (auto simp: fabric_alloc_size_def Let_def unat_eq_0 simp del: unsigned_and_eq)
qed

theorem fabric_alloc_size_rounds_witness:
  "unat (fabric_alloc_size 5000000 2097152) = 6291456"
  using fabric_alloc_size_rounds [of 2097152 21 5000000] by (simp add: round_up_def)

end
