(* ===== verification/Ep_Buffer.thy ===== *)
theory Ep_Buffer
  imports Ep_Helpers Mlx5gda Device_Post
begin

text \<open>
  \<^verbatim>\<open>EpBuffer\<close> (\<^verbatim>\<open>src/ep_buffer.cpp\<close>, \<^verbatim>\<open>include/ep_buffer.h\<close>): construction with or without fabric memory,
  the set-up of the NIC with its queue pairs, re-creation of the queue pairs, connection to the peers
  over InfiniBand or RoCE, exchange of NVLink handles, the accessors and the destructor. The answers
  of the CUDA runtime and driver, libibverbs and libmlx5 are fields of environment records; what is
  acquired and released is recorded in a trace. Pointers are 64-bit addresses, 0 the null pointer.
\<close>

section \<open>Outcomes\<close>

text \<open>
  How a function can end early: a thrown exception (an \<^verbatim>\<open>EPException\<close> of \<^verbatim>\<open>CUDA_CHECK\<close> or a
  \<^verbatim>\<open>std::runtime_error\<close>), \<^verbatim>\<open>exit(1)\<close>, or undefined behaviour (an index outside a vector, a null pointer
  followed). \<open>Diverges\<close> is a call that does not return.
\<close>

datatype abort = EPException | Runtime_error string | Exit | Undefined | Diverges

datatype buf_resource =
    Fabric_mem | Fabric_range | Fabric_map
  | Gdr_buffer | Raddrs | Rkeys | Qp_devctxs | Nvlink_available | Ipc_host | Ipc_dev | Stream | Workspace
  | Dev_list | Ib_context | Pd | Mr | Ctrl_buf | Umem | Heap | Ipc_handle nat | Of_qp nat resource

type_synonym buf_trace = "buf_resource event list"

fun event_map :: "('a \<Rightarrow> 'b) \<Rightarrow> 'a event \<Rightarrow> 'b event" where
  "event_map f (Acq r) = Acq (f r)"
| "event_map f (Rel r) = Rel (f r)"

type_synonym 'a run = "(abort + 'a) \<times> buf_trace"

definition and_then :: "'a run \<Rightarrow> ('a \<Rightarrow> 'b run) \<Rightarrow> 'b run" where
  "and_then x f = (case x of (Inl a, es) \<Rightarrow> (Inl a, es) | (Inr v, es) \<Rightarrow> (case f v of (r, es') \<Rightarrow> (r, es @ es')))"

text \<open>\<^verbatim>\<open>CUDA_CHECK\<close> around a call that acquires a resource, and around one that does not.\<close>

definition cuda_check :: "buf_resource \<Rightarrow> 'a option \<Rightarrow> 'a run" where
  "cuda_check r res = (case res of None \<Rightarrow> (Inl EPException, []) | Some v \<Rightarrow> (Inr v, [Acq r]))"

definition cuda_ok :: "bool \<Rightarrow> unit run" where
  "cuda_ok ok = (if ok then Inr () else Inl EPException, [])"

section \<open>State\<close>

text \<open>What the host copies into a device context; the other fields of the context are zero.\<close>

record devctx_init =
  i_qpn :: u32
  i_wqeid_mask :: u32
  i_wq :: u64
  i_cq :: u64
  i_dbr :: u64
  i_bf :: u64

record mr_info =
  mr_addr :: u64
  mr_lkey :: u32
  mr_rkey :: u32

record ep_buffer =
  b_rank :: nat
  b_num_ranks :: nat
  b_device_id :: nat
  b_num_bytes :: size_t
  b_gdr_buffer :: u64
  b_ctrl_buf :: u64
  b_mr :: "mr_info option"
  b_qps :: "mlx5gda_qp option list"
  b_gid :: "u64 \<times> u64"
  b_raddrs :: "nat \<Rightarrow> u64"
  b_rkeys :: "nat \<Rightarrow> u32"
  b_qp_devctxs :: "nat \<Rightarrow> devctx_init option"
  b_is_roce :: bool
  b_ibgda_disabled :: bool
  b_gid_index :: int
  b_heap :: memheap
  b_use_fabric :: bool
  b_fabric_size :: size_t
  b_nvlink_available :: "nat \<Rightarrow> bool"
  b_ipc_host :: "nat \<Rightarrow> u64"
  b_ipc_dev :: "nat \<Rightarrow> u64"
  b_p2p_all :: bool

definition qp_count :: "ep_buffer \<Rightarrow> nat" where
  "qp_count b = USE_QP_COUNT (b_num_ranks b)"

section \<open>The data buffer\<close>

record fabric_env =
  f_device_get_ok :: bool
  f_rdma_flag :: bool
  f_granularity :: "size_t option"
  f_mem_create :: "size_t \<Rightarrow> bool \<Rightarrow> bool"
  f_reserve :: "size_t \<Rightarrow> u64 option"
  f_map_ok :: bool
  f_access_ok :: bool

text \<open>
  The fabric branch of the constructor: the address and size of the allocation. Each failure releases
  what the branch acquired before it throws.
\<close>

definition alloc_fabric :: "fabric_env \<Rightarrow> size_t \<Rightarrow> (u64 \<times> size_t) run" where
  "alloc_fabric e num_bytes =
     (if \<not> f_device_get_ok e then (Inl (Runtime_error ''cuDeviceGet failed''), [])
      else case f_granularity e of
        None \<Rightarrow> (Inl (Runtime_error ''cuMemGetAllocationGranularity failed''), [])
      | Some granularity \<Rightarrow>
          let size = fabric_alloc_size num_bytes granularity in
          if \<not> f_mem_create e size (f_rdma_flag e) then (Inl (Runtime_error ''cuMemCreate failed''), [])
          else case f_reserve e size of
            None \<Rightarrow> (Inl (Runtime_error ''cuMemAddressReserve failed''), [Acq Fabric_mem, Rel Fabric_mem])
          | Some dptr \<Rightarrow>
              if \<not> f_map_ok e
              then (Inl (Runtime_error ''cuMemMap failed''),
                    [Acq Fabric_mem, Acq Fabric_range, Rel Fabric_range, Rel Fabric_mem])
              else if \<not> f_access_ok e
              then (Inl (Runtime_error ''cuMemSetAccess failed''),
                    [Acq Fabric_mem, Acq Fabric_range, Acq Fabric_map, Rel Fabric_map, Rel Fabric_range, Rel Fabric_mem])
              else (Inr (dptr, size), [Acq Fabric_mem, Acq Fabric_range, Acq Fabric_map]))"

section \<open>The NIC\<close>

record ib_env =
  ib_device_names :: "string option list"
  ib_open_ok :: bool
  ib_query_port :: "nat option"
  ib_query_gid_ex :: "nat \<Rightarrow> ibv_gid_entry option"
  ib_query_gid :: "int \<Rightarrow> (u64 \<times> u64) option"
  ib_alloc_pd_ok :: bool
  ib_reg_mr :: "mr_info option"
  ib_malloc_ctrl :: "u64 option"
  ib_umem_ok :: bool
  ib_heap_malloc_ok :: bool
  ib_ctrl :: ctrl
  ib_qp_env :: "nat \<Rightarrow> qp_env"
  ib_obj_modify :: "nat \<Rightarrow> cmd \<Rightarrow> cint"
  ib_stream_sync_ok :: "nat \<Rightarrow> bool"

text \<open>The search for the device by name.\<close>

fun find_device :: "string \<Rightarrow> string option list \<Rightarrow> nat \<Rightarrow> nat option" where
  "find_device name [] i = None"
| "find_device name (n # ns) i = (if n = Some name then Some i else find_device name ns (Suc i))"

definition mk_devctx :: "u64 \<Rightarrow> mlx5gda_qp \<Rightarrow> devctx_init" where
  "mk_devctx ctrl_buf qp =
     \<lparr>i_qpn = qpn qp, i_wqeid_mask = num_wqebb qp - 1, i_wq = ctrl_buf + wq_offset qp,
      i_cq = ctrl_buf + cq_offset (send_cq qp), i_dbr = ctrl_buf + dbr_offset qp, i_bf = reg_addr (qp_uar qp)\<rparr>"

text \<open>
  One iteration of the creation loop, which \<^verbatim>\<open>init_ibgda\<close> and \<^verbatim>\<open>update_local_qpns\<close> share: create the
  queue pair, move it to the initial state, write its device context. \<open>Inl\<close> is a failure the callers
  turn into a return; then the queue pair of this iteration, if it exists, is not stored anywhere.
\<close>

definition add_qp :: "ib_env \<Rightarrow> nat \<Rightarrow> ep_buffer \<Rightarrow> ((unit + mlx5gda_qp) \<times> ep_buffer) run" where
  "add_qp e i b =
     (case mlx5gda_create_rc_qp (ib_ctrl e) (ib_qp_env e i) 16384 1 (b_heap b) of
        None \<Rightarrow> (Inl Diverges, [])
      | Some (Inl f, heap, es) \<Rightarrow> (Inr (Inl (), b\<lparr>b_heap := heap\<rparr>), map (event_map (Of_qp i)) es)
      | Some (Inr qp, heap, es) \<Rightarrow>
          let b = b\<lparr>b_heap := heap, b_is_roce := (link_layer (port_attr qp) = Link_ethernet)\<rparr>;
              es = map (event_map (Of_qp i)) es in
          if snd (mlx5gda_modify_rc_qp_rst2init (macros (ib_ctrl e)) (ib_obj_modify e i) (Some qp) 0) \<noteq> 0
          then (Inr (Inl (), b), es)
          else if \<not> ib_stream_sync_ok e i then (Inl EPException, es)
          else (Inr (Inr qp, b\<lparr>b_qp_devctxs := (b_qp_devctxs b)(i \<mapsto> mk_devctx (b_ctrl_buf b) qp)\<rparr>), es))"

text \<open>The loop of \<^verbatim>\<open>init_ibgda\<close>, from iteration \<open>i\<close>, with \<open>n\<close> iterations to go; the result is its return value.\<close>

fun init_qps :: "ib_env \<Rightarrow> nat \<Rightarrow> nat \<Rightarrow> ep_buffer \<Rightarrow> (int \<times> ep_buffer) run" where
  "init_qps e i 0 b = (Inr (0, b), [])"
| "init_qps e i (Suc n) b =
     and_then (add_qp e i b) (\<lambda>(r, b). case r of
        Inl _ \<Rightarrow> (Inr (- 1, b), [])
      | Inr qp \<Rightarrow> init_qps e (Suc i) n (b\<lparr>b_qps := b_qps b @ [Some qp]\<rparr>))"

text \<open>
  \<^verbatim>\<open>init_ibgda\<close>. Neither a failing \<^verbatim>\<open>mlx5dv_init_obj\<close> nor a failing \<^verbatim>\<open>ibv_reg_mr\<close> ends it; the early returns
  release nothing but, after a failed registration of the control buffer, the memory region.
\<close>

definition init_ibgda :: "ib_env \<Rightarrow> string \<Rightarrow> ep_buffer \<Rightarrow> (int \<times> ep_buffer) run" where
  "init_ibgda e device_name b =
     (case find_device device_name (ib_device_names e) 0 of
        None \<Rightarrow> (Inl (Runtime_error ''device not found''), [Acq Dev_list])
      | Some nic_id \<Rightarrow>
          if \<not> ib_open_ok e then (Inr (- 1, b), [Acq Dev_list])
          else case ib_query_port e of
            None \<Rightarrow> (Inr (- 1, b), [Acq Dev_list, Acq Ib_context])
          | Some gid_tbl_len \<Rightarrow>
              let g = findBestGidIndex (ib_query_gid_ex e) gid_tbl_len; b = b\<lparr>b_gid_index := g\<rparr> in
              if g < 0 then (Inr (- 1, b), [Acq Dev_list, Acq Ib_context])
              else case ib_query_gid e g of
                None \<Rightarrow> (Inr (- 1, b), [Acq Dev_list, Acq Ib_context])
              | Some gid \<Rightarrow>
                  let b = b\<lparr>b_gid := gid\<rparr>; es = [Acq Dev_list, Acq Ib_context, Rel Dev_list] in
                  if \<not> ib_alloc_pd_ok e then (Inr (- 1, b), es)
                  else
                    let mr = ib_reg_mr e; b = b\<lparr>b_mr := mr\<rparr>;
                        es = es @ [Acq Pd] @ (if mr = None then [] else [Acq Mr]) in
                    case ib_malloc_ctrl e of
                      None \<Rightarrow> (Inl EPException, es)
                    | Some ctrl_buf \<Rightarrow>
                        let b = b\<lparr>b_ctrl_buf := ctrl_buf\<rparr>; es = es @ [Acq Ctrl_buf] in
                        if \<not> ib_umem_ok e
                        then (Inr (- 1, b\<lparr>b_mr := None\<rparr>), es @ (if mr = None then [] else [Rel Mr]))
                        else case memheap_create (ib_heap_malloc_ok e) CTRL_BUF_SIZE of
                          None \<Rightarrow> (Inr (- 1, b), es @ [Acq Umem])
                        | Some heap \<Rightarrow>
                            and_then (Inr (), es @ [Acq Umem, Acq Heap])
                              (\<lambda>_. init_qps e 0 (qp_count b) (b\<lparr>b_heap := heap\<rparr>)))"

section \<open>Construction and destruction\<close>

record ctor_env =
  ct_get_device :: "nat option"
  ct_clock_rate_ok :: bool
  ct_nvlink_ipc :: "string option"
  ct_device_count :: "nat option"
  ct_fabric_supported :: "nat \<Rightarrow> int"
  ct_fabric :: fabric_env
  ct_malloc_gdr :: "u64 option"
  ct_malloc :: "buf_resource \<Rightarrow> bool"
  ct_memset_nvlink_ok :: bool
  ct_memset_ipc_ok :: bool
  ct_ib :: ib_env
  ct_memset_workspace_ok :: bool

definition checked_malloc :: "ctor_env \<Rightarrow> buf_resource \<Rightarrow> unit run" where
  "checked_malloc e r = cuda_check r (if ct_malloc e r then Some () else None)"

text \<open>The buffer after the allocations and before the set-up of the NIC.\<close>

definition fresh_buffer :: "nat \<Rightarrow> nat \<Rightarrow> nat \<Rightarrow> size_t \<Rightarrow> u64 \<Rightarrow> bool \<Rightarrow> size_t \<Rightarrow> ep_buffer" where
  "fresh_buffer rank num_ranks dev num_bytes gdr fabric fabric_size =
     \<lparr>b_rank = rank, b_num_ranks = num_ranks, b_device_id = dev, b_num_bytes = num_bytes, b_gdr_buffer = gdr,
      b_ctrl_buf = 0, b_mr = None, b_qps = [], b_gid = (0, 0), b_raddrs = (\<lambda>_. 0), b_rkeys = (\<lambda>_. 0),
      b_qp_devctxs = (\<lambda>_. None), b_is_roce = False, b_ibgda_disabled = False, b_gid_index = - 1,
      b_heap = \<lparr>heap_size = 0, allocated = 0, allocs = []\<rparr>, b_use_fabric = fabric, b_fabric_size = fabric_size,
      b_nvlink_available = (\<lambda>_. False), b_ipc_host = (\<lambda>_. 0), b_ipc_dev = (\<lambda>_. 0), b_p2p_all = False\<rparr>"

text \<open>The allocations behind the data buffer, up to the stream.\<close>

definition alloc_tables :: "ctor_env \<Rightarrow> unit run" where
  "alloc_tables e =
     and_then (checked_malloc e Raddrs) (\<lambda>_.
     and_then (checked_malloc e Rkeys) (\<lambda>_.
     and_then (checked_malloc e Qp_devctxs) (\<lambda>_.
     and_then (checked_malloc e Nvlink_available) (\<lambda>_.
     and_then (cuda_ok (ct_memset_nvlink_ok e)) (\<lambda>_.
     and_then (checked_malloc e Ipc_host) (\<lambda>_.
     and_then (checked_malloc e Ipc_dev) (\<lambda>_.
     and_then (cuda_ok (ct_memset_ipc_ok e)) (\<lambda>_.
     checked_malloc e Stream))))))))"

definition construct :: "ctor_env \<Rightarrow> nat \<Rightarrow> nat \<Rightarrow> size_t \<Rightarrow> string \<Rightarrow> ep_buffer run" where
  "construct e rank num_ranks num_bytes device_name =
     (case ct_get_device e of
        None \<Rightarrow> (Inl EPException, [])
      | Some dev \<Rightarrow>
          if \<not> ct_clock_rate_ok e then (Inl EPException, [])
          else
            let fabric = supportFabricMem (ct_nvlink_ipc e) (ct_device_count e) (ct_fabric_supported e) in
            and_then (if fabric then alloc_fabric (ct_fabric e) num_bytes
                      else and_then (cuda_check Gdr_buffer (ct_malloc_gdr e)) (\<lambda>p. (Inr (p, 0), []))) (\<lambda>(gdr, size).
            and_then (alloc_tables e) (\<lambda>_.
            and_then (init_ibgda (ct_ib e) device_name (fresh_buffer rank num_ranks dev num_bytes gdr fabric size)) (\<lambda>(ret, b).
            let b = (if ret \<noteq> 0 then b\<lparr>b_ibgda_disabled := True\<rparr> else b) in
            and_then (checked_malloc e Workspace) (\<lambda>_.
            and_then (cuda_ok (ct_memset_workspace_ok e)) (\<lambda>_. (Inr b, [])))))))"

definition destruct :: "ep_buffer \<Rightarrow> buf_trace" where
  "destruct b =
     (if b_use_fabric b then [Rel Fabric_map, Rel Fabric_range, Rel Fabric_mem] else [Rel Gdr_buffer]) @
     [Rel Raddrs, Rel Rkeys, Rel Qp_devctxs, Rel Nvlink_available, Rel Ipc_dev] @
     map (\<lambda>i. Rel (Ipc_handle i))
       (filter (\<lambda>i. b_ipc_host b i \<noteq> 0 \<and> b_ipc_host b i \<noteq> b_gdr_buffer b) [0..<b_num_ranks b]) @
     [Rel Ipc_host, Rel Workspace, Rel Stream]"

section \<open>Re-creating the queue pairs\<close>

fun destroy_qps :: "nat \<Rightarrow> nat \<Rightarrow> ep_buffer \<Rightarrow> ep_buffer run" where
  "destroy_qps i 0 b = (Inr b, [])"
| "destroy_qps i (Suc n) b =
     (if length (b_qps b) \<le> i then (Inl Undefined, [])
      else case b_qps b ! i of
        None \<Rightarrow> destroy_qps (Suc i) n b
      | Some qp \<Rightarrow>
          case mlx5gda_destroy_qp (b_heap b) qp of (heap, es) \<Rightarrow>
          and_then (Inr (), map (event_map (Of_qp i)) es)
            (\<lambda>_. destroy_qps (Suc i) n (b\<lparr>b_heap := heap, b_qps := (b_qps b)[i := None]\<rparr>)))"

fun recreate_qps :: "ib_env \<Rightarrow> nat \<Rightarrow> nat \<Rightarrow> ep_buffer \<Rightarrow> ep_buffer run" where
  "recreate_qps e i 0 b = (Inr b, [])"
| "recreate_qps e i (Suc n) b =
     and_then (add_qp e i b) (\<lambda>(r, b). case r of
        Inl _ \<Rightarrow> (Inr (b\<lparr>b_ibgda_disabled := True\<rparr>), [])
      | Inr qp \<Rightarrow> recreate_qps e (Suc i) n (b\<lparr>b_qps := (b_qps b)[i := Some qp]\<rparr>))"

definition update_local_qpns :: "ib_env \<Rightarrow> ep_buffer \<Rightarrow> ep_buffer run" where
  "update_local_qpns e b = and_then (destroy_qps 0 (qp_count b) b) (\<lambda>b. recreate_qps e 0 (qp_count b) b)"

section \<open>The queue pairs in the control buffer\<close>

text \<open>The four heap requests of a queue pair, with the offsets they get.\<close>

definition queue_reqs :: "nat \<Rightarrow> (size_t \<times> size_t \<times> size_t) list" where
  "queue_reqs j = [(1048576, 4096, of_nat (j * pair_stride)), (8, 8, of_nat (j * pair_stride + 2 ^ 20))]"

definition qp_reqs :: "nat \<Rightarrow> (size_t \<times> size_t \<times> size_t) list" where
  "qp_reqs i = queue_reqs (2 * i) @ queue_reqs (2 * i + 1)"

definition all_reqs :: "nat \<Rightarrow> nat \<Rightarrow> (size_t \<times> size_t \<times> size_t) list" where
  "all_reqs i n = concat (map qp_reqs [i..<i + n])"

lemma all_reqs_simps: "all_reqs i 0 = []" "all_reqs i (Suc n) = qp_reqs i @ all_reqs (Suc i) n"
  by (simp_all add: all_reqs_def upt_conv_Cons del: upt_Suc)

lemma queue_pair_recs_reqs: "queue_pair_recs j = map rec_of (queue_reqs j)"
  by (simp add: queue_pair_recs_def queue_reqs_def rec_of_def)

lemma queue_heap_reqs: "allocs (queue_heap cap (2 * n)) = map rec_of (all_reqs 0 n)"
proof -
  have "concat (map queue_pair_recs [0..<2 * n]) = map rec_of (all_reqs 0 n)"
    by (induction n) (simp_all add: all_reqs_def qp_reqs_def queue_pair_recs_reqs)
  then show ?thesis by (simp add: queue_heap_def)
qed

lemma queue_reqs_replayable:
  assumes "j < 512" and "x \<in> set (queue_reqs j)"
  shows "replayable x"
proof -
  have lt: "j * pair_stride + 2 ^ 20 < 2 ^ 64 - 1" using assms(1) by (simp add: pair_stride_def)
  then have u: "unat (of_nat (j * pair_stride) :: size_t) = j * pair_stride"
    "unat (of_nat (j * pair_stride + 2 ^ 20) :: size_t) = j * pair_stride + 2 ^ 20"
    by (intro unat_of_nat_64; linarith)+
  have ne: "(of_nat (j * pair_stride) :: size_t) \<noteq> SIZE_MAX" "(of_nat (j * pair_stride + 2 ^ 20) :: size_t) \<noteq> SIZE_MAX"
    using lt by (intro of_nat_not_SIZE_MAX; linarith)+
  have "2 ^ 12 dvd j * pair_stride" "2 ^ 3 dvd j * pair_stride + 2 ^ 20" by (simp_all add: pair_stride_def)
  note d = this
  have a: "unat (4096 :: size_t) = 2 ^ 12" "unat (8 :: size_t) = 2 ^ 3" by simp_all
  have rp: "replayable (sz, al, r)"
    if "sz \<noteq> 0" "r \<noteq> SIZE_MAX" "unat al = 2 ^ k" "2 ^ k dvd unat r" for sz al r k
    using that by (auto simp: replayable_def)
  have "replayable (1048576, 4096, of_nat (j * pair_stride))"
    by (rule rp [OF _ ne(1) a(1)]) (simp, simp only: u d)
  moreover have "replayable (8, 8, of_nat (j * pair_stride + 2 ^ 20))"
    by (rule rp [OF _ ne(2) a(2)]) (simp, simp only: u d)
  ultimately show ?thesis using assms(2) by (auto simp: queue_reqs_def)
qed

lemma destroy_qp_heap:
  assumes "allocs h = map release xs @ map rec_of (qp_reqs i @ rs)" and "qp_at i qp" and "i < 256"
  shows "fst (mlx5gda_destroy_qp h qp) =
    h\<lparr>allocs := map release (xs @ map rec_of (qp_reqs i)) @ map rec_of rs, allocated := allocated h - sizes_of (qp_reqs i)\<rparr>"
proof -
  have "replayable x" if "x \<in> set (qp_reqs i)" for x
    using that assms(3) queue_reqs_replayable [of "2 * i" x] queue_reqs_replayable [of "2 * i + 1" x] by (auto simp: qp_reqs_def)
  then have ne: "r \<noteq> SIZE_MAX" if "(sz, a, r) \<in> set (qp_reqs i)" for sz a r
    using that by (force simp: replayable_def)
  obtain a1 a2 a3 a4 where q: "qp_reqs i = [(1048576, 4096, a1), (8, 8, a2), (1048576, 4096, a3), (8, 8, a4)]"
    "cq_offset (send_cq qp) = a1" "cq_dbr_offset (send_cq qp) = a2" "wq_offset qp = a3" "dbr_offset qp = a4"
    using assms(2) by (simp add: qp_reqs_def queue_reqs_def qp_at_def)
  have n: "a1 \<noteq> SIZE_MAX" "a2 \<noteq> SIZE_MAX" "a3 \<noteq> SIZE_MAX" "a4 \<noteq> SIZE_MAX" using ne q(1) by auto
  let ?r1 = "rec_of (1048576, 4096, a1)" and ?r2 = "rec_of (8, 8, a2)" and ?r3 = "rec_of (1048576, 4096, a3)"
    and ?r4 = "rec_of (8, 8, a4)"
  let ?h1 = "h\<lparr>allocs := map release (xs @ [?r1]) @ [?r2, ?r3, ?r4] @ map rec_of rs, allocated := allocated h - 1048576\<rparr>"
  let ?h2 = "h\<lparr>allocs := map release (xs @ [?r1, ?r2]) @ [?r3, ?r4] @ map rec_of rs, allocated := allocated h - 1048576 - 8\<rparr>"
  let ?h3 = "h\<lparr>allocs := map release (xs @ [?r1, ?r2, ?r3]) @ [?r4] @ map rec_of rs,
    allocated := allocated h - 1048576 - 8 - 1048576\<rparr>"
  have "memheap_free h a1 = ?h1" using free_one [of h xs 1048576 4096 a1 "[(8, 8, a2), (1048576, 4096, a3), (8, 8, a4)] @ rs", OF _ n(1)] assms(1) q(1) by simp
  moreover have "memheap_free ?h1 a2 = ?h2" using free_one [of ?h1 "xs @ [?r1]" 8 8 a2 "[(1048576, 4096, a3), (8, 8, a4)] @ rs", OF _ n(2)] by simp
  moreover have "memheap_free ?h2 a3 = ?h3" using free_one [of ?h2 "xs @ [?r1, ?r2]" 1048576 4096 a3 "(8, 8, a4) # rs", OF _ n(3)] by simp
  moreover have "memheap_free ?h3 a4 = h\<lparr>allocs := map release (xs @ [?r1, ?r2, ?r3, ?r4]) @ map rec_of rs,
      allocated := allocated h - 1048576 - 8 - 1048576 - 8\<rparr>"
    using free_one [of ?h3 "xs @ [?r1, ?r2, ?r3]" 8 8 a4 rs, OF _ n(4)] by simp
  ultimately show ?thesis
    using q n by (simp add: mlx5gda_destroy_qp_def mlx5gda_destroy_cq_def sizes_of_def)
qed

lemma create_qp_replay:
  assumes "allocs h = map rec_of xs @ map release (map rec_of (qp_reqs i @ rs))" and "i < 256" and "qp_env_ok C env"
  obtains qp es where "mlx5gda_create_rc_qp C env 16384 port h =
      Some (Inr qp, h\<lparr>allocs := map rec_of (xs @ qp_reqs i) @ map release (map rec_of rs),
        allocated := allocated h + sizes_of (qp_reqs i)\<rparr>, es)"
    and "qp_at i qp"
proof -
  have rp: "replayable x" if "x \<in> set (qp_reqs i)" for x
    using that assms(2) queue_reqs_replayable [of "2 * i" x] queue_reqs_replayable [of "2 * i + 1" x] by (auto simp: qp_reqs_def)
  obtain a1 a2 a3 a4 where q: "qp_reqs i = [(1048576, 4096, a1), (8, 8, a2), (1048576, 4096, a3), (8, 8, a4)]"
    "a1 = of_nat (2 * i * pair_stride)" "a2 = of_nat (2 * i * pair_stride + 2 ^ 20)"
    "a3 = of_nat ((2 * i + 1) * pair_stride)" "a4 = of_nat ((2 * i + 1) * pair_stride + 2 ^ 20)"
    by (simp add: qp_reqs_def queue_reqs_def)
  let ?q1 = "(1048576, 4096, a1)" and ?q2 = "(8, 8, a2)" and ?q3 = "(1048576, 4096, a3)" and ?q4 = "(8, 8, a4)"
  have r: "replayable ?q1" "replayable ?q2" "replayable ?q3" "replayable ?q4" using rp q(1) by auto
  then have n: "a1 \<noteq> SIZE_MAX" "a2 \<noteq> SIZE_MAX" "a3 \<noteq> SIZE_MAX" "a4 \<noteq> SIZE_MAX" by (auto simp: replayable_def)
  let ?h1 = "h\<lparr>allocs := map rec_of (xs @ [?q1]) @ map release (map rec_of ([?q2, ?q3, ?q4] @ rs)),
    allocated := allocated h + 1048576\<rparr>"
  let ?h2 = "h\<lparr>allocs := map rec_of (xs @ [?q1, ?q2]) @ map release (map rec_of ([?q3, ?q4] @ rs)),
    allocated := allocated h + 1048576 + 8\<rparr>"
  let ?h3 = "h\<lparr>allocs := map rec_of (xs @ [?q1, ?q2, ?q3]) @ map release (map rec_of ([?q4] @ rs)),
    allocated := allocated h + 1048576 + 8 + 1048576\<rparr>"
  let ?h4 = "h\<lparr>allocs := map rec_of (xs @ [?q1, ?q2, ?q3, ?q4]) @ map release (map rec_of rs),
    allocated := allocated h + 1048576 + 8 + 1048576 + 8\<rparr>"
  have s1: "memheap_aligned_alloc h 1048576 4096 = (?h1, a1, None)"
    using realloc_one [OF _ r(1), of h xs "[?q2, ?q3, ?q4] @ rs"] assms(1) q(1) by simp
  have s2: "memheap_alloc ?h1 8 = (?h2, a2, None)"
    using realloc_one [OF _ r(2), of ?h1 "xs @ [?q1]" "[?q3, ?q4] @ rs"] by (simp add: memheap_alloc_def alloc_align_8)
  have s3: "memheap_aligned_alloc ?h2 1048576 4096 = (?h3, a3, None)"
    using realloc_one [OF _ r(3), of ?h2 "xs @ [?q1, ?q2]" "?q4 # rs"] by simp
  have s4: "memheap_alloc ?h3 8 = (?h4, a4, None)"
    using realloc_one [OF _ r(4), of ?h3 "xs @ [?q1, ?q2, ?q3]" rs] by (simp add: memheap_alloc_def alloc_align_8)
  have h4: "?h4 = h\<lparr>allocs := map rec_of (xs @ qp_reqs i) @ map release (map rec_of rs),
        allocated := allocated h + sizes_of (qp_reqs i)\<rparr>"
    using q(1) by (simp add: sizes_of_def)
  show ?thesis
    using create_rc_qp_granted [OF assms(3) s1 s2 s3 s4 n, of port] that q(2-5) h4 by (auto simp: qp_at_def)
qed

section \<open>The loops over the queue pairs\<close>

definition ib_env_ok :: "ib_env \<Rightarrow> bool" where
  "ib_env_ok e \<longleftrightarrow> (\<forall>i. qp_env_ok (ib_ctrl e) (ib_qp_env e i) \<and> (\<forall>c. ib_obj_modify e i c = 0) \<and> ib_stream_sync_ok e i)"

text \<open>Queue pair \<open>i\<close> is stored, in its place, and described by its device context.\<close>

definition qp_ready :: "ep_buffer \<Rightarrow> nat \<Rightarrow> bool" where
  "qp_ready b i \<longleftrightarrow> i < length (b_qps b) \<and> (\<exists>qp. b_qps b ! i = Some qp \<and> qp_at i qp \<and>
     b_qp_devctxs b i = Some (mk_devctx (b_ctrl_buf b) qp))"

definition same_buffer :: "ep_buffer \<Rightarrow> ep_buffer \<Rightarrow> bool" where
  "same_buffer b b' \<longleftrightarrow> b_num_ranks b' = b_num_ranks b \<and> b_rank b' = b_rank b \<and> b_ctrl_buf b' = b_ctrl_buf b \<and>
     b_mr b' = b_mr b \<and> b_ibgda_disabled b' = b_ibgda_disabled b \<and> b_gdr_buffer b' = b_gdr_buffer b \<and>
     b_use_fabric b' = b_use_fabric b \<and> b_ipc_host b' = b_ipc_host b"

lemma same_buffer_trans: "same_buffer a b \<Longrightarrow> same_buffer b c \<Longrightarrow> same_buffer a c"
  by (simp add: same_buffer_def)

lemma add_qp_ok:
  assumes "ib_env_ok e" and "mlx5gda_create_rc_qp (ib_ctrl e) (ib_qp_env e i) 16384 1 (b_heap b) = Some (Inr qp, h, es)"
  shows "\<exists>roce. add_qp e i b = (Inr (Inr qp, b\<lparr>b_heap := h, b_is_roce := roce,
      b_qp_devctxs := (b_qp_devctxs b)(i \<mapsto> mk_devctx (b_ctrl_buf b) qp)\<rparr>), map (event_map (Of_qp i)) es)"
  using assms by (auto simp: add_qp_def ib_env_ok_def mlx5gda_modify_rc_qp_rst2init_def Let_def)

lemma init_qps_ok:
  assumes "ib_env_ok e" and "i + n \<le> 256" and "length (b_qps b) = i"
    and "b_heap b = queue_heap CTRL_BUF_SIZE (2 * i)" and "bump_heap (b_heap b)"
  shows "\<exists>b' es. init_qps e i n b = (Inr (0, b'), es) \<and> b_heap b' = queue_heap CTRL_BUF_SIZE (2 * (i + n)) \<and>
    length (b_qps b') = i + n \<and> same_buffer b b' \<and> (\<forall>j. j < i \<or> i + n \<le> j \<longrightarrow> b_qp_devctxs b' j = b_qp_devctxs b j) \<and>
    (\<forall>j<i. b_qps b' ! j = b_qps b ! j) \<and> (\<forall>j. i \<le> j \<and> j < i + n \<longrightarrow> qp_ready b' j)"
  using assms(2-5)
proof (induction n arbitrary: i b)
  case 0
  then show ?case by (auto simp: same_buffer_def)
next
  case (Suc n)
  have cap: "(2 * i + 2) * pair_stride \<le> unat CTRL_BUF_SIZE" using Suc.prems(1) by (simp add: pair_stride_def)
  obtain qp es where qp: "mlx5gda_create_rc_qp (ib_ctrl e) (ib_qp_env e i) 16384 1 (b_heap b) =
      Some (Inr qp, queue_heap CTRL_BUF_SIZE (2 * i + 2), es)" "qp_at i qp" "bump_heap (queue_heap CTRL_BUF_SIZE (2 * i + 2))"
    using create_rc_qp_ok [of "ib_ctrl e" "ib_qp_env e i", OF _ _ _ cap, of 1] assms(1) Suc.prems
    by (auto simp: ib_env_ok_def)
  obtain roce where add: "add_qp e i b = (Inr (Inr qp, b\<lparr>b_heap := queue_heap CTRL_BUF_SIZE (2 * i + 2), b_is_roce := roce,
      b_qp_devctxs := (b_qp_devctxs b)(i \<mapsto> mk_devctx (b_ctrl_buf b) qp)\<rparr>), map (event_map (Of_qp i)) es)"
    using add_qp_ok [OF assms(1) qp(1)] by blast
  define b1 where "b1 = b\<lparr>b_heap := queue_heap CTRL_BUF_SIZE (2 * i + 2), b_is_roce := roce,
      b_qp_devctxs := (b_qp_devctxs b)(i \<mapsto> mk_devctx (b_ctrl_buf b) qp), b_qps := b_qps b @ [Some qp]\<rparr>"
  have b1: "length (b_qps b1) = Suc i" "b_heap b1 = queue_heap CTRL_BUF_SIZE (2 * Suc i)" "same_buffer b b1"
    "\<forall>j<i. b_qps b1 ! j = b_qps b ! j" "\<forall>j. j \<noteq> i \<longrightarrow> b_qp_devctxs b1 j = b_qp_devctxs b j"
    "b_qps b1 ! i = Some qp" "b_qp_devctxs b1 i = Some (mk_devctx (b_ctrl_buf b) qp)"
    using Suc.prems(2) by (simp_all add: b1_def same_buffer_def nth_append)
  have "Suc i + n \<le> 256" "bump_heap (b_heap b1)" using Suc.prems(1) b1(2) qp(3) by simp_all
  from Suc.IH [OF this(1) b1(1,2) this(2)] obtain b' es' where b': "init_qps e (Suc i) n b1 = (Inr (0, b'), es')"
    "b_heap b' = queue_heap CTRL_BUF_SIZE (2 * (Suc i + n))" "length (b_qps b') = Suc i + n" "same_buffer b1 b'"
    "\<forall>j. j < Suc i \<or> Suc i + n \<le> j \<longrightarrow> b_qp_devctxs b' j = b_qp_devctxs b1 j"
    "\<forall>j<Suc i. b_qps b' ! j = b_qps b1 ! j" "\<forall>j. Suc i \<le> j \<and> j < Suc i + n \<longrightarrow> qp_ready b' j"
    by blast
  have "init_qps e i (Suc n) b = (Inr (0, b'), map (event_map (Of_qp i)) es @ es')"
    using add b'(1) by (simp add: and_then_def b1_def)
  moreover have "qp_ready b' i"
    using b'(3-6) b1(3,6,7) qp(2) by (auto simp: qp_ready_def same_buffer_def)
  then have "\<forall>j. i \<le> j \<and> j < i + Suc n \<longrightarrow> qp_ready b' j" using b'(7) by (metis Suc_leI add_Suc add_Suc_right le_neq_implies_less)
  ultimately show ?case
    using b'(2-6) b1(3-5) same_buffer_trans [OF b1(3) b'(4)] by (intro exI conjI) (assumption | simp)+
qed

lemma destroy_qps_ok:
  assumes "i + n \<le> 256" and "length (b_qps b) = i + n" and "\<forall>j. i \<le> j \<and> j < i + n \<longrightarrow> qp_ready b j"
    and "allocs (b_heap b) = map release xs @ map rec_of (all_reqs i n)"
  shows "\<exists>qps es. destroy_qps i n b = (Inr (b\<lparr>b_heap := (b_heap b)\<lparr>allocs := map release (xs @ map rec_of (all_reqs i n)),
      allocated := allocated (b_heap b) - sizes_of (all_reqs i n)\<rparr>, b_qps := qps\<rparr>), es) \<and> length qps = i + n"
  using assms
proof (induction n arbitrary: i b xs)
  case 0
  then show ?case by (intro exI [of _ "b_qps b"]) (simp add: all_reqs_simps sizes_of_def)
next
  case (Suc n)
  obtain qp where qp: "i < length (b_qps b)" "b_qps b ! i = Some qp" "qp_at i qp"
    using Suc.prems(3) by (auto simp: qp_ready_def)
  obtain heap es where d: "mlx5gda_destroy_qp (b_heap b) qp = (heap, es)" by fastforce
  have heap: "heap = (b_heap b)\<lparr>allocs := map release (xs @ map rec_of (qp_reqs i)) @ map rec_of (all_reqs (Suc i) n),
      allocated := allocated (b_heap b) - sizes_of (qp_reqs i)\<rparr>"
    using destroy_qp_heap [of "b_heap b" xs i "all_reqs (Suc i) n" qp] Suc.prems(1,4) qp(3) d by (simp add: all_reqs_simps)
  define b1 where "b1 = b\<lparr>b_heap := heap, b_qps := (b_qps b)[i := None]\<rparr>"
  have "\<forall>j. Suc i \<le> j \<and> j < Suc i + n \<longrightarrow> qp_ready b1 j"
    using Suc.prems(3) by (auto simp: qp_ready_def b1_def)
  then obtain qps es' where IH: "destroy_qps (Suc i) n b1 = (Inr (b1\<lparr>b_heap := (b_heap b1)\<lparr>
        allocs := map release ((xs @ map rec_of (qp_reqs i)) @ map rec_of (all_reqs (Suc i) n)),
        allocated := allocated (b_heap b1) - sizes_of (all_reqs (Suc i) n)\<rparr>, b_qps := qps\<rparr>), es')" "length qps = Suc i + n"
    using Suc.IH [of "Suc i" b1 "xs @ map rec_of (qp_reqs i)"] Suc.prems(1,2) heap by (auto simp: b1_def)
  have "sizes_of (all_reqs i (Suc n)) = sizes_of (qp_reqs i) + sizes_of (all_reqs (Suc i) n)"
    by (simp add: all_reqs_simps sizes_of_def)
  then show ?case
    using IH d qp heap
    by (intro exI [of _ qps] exI [of _ "map (event_map (Of_qp i)) es @ es'"])
      (simp add: and_then_def b1_def all_reqs_simps diff_diff_eq)
qed

lemma recreate_qps_ok:
  assumes "ib_env_ok e" and "i + n \<le> 256" and "length (b_qps b) = i + n"
    and "allocs (b_heap b) = map rec_of xs @ map release (map rec_of (all_reqs i n))"
  shows "\<exists>b' es. recreate_qps e i n b = (Inr b', es) \<and>
    b_heap b' = (b_heap b)\<lparr>allocs := map rec_of (xs @ all_reqs i n), allocated := allocated (b_heap b) + sizes_of (all_reqs i n)\<rparr> \<and>
    length (b_qps b') = i + n \<and> same_buffer b b' \<and> (\<forall>j<i. b_qp_devctxs b' j = b_qp_devctxs b j \<and> b_qps b' ! j = b_qps b ! j) \<and>
    (\<forall>j. i \<le> j \<and> j < i + n \<longrightarrow> qp_ready b' j)"
  using assms(2-4)
proof (induction n arbitrary: i b xs)
  case 0
  then show ?case by (auto simp: all_reqs_simps sizes_of_def same_buffer_def)
next
  case (Suc n)
  have "allocs (b_heap b) = map rec_of xs @ map release (map rec_of (qp_reqs i @ all_reqs (Suc i) n))"
    using Suc.prems(3) by (simp add: all_reqs_simps)
  then obtain qp es where qp: "mlx5gda_create_rc_qp (ib_ctrl e) (ib_qp_env e i) 16384 1 (b_heap b) =
      Some (Inr qp, (b_heap b)\<lparr>allocs := map rec_of (xs @ qp_reqs i) @ map release (map rec_of (all_reqs (Suc i) n)),
        allocated := allocated (b_heap b) + sizes_of (qp_reqs i)\<rparr>, es)" "qp_at i qp"
    using create_qp_replay [of "b_heap b" xs i "all_reqs (Suc i) n" "ib_ctrl e" "ib_qp_env e i" 1] assms(1) Suc.prems(1)
    by (auto simp: ib_env_ok_def)
  define h where "h = (b_heap b)\<lparr>allocs := map rec_of (xs @ qp_reqs i) @ map release (map rec_of (all_reqs (Suc i) n)),
        allocated := allocated (b_heap b) + sizes_of (qp_reqs i)\<rparr>"
  obtain roce where add: "add_qp e i b = (Inr (Inr qp, b\<lparr>b_heap := h, b_is_roce := roce,
      b_qp_devctxs := (b_qp_devctxs b)(i \<mapsto> mk_devctx (b_ctrl_buf b) qp)\<rparr>), map (event_map (Of_qp i)) es)"
    using add_qp_ok [OF assms(1) qp(1)] unfolding h_def by blast
  define b1 where "b1 = b\<lparr>b_heap := h, b_is_roce := roce,
      b_qp_devctxs := (b_qp_devctxs b)(i \<mapsto> mk_devctx (b_ctrl_buf b) qp), b_qps := (b_qps b)[i := Some qp]\<rparr>"
  have b1: "length (b_qps b1) = Suc i + n" "b_heap b1 = h" "same_buffer b b1"
    "\<forall>j<i. b_qp_devctxs b1 j = b_qp_devctxs b j \<and> b_qps b1 ! j = b_qps b ! j"
    "b_qps b1 ! i = Some qp" "b_qp_devctxs b1 i = Some (mk_devctx (b_ctrl_buf b) qp)"
    using Suc.prems(2) by (simp_all add: b1_def same_buffer_def)
  have "Suc i + n \<le> 256" "allocs (b_heap b1) = map rec_of (xs @ qp_reqs i) @ map release (map rec_of (all_reqs (Suc i) n))"
    using Suc.prems(1) b1(2) by (simp_all add: h_def)
  from Suc.IH [OF this(1) b1(1) this(2)] obtain b' es' where b': "recreate_qps e (Suc i) n b1 = (Inr b', es')"
    "b_heap b' = (b_heap b1)\<lparr>allocs := map rec_of ((xs @ qp_reqs i) @ all_reqs (Suc i) n),
      allocated := allocated (b_heap b1) + sizes_of (all_reqs (Suc i) n)\<rparr>"
    "length (b_qps b') = Suc i + n" "same_buffer b1 b'"
    "\<forall>j<Suc i. b_qp_devctxs b' j = b_qp_devctxs b1 j \<and> b_qps b' ! j = b_qps b1 ! j"
    "\<forall>j. Suc i \<le> j \<and> j < Suc i + n \<longrightarrow> qp_ready b' j"
    by blast
  have "recreate_qps e i (Suc n) b = (Inr b', map (event_map (Of_qp i)) es @ es')"
    using add b'(1) by (simp add: and_then_def b1_def)
  moreover have "b_heap b' = (b_heap b)\<lparr>allocs := map rec_of (xs @ all_reqs i (Suc n)),
      allocated := allocated (b_heap b) + sizes_of (all_reqs i (Suc n))\<rparr>"
    unfolding b'(2) b1(2) h_def by (simp add: all_reqs_simps sizes_of_def add.assoc)
  moreover have "qp_ready b' i"
    using b'(3-5) b1(3,5,6) qp(2) by (auto simp: qp_ready_def same_buffer_def)
  then have "\<forall>j. i \<le> j \<and> j < i + Suc n \<longrightarrow> qp_ready b' j" using b'(6) by (metis Suc_leI add_Suc add_Suc_right le_neq_implies_less)
  ultimately show ?case
    using b'(3,5) b1(4) same_buffer_trans [OF b1(3) b'(4)] by (intro exI conjI) (assumption | simp)+
qed

text \<open>
  The state that a successful set-up of the NIC leads to, and that an update of the queue pairs keeps.
\<close>

definition nic_ready :: "ep_buffer \<Rightarrow> bool" where
  "nic_ready b \<longleftrightarrow> length (b_qps b) = qp_count b \<and> b_heap b = queue_heap CTRL_BUF_SIZE (2 * qp_count b) \<and>
     (\<forall>i<qp_count b. qp_ready b i)"

lemma init_ibgda_succeeds:
  assumes e: "ib_env_ok e" and ib: "find_device name (ib_device_names e) 0 \<noteq> None" "ib_open_ok e"
      "ib_query_port e = Some len" "findBestGidIndex (ib_query_gid_ex e) len \<ge> 0"
      "ib_query_gid e (findBestGidIndex (ib_query_gid_ex e) len) \<noteq> None" "ib_alloc_pd_ok e"
      "ib_malloc_ctrl e = Some ctrl_buf" "ib_umem_ok e" "ib_heap_malloc_ok e"
    and b: "b_qps b = []" "0 < b_num_ranks b" "b_num_ranks b \<le> 256"
  shows "\<exists>b' es. init_ibgda e name b = (Inr (0, b'), es) \<and> nic_ready b' \<and> b_ctrl_buf b' = ctrl_buf \<and>
    b_num_ranks b' = b_num_ranks b"
proof -
  obtain gid where gid: "ib_query_gid e (findBestGidIndex (ib_query_gid_ex e) len) = Some gid" using ib(5) by blast
  obtain nic where nic: "find_device name (ib_device_names e) 0 = Some nic" using ib(1) by blast
  define b0 where "b0 = b\<lparr>b_gid_index := findBestGidIndex (ib_query_gid_ex e) len, b_gid := gid, b_mr := ib_reg_mr e,
    b_ctrl_buf := ctrl_buf, b_heap := queue_heap CTRL_BUF_SIZE 0\<rparr>"
  have b0: "b_qps b0 = []" "b_heap b0 = queue_heap CTRL_BUF_SIZE (2 * 0)" "b_num_ranks b0 = b_num_ranks b" "b_ctrl_buf b0 = ctrl_buf"
    "bump_heap (b_heap b0)"
    using b bump_queue_heap_0 [of CTRL_BUF_SIZE] by (simp_all add: b0_def)
  have q: "0 + qp_count b0 \<le> 256" by (simp add: qp_count_def USE_QP_COUNT_def)
  have l: "length (b_qps b0) = 0" using b0 by simp
  obtain b' es where b': "init_qps e 0 (qp_count b0) b0 = (Inr (0, b'), es)"
    "b_heap b' = queue_heap CTRL_BUF_SIZE (2 * (0 + qp_count b0))" "length (b_qps b') = 0 + qp_count b0" "same_buffer b0 b'"
    "\<forall>j. 0 \<le> j \<and> j < 0 + qp_count b0 \<longrightarrow> qp_ready b' j"
    using init_qps_ok [OF e q l b0(2,5)] by (elim exE conjE) (rule that, assumption+)
  have "qp_count b' = qp_count b0" using b'(4) by (simp add: qp_count_def same_buffer_def)
  then have "nic_ready b'" using b' by (simp add: nic_ready_def)
  moreover have "\<exists>es. init_ibgda e name b = (Inr (0, b'), es)"
  proof -
    have q0: "qp_count (b\<lparr>b_gid_index := findBestGidIndex (ib_query_gid_ex e) len, b_gid := gid,
        b_mr := ib_reg_mr e, b_ctrl_buf := ctrl_buf\<rparr>) = qp_count b0" by (simp add: qp_count_def b0_def)
    have "\<not> findBestGidIndex (ib_query_gid_ex e) len < 0" using ib(4) by simp
    then show ?thesis
      unfolding init_ibgda_def nic option.case ib(3,7) gid Let_def queue_heap_0 and_then_def
      using ib(2,6,8,9) b'(1) by (simp only: if_False not_not simp_thms prod.case sum.case queue_heap_0 option.case
          select_convs update_convs b0_def [symmetric] gid q0) simp
  qed
  ultimately show ?thesis using b'(4) b0 by (auto simp: same_buffer_def)
qed

lemma update_keeps_ready:
  assumes "ib_env_ok e" and r: "nic_ready b"
  shows "\<exists>b' es. update_local_qpns e b = (Inr b', es) \<and> nic_ready b' \<and> same_buffer b b' \<and> b_heap b' = b_heap b"
proof -
  let ?n = "qp_count b"
  have n: "0 + ?n \<le> 256" by (simp add: qp_count_def USE_QP_COUNT_def)
  have h: "allocs (b_heap b) = map release [] @ map rec_of (all_reqs 0 ?n)" using r by (simp add: nic_ready_def queue_heap_reqs)
  have l: "length (b_qps b) = 0 + ?n" "\<forall>j. 0 \<le> j \<and> j < 0 + ?n \<longrightarrow> qp_ready b j" using r by (simp_all add: nic_ready_def)
  obtain qps es where d: "destroy_qps 0 ?n b = (Inr (b\<lparr>b_heap := (b_heap b)\<lparr>allocs := map release ([] @ map rec_of (all_reqs 0 ?n)),
      allocated := allocated (b_heap b) - sizes_of (all_reqs 0 ?n)\<rparr>, b_qps := qps\<rparr>), es)" "length qps = 0 + ?n"
    using destroy_qps_ok [OF n l h] by (elim exE conjE) (rule that, assumption+)
  define b1 where "b1 = b\<lparr>b_heap := (b_heap b)\<lparr>allocs := map release (map rec_of (all_reqs 0 ?n)),
      allocated := allocated (b_heap b) - sizes_of (all_reqs 0 ?n)\<rparr>, b_qps := qps\<rparr>"
  have b1: "length (b_qps b1) = 0 + ?n" "allocs (b_heap b1) = map rec_of [] @ map release (map rec_of (all_reqs 0 ?n))"
    using d(2) by (simp_all add: b1_def)
  obtain b' es' where b': "recreate_qps e 0 ?n b1 = (Inr b', es')"
    "b_heap b' = (b_heap b1)\<lparr>allocs := map rec_of ([] @ all_reqs 0 ?n), allocated := allocated (b_heap b1) + sizes_of (all_reqs 0 ?n)\<rparr>"
    "length (b_qps b') = 0 + ?n" "same_buffer b1 b'" "\<forall>j. 0 \<le> j \<and> j < 0 + ?n \<longrightarrow> qp_ready b' j"
    using recreate_qps_ok [OF assms(1) n b1] by (elim exE conjE) (rule that, assumption+)
  have "b_heap b1 = (b_heap b)\<lparr>allocs := map release (map rec_of (all_reqs 0 ?n)),
      allocated := allocated (b_heap b) - sizes_of (all_reqs 0 ?n)\<rparr>" by (simp add: b1_def)
  then have heap: "b_heap b' = b_heap b" using b'(2) h by (cases "b_heap b") simp
  have same: "same_buffer b b'" using b'(4) by (simp add: same_buffer_def b1_def)
  then have "qp_count b' = ?n" by (simp add: qp_count_def same_buffer_def)
  then have "nic_ready b'" using b' heap r by (simp add: nic_ready_def)
  moreover have "\<exists>es. update_local_qpns e b = (Inr b', es)"
  proof -
    have q: "qp_count b1 = ?n" by (simp add: qp_count_def b1_def)
    from d(1) have d': "destroy_qps 0 ?n b = (Inr b1, es)" by (simp add: b1_def)
    show ?thesis by (simp add: update_local_qpns_def and_then_def d' q b'(1))
  qed
  ultimately show ?thesis using same heap by blast
qed

end
