(* ===== verification/Ep_Lifecycle.thy ===== *)
theory Ep_Lifecycle
  imports Ep_Buffer
begin

text \<open>
  Construction, update and destruction of an \<^verbatim>\<open>EpBuffer\<close> as a whole: which resources are balanced by the
  destructor, where the queue pairs lie in the control buffer, and that re-creating them keeps
  their places.
\<close>

section \<open>What construction acquires and destruction releases\<close>

fun nic_resource :: "buf_resource \<Rightarrow> bool" where
  "nic_resource r = (r \<in> {Dev_list, Ib_context, Pd, Mr, Ctrl_buf, Umem, Heap} \<or> (\<exists>i q. r = Of_qp i q))"

lemma and_then_Inr:
  "and_then x f = (Inr v, es) \<longleftrightarrow> (\<exists>a es1 es2. x = (Inr a, es1) \<and> f a = (Inr v, es2) \<and> es = es1 @ es2)"
  by (auto simp: and_then_def split: prod.splits sum.splits)

lemma and_then_E:
  assumes "and_then x f = (Inr v, es)"
  obtains a es1 es2 where "x = (Inr a, es1)" and "f a = (Inr v, es2)" and "es = es1 @ es2"
  using assms by (auto simp: and_then_Inr)

lemma cuda_check_Inr: "cuda_check r x = (Inr v, es) \<longleftrightarrow> x = Some v \<and> es = [Acq r]"
  by (auto simp: cuda_check_def split: option.splits)

lemma cuda_ok_Inr: "cuda_ok ok = (Inr v, es) \<longleftrightarrow> ok \<and> es = []"
  by (auto simp: cuda_ok_def)

lemma live_of_qp: "(\<And>i q. r \<noteq> Of_qp i q) \<Longrightarrow> live (map (event_map (Of_qp i)) es) r = 0"
proof (induction es)
  case (Cons e es)
  then show ?case by (cases e) auto
qed simp

lemma add_qp_live:
  assumes "add_qp e i b = (Inr (x, b'), es)" and "\<And>i q. r \<noteq> Of_qp i q"
  shows "live es r = 0 \<and> same_buffer b b'"
  using assms live_of_qp [of r] by (auto simp: add_qp_def Let_def same_buffer_def split: option.splits sum.splits prod.splits if_splits)

lemma init_qps_live:
  assumes "init_qps e i n b = (Inr (ret, b'), es)" and "\<And>i q. r \<noteq> Of_qp i q"
  shows "live es r = 0 \<and> same_buffer b b' \<and> ret \<in> {0, - 1}"
  using assms(1)
proof (induction n arbitrary: i b es)
  case 0
  then show ?case by (auto simp: same_buffer_def)
next
  case (Suc n)
  from Suc.prems obtain x b1 es1 es2 where a: "add_qp e i b = (Inr (x, b1), es1)"
    "(case x of Inl _ \<Rightarrow> (Inr (- 1, b1), []) | Inr qp \<Rightarrow> init_qps e (Suc i) n (b1\<lparr>b_qps := b_qps b1 @ [Some qp]\<rparr>)) = (Inr (ret, b'), es2)"
    "es = es1 @ es2"
    by (auto simp: and_then_Inr)
  note l = add_qp_live [OF a(1) assms(2)]
  show ?case
  proof (cases x)
    case (Inl u)
    then show ?thesis using a l by (auto simp: same_buffer_def)
  next
    case (Inr qp)
    then have "init_qps e (Suc i) n (b1\<lparr>b_qps := b_qps b1 @ [Some qp]\<rparr>) = (Inr (ret, b'), es2)" using a(2) by simp
    from Suc.IH [OF this] show ?thesis using a(3) l by (auto simp: same_buffer_def)
  qed
qed

lemma init_ibgda_live:
  assumes "init_ibgda e name b = (Inr (ret, b'), es)" and r: "\<And>i q. r \<noteq> Of_qp i q"
  shows "(\<not> nic_resource r \<longrightarrow> live es r = 0) \<and> (ret = 0 \<and> r \<in> {Ib_context, Pd, Ctrl_buf, Umem, Heap} \<longrightarrow> live es r = 1) \<and>
    b_gdr_buffer b' = b_gdr_buffer b \<and> b_use_fabric b' = b_use_fabric b \<and> b_ipc_host b' = b_ipc_host b \<and>
    b_ibgda_disabled b' = b_ibgda_disabled b"
proof -
  consider
      (early) "ret = - 1" "live es r = 0 \<or> nic_resource r" "same_buffer (b\<lparr>b_mr := b_mr b', b_ctrl_buf := b_ctrl_buf b'\<rparr>) b'"
    | (qps) b1 n es1 es2 where "init_qps e 0 n b1 = (Inr (ret, b'), es2)" "es = es1 @ es2"
        "same_buffer (b\<lparr>b_mr := b_mr b1, b_ctrl_buf := b_ctrl_buf b1\<rparr>) b1"
        "es1 = [Acq Dev_list, Acq Ib_context, Rel Dev_list, Acq Pd] @ (if ib_reg_mr e = None then [] else [Acq Mr]) @
          [Acq Ctrl_buf, Acq Umem, Acq Heap]"
    using assms(1)
    by (auto simp: init_ibgda_def Let_def same_buffer_def and_then_def split: option.splits if_splits prod.splits sum.splits)
  then show ?thesis
  proof cases
    case early
    then show ?thesis by (auto simp: same_buffer_def)
  next
    case qps
    have "live es1 r = (if r \<in> {Ib_context, Pd, Ctrl_buf, Umem, Heap} then 1 else live es1 r)" using qps(4) by auto
    moreover have "\<not> nic_resource r \<Longrightarrow> live es1 r = 0" using qps(4) by auto
    ultimately show ?thesis using qps(2,3) init_qps_live [OF qps(1) r] by (auto simp: same_buffer_def)
  qed
qed

lemma alloc_tables_live:
  "alloc_tables e = (Inr u, es) \<Longrightarrow> es = [Acq Raddrs, Acq Rkeys, Acq Qp_devctxs, Acq Nvlink_available, Acq Ipc_host, Acq Ipc_dev, Acq Stream]"
  by (auto simp: alloc_tables_def checked_malloc_def and_then_Inr cuda_check_Inr cuda_ok_Inr)

lemma data_buffer_live:
  assumes "(if fabric then alloc_fabric fe n else and_then (cuda_check Gdr_buffer p) (\<lambda>p. (Inr (p, 0), []))) = (Inr x, es)"
  shows "es = (if fabric then [Acq Fabric_mem, Acq Fabric_range, Acq Fabric_map] else [Acq Gdr_buffer])"
  using assms by (auto simp: alloc_fabric_def and_then_Inr cuda_check_Inr Let_def split: if_splits option.splits)

lemma construct_cases:
  assumes "construct e rank num_ranks num_bytes name = (Inr b, es)"
  obtains es1 es2 es3 ret b0 b1 where "es = es1 @ es2 @ es3 @ [Acq Workspace]"
    "es1 = (if b_use_fabric b then [Acq Fabric_mem, Acq Fabric_range, Acq Fabric_map] else [Acq Gdr_buffer])"
    "es2 = [Acq Raddrs, Acq Rkeys, Acq Qp_devctxs, Acq Nvlink_available, Acq Ipc_host, Acq Ipc_dev, Acq Stream]"
    "init_ibgda (ct_ib e) name b0 = (Inr (ret, b1), es3)" "b_ibgda_disabled b \<longleftrightarrow> ret \<noteq> 0" "b_ipc_host b = (\<lambda>_. 0)"
proof -
  define fabric where "fabric = supportFabricMem (ct_nvlink_ipc e) (ct_device_count e) (ct_fabric_supported e)"
  from assms obtain dev gdr bsz u es1 es2 es3 ret b1 where
    buf: "(if fabric then alloc_fabric (ct_fabric e) num_bytes
           else and_then (cuda_check Gdr_buffer (ct_malloc_gdr e)) (\<lambda>p. (Inr (p, 0), []))) = (Inr (gdr, bsz), es1)"
    and tab: "alloc_tables e = (Inr u, es2)"
    and ini: "init_ibgda (ct_ib e) name (fresh_buffer rank num_ranks dev num_bytes gdr fabric bsz) = (Inr (ret, b1), es3)"
    and rest: "es = es1 @ es2 @ es3 @ [Acq Workspace]" "b = (if ret \<noteq> 0 then b1\<lparr>b_ibgda_disabled := True\<rparr> else b1)"
  proof -
    from assms obtain dev where c: "and_then (if fabric then alloc_fabric (ct_fabric e) num_bytes
          else and_then (cuda_check Gdr_buffer (ct_malloc_gdr e)) (\<lambda>p. (Inr (p, 0), []))) (\<lambda>(gdr, bsz).
        and_then (alloc_tables e) (\<lambda>_.
        and_then (init_ibgda (ct_ib e) name (fresh_buffer rank num_ranks dev num_bytes gdr fabric bsz)) (\<lambda>(ret, b).
        let b = (if ret \<noteq> 0 then b\<lparr>b_ibgda_disabled := True\<rparr> else b) in
        and_then (checked_malloc e Workspace) (\<lambda>_.
        and_then (cuda_ok (ct_memset_workspace_ok e)) (\<lambda>_. (Inr b, [])))))) = (Inr b, es)"
      unfolding construct_def fabric_def [symmetric] Let_def
      by (cases "ct_get_device e"; cases "ct_clock_rate_ok e") simp_all
    from c obtain x es1 esa where x: "(if fabric then alloc_fabric (ct_fabric e) num_bytes
          else and_then (cuda_check Gdr_buffer (ct_malloc_gdr e)) (\<lambda>p. (Inr (p, 0), []))) = (Inr x, es1)"
      and ca: "(case x of (gdr, bsz) \<Rightarrow> and_then (alloc_tables e) (\<lambda>_.
        and_then (init_ibgda (ct_ib e) name (fresh_buffer rank num_ranks dev num_bytes gdr fabric bsz)) (\<lambda>(ret, b).
        let b = (if ret \<noteq> 0 then b\<lparr>b_ibgda_disabled := True\<rparr> else b) in
        and_then (checked_malloc e Workspace) (\<lambda>_.
        and_then (cuda_ok (ct_memset_workspace_ok e)) (\<lambda>_. (Inr b, [])))))) = (Inr b, esa)" "es = es1 @ esa"
      by (rule and_then_E)
    obtain gdr bsz where gs: "x = (gdr, bsz)" by fastforce
    from ca(1) [unfolded gs prod.case] obtain u es2 esb where u: "alloc_tables e = (Inr u, es2)" "esa = es2 @ esb"
      and cb: "and_then (init_ibgda (ct_ib e) name (fresh_buffer rank num_ranks dev num_bytes gdr fabric bsz)) (\<lambda>(ret, b).
        let b = (if ret \<noteq> 0 then b\<lparr>b_ibgda_disabled := True\<rparr> else b) in
        and_then (checked_malloc e Workspace) (\<lambda>_.
        and_then (cuda_ok (ct_memset_workspace_ok e)) (\<lambda>_. (Inr b, [])))) = (Inr b, esb)"
      by (rule and_then_E)
    from cb obtain y es3 esc where y: "init_ibgda (ct_ib e) name (fresh_buffer rank num_ranks dev num_bytes gdr fabric bsz) = (Inr y, es3)"
      "esb = es3 @ esc"
      and cc: "(case y of (ret, b) \<Rightarrow> let b = (if ret \<noteq> 0 then b\<lparr>b_ibgda_disabled := True\<rparr> else b) in
        and_then (checked_malloc e Workspace) (\<lambda>_.
        and_then (cuda_ok (ct_memset_workspace_ok e)) (\<lambda>_. (Inr b, [])))) = (Inr b, esc)"
      by (rule and_then_E)
    obtain ret b1 where rb: "y = (ret, b1)" by fastforce
    from cc have "b = (if ret \<noteq> 0 then b1\<lparr>b_ibgda_disabled := True\<rparr> else b1)" "esc = [Acq Workspace]"
      unfolding rb prod.case Let_def and_then_Inr checked_malloc_def cuda_check_Inr cuda_ok_Inr by auto
    then show ?thesis using that [of gdr bsz es1 u es2 dev ret b1 es3] x gs u y rb ca(2) by simp
  qed
  have "b_use_fabric b1 = fabric \<and> b_ipc_host b1 = (\<lambda>_. 0) \<and> \<not> b_ibgda_disabled b1"
    using init_ibgda_live [OF ini, of Heap] by (auto simp: fresh_buffer_def)
  then show ?thesis
    using that [OF _ _ _ ini] rest data_buffer_live [OF buf] alloc_tables_live [OF tab] by auto
qed

text \<open>
  C35. What a constructed buffer holds and its destructor gives back: every resource of the buffer
  itself (the data buffer or the three fabric resources, the tables, the host pointers, the stream,
  the workspace) is released exactly once, but of the NIC's resources (device list, context,
  protection domain, memory region, control buffer, its registration, its heap, the queue pairs)
  the destructor releases none: after a successful set-up at least the context, the domain, the
  control buffer, its registration and its heap stay behind.
\<close>

theorem construct_destruct_balance:
  assumes "construct e rank num_ranks num_bytes name = (Inr b, es)"
  shows "(\<forall>r. \<not> nic_resource r \<longrightarrow> live (es @ destruct b) r = 0) \<and>
    (\<forall>r. nic_resource r \<longrightarrow> live (es @ destruct b) r = live es r) \<and>
    (\<not> b_ibgda_disabled b \<longrightarrow> (\<forall>r \<in> {Ib_context, Pd, Ctrl_buf, Umem, Heap}. live (es @ destruct b) r = 1))"
  using assms
proof (cases rule: construct_cases)
  case (1 es1 es2 es3 ret b0 b1)
  have d: "destruct b = (if b_use_fabric b then [Rel Fabric_map, Rel Fabric_range, Rel Fabric_mem] else [Rel Gdr_buffer]) @
     [Rel Raddrs, Rel Rkeys, Rel Qp_devctxs, Rel Nvlink_available, Rel Ipc_dev] @ [Rel Ipc_host, Rel Workspace, Rel Stream]"
    by (simp add: destruct_def 1(6))
  have l: "live es3 r = 0" if "\<not> nic_resource r" for r using init_ibgda_live [OF 1(4), of r] that by auto
  have n: "nic_resource r \<Longrightarrow> live (destruct b) r = 0" for r by (auto simp: d)
  have "live es r = 1" if nd: "\<not> b_ibgda_disabled b" and r: "r \<in> {Ib_context, Pd, Ctrl_buf, Umem, Heap}" for r
  proof -
    have "live es1 r = 0" "live es2 r = 0" "live [Acq Workspace] r = 0" using r by (auto simp: 1(2,3))
    moreover have "\<And>i q. r \<noteq> Of_qp i q" using r by auto
    then have "live es3 r = 1" using init_ibgda_live [OF 1(4)] nd r 1(5) by blast
    ultimately show ?thesis by (simp add: 1(1))
  qed
  moreover have "live (es @ destruct b) r = 0" if "\<not> nic_resource r" for r
  proof -
    have "live (es1 @ es2 @ [Acq Workspace] @ destruct b) r = 0" unfolding d 1(2,3) by simp
    then show ?thesis using l [OF that] by (simp add: 1(1))
  qed
  ultimately show ?thesis using n by simp
qed

definition demo_ib :: ib_env where
  "demo_ib = \<lparr>ib_device_names = [None, Some ''mlx5_0''], ib_open_ok = True, ib_query_port = Some 4,
     ib_query_gid_ex = (\<lambda>_. Some \<lparr>gid_raw = replicate 16 0, gid_type = IBV_GID_TYPE_IB\<rparr>), ib_query_gid = (\<lambda>_. Some (0, 0)),
     ib_alloc_pd_ok = True, ib_reg_mr = Some \<lparr>mr_addr = 4096, mr_lkey = 7, mr_rkey = 8\<rparr>, ib_malloc_ctrl = Some 65536,
     ib_umem_ok = True, ib_heap_malloc_ok = True, ib_ctrl = demo_ctrl, ib_qp_env = good_qp_env,
     ib_obj_modify = (\<lambda>_ _. 0), ib_stream_sync_ok = (\<lambda>_. True)\<rparr>"

definition demo_ctor :: ctor_env where
  "demo_ctor = \<lparr>ct_get_device = Some 0, ct_clock_rate_ok = True, ct_nvlink_ipc = None, ct_device_count = Some 8,
     ct_fabric_supported = (\<lambda>_. 1),
     ct_fabric = \<lparr>f_device_get_ok = False, f_rdma_flag = False, f_granularity = None, f_mem_create = (\<lambda>_ _. False),
       f_reserve = (\<lambda>_. None), f_map_ok = False, f_access_ok = False\<rparr>,
     ct_malloc_gdr = Some 4096, ct_malloc = (\<lambda>_. True), ct_memset_nvlink_ok = True, ct_memset_ipc_ok = True,
     ct_ib = demo_ib, ct_memset_workspace_ok = True\<rparr>"

abbreviation demo_fresh :: ep_buffer where
  "demo_fresh \<equiv> fresh_buffer 0 8 0 1048576 4096 False 0"

lemma demo_ib_ok: "ib_env_ok demo_ib"
  using good_envs by (simp add: ib_env_ok_def demo_ib_def)

lemma demo_ib_grants:
  "find_device ''mlx5_0'' (ib_device_names demo_ib) 0 \<noteq> None" "ib_open_ok demo_ib"
  "ib_query_port demo_ib = Some 4" "findBestGidIndex (ib_query_gid_ex demo_ib) 4 \<ge> 0"
  "ib_query_gid demo_ib (findBestGidIndex (ib_query_gid_ex demo_ib) 4) \<noteq> None" "ib_alloc_pd_ok demo_ib"
  "ib_malloc_ctrl demo_ib = Some 65536" "ib_umem_ok demo_ib" "ib_heap_malloc_ok demo_ib"
  by (simp_all add: demo_ib_def findBestGidIndex_def find_gid.simps [of _ 4 0])

lemma demo_fresh_ok: "b_qps demo_fresh = []" "0 < b_num_ranks demo_fresh" "b_num_ranks demo_fresh \<le> 256"
  by (simp_all add: fresh_buffer_def)

lemma demo_construct:
  obtains b es where "construct demo_ctor 0 8 1048576 ''mlx5_0'' = (Inr b, es)" and "\<not> b_ibgda_disabled b" and "nic_ready b"
proof -
  obtain b es where b: "init_ibgda demo_ib ''mlx5_0'' demo_fresh = (Inr (0, b), es)" "nic_ready b"
    using init_ibgda_succeeds [OF demo_ib_ok demo_ib_grants demo_fresh_ok] by blast
  have "\<not> b_ibgda_disabled b" using init_ibgda_live [OF b(1), of Heap] by (simp add: fresh_buffer_def)
  moreover have "\<exists>es. construct demo_ctor 0 8 1048576 ''mlx5_0'' = (Inr b, es)"
    using b(1) by (simp add: construct_def demo_ctor_def supportFabricMem_def and_then_def alloc_tables_def checked_malloc_def
        cuda_check_def cuda_ok_def)
  ultimately show ?thesis using that b(2) by blast
qed

theorem construct_destruct_balance_witness:
  "\<exists>b es. construct demo_ctor 0 8 1048576 ''mlx5_0'' = (Inr b, es) \<and>
     live (es @ destruct b) Gdr_buffer = 0 \<and> live (es @ destruct b) Ctrl_buf = 1"
proof -
  obtain b es where b: "construct demo_ctor 0 8 1048576 ''mlx5_0'' = (Inr b, es)" "\<not> b_ibgda_disabled b"
    using demo_construct by blast
  note c = construct_destruct_balance [OF b(1)]
  have "live (es @ destruct b) Gdr_buffer = 0" by (rule c [THEN conjunct1, rule_format]) simp
  moreover have "live (es @ destruct b) Ctrl_buf = 1" by (rule c [THEN conjunct2, THEN conjunct2, rule_format, OF b(2)]) simp
  ultimately show ?thesis using b(1) by blast
qed

text \<open>
  C36. With the libraries granting every request and 1 to 256 ranks, the set-up of the NIC succeeds with
  one device context per queue pair: queue pair \<open>i\<close> has its completion queue and its ring of 16384
  entries at two consecutive multiples of the stride (a megabyte and a page), each followed by its
  doorbell record, so that nothing overlaps and everything fits the control buffer.
\<close>

theorem init_ibgda_layout:
  assumes "ib_env_ok e" and "find_device name (ib_device_names e) 0 \<noteq> None" and "ib_open_ok e"
    and "ib_query_port e = Some len" and "findBestGidIndex (ib_query_gid_ex e) len \<ge> 0"
    and "ib_query_gid e (findBestGidIndex (ib_query_gid_ex e) len) \<noteq> None" and "ib_alloc_pd_ok e"
    and "ib_malloc_ctrl e = Some ctrl_buf" and "ib_umem_ok e" and "ib_heap_malloc_ok e"
    and "b_qps b = []" and "0 < b_num_ranks b" and "b_num_ranks b \<le> 256"
  shows "\<exists>b' es. init_ibgda e name b = (Inr (0, b'), es) \<and> nic_ready b' \<and>
    2 * qp_count b * pair_stride \<le> unat CTRL_BUF_SIZE \<and> 2 ^ 20 + 8 \<le> pair_stride \<and>
    (\<forall>i<qp_count b. \<exists>d. b_qp_devctxs b' i = Some d \<and> i_wqeid_mask d = mask 14 \<and>
       i_cq d = ctrl_buf + of_nat (2 * i * pair_stride) \<and>
       i_wq d = ctrl_buf + of_nat ((2 * i + 1) * pair_stride) \<and>
       i_dbr d = ctrl_buf + of_nat ((2 * i + 1) * pair_stride + 2 ^ 20))"
proof -
  obtain b' es where b': "init_ibgda e name b = (Inr (0, b'), es)" "nic_ready b'" "b_ctrl_buf b' = ctrl_buf"
    "b_num_ranks b' = b_num_ranks b"
    using init_ibgda_succeeds [OF assms] by blast
  have n: "qp_count b' = qp_count b" "qp_count b \<le> 256" using b'(4) by (simp_all add: qp_count_def USE_QP_COUNT_def)
  have "2 * qp_count b * pair_stride \<le> 512 * pair_stride" using n(2) by (intro mult_le_mono1) simp
  also have "\<dots> \<le> unat CTRL_BUF_SIZE" by (simp add: pair_stride_def)
  finally have fit: "2 * qp_count b * pair_stride \<le> unat CTRL_BUF_SIZE" .
  have m: "(16384 :: u32) - 1 = mask 14" by (simp add: mask_eq_exp_minus_1)
  have "\<forall>i<qp_count b. \<exists>d. b_qp_devctxs b' i = Some d \<and> i_wqeid_mask d = mask 14 \<and>
       i_cq d = ctrl_buf + of_nat (2 * i * pair_stride) \<and>
       i_wq d = ctrl_buf + of_nat ((2 * i + 1) * pair_stride) \<and>
       i_dbr d = ctrl_buf + of_nat ((2 * i + 1) * pair_stride + 2 ^ 20)"
    using b'(2,3) n(1) m by (auto simp: nic_ready_def qp_ready_def qp_at_def mk_devctx_def simp del: of_nat_add of_nat_mult)
  moreover have "2 ^ 20 + 8 \<le> pair_stride" by (simp add: pair_stride_def)
  ultimately show ?thesis using b'(1,2) fit by blast
qed

theorem init_ibgda_layout_witness:
  "\<exists>b es d. init_ibgda demo_ib ''mlx5_0'' demo_fresh = (Inr (0, b), es) \<and> b_qp_devctxs b 1 = Some d \<and>
     i_wq d = 65536 + 3158016"
proof -
  have n: "1 < qp_count demo_fresh" by (simp add: qp_count_def USE_QP_COUNT_def fresh_buffer_def)
  from init_ibgda_layout [OF demo_ib_ok demo_ib_grants demo_fresh_ok]
  obtain b es where b: "init_ibgda demo_ib ''mlx5_0'' demo_fresh = (Inr (0, b), es)"
    "\<forall>i<qp_count demo_fresh. \<exists>d. b_qp_devctxs b i = Some d \<and> i_wqeid_mask d = mask 14 \<and>
       i_cq d = 65536 + of_nat (2 * i * pair_stride) \<and> i_wq d = 65536 + of_nat ((2 * i + 1) * pair_stride) \<and>
       i_dbr d = 65536 + of_nat ((2 * i + 1) * pair_stride + 2 ^ 20)"
    by blast
  from b(2) n obtain d where "b_qp_devctxs b 1 = Some d" "i_wq d = 65536 + of_nat ((2 * 1 + 1) * pair_stride)" by blast
  then show ?thesis using b(1) by (simp add: pair_stride_def)
qed

definition places :: "devctx_init \<Rightarrow> u64 \<times> u64 \<times> u64 \<times> u32" where
  "places d = (i_wq d, i_cq d, i_dbr d, i_wqeid_mask d)"

text \<open>
  C37. \<^verbatim>\<open>update_local_qpns\<close>, which destroys and re-creates all queue pairs, keeps the state a set-up leaves:
  when the libraries grant every request it ends with the same heap and with every ring,
  completion queue and doorbell record at its old address.
\<close>

theorem update_local_qpns_keeps_layout:
  assumes "ib_env_ok e" and "nic_ready b"
  shows "\<exists>b' es. update_local_qpns e b = (Inr b', es) \<and> nic_ready b' \<and> b_heap b' = b_heap b \<and>
    b_ibgda_disabled b' = b_ibgda_disabled b \<and>
    (\<forall>i<qp_count b. map_option places (b_qp_devctxs b' i) = map_option places (b_qp_devctxs b i))"
proof -
  obtain b' es where b': "update_local_qpns e b = (Inr b', es)" "nic_ready b'" "same_buffer b b'" "b_heap b' = b_heap b"
    using update_keeps_ready [OF assms] by blast
  have "qp_count b' = qp_count b" "b_ctrl_buf b' = b_ctrl_buf b" using b'(3) by (simp_all add: qp_count_def same_buffer_def)
  then have "\<forall>i<qp_count b. map_option places (b_qp_devctxs b' i) = map_option places (b_qp_devctxs b i)"
    using b'(2) assms(2) by (fastforce simp: nic_ready_def qp_ready_def qp_at_def mk_devctx_def places_def)
  then show ?thesis using b' by (auto simp: same_buffer_def)
qed

theorem update_local_qpns_keeps_layout_witness:
  "\<exists>b b' es. nic_ready b \<and> update_local_qpns demo_ib b = (Inr b', es) \<and> b_heap b' = b_heap b"
proof -
  obtain b where b: "nic_ready b" using demo_construct by blast
  from update_local_qpns_keeps_layout [OF demo_ib_ok b] b show ?thesis by blast
qed

end
