(* ===== verification/Ep_Connect.thy ===== *)
theory Ep_Connect
  imports Ep_Lifecycle Buffer_Layout
begin

text \<open>
  \<^verbatim>\<open>EpBuffer\<close> after construction (\<^verbatim>\<open>src/ep_buffer.cpp\<close>, \<^verbatim>\<open>include/ep_buffer.h\<close>): connection of the queue
  pairs to the peers over InfiniBand or RoCE, exchange of NVLink handles, and the accessors that the
  launch code uses.
\<close>

section \<open>Connecting to the peers\<close>

text \<open>Indexing a \<^verbatim>\<open>std::vector\<close>.\<close>

definition vec :: "'a list \<Rightarrow> nat \<Rightarrow> abort + 'a" where
  "vec xs i = (if i < length xs then Inr (xs ! i) else Inl Undefined)"

record conn_env =
  cn_macros :: devx
  cn_obj_modify :: "nat \<Rightarrow> cmd \<Rightarrow> cint"
  cn_create_ah :: "nat \<Rightarrow> ibv_ah_attr \<Rightarrow> (u8 list \<times> u8 list) option"
  cn_mtu_4096 :: u32

text \<open>The commands sent, each with the number of its queue pair.\<close>

type_synonym conn = "(abort + unit) \<times> (nat \<times> cmd) list"

definition sent :: "nat \<Rightarrow> cmd option \<Rightarrow> (nat \<times> cmd) list" where
  "sent i c = (case c of None \<Rightarrow> [] | Some c \<Rightarrow> [(i, c)])"

text \<open>The two state changes of queue pair \<open>i\<close>; a failure ends the process.\<close>

definition connect_qp :: "conn_env \<Rightarrow> nat \<Rightarrow> mlx5gda_qp option \<Rightarrow> ibv_ah_attr \<Rightarrow> u32 \<Rightarrow> conn" where
  "connect_qp e i qp ah remote_qpn =
     (case mlx5gda_modify_rc_qp_init2rtr (cn_macros e) (cn_obj_modify e i) (cn_create_ah e i) qp ah remote_qpn (cn_mtu_4096 e) of
        (c1, ret1, _) \<Rightarrow>
      if ret1 \<noteq> 0 then (Inl Exit, sent i c1)
      else case mlx5gda_modify_rc_qp_rtr2rts (cn_macros e) (cn_obj_modify e i) qp of (c2, ret2) \<Rightarrow>
      if ret2 \<noteq> 0 then (Inl Exit, sent i c1 @ sent i c2) else (Inr (), sent i c1 @ sent i c2))"

definition ib_ah_attr :: "cint \<Rightarrow> ibv_ah_attr" where
  "ib_ah_attr remote_lid =
     \<lparr>is_global = 0, dgid = (0, 0), sgid_index = 0, hop_limit = 0, sl = 0, dlid = ucast remote_lid, ah_port_num = 0\<rparr>"

definition roce_ah_attr :: "u64 \<Rightarrow> u64 \<Rightarrow> int \<Rightarrow> u16 \<Rightarrow> ibv_ah_attr" where
  "roce_ah_attr subnet_prefix interface_id gid_index port_lid =
     \<lparr>is_global = 1, dgid = (subnet_prefix, interface_id), sgid_index = word_of_int gid_index, hop_limit = 1, sl = 0,
      dlid = port_lid OR 0xC000, ah_port_num = 1\<rparr>"

definition sync_ib_qp :: "conn_env \<Rightarrow> ep_buffer \<Rightarrow> cint list \<Rightarrow> cint list \<Rightarrow> cint list \<Rightarrow> nat \<Rightarrow> conn" where
  "sync_ib_qp e b remote_qpns remote_lids active_ranks_mask i =
     (case vec active_ranks_mask (peer_rank (b_num_ranks b) i) of
        Inl a \<Rightarrow> (Inl a, [])
      | Inr m \<Rightarrow>
          if m = 0 then (Inr (), [])
          else case (vec remote_lids i, vec (b_qps b) i, vec remote_qpns i) of
            (Inr remote_lid, Inr qp, Inr remote_qpn) \<Rightarrow> connect_qp e i qp (ib_ah_attr remote_lid) remote_qpn
          | _ \<Rightarrow> (Inl Undefined, []))"

definition sync_roce_qp ::
  "conn_env \<Rightarrow> ep_buffer \<Rightarrow> cint list \<Rightarrow> u64 list \<Rightarrow> u64 list \<Rightarrow> cint list \<Rightarrow> nat \<Rightarrow> conn" where
  "sync_roce_qp e b remote_qpns subnet_prefixes interface_ids active_ranks_mask i =
     (let peer = peer_rank (b_num_ranks b) i in
      case vec active_ranks_mask peer of
        Inl a \<Rightarrow> (Inl a, [])
      | Inr m \<Rightarrow>
          if m = 0 then (Inr (), [])
          else case (vec subnet_prefixes peer, vec interface_ids peer, vec (b_qps b) i, vec remote_qpns i) of
            (Inr prefix, Inr iid, Inr (Some qp), Inr remote_qpn) \<Rightarrow>
              connect_qp e i (Some qp) (roce_ah_attr prefix iid (b_gid_index b) (lid (port_attr qp))) remote_qpn
          | _ \<Rightarrow> (Inl Undefined, []))"

fun conn_loop :: "(nat \<Rightarrow> conn) \<Rightarrow> nat \<Rightarrow> nat \<Rightarrow> conn" where
  "conn_loop f i 0 = (Inr (), [])"
| "conn_loop f i (Suc n) =
     (case f i of
        (Inl a, cs) \<Rightarrow> (Inl a, cs)
      | (Inr _, cs) \<Rightarrow> (case conn_loop f (Suc i) n of (r, cs') \<Rightarrow> (r, cs @ cs')))"

text \<open>The second loop: the addresses and keys of the active ranks.\<close>

fun sync_addrs :: "u64 list \<Rightarrow> cint list \<Rightarrow> cint list \<Rightarrow> nat \<Rightarrow> nat \<Rightarrow> ep_buffer \<Rightarrow> abort + ep_buffer" where
  "sync_addrs remote_addrs remote_keys active_ranks_mask i 0 b = Inr b"
| "sync_addrs remote_addrs remote_keys active_ranks_mask i (Suc n) b =
     (case vec active_ranks_mask i of
        Inl a \<Rightarrow> Inl a
      | Inr m \<Rightarrow>
          if m = 0 then sync_addrs remote_addrs remote_keys active_ranks_mask (Suc i) n b
          else if i = b_rank b then
            (case b_mr b of
               None \<Rightarrow> Inl Undefined
             | Some mr \<Rightarrow> sync_addrs remote_addrs remote_keys active_ranks_mask (Suc i) n
                 (b\<lparr>b_raddrs := (b_raddrs b)(i := mr_addr mr), b_rkeys := (b_rkeys b)(i := mr_lkey mr)\<rparr>))
          else case (vec remote_addrs i, vec remote_keys i) of
            (Inr ra, Inr rk) \<Rightarrow> sync_addrs remote_addrs remote_keys active_ranks_mask (Suc i) n
                 (b\<lparr>b_raddrs := (b_raddrs b)(i := ra), b_rkeys := (b_rkeys b)(i := rk)\<rparr>)
          | _ \<Rightarrow> Inl Undefined)"

definition sync_with :: "(nat \<Rightarrow> conn) \<Rightarrow> u64 list \<Rightarrow> cint list \<Rightarrow> cint list \<Rightarrow> ep_buffer \<Rightarrow> (abort + ep_buffer) \<times> (nat \<times> cmd) list" where
  "sync_with f remote_addrs remote_keys active_ranks_mask b =
     (case conn_loop f 0 (qp_count b) of
        (Inl a, cs) \<Rightarrow> (Inl a, cs)
      | (Inr _, cs) \<Rightarrow> (sync_addrs remote_addrs remote_keys active_ranks_mask 0 (b_num_ranks b) b, cs))"

definition sync_ib ::
  "conn_env \<Rightarrow> u64 list \<Rightarrow> cint list \<Rightarrow> cint list \<Rightarrow> cint list \<Rightarrow> cint list \<Rightarrow> ep_buffer \<Rightarrow>
   (abort + ep_buffer) \<times> (nat \<times> cmd) list" where
  "sync_ib e remote_addrs remote_keys remote_qpns remote_lids active_ranks_mask b =
     sync_with (sync_ib_qp e b remote_qpns remote_lids active_ranks_mask) remote_addrs remote_keys active_ranks_mask b"

definition sync_roce ::
  "conn_env \<Rightarrow> u64 list \<Rightarrow> cint list \<Rightarrow> cint list \<Rightarrow> u64 list \<Rightarrow> u64 list \<Rightarrow> cint list \<Rightarrow> ep_buffer \<Rightarrow>
   (abort + ep_buffer) \<times> (nat \<times> cmd) list" where
  "sync_roce e remote_addrs remote_keys remote_qpns subnet_prefixes interface_ids active_ranks_mask b =
     sync_with (sync_roce_qp e b remote_qpns subnet_prefixes interface_ids active_ranks_mask) remote_addrs remote_keys active_ranks_mask b"

section \<open>NVLink handles\<close>

text \<open>
  A CUDA IPC handle is a string of bytes of fixed size; it travels as a vector of 32-bit integers,
  whose memory is little-endian.
\<close>

definition int_of_bytes :: "u8 list \<Rightarrow> cint" where
  "int_of_bytes bs = ucast (bs ! 0) OR push_bit 8 (ucast (bs ! 1)) OR push_bit 16 (ucast (bs ! 2)) OR push_bit 24 (ucast (bs ! 3))"

definition bytes_of_int :: "cint \<Rightarrow> u8 list" where
  "bytes_of_int x = map (\<lambda>k. ucast (drop_bit (8 * k) x)) [0..<4]"

definition num_int32s :: "nat \<Rightarrow> nat" where
  "num_int32s handle_size = (handle_size + 4 - 1) div 4"

text \<open>\<^verbatim>\<open>memcpy\<close> of the handle into a zeroed vector, and of a vector into a handle.\<close>

definition handle_to_ints :: "u8 list \<Rightarrow> cint list" where
  "handle_to_ints h =
     (let n = num_int32s (length h); m = h @ replicate (4 * n - length h) 0
      in map (\<lambda>i. int_of_bytes (take 4 (drop (4 * i) m))) [0..<n])"

definition ints_to_handle :: "nat \<Rightarrow> cint list \<Rightarrow> u8 list" where
  "ints_to_handle handle_size xs = take handle_size (concat (map bytes_of_int xs))"

definition get_ipc_handle :: "u8 list option \<Rightarrow> ep_buffer \<Rightarrow> abort + cint list" where
  "get_ipc_handle handle b =
     (if b_use_fabric b then Inr []
      else case handle of None \<Rightarrow> Inl EPException | Some h \<Rightarrow> Inr (handle_to_ints h))"

record nvl_env =
  nv_device_count :: "nat option"
  nv_handle_size :: nat
  nv_can_access_peer :: "nat \<Rightarrow> bool"
  nv_enable_peer_access :: "nat \<Rightarrow> bool"
  nv_open_handle :: "u8 list \<Rightarrow> u64 option"
  nv_copy_flags_ok :: bool
  nv_copy_ptrs_ok :: bool

text \<open>
  One peer of the node: the new flags and host pointers. A peer whose handle is missing or too short
  keeps its flag set.
\<close>

type_synonym nvl = "(nat \<Rightarrow> bool) \<times> (nat \<Rightarrow> u64)"

definition nvl_peer :: "nvl_env \<Rightarrow> ep_buffer \<Rightarrow> nat \<Rightarrow> cint list list \<Rightarrow> nat \<Rightarrow> nvl \<Rightarrow> nvl" where
  "nvl_peer e b device_count remote_handles dst_rank s =
     (case s of (nvlink_array, ptrs) \<Rightarrow>
      if dst_rank = b_rank b then (nvlink_array, ptrs(dst_rank := b_gdr_buffer b))
      else
        let dst_device = dst_rank mod device_count in
        if nv_can_access_peer e dst_device \<and> nv_enable_peer_access e dst_device then
          let nvlink_array = nvlink_array(dst_rank := True) in
          if length remote_handles \<le> dst_rank then (nvlink_array, ptrs)
          else if length (remote_handles ! dst_rank) < num_int32s (nv_handle_size e) then (nvlink_array, ptrs)
          else case nv_open_handle e (ints_to_handle (nv_handle_size e) (remote_handles ! dst_rank)) of
            None \<Rightarrow> (nvlink_array(dst_rank := False), ptrs)
          | Some peer_ptr \<Rightarrow> (nvlink_array, ptrs(dst_rank := peer_ptr))
        else (nvlink_array, ptrs))"

fun nvl_loop :: "(nat \<Rightarrow> nvl \<Rightarrow> nvl) \<Rightarrow> cint list \<Rightarrow> nat \<Rightarrow> nat \<Rightarrow> nvl \<Rightarrow> abort + nvl" where
  "nvl_loop f active_ranks_mask i 0 s = Inr s"
| "nvl_loop f active_ranks_mask i (Suc n) s =
     (case vec active_ranks_mask i of
        Inl a \<Rightarrow> Inl a
      | Inr m \<Rightarrow> nvl_loop f active_ranks_mask (Suc i) n (if m = 0 then s else f i s))"

fun all_reachable :: "nvl \<Rightarrow> cint list \<Rightarrow> nat \<Rightarrow> nat \<Rightarrow> abort + bool" where
  "all_reachable s active_ranks_mask i 0 = Inr True"
| "all_reachable s active_ranks_mask i (Suc n) =
     (case vec active_ranks_mask i of
        Inl a \<Rightarrow> Inl a
      | Inr m \<Rightarrow>
          if m = 0 then all_reachable s active_ranks_mask (Suc i) n
          else if \<not> fst s i \<or> snd s i = 0 then Inr False
          else all_reachable s active_ranks_mask (Suc i) n)"

text \<open>The two branches: the new flags and pointers, and \<^verbatim>\<open>p2p_ipc_all_enabled_\<close>.\<close>

definition nvl_fabric :: "cint list \<Rightarrow> ep_buffer \<Rightarrow> nvl \<Rightarrow> abort + nvl \<times> bool" where
  "nvl_fabric active_ranks_mask b s =
     (case nvl_loop (\<lambda>i (nvlink_array, ptrs). (nvlink_array(i := True), ptrs(i := if i = b_rank b then b_gdr_buffer b else 0)))
        active_ranks_mask 0 (b_num_ranks b) s of
        Inl a \<Rightarrow> Inl a
      | Inr s \<Rightarrow> Inr (s, True))"

definition nvl_ipc :: "nvl_env \<Rightarrow> nat \<Rightarrow> cint list list \<Rightarrow> cint list \<Rightarrow> ep_buffer \<Rightarrow> nvl \<Rightarrow> abort + nvl \<times> bool" where
  "nvl_ipc e device_count remote_handles active_ranks_mask b s =
     (let node_id = b_rank b div device_count;
          group_start = node_id * device_count;
          group_end = min (group_start + device_count) (b_num_ranks b)
      in case nvl_loop (nvl_peer e b device_count remote_handles) active_ranks_mask group_start (group_end - group_start) s of
        Inl a \<Rightarrow> Inl a
      | Inr s \<Rightarrow>
          (case all_reachable s active_ranks_mask 0 (b_num_ranks b) of
             Inl a \<Rightarrow> Inl a
           | Inr p2p \<Rightarrow>
               Inr (s, if p2p \<and> b_num_ranks b > 1 \<and> 0 div device_count \<noteq> (b_num_ranks b - 1) div device_count
                       then False else p2p)))"

definition sync_nvlink_ipc_handles :: "nvl_env \<Rightarrow> cint list list \<Rightarrow> cint list \<Rightarrow> ep_buffer \<Rightarrow> abort + ep_buffer" where
  "sync_nvlink_ipc_handles e remote_handles active_ranks_mask b =
     (case nv_device_count e of
        None \<Rightarrow> Inl EPException
      | Some device_count \<Rightarrow>
          if b_num_ranks b \<le> b_rank b then Inl Undefined
          else if \<not> b_use_fabric b \<and> device_count = 0 then Inl Undefined
          else
            let s = ((\<lambda>i. i = b_rank b), b_ipc_host b) in
            case (if b_use_fabric b then nvl_fabric active_ranks_mask b s
                  else nvl_ipc e device_count remote_handles active_ranks_mask b s) of
              Inl a \<Rightarrow> Inl a
            | Inr ((nvlink_array, ptrs), p2p) \<Rightarrow>
                let b = b\<lparr>b_ipc_host := ptrs, b_p2p_all := p2p\<rparr> in
                if \<not> nv_copy_flags_ok e then Inl EPException
                else
                  let b = b\<lparr>b_nvlink_available := nvlink_array\<rparr> in
                  if \<not> nv_copy_ptrs_ok e then Inl EPException else Inr (b\<lparr>b_ipc_dev := ptrs\<rparr>))"

section \<open>Accessors\<close>

definition use_fast_path :: "ep_buffer \<Rightarrow> bool" where
  "use_fast_path b = (if \<not> b_ibgda_disabled b then True else b_p2p_all b)"

definition get_mr_info :: "ep_buffer \<Rightarrow> abort + u64 \<times> cint" where
  "get_mr_info b = (case b_mr b of None \<Rightarrow> Inl Undefined | Some mr \<Rightarrow> Inr (mr_addr mr, mr_rkey mr))"

text \<open>The loops over the queue pairs: of their numbers, and of the local identifiers of their ports.\<close>

fun collect_qps :: "(mlx5gda_qp \<Rightarrow> cint) \<Rightarrow> mlx5gda_qp option list \<Rightarrow> nat \<Rightarrow> nat \<Rightarrow> abort + cint list" where
  "collect_qps f qps i 0 = Inr []"
| "collect_qps f qps i (Suc n) =
     (case vec qps i of
        Inl a \<Rightarrow> Inl a
      | Inr None \<Rightarrow> Inl Undefined
      | Inr (Some qp) \<Rightarrow> (case collect_qps f qps (Suc i) n of Inl a \<Rightarrow> Inl a | Inr xs \<Rightarrow> Inr (f qp # xs)))"

definition get_local_qpns :: "ep_buffer \<Rightarrow> abort + cint list" where
  "get_local_qpns b = collect_qps qpn (b_qps b) 0 (qp_count b)"

definition get_local_lids :: "ep_buffer \<Rightarrow> abort + cint list" where
  "get_local_lids b = collect_qps (\<lambda>qp. ucast (lid (port_attr qp))) (b_qps b) 0 (qp_count b)"

definition get_num_ep_buffer_bytes :: "ep_buffer \<Rightarrow> cint" where
  "get_num_ep_buffer_bytes b = ucast (b_num_bytes b)"

definition get_gid :: "ep_buffer \<Rightarrow> u64 \<times> u64" where
  "get_gid b = b_gid b"

definition get_buffer_pair :: "ep_buffer \<Rightarrow> cint \<Rightarrow> cint \<Rightarrow> cint \<Rightarrow> BufferPair" where
  "get_buffer_pair b num_max_dispatch_tokens_per_rank hidden_size num_experts_count =
     mk_BufferPair (b_gdr_buffer b) num_max_dispatch_tokens_per_rank hidden_size (of_nat (b_num_ranks b)) num_experts_count"

text \<open>The size is returned as an \<^verbatim>\<open>int\<close>: from 2 GiB on it is not the size.\<close>

lemma get_num_ep_buffer_bytes_iff:
  "sint (get_num_ep_buffer_bytes b) = int (unat (b_num_bytes b)) \<longleftrightarrow> unat (b_num_bytes b) < 2 ^ 31"
proof
  assume "sint (get_num_ep_buffer_bytes b) = int (unat (b_num_bytes b))"
  moreover have "sint (get_num_ep_buffer_bytes b) < 2 ^ 31" using sint_lt [of "get_num_ep_buffer_bytes b"] by simp
  ultimately have "int (unat (b_num_bytes b)) < int (2 ^ 31)" by (simp only:) simp
  then show "unat (b_num_bytes b) < 2 ^ 31" by (simp only: of_nat_less_iff)
next
  assume small: "unat (b_num_bytes b) < 2 ^ 31"
  define n where "n = unat (b_num_bytes b)"
  have "get_num_ep_buffer_bytes b = of_nat n" by (simp add: get_num_ep_buffer_bytes_def n_def)
  moreover have "n < 2 ^ 31" using small by (simp add: n_def)
  ultimately have "sint (get_num_ep_buffer_bytes b) = int n" by (simp add: signed_of_nat signed_take_bit_int_eq_self)
  then show "sint (get_num_ep_buffer_bytes b) = int (unat (b_num_bytes b))" by (simp add: n_def)
qed

text \<open>
  The pair lies in the buffer when the buffer has the size of the hint for the same arguments, or more;
  \<^verbatim>\<open>get_buffer_pair\<close> itself does not check that.
\<close>

lemma get_buffer_pair_inside:
  assumes "sizes_ok (unat (b_gdr_buffer b)) E M H"
    and "get_ep_buffer_size_hint (of_nat M) (of_nat H) (of_nat (b_num_ranks b)) (of_nat E) \<le> b_num_bytes b"
    and "(s, n) \<in> set (concat (map (layout_regions (sig_nat E) (dat_nat E M H))
      (buffers (get_buffer_pair b (of_nat M) (of_nat H) (of_nat E)))))"
  shows "unat (b_gdr_buffer b) \<le> s \<and> s + n \<le> unat (b_gdr_buffer b) + unat (b_num_bytes b)"
proof -
  let ?bp = "get_buffer_pair b (of_nat M) (of_nat H) (of_nat E)"
  have "get_ep_buffer_size_hint (of_nat M) (of_nat H) (of_nat (b_num_ranks b)) (of_nat E) = total_bytes ?bp"
    by (simp add: get_ep_buffer_size_hint_def get_buffer_pair_def mk_BufferPair_def Let_def)
  then have "unat (total_bytes ?bp) \<le> unat (b_num_bytes b)" using assms(2) by (simp add: word_le_nat_alt)
  with tiles_bounds [OF buffer_regions_tile [OF assms(1)] assms(3) [unfolded get_buffer_pair_def]] show ?thesis
    unfolding get_buffer_pair_def by simp
qed

section \<open>Handles\<close>

lemma bytes_of_int_of_bytes:
  assumes "length bs = 4"
  shows "bytes_of_int (int_of_bytes bs) = bs"
proof -
  have "int_of_bytes bs = s6_addr32 bs 0" by (simp add: int_of_bytes_def s6_addr32_def numeral_2_eq_2)
  then have "\<forall>k<4. bs ! k = ucast (drop_bit (8 * k) (int_of_bytes bs))"
    using s6_addr32_bytes [of 0 bs "int_of_bytes bs"] assms by simp
  then show ?thesis using assms by (auto simp: bytes_of_int_def list_eq_iff_nth_eq)
qed

lemma chunks_of_4:
  assumes "length m = 4 * n"
  shows "concat (map (\<lambda>i. take 4 (drop (4 * i) m)) [0..<n]) = m"
proof -
  have "concat (map (\<lambda>i. take 4 (drop (4 * i) m)) [0..<k]) = take (4 * k) m" for k
    by (induction k) (simp_all add: take_add [symmetric] add.commute)
  then show ?thesis using assms by simp
qed

lemma num_int32s_ge: "n \<le> 4 * num_int32s n"
  by (simp add: num_int32s_def)

section \<open>Lemmas on the loops\<close>

lemma conn_loop_ok:
  assumes "\<And>j. i \<le> j \<Longrightarrow> j < i + n \<Longrightarrow> f j = (Inr (), c j)"
  shows "conn_loop f i n = (Inr (), concat (map c [i..<i + n]))"
  using assms
proof (induction n arbitrary: i)
  case (Suc n)
  have "f i = (Inr (), c i)" using Suc.prems [of i] by simp
  moreover have "conn_loop f (Suc i) n = (Inr (), concat (map c [Suc i..<Suc i + n]))"
    by (rule Suc.IH) (use Suc.prems in simp)
  ultimately show ?case by (simp add: upt_conv_Cons del: upt_Suc)
qed simp

lemma conn_loop_fails:
  assumes "i + k < i + n" and "\<And>j. i \<le> j \<Longrightarrow> j < i + k \<Longrightarrow> f j = (Inr (), c j)" and "f (i + k) = (Inl a, cs)"
  shows "conn_loop f i n = (Inl a, concat (map c [i..<i + k]) @ cs)"
  using assms
proof (induction k arbitrary: i n)
  case 0
  then show ?case by (cases n) simp_all
next
  case (Suc k)
  obtain m where m: "n = Suc m" using Suc.prems(1) by (cases n) auto
  have "f i = (Inr (), c i)" using Suc.prems(2) [of i] by simp
  moreover have "conn_loop f (Suc i) m = (Inl a, concat (map c [Suc i..<Suc i + k]) @ cs)"
    by (rule Suc.IH) (use Suc.prems m in auto)
  ultimately show ?case by (simp add: m upt_conv_Cons del: upt_Suc)
qed

lemma conn_loop_sent:
  assumes "conn_loop f i n = (r, cs)" and "(j, c) \<in> set cs" and "\<And>k. (j, c) \<in> set (snd (f k)) \<Longrightarrow> P k j"
  shows "\<exists>k. i \<le> k \<and> k < i + n \<and> P k j"
  using assms(1,2)
proof (induction n arbitrary: i cs r)
  case (Suc n)
  obtain r1 cs1 where f: "f i = (r1, cs1)" by fastforce
  obtain r2 cs2 where l: "conn_loop f (Suc i) n = (r2, cs2)" by fastforce
  have "cs = cs1 \<or> cs = cs1 @ cs2" using Suc.prems(1) f l by (auto split: sum.splits)
  then have "(j, c) \<in> set cs1 \<or> (j, c) \<in> set cs2" using Suc.prems(2) by auto
  then show ?case
  proof
    assume "(j, c) \<in> set cs1"
    then show ?thesis using assms(3) [of i] f by (intro exI [of _ i]) simp
  next
    assume "(j, c) \<in> set cs2"
    then obtain k where "Suc i \<le> k \<and> k < Suc i + n \<and> P k j" using Suc.IH [OF l] by blast
    then show ?thesis by (intro exI [of _ k]) simp
  qed
qed simp

lemma sync_addrs_ok:
  assumes "i + n \<le> length active" and "i + n \<le> length addrs" and "i + n \<le> length keys" and "b_mr b = Some mr"
  shows "\<exists>b'. sync_addrs addrs keys active i n b = Inr b' \<and> same_buffer b b' \<and>
    (\<forall>j. b_raddrs b' j = (if i \<le> j \<and> j < i + n \<and> active ! j \<noteq> 0 then if j = b_rank b then mr_addr mr else addrs ! j else b_raddrs b j)) \<and>
    (\<forall>j. b_rkeys b' j = (if i \<le> j \<and> j < i + n \<and> active ! j \<noteq> 0 then if j = b_rank b then mr_lkey mr else keys ! j else b_rkeys b j))"
  using assms
proof (induction n arbitrary: i b)
  case 0
  then show ?case by (auto simp: same_buffer_def)
next
  case (Suc n)
  define b1 where "b1 = (if active ! i = 0 then b else if i = b_rank b
      then b\<lparr>b_raddrs := (b_raddrs b)(i := mr_addr mr), b_rkeys := (b_rkeys b)(i := mr_lkey mr)\<rparr>
      else b\<lparr>b_raddrs := (b_raddrs b)(i := addrs ! i), b_rkeys := (b_rkeys b)(i := keys ! i)\<rparr>)"
  have step: "sync_addrs addrs keys active i (Suc n) b = sync_addrs addrs keys active (Suc i) n b1"
    using Suc.prems by (simp add: vec_def b1_def)
  have b1: "same_buffer b b1" "b_mr b1 = Some mr" "b_rank b1 = b_rank b"
    "b_raddrs b1 = (if active ! i \<noteq> 0 then (b_raddrs b)(i := if i = b_rank b then mr_addr mr else addrs ! i) else b_raddrs b)"
    "b_rkeys b1 = (if active ! i \<noteq> 0 then (b_rkeys b)(i := if i = b_rank b then mr_lkey mr else keys ! i) else b_rkeys b)"
    using Suc.prems(4) by (simp_all add: b1_def same_buffer_def)
  obtain b' where b': "sync_addrs addrs keys active (Suc i) n b1 = Inr b'" "same_buffer b1 b'"
    "\<forall>j. b_raddrs b' j = (if Suc i \<le> j \<and> j < Suc i + n \<and> active ! j \<noteq> 0 then if j = b_rank b then mr_addr mr else addrs ! j else b_raddrs b1 j)"
    "\<forall>j. b_rkeys b' j = (if Suc i \<le> j \<and> j < Suc i + n \<and> active ! j \<noteq> 0 then if j = b_rank b then mr_lkey mr else keys ! j else b_rkeys b1 j)"
    using Suc.IH [of "Suc i" b1] Suc.prems b1(2,3) by auto
  have "b_raddrs b' j = (if i \<le> j \<and> j < i + Suc n \<and> active ! j \<noteq> 0 then if j = b_rank b then mr_addr mr else addrs ! j else b_raddrs b j)"
    "b_rkeys b' j = (if i \<le> j \<and> j < i + Suc n \<and> active ! j \<noteq> 0 then if j = b_rank b then mr_lkey mr else keys ! j else b_rkeys b j)" for j
    using b'(3,4) b1(4,5) by (cases "j = i"; simp add: Suc_le_eq le_less)+
  then show ?case using step b'(1) same_buffer_trans [OF b1(1) b'(2)] by auto
qed

lemma all_reachable_iff:
  assumes "all_reachable s active i n = Inr p"
  shows "p \<longleftrightarrow> (\<forall>j. i \<le> j \<and> j < i + n \<and> active ! j \<noteq> 0 \<longrightarrow> fst s j \<and> snd s j \<noteq> 0)"
  using assms
proof (induction n arbitrary: i)
  case (Suc n)
  have in_vec: "i < length active" using Suc.prems by (auto simp: vec_def split: if_splits)
  have split: "(\<forall>j. i \<le> j \<and> j < i + Suc n \<and> active ! j \<noteq> 0 \<longrightarrow> Q j) \<longleftrightarrow>
      (active ! i \<noteq> 0 \<longrightarrow> Q i) \<and> (\<forall>j. Suc i \<le> j \<and> j < Suc i + n \<and> active ! j \<noteq> 0 \<longrightarrow> Q j)" for Q
    by (metis Suc_leD Suc_leI add_Suc add_Suc_right le_add1 le_imp_less_Suc le_neq_implies_less order_refl)
  show ?case
  proof (cases "active ! i \<noteq> 0 \<and> (\<not> fst s i \<or> snd s i = 0)")
    case True
    then show ?thesis using Suc.prems in_vec split by (auto simp: vec_def)
  next
    case False
    then have "all_reachable s active (Suc i) n = Inr p" using Suc.prems in_vec by (auto simp: vec_def split: if_splits)
    from Suc.IH [OF this] show ?thesis unfolding split using False by auto
  qed
qed auto

section \<open>Properties\<close>

text \<open>
  A CUDA IPC handle survives the trip through the vector of 32-bit integers, whatever its size.
\<close>

theorem ipc_handle_roundtrip:
  "ints_to_handle (length h) (handle_to_ints h) = h"
proof -
  let ?n = "num_int32s (length h)"
  define m where "m = h @ replicate (4 * ?n - length h) 0"
  have m: "length m = 4 * ?n" using num_int32s_ge [of "length h"] by (simp add: m_def)
  have chunk: "bytes_of_int (int_of_bytes (take 4 (drop (4 * i) m))) = take 4 (drop (4 * i) m)" if "i < ?n" for i
    using that m by (intro bytes_of_int_of_bytes) simp
  have "concat (map bytes_of_int (handle_to_ints h)) = concat (map (\<lambda>i. take 4 (drop (4 * i) m)) [0..<?n])"
    unfolding handle_to_ints_def Let_def m_def [symmetric] map_map comp_def
    by (intro arg_cong [where f = concat] map_cong) (use chunk in auto)
  also have "\<dots> = m" using m by (rule chunks_of_4)
  finally show ?thesis by (simp add: ints_to_handle_def m_def)
qed

definition ib_commands :: "conn_env \<Rightarrow> nat \<Rightarrow> mlx5gda_qp \<Rightarrow> cint \<Rightarrow> cint \<Rightarrow> (nat \<times> cmd) list" where
  "ib_commands e i qp remote_qpn remote_lid =
     [(i, init2rtr_ib_cmd (cn_macros e) (qpn qp) (cn_mtu_4096 e) remote_qpn 0 (ucast remote_lid)),
      (i, rtr2rts_cmd (cn_macros e) (qpn qp))]"

definition ib_ready :: "ep_buffer \<Rightarrow> nat \<Rightarrow> bool" where
  "ib_ready b i \<longleftrightarrow> i < length (b_qps b) \<and> (\<exists>qp. b_qps b ! i = Some qp \<and> link_layer (port_attr qp) = Link_infiniband)"

lemma sync_ib_qp_ok:
  assumes "\<forall>i c. cn_obj_modify e i c = 0" and "ib_ready b i" and "peer_rank (b_num_ranks b) i < length active"
    and "i < length remote_lids" and "i < length remote_qpns"
  shows "sync_ib_qp e b remote_qpns remote_lids active i =
    (Inr (), if active ! peer_rank (b_num_ranks b) i = 0 then []
      else ib_commands e i (the (b_qps b ! i)) (remote_qpns ! i) (remote_lids ! i))"
  using assms
  by (auto simp: sync_ib_qp_def vec_def ib_ready_def connect_qp_def mlx5gda_modify_rc_qp_init2rtr_def
      mlx5gda_modify_rc_qp_rtr2rts_def sent_def ib_commands_def ib_ah_attr_def Let_def)

lemma peer_rank_less:
  assumes "0 < R" and "R \<le> 256" and "i < USE_QP_COUNT R"
  shows "peer_rank R i < R"
  using assms num_qp_per_rank_pos [OF assms(1,2)]
  by (simp add: peer_rank_eq use_qp_count less_mult_imp_div_less mult.commute)

text \<open>
  C38. \<^verbatim>\<open>sync_ib\<close> on an InfiniBand fabric, with the queue pairs in place, vectors long enough and a device
  that accepts the commands: each queue pair of an active peer, in order, is moved to ready-to-receive
  with the remote queue pair and local identifier given at its index, and then to ready-to-send;
  queue pairs of inactive peers get no command. The address and key tables get the remote values of
  the active ranks and the own memory region at the own rank, and keep their entries elsewhere.
\<close>

theorem sync_ib_connects:
  assumes "\<forall>i c. cn_obj_modify e i c = 0" and "0 < b_num_ranks b" and "b_num_ranks b \<le> 256"
    and "\<forall>i<qp_count b. ib_ready b i" and "b_mr b = Some mr"
    and "length active = b_num_ranks b" and "length remote_addrs = b_num_ranks b" and "length remote_keys = b_num_ranks b"
    and "length remote_qpns = qp_count b" and "length remote_lids = qp_count b"
  shows "\<exists>b'. sync_ib e remote_addrs remote_keys remote_qpns remote_lids active b =
      (Inr b', concat (map (\<lambda>i. if active ! peer_rank (b_num_ranks b) i = 0 then []
         else ib_commands e i (the (b_qps b ! i)) (remote_qpns ! i) (remote_lids ! i)) [0..<qp_count b])) \<and>
    (\<forall>j. b_raddrs b' j = (if j < b_num_ranks b \<and> active ! j \<noteq> 0
       then if j = b_rank b then mr_addr mr else remote_addrs ! j else b_raddrs b j)) \<and>
    (\<forall>j. b_rkeys b' j = (if j < b_num_ranks b \<and> active ! j \<noteq> 0
       then if j = b_rank b then mr_lkey mr else remote_keys ! j else b_rkeys b j))"
proof -
  let ?c = "\<lambda>i. if active ! peer_rank (b_num_ranks b) i = 0 then []
      else ib_commands e i (the (b_qps b ! i)) (remote_qpns ! i) (remote_lids ! i)"
  have "sync_ib_qp e b remote_qpns remote_lids active i = (Inr (), ?c i)" if "0 \<le> i" "i < 0 + qp_count b" for i
    using that assms peer_rank_less [OF assms(2,3), of i]
    by (intro sync_ib_qp_ok) (simp_all add: qp_count_def)
  from conn_loop_ok [of 0 "qp_count b", OF this]
  have l: "conn_loop (sync_ib_qp e b remote_qpns remote_lids active) 0 (qp_count b) = (Inr (), concat (map ?c [0..<qp_count b]))"
    by simp
  show ?thesis
    using sync_addrs_ok [of 0 "b_num_ranks b" active remote_addrs remote_keys b mr] assms(5-8) l
    by (auto simp: sync_ib_def sync_with_def)
qed

definition demo_conn :: conn_env where
  "demo_conn = \<lparr>cn_macros = macros demo_ctrl, cn_obj_modify = (\<lambda>_ _. 0), cn_create_ah = (\<lambda>_ _. None), cn_mtu_4096 = 5\<rparr>"

definition demo_qp :: mlx5gda_qp where
  "demo_qp = \<lparr>mqp = 1, send_cq = \<lparr>mcq = 2, cq_uar = demo_uar 1, cqn = 5, cqe = 16384, cq_offset = 0, cq_dbr_offset = 1048576\<rparr>,
     qp_uar = demo_uar 2, port_num = 1, port_attr = \<lparr>lid = 3, link_layer = Link_infiniband\<rparr>, qpn = 77, num_wqebb = 16384,
     wq_offset = 1052672, dbr_offset = 2101248\<rparr>"

definition demo_connected :: ep_buffer where
  "demo_connected = (fresh_buffer 0 8 0 1048576 4096 False 0)
     \<lparr>b_qps := replicate 256 (Some demo_qp), b_mr := Some \<lparr>mr_addr = 4096, mr_lkey = 7, mr_rkey = 8\<rparr>\<rparr>"

lemma demo_connected_facts:
  "b_num_ranks demo_connected = 8" "b_rank demo_connected = 0" "qp_count demo_connected = 256"
  "b_mr demo_connected = Some \<lparr>mr_addr = 4096, mr_lkey = 7, mr_rkey = 8\<rparr>"
  "\<forall>i<qp_count demo_connected. ib_ready demo_connected i" "\<forall>i c. cn_obj_modify demo_conn i c = 0"
  by (simp_all add: demo_connected_def fresh_buffer_def qp_count_def USE_QP_COUNT_def ib_ready_def demo_qp_def demo_conn_def)

theorem sync_ib_connects_witness:
  "\<exists>b'. fst (sync_ib demo_conn (replicate 8 11) (replicate 8 12) (replicate 256 13) (replicate 256 14) (0 # replicate 7 1) demo_connected) = Inr b' \<and>
     b_raddrs b' 0 = 0 \<and> b_raddrs b' 7 = 11"
proof -
  note f = demo_connected_facts
  let ?act = "0 # replicate 7 1 :: cint list" and ?b = demo_connected
  have p: "0 < b_num_ranks ?b" "b_num_ranks ?b \<le> 256" "length ?act = b_num_ranks ?b"
    "length (replicate 8 11 :: u64 list) = b_num_ranks ?b" "length (replicate 8 12 :: cint list) = b_num_ranks ?b"
    "length (replicate 256 13 :: cint list) = qp_count ?b" "length (replicate 256 14 :: cint list) = qp_count ?b"
    by (simp_all add: f)
  note t = sync_ib_connects [OF f(6) p(1,2) f(5,4) p(3-7)]
  obtain b' where b': "fst (sync_ib demo_conn (replicate 8 11) (replicate 8 12) (replicate 256 13) (replicate 256 14) ?act ?b) = Inr b'"
    "\<forall>j. b_raddrs b' j = (if j < b_num_ranks ?b \<and> ?act ! j \<noteq> 0
       then if j = b_rank ?b then mr_addr \<lparr>mr_addr = 4096, mr_lkey = 7, mr_rkey = 8\<rparr> else replicate 8 11 ! j else b_raddrs ?b j)"
    using t by (elim exE conjE) (rule that, simp only: fst_conv, assumption)
  have "b_raddrs ?b 0 = 0" by (simp add: demo_connected_def fresh_buffer_def)
  then have "b_raddrs b' 0 = 0" "b_raddrs b' 7 = 11" using b'(2) f(1,2) by simp_all
  then show ?thesis using b'(1) by blast
qed

text \<open>
  Vectors of remote queue-pair numbers and local identifiers with one entry per rank instead of one
  per queue pair (the form the callers in the test programs pass) are read out of bounds: with 8
  ranks, all active, the first eight queue pairs are connected and the ninth iteration is undefined
  behaviour.
\<close>

theorem sync_ib_short_qpns_undefined:
  assumes "\<forall>i c. cn_obj_modify e i c = 0" and "b_num_ranks b = 8" and "\<forall>i<qp_count b. ib_ready b i"
    and "length active = 8" and "\<forall>r<8. active ! r \<noteq> 0" and "length remote_qpns = 8" and "length remote_lids = 8"
  shows "fst (sync_ib e remote_addrs remote_keys remote_qpns remote_lids active b) = Inl Undefined \<and>
    map fst (snd (sync_ib e remote_addrs remote_keys remote_qpns remote_lids active b)) = concat (map (\<lambda>i. [i, i]) [0..<8])"
proof -
  have n: "qp_count b = 256" using assms(2) by (simp add: qp_count_def USE_QP_COUNT_def)
  have p: "peer_rank 8 i < 8" if "i < 256" for i using that peer_rank_less [of 8 i] by (simp add: USE_QP_COUNT_def)
  let ?c = "\<lambda>i. ib_commands e i (the (b_qps b ! i)) (remote_qpns ! i) (remote_lids ! i)"
  have "sync_ib_qp e b remote_qpns remote_lids active i = (Inr (), ?c i)" if "0 \<le> i" "i < 0 + 8" for i
    using that assms p [of i] n by (subst sync_ib_qp_ok) simp_all
  moreover have "sync_ib_qp e b remote_qpns remote_lids active (0 + 8) = (Inl Undefined, [])"
    using assms p [of 8] n by (auto simp: sync_ib_qp_def vec_def)
  ultimately have "conn_loop (sync_ib_qp e b remote_qpns remote_lids active) 0 256 = (Inl Undefined, concat (map ?c [0..<0 + 8]) @ [])"
    by (intro conn_loop_fails) simp_all
  then show ?thesis by (simp add: sync_ib_def sync_with_def n ib_commands_def map_concat comp_def)
qed

theorem sync_ib_short_qpns_undefined_witness:
  "fst (sync_ib demo_conn (replicate 8 11) (replicate 8 12) (replicate 8 13) (replicate 8 14) (replicate 8 1) demo_connected) = Inl Undefined"
  using sync_ib_short_qpns_undefined [OF demo_connected_facts(6,1,5), of "replicate 8 1" "replicate 8 13" "replicate 8 14"
      "replicate 8 11" "replicate 8 12"] by simp

text \<open>
  When the fast path is chosen although the NIC could not be set up, the kernels can reach every
  active rank over NVLink: without fabric memory, after the exchange of handles the flag of each
  active rank is set, its peer pointer is not null, and all ranks are on one node.
\<close>

theorem fast_path_without_nic:
  assumes "sync_nvlink_ipc_handles e remote_handles active b = Inr b'" and "\<not> b_use_fabric b"
    and "b_ibgda_disabled b" and "use_fast_path b'"
  shows "\<exists>device_count. nv_device_count e = Some device_count \<and> b_num_ranks b \<le> device_count \<and>
    (\<forall>i<b_num_ranks b. active ! i \<noteq> 0 \<longrightarrow> b_nvlink_available b' i \<and> b_ipc_dev b' i \<noteq> 0)"
proof -
  from assms(1,2) obtain dc nv ptrs p2p where dc: "nv_device_count e = Some dc" "dc \<noteq> 0" "b_rank b < b_num_ranks b"
    and ipc: "nvl_ipc e dc remote_handles active b ((\<lambda>i. i = b_rank b), b_ipc_host b) = Inr ((nv, ptrs), p2p)"
    and b': "b' = b\<lparr>b_ipc_host := ptrs, b_p2p_all := p2p, b_nvlink_available := nv, b_ipc_dev := ptrs\<rparr>"
    by (auto simp: sync_nvlink_ipc_handles_def Let_def split: option.splits if_splits sum.splits)
  have p2p using assms(3,4) b' by (simp add: use_fast_path_def)
  then have all: "all_reachable (nv, ptrs) active 0 (b_num_ranks b) = Inr True"
    and one: "\<not> (b_num_ranks b > 1 \<and> 0 div dc \<noteq> (b_num_ranks b - 1) div dc)"
    using ipc by (auto simp: nvl_ipc_def Let_def split: sum.splits if_splits)
  have "b_num_ranks b \<le> dc"
  proof (cases "b_num_ranks b > 1")
    case True
    then have "(b_num_ranks b - 1) div dc = 0" using one by simp
    then show ?thesis using dc(2) by (auto simp: div_eq_0_iff)
  next
    case False
    then show ?thesis using dc(2,3) by simp
  qed
  then show ?thesis using dc(1) all_reachable_iff [OF all] b' by auto
qed

definition demo_nvl :: nvl_env where
  "demo_nvl = \<lparr>nv_device_count = Some 8, nv_handle_size = 64, nv_can_access_peer = (\<lambda>_. True), nv_enable_peer_access = (\<lambda>_. True),
     nv_open_handle = (\<lambda>_. Some 65536), nv_copy_flags_ok = True, nv_copy_ptrs_ok = True\<rparr>"

definition demo_no_nic :: ep_buffer where
  "demo_no_nic = (fresh_buffer 0 2 0 1048576 4096 False 0)\<lparr>b_ibgda_disabled := True\<rparr>"

lemma two_steps:
  "nvl_loop f active i 2 s = (case vec active i of
      Inl a \<Rightarrow> Inl a
    | Inr m \<Rightarrow> nvl_loop f active (Suc i) 1 (if m = 0 then s else f i s))"
  "all_reachable s active i 2 = (case vec active i of
      Inl a \<Rightarrow> Inl a
    | Inr m \<Rightarrow> if m = 0 then all_reachable s active (Suc i) 1
               else if \<not> fst s i \<or> snd s i = 0 then Inr False else all_reachable s active (Suc i) 1)"
  by (simp_all add: numeral_2_eq_2 split: sum.split)

lemma demo_handles:
  "sync_nvlink_ipc_handles demo_nvl [h0, h1] [1, 1] demo_no_nic =
     Inr (demo_no_nic\<lparr>b_nvlink_available := (\<lambda>i. i = 0 \<or> i = 1),
        b_ipc_host := (\<lambda>_. 0)(0 := 4096, 1 := if length h1 < 16 then 0 else 65536),
        b_ipc_dev := (\<lambda>_. 0)(0 := 4096, 1 := if length h1 < 16 then 0 else 65536), b_p2p_all := \<not> length h1 < 16\<rparr>)"
  by (simp add: sync_nvlink_ipc_handles_def demo_nvl_def demo_no_nic_def fresh_buffer_def nvl_ipc_def nvl_peer_def vec_def
      num_int32s_def Let_def two_steps fun_eq_iff)

theorem fast_path_without_nic_witness:
  "\<exists>b'. sync_nvlink_ipc_handles demo_nvl [[], replicate 16 0] [1, 1] demo_no_nic = Inr b' \<and>
     b_nvlink_available b' 1 \<and> b_ipc_dev b' 1 \<noteq> 0"
proof -
  let ?b = "demo_no_nic\<lparr>b_nvlink_available := (\<lambda>i. i = 0 \<or> i = 1), b_ipc_host := (\<lambda>_. 0)(0 := 4096, 1 := 65536),
        b_ipc_dev := (\<lambda>_. 0)(0 := 4096, 1 := 65536), b_p2p_all := True\<rparr>"
  have r: "sync_nvlink_ipc_handles demo_nvl [[], replicate 16 0] [1, 1] demo_no_nic = Inr ?b"
    using demo_handles [of "[]" "replicate 16 0"] by simp
  moreover have "use_fast_path ?b" "\<not> b_use_fabric demo_no_nic" "b_ibgda_disabled demo_no_nic" "b_num_ranks demo_no_nic = 2"
    by (simp_all add: use_fast_path_def demo_no_nic_def fresh_buffer_def)
  ultimately show ?thesis using fast_path_without_nic [OF r] by auto
qed

text \<open>
  A rank whose handle is missing or too short keeps its NVLink flag with a null pointer: the exchange
  with a 15-integer handle succeeds, the flag of rank 1 is set, the pointer the kernels use for it
  is null, and because the NIC works the fast path is taken all the same.
\<close>

theorem nvlink_flag_without_pointer:
  "\<exists>b'. sync_nvlink_ipc_handles demo_nvl [[], replicate 15 0] [1, 1] (demo_no_nic\<lparr>b_ibgda_disabled := False\<rparr>) = Inr b' \<and>
     use_fast_path b' \<and> b_nvlink_available b' 1 \<and> b_ipc_dev b' 1 = 0"
  by (simp add: sync_nvlink_ipc_handles_def demo_nvl_def demo_no_nic_def fresh_buffer_def nvl_ipc_def nvl_peer_def vec_def
      num_int32s_def Let_def two_steps use_fast_path_def)

end
