(* ===== verification/Step_Systems.thy ===== *)
theory Step_Systems
  imports Main
begin

text \<open>
  Two contracts that the protocols of the library share: a step relation with an invariant, and a step
  relation whose steps use up work. The lemmas about runs are proved once here and used through the
  interpretations on the kernels' step relations.
\<close>

locale step_system =
  fixes step :: "'s \<Rightarrow> 's \<Rightarrow> bool" and start :: "'s \<Rightarrow> bool" and inv :: "'s \<Rightarrow> bool"
  assumes inv_start: "start s \<Longrightarrow> inv s" and inv_step: "inv s \<Longrightarrow> step s s' \<Longrightarrow> inv s'"
begin

lemma reachable_inv:
  assumes "step\<^sup>*\<^sup>* s s'" and "start s"
  shows "inv s'"
  using assms by (induction rule: rtranclp_induct) (auto intro: inv_start inv_step)

end

locale draining =
  fixes step :: "'s \<Rightarrow> 's \<Rightarrow> bool" and work :: "'s \<Rightarrow> nat"
  assumes work_step: "step s s' \<Longrightarrow> work s' < work s"
begin

lemma reaches_end: "\<exists>s'. step\<^sup>*\<^sup>* s s' \<and> (\<forall>s''. \<not> step s' s'')"
proof (induction "work s" arbitrary: s rule: less_induct)
  case less
  show ?case
  proof (cases "\<forall>s'. \<not> step s s'")
    case False
    then obtain s1 where s1: "step s s1" by blast
    from less [OF work_step [OF s1]] obtain s' where "step\<^sup>*\<^sup>* s1 s'" "\<forall>s''. \<not> step s' s''" by blast
    then show ?thesis using s1 by (meson converse_rtranclp_into_rtranclp)
  qed blast
qed

lemma run_bounded:
  assumes "(step ^^ n) s s'"
  shows "n + work s' \<le> work s"
  using assms
proof (induction n arbitrary: s')
  case (Suc n)
  then obtain s1 where "(step ^^ n) s s1" "step s1 s'" by auto
  then show ?case using Suc.IH [of s1] work_step [of s1 s'] by linarith
qed simp

end

text \<open>A sum gets smaller when one summand does.\<close>

lemma sum_less_at:
  fixes f g :: "nat \<Rightarrow> nat"
  assumes "e < n" and "g e < f e" and "\<And>i. i \<noteq> e \<Longrightarrow> g i = f i"
  shows "(\<Sum>i<n. g i) < (\<Sum>i<n. f i)"
proof (rule sum_strict_mono_ex1)
  show "\<forall>i\<in>{..<n}. g i \<le> f i" using assms(2,3) by (metis le_eq_less_or_eq)
  show "\<exists>i\<in>{..<n}. g i < f i" using assms(1,2) by auto
qed simp

lemma double_sum_at:
  fixes f g :: "nat \<Rightarrow> nat \<Rightarrow> nat"
  assumes "r < A" and "t < B" and "g r t < f r t" and "\<And>i j. (i, j) \<noteq> (r, t) \<Longrightarrow> g i j = f i j"
  shows "(\<Sum>i<A. \<Sum>j<B. g i j) < (\<Sum>i<A. \<Sum>j<B. f i j)"
  by (rule sum_less_at [OF assms(1) sum_less_at [OF assms(2)]]) (use assms(3,4) in simp_all)

end
