(* ===== verification/Dispatch_Send.thy ===== *)
theory Dispatch_Send
  imports Warp_Utils Buffer_Layout Ep_Helpers Device_Post Step_Systems
begin

text \<open>
  The send phase of the \<^verbatim>\<open>dispatch\<close> kernel (\<^verbatim>\<open>src/ep_kernel.cu\<close>): which token goes to which expert, where
  a message is written and by which transport, and the protocol of the two counters of each expert
  between the sending warps, the cleaning and counting warps and the thread that sends the signal.
  The protocol is a step relation over the atomic accesses to global memory, so a reachable state is
  any interleaving of any number of blocks.
\<close>

section \<open>Launch constants and input\<close>

abbreviation FINISHED_SUM_TAG :: cint where "FINISHED_SUM_TAG \<equiv> 1024"
abbreviation kNumWarpGroups :: nat where "kNumWarpGroups \<equiv> 8"
abbreviation kNumWarpsPerGroup :: nat where "kNumWarpsPerGroup \<equiv> 4"

record dispatch_in =
  num_tokens :: nat
  num_topk :: nat
  num_experts :: nat
  num_ranks :: nat
  rank :: nat
  topk_idx :: "nat \<Rightarrow> u64"

definition num_local_experts :: "dispatch_in \<Rightarrow> nat" where
  "num_local_experts D = num_experts D div num_ranks D"

text \<open>The grid: blocks, and the expert a warp group is responsible for.\<close>

definition num_sms :: "nat \<Rightarrow> nat" where
  "num_sms experts = nat (cell_div (int experts) (int kNumWarpGroups))"

definition responsible_expert_idx :: "nat \<Rightarrow> nat \<Rightarrow> nat" where
  "responsible_expert_idx sm_id warp_group_id = sm_id * kNumWarpGroups + warp_group_id"

text \<open>The tokens of block \<open>sm_id\<close>, in the order of its loop.\<close>

function block_tokens :: "nat \<Rightarrow> nat \<Rightarrow> nat \<Rightarrow> nat list" where
  "block_tokens sms n token_idx =
     (if token_idx < n \<and> 0 < sms then token_idx # block_tokens sms n (token_idx + sms) else [])"
  by pat_completeness auto
termination by (relation "measure (\<lambda>(_, n, i). n - i)") auto

declare block_tokens.simps [simp del]

text \<open>
  The expert of warp \<open>k\<close> for a token: the truncated 64-bit entry, or -1 for a warp without an entry.
\<close>

definition dst_expert_idx :: "dispatch_in \<Rightarrow> nat \<Rightarrow> nat \<Rightarrow> int" where
  "dst_expert_idx D token_idx warp_id =
     (if warp_id < num_topk D then sint (ucast (topk_idx D (token_idx * num_topk D + warp_id)) :: cint) else - 1)"

definition dst_rank_of :: "dispatch_in \<Rightarrow> nat \<Rightarrow> nat" where
  "dst_rank_of D expert = expert div num_local_experts D"

definition local_expert_of :: "dispatch_in \<Rightarrow> nat \<Rightarrow> nat" where
  "local_expert_of D expert = expert mod num_local_experts D"

section \<open>The counting warp\<close>

text \<open>
  Lane \<open>lane_id\<close> counts the entries \<open>lane_id\<close>, \<open>lane_id + 32\<close>, \dots that name the expert; the lanes are
  summed by \<^verbatim>\<open>warp_reduce_sum\<close>.
\<close>

function lane_count :: "(nat \<Rightarrow> int) \<Rightarrow> nat \<Rightarrow> int \<Rightarrow> nat \<Rightarrow> cint" where
  "lane_count idx n expert i =
     (if i < n then (if idx i = expert then 1 else 0) + lane_count idx n expert (i + 32) else 0)"
  by pat_completeness auto
termination by (relation "measure (\<lambda>(_, n, _, i). n - i)") auto

declare lane_count.simps [simp del]

definition num_tokens_sent :: "dispatch_in \<Rightarrow> nat \<Rightarrow> cint" where
  "num_tokens_sent D expert =
     warp_reduce_sum (lane_count (\<lambda>i. sint (ucast (topk_idx D i) :: cint)) (num_tokens D * num_topk D) (int expert)) 0"

lemma lane_count_eq:
  "lane_count idx n e i = of_nat (card {j. i \<le> j \<and> j < n \<and> j mod 32 = i mod 32 \<and> idx j = e})"
proof (induction idx n e i rule: lane_count.induct)
  case (1 idx n e i)
  show ?case
  proof (cases "i < n")
    case True
    let ?S = "\<lambda>i. {j. i \<le> j \<and> j < n \<and> j mod 32 = i mod 32 \<and> idx j = e}"
    have le: "i \<le> j \<and> j mod 32 = i mod 32 \<longleftrightarrow> j = i \<or> i + 32 \<le> j \<and> j mod 32 = i mod 32" for j :: nat
    proof
      assume a: "i \<le> j \<and> j mod 32 = i mod 32"
      then have "32 dvd j - i" using mod_eq_dvd_iff_nat [of i j 32] by simp
      then obtain k where "j - i = 32 * k" ..
      then have "j = i + 32 * k" using a by arith
      then show "j = i \<or> i + 32 \<le> j \<and> j mod 32 = i mod 32" using a by (cases "k = 0") simp_all
    qed auto
    have "i + 32 \<le> j" if "i \<le> j" "j mod 32 = i mod 32" "j \<noteq> i" for j using le [of j] that by blast
    then have "?S i = (if idx i = e then {i} else {}) \<union> ?S (i + 32)" using True by auto
    moreover have "finite (?S (i + 32))" "i \<notin> ?S (i + 32)" by auto
    ultimately have "card (?S i) = (if idx i = e then 1 else 0) + card (?S (i + 32))" by simp
    then show ?thesis using True 1 by (subst lane_count.simps) simp
  next
    case False
    then have "{j. i \<le> j \<and> j < n \<and> j mod 32 = i mod 32 \<and> idx j = e} = {}" by auto
    then show ?thesis using False by (subst lane_count.simps) (simp only: if_False card.empty semiring_1_class.of_nat_0)
  qed
qed

lemma warp_count:
  "warp_reduce_sum (lane_count idx n e) 0 = of_nat (card {j. j < n \<and> idx j = e})"
proof -
  let ?S = "\<lambda>l. {j. l \<le> j \<and> j < n \<and> j mod 32 = l mod 32 \<and> idx j = e}"
  have "{j. j < n \<and> idx j = e} = (\<Union>l<32. ?S l)"
    by (auto intro!: bexI [of _ "_ mod 32"])
  moreover have "card (\<Union>l<32. ?S l) = (\<Sum>l<32. card (?S l))"
  proof (rule card_UN_disjoint)
    show "\<forall>l\<in>{..<32}. \<forall>l'\<in>{..<32}. l \<noteq> l' \<longrightarrow> ?S l \<inter> ?S l' = {}" by auto
  qed auto
  ultimately show ?thesis by (simp add: warp_reduce_sum_eq lane_count_eq)
qed

section \<open>The protocol\<close>

text \<open>
  A work item is an entry \<open>(token, k)\<close> of \<^verbatim>\<open>topk_idx\<close> that is not negative, by the number in it; the warp that
  handles it takes a slot, writes the message and reports that it has finished. The code does not compare the
  number with the number of experts.
\<close>

type_synonym item = "nat \<times> nat"

definition items :: "dispatch_in \<Rightarrow> nat \<Rightarrow> item set" where
  "items D expert = {(t, k). t < num_tokens D \<and> k < num_topk D \<and> k < 31 \<and> dst_expert_idx D t k = int expert}"

definition block_of_token :: "dispatch_in \<Rightarrow> nat \<Rightarrow> nat" where
  "block_of_token D token_idx = token_idx mod num_sms (num_experts D)"

datatype send_pc = Start | Slot cint | Written cint | Finished cint

datatype resp_pc = Waiting | Signalled | Reset

datatype act = Msg nat item cint | Signal nat cint

text \<open>
  The two counters of an expert are words of one workspace, the second array behind the first: the word
  \<^verbatim>\<open>atomic_counter_per_expert + idx\<close> is the word \<open>idx\<close> for every \<open>idx\<close>, and for an \<open>idx\<close> from the number of
  experts on it is a word of the second array or behind it.
\<close>

record dispatch_state =
  workspace_words :: "nat \<Rightarrow> cint"
  recv_count :: "nat \<Rightarrow> cint"
  send_at :: "item \<Rightarrow> send_pc"
  zeroed :: "nat \<Rightarrow> bool"
  tagged :: "nat \<Rightarrow> bool"
  counted :: "nat \<Rightarrow> cint option"
  resp_at :: "nat \<Rightarrow> resp_pc"
  acts :: "act list"

definition atomic_word :: "dispatch_in \<Rightarrow> nat \<Rightarrow> nat" where
  "atomic_word D idx = idx"

definition finish_word :: "dispatch_in \<Rightarrow> nat \<Rightarrow> nat" where
  "finish_word D idx = num_experts D + idx"

abbreviation atomic_counter :: "dispatch_in \<Rightarrow> dispatch_state \<Rightarrow> nat \<Rightarrow> cint" where
  "atomic_counter D s idx \<equiv> workspace_words s (atomic_word D idx)"

abbreviation finish_counter :: "dispatch_in \<Rightarrow> dispatch_state \<Rightarrow> nat \<Rightarrow> cint" where
  "finish_counter D s idx \<equiv> workspace_words s (finish_word D idx)"

text \<open>\<^verbatim>\<open>atomicAdd\<close> and \<^verbatim>\<open>atomic_add_release_global\<close> on a word of the workspace.\<close>

definition add_word :: "nat \<Rightarrow> cint \<Rightarrow> (nat \<Rightarrow> cint) \<Rightarrow> nat \<Rightarrow> cint" where
  "add_word i v ws = ws(i := ws i + v)"

text \<open>
  The named barrier in the token loop: a warp takes its slot for a token only when every sending warp
  of its block has reported the block's earlier tokens.
\<close>

definition earlier_sent :: "dispatch_in \<Rightarrow> dispatch_state \<Rightarrow> nat \<Rightarrow> bool" where
  "earlier_sent D s token_idx \<longleftrightarrow>
     (\<forall>t<token_idx. block_of_token D t = block_of_token D token_idx \<longrightarrow>
        (\<forall>k<num_topk D. \<forall>e. (t, k) \<in> items D e \<longrightarrow> (\<exists>v. send_at s (t, k) = Finished v)))"

text \<open>
  The \<^verbatim>\<open>__syncthreads\<close> before the wait: the warps of the block have sent its tokens and counted its
  experts, and the cleaning warp of block 0 has tagged every counter.
\<close>

definition block_synced :: "dispatch_in \<Rightarrow> dispatch_state \<Rightarrow> nat \<Rightarrow> bool" where
  "block_synced D s b \<longleftrightarrow>
     (\<forall>t<num_tokens D. block_of_token D t = b \<longrightarrow>
        (\<forall>k<num_topk D. \<forall>e. (t, k) \<in> items D e \<longrightarrow> (\<exists>v. send_at s (t, k) = Finished v))) \<and>
     (\<forall>i<num_experts D. i div kNumWarpGroups = b \<longrightarrow> counted s i \<noteq> None) \<and>
     (b = 0 \<longrightarrow> (\<forall>i<num_experts D. tagged s i))"

text \<open>
  One rule per atomic access: \<open>take_slot\<close>, \<open>write_msg\<close> and \<open>finish\<close> of a sending warp, for every number that an
  entry holds; \<open>zero\<close> and
  \<open>tag\<close> of the cleaning warp, with its \<^verbatim>\<open>__syncwarp\<close> between the two loops; \<open>count\<close> of the counting
  warp; \<open>signal\<close> and \<open>reset\<close> of the responsible thread. The last warp of every block starts with
  \<^verbatim>\<open>EP_DEVICE_ASSERT(num_sms > 1)\<close>: it does nothing in a launch of one block. The loop around the load
  of the finish counter leaves at the value \<^verbatim>\<open>2 * FINISHED_SUM_TAG\<close>; a load that reads another value
  changes nothing and is left out.
\<close>

inductive dispatch_step :: "dispatch_in \<Rightarrow> dispatch_state \<Rightarrow> dispatch_state \<Rightarrow> bool" for D where
  take_slot: "w \<in> items D e \<Longrightarrow> send_at s w = Start \<Longrightarrow> earlier_sent D s (fst w) \<Longrightarrow>
    dispatch_step D s (s\<lparr>send_at := (send_at s)(w := Slot (atomic_counter D s e)),
      workspace_words := add_word (atomic_word D e) 1 (workspace_words s)\<rparr>)"
| write_msg: "w \<in> items D e \<Longrightarrow> send_at s w = Slot v \<Longrightarrow>
    dispatch_step D s (s\<lparr>send_at := (send_at s)(w := Written v), acts := acts s @ [Msg e w v]\<rparr>)"
| finish: "w \<in> items D e \<Longrightarrow> send_at s w = Written v \<Longrightarrow>
    dispatch_step D s (s\<lparr>send_at := (send_at s)(w := Finished v), workspace_words := add_word (finish_word D e) 1 (workspace_words s)\<rparr>)"
| zero: "1 < num_sms (num_experts D) \<Longrightarrow> i < num_experts D \<Longrightarrow> \<not> zeroed s i \<Longrightarrow> dispatch_step D s (s\<lparr>zeroed := (zeroed s)(i := True)\<rparr>)"
| tag: "1 < num_sms (num_experts D) \<Longrightarrow> i < num_experts D \<Longrightarrow> \<forall>j<num_experts D. zeroed s j \<Longrightarrow> \<not> tagged s i \<Longrightarrow>
    dispatch_step D s (s\<lparr>tagged := (tagged s)(i := True), workspace_words := add_word (finish_word D i) FINISHED_SUM_TAG (workspace_words s)\<rparr>)"
| count: "1 < num_sms (num_experts D) \<Longrightarrow> e < num_experts D \<Longrightarrow> counted s e = None \<Longrightarrow>
    dispatch_step D s (s\<lparr>counted := (counted s)(e \<mapsto> num_tokens_sent D e),
      workspace_words := add_word (finish_word D e) (FINISHED_SUM_TAG - num_tokens_sent D e) (workspace_words s)\<rparr>)"
| signal: "e < num_experts D \<Longrightarrow> block_synced D s (e div kNumWarpGroups) \<Longrightarrow> resp_at s e = Waiting \<Longrightarrow> counted s e = Some n \<Longrightarrow>
    finish_counter D s e = FINISHED_SUM_TAG * 2 \<Longrightarrow>
    dispatch_step D s (s\<lparr>resp_at := (resp_at s)(e := Signalled), acts := acts s @ [Signal e (- n - 1)]\<rparr>)"
| reset: "e < num_experts D \<Longrightarrow> resp_at s e = Signalled \<Longrightarrow>
    dispatch_step D s (s\<lparr>resp_at := (resp_at s)(e := Reset),
      workspace_words := (workspace_words s)(atomic_word D e := 0, finish_word D e := 0),
      recv_count := if dst_rank_of D e = 0 then (recv_count s)(local_expert_of D e := 0) else recv_count s\<rparr>)"

text \<open>
  A launch starts with the workspace as the last launch (or the constructor's \<^verbatim>\<open>cudaMemset\<close>) left it, and
  with whatever is in \<^verbatim>\<open>packed_recv_count\<close>.
\<close>

definition dispatch_init :: "(nat \<Rightarrow> cint) \<Rightarrow> dispatch_state" where
  "dispatch_init counts = \<lparr>workspace_words = (\<lambda>_. 0), recv_count = counts, send_at = (\<lambda>_. Start), zeroed = (\<lambda>_. False),
     tagged = (\<lambda>_. False), counted = (\<lambda>_. None), resp_at = (\<lambda>_. Waiting), acts = []\<rparr>"

section \<open>Work items\<close>

lemma finite_items [simp]: "finite (items D e)"
  by (rule finite_subset [of _ "{..<num_tokens D} \<times> {..<num_topk D}"]) (auto simp: items_def)

lemma items_disjoint: "w \<in> items D e \<Longrightarrow> w \<in> items D e' \<Longrightarrow> e = e'"
  by (auto simp: items_def)

text \<open>
  What the kernel takes for granted: the ranks share the experts evenly, and no entry names an expert that does
  not exist.
\<close>

definition entries_ok :: "dispatch_in \<Rightarrow> bool" where
  "entries_ok D \<longleftrightarrow> 0 < num_ranks D \<and> num_ranks D dvd num_experts D \<and>
     (\<forall>t<num_tokens D. \<forall>k<num_topk D. dst_expert_idx D t k < int (num_experts D))"

lemma items_in_range:
  assumes "entries_ok D" and "w \<in> items D e"
  shows "e < num_experts D"
proof -
  have "dst_expert_idx D (fst w) (snd w) = int e" "fst w < num_tokens D" "snd w < num_topk D"
    using assms(2) by (auto simp: items_def)
  then have "int e < int (num_experts D)" using assms(1) unfolding entries_ok_def by metis
  then show ?thesis by simp
qed

text \<open>The words of different experts, and the two words of an expert that exists, are different.\<close>

lemma add_word_apply: "add_word i v ws j = (if j = i then ws j + v else ws j)"
  by (simp add: add_word_def)

lemma word_inj [simp]:
  "atomic_word D e = atomic_word D e' \<longleftrightarrow> e = e'" "finish_word D e = finish_word D e' \<longleftrightarrow> e = e'"
  by (simp_all add: atomic_word_def finish_word_def)

lemma words_apart [simp]:
  assumes "e < num_experts D"
  shows "atomic_word D e \<noteq> finish_word D e'" "finish_word D e' \<noteq> atomic_word D e"
  using assms by (simp_all add: atomic_word_def finish_word_def)

text \<open>The counting warp counts the work items.\<close>

lemma num_tokens_sent_eq:
  assumes "num_topk D \<le> 31"
  shows "num_tokens_sent D e = of_nat (card (items D e))"
proof -
  let ?K = "num_topk D"
  let ?S = "{j. j < num_tokens D * ?K \<and> sint (ucast (topk_idx D j) :: cint) = int e}"
  have "bij_betw (\<lambda>(t, k). t * ?K + k) (items D e) ?S"
  proof (rule bij_betw_byWitness [where f' = "\<lambda>j. (j div ?K, j mod ?K)"])
    show "(\<lambda>(t, k). t * ?K + k) ` items D e \<subseteq> ?S"
      by (auto simp: items_def dst_expert_idx_def mixed_radix_less)
    show "(\<lambda>j. (j div ?K, j mod ?K)) ` ?S \<subseteq> items D e"
    proof
      fix w assume "w \<in> (\<lambda>j. (j div ?K, j mod ?K)) ` ?S"
      then obtain j where j: "j \<in> ?S" "w = (j div ?K, j mod ?K)" by blast
      then have "0 < ?K" by (cases "?K = 0") auto
      moreover have "j div ?K < num_tokens D" using j by (simp add: less_mult_imp_div_less)
      moreover have "j mod ?K < 31" using \<open>0 < ?K\<close> assms by (meson mod_less_divisor order_less_le_trans)
      ultimately show "w \<in> items D e" using j by (simp add: items_def dst_expert_idx_def)
    qed
  qed (auto simp: items_def)
  then have "card (items D e) = card ?S" by (rule bij_betw_same_card)
  then show ?thesis by (simp add: num_tokens_sent_def warp_count)
qed

lemma card_items_le: "card (items D e) \<le> num_tokens D * num_topk D"
proof -
  have "card (items D e) \<le> card ({..<num_tokens D} \<times> {..<num_topk D})"
    by (intro card_mono) (auto simp: items_def)
  then show ?thesis by simp
qed

section \<open>The invariant\<close>

fun slot_at :: "send_pc \<Rightarrow> cint option" where
  "slot_at Start = None"
| "slot_at (Slot v) = Some v"
| "slot_at (Written v) = Some v"
| "slot_at (Finished v) = Some v"

fun has_written :: "send_pc \<Rightarrow> bool" where
  "has_written (Written v) = True"
| "has_written (Finished v) = True"
| "has_written _ = False"

fun has_finished :: "send_pc \<Rightarrow> bool" where
  "has_finished (Finished v) = True"
| "has_finished _ = False"

definition started :: "dispatch_in \<Rightarrow> dispatch_state \<Rightarrow> nat \<Rightarrow> item set" where
  "started D s e = {w \<in> items D e. send_at s w \<noteq> Start}"

definition done_items :: "dispatch_in \<Rightarrow> dispatch_state \<Rightarrow> nat \<Rightarrow> item set" where
  "done_items D s e = {w \<in> items D e. has_finished (send_at s w)}"

text \<open>The slots taken for an expert are distinct and exactly the first ones.\<close>

definition slot_of_item :: "dispatch_state \<Rightarrow> item \<Rightarrow> nat" where
  "slot_of_item s w = unat (the (slot_at (send_at s w)))"

definition slots_ok :: "dispatch_in \<Rightarrow> dispatch_state \<Rightarrow> nat \<Rightarrow> bool" where
  "slots_ok D s e \<longleftrightarrow> inj_on (slot_of_item s) (started D s e) \<and>
     (\<forall>w\<in>started D s e. slot_of_item s w < card (started D s e))"

definition counters_ok :: "dispatch_in \<Rightarrow> dispatch_state \<Rightarrow> nat \<Rightarrow> bool" where
  "counters_ok D s e \<longleftrightarrow>
     (if resp_at s e = Reset then atomic_counter D s e = 0 \<and> finish_counter D s e = 0
      else atomic_counter D s e = of_nat (card (started D s e)) \<and>
        finish_counter D s e = of_nat (card (done_items D s e)) + (if tagged s e then FINISHED_SUM_TAG else 0) +
          (if counted s e = None then 0 else FINISHED_SUM_TAG - of_nat (card (items D e))))"

definition complete :: "dispatch_in \<Rightarrow> dispatch_state \<Rightarrow> nat \<Rightarrow> bool" where
  "complete D s e \<longleftrightarrow> done_items D s e = items D e \<and> tagged s e \<and> counted s e \<noteq> None"

fun act_expert :: "act \<Rightarrow> nat" where
  "act_expert (Msg e w v) = e"
| "act_expert (Signal e v) = e"

text \<open>The messages and the signal of an expert, as far as they have been sent, in order.\<close>

definition acts_ok :: "dispatch_in \<Rightarrow> dispatch_state \<Rightarrow> nat \<Rightarrow> bool" where
  "acts_ok D s e \<longleftrightarrow> (\<exists>ms. filter (\<lambda>a. act_expert a = e) (acts s) =
       map (\<lambda>w. Msg e w (the (slot_at (send_at s w)))) ms @
       (if resp_at s e = Waiting then [] else [Signal e (- of_nat (card (items D e)) - 1)]) \<and>
     distinct ms \<and> set ms = {w \<in> items D e. has_written (send_at s w)})"

definition dispatch_inv :: "dispatch_in \<Rightarrow> dispatch_state \<Rightarrow> bool" where
  "dispatch_inv D s \<longleftrightarrow> (\<forall>e<num_experts D.
     slots_ok D s e \<and> counters_ok D s e \<and> acts_ok D s e \<and> (resp_at s e \<noteq> Waiting \<longrightarrow> complete D s e) \<and>
     (\<forall>n. counted s e = Some n \<longrightarrow> n = of_nat (card (items D e))) \<and>
     (tagged s e \<longrightarrow> (\<forall>j<num_experts D. zeroed s j)))"

lemma dispatch_inv_init: "dispatch_inv D (dispatch_init counts)"
  by (simp add: dispatch_inv_def dispatch_init_def slots_ok_def started_def counters_ok_def done_items_def acts_ok_def)

text \<open>A step touches one expert; for the others nothing the invariant looks at changes.\<close>

definition expert_inv :: "dispatch_in \<Rightarrow> dispatch_state \<Rightarrow> nat \<Rightarrow> bool" where
  "expert_inv D s e \<longleftrightarrow> slots_ok D s e \<and> counters_ok D s e \<and> acts_ok D s e \<and> (resp_at s e \<noteq> Waiting \<longrightarrow> complete D s e) \<and>
     (\<forall>n. counted s e = Some n \<longrightarrow> n = of_nat (card (items D e)))"

lemma dispatch_inv_alt:
  "dispatch_inv D s \<longleftrightarrow> (\<forall>e<num_experts D. expert_inv D s e \<and> (tagged s e \<longrightarrow> (\<forall>j<num_experts D. zeroed s j)))"
  by (auto simp: dispatch_inv_def expert_inv_def)

lemma acts_ok_cong:
  assumes "\<And>w. w \<in> items D e \<Longrightarrow> has_written (send_at s' w) = has_written (send_at s w)"
    and "\<And>w. w \<in> items D e \<Longrightarrow> has_written (send_at s w) \<Longrightarrow> slot_at (send_at s' w) = slot_at (send_at s w)"
    and "(resp_at s' e = Waiting) = (resp_at s e = Waiting)"
    and "filter (\<lambda>a. act_expert a = e) (acts s') = filter (\<lambda>a. act_expert a = e) (acts s)"
  shows "acts_ok D s' e \<longleftrightarrow> acts_ok D s e"
proof -
  have wr: "{w \<in> items D e. has_written (send_at s' w)} = {w \<in> items D e. has_written (send_at s w)}"
    using assms(1) by auto
  have "map (\<lambda>w. Msg e w (the (slot_at (send_at s' w)))) ms = map (\<lambda>w. Msg e w (the (slot_at (send_at s w)))) ms"
    if "set ms = {w \<in> items D e. has_written (send_at s w)}" for ms
    using that assms(2) by (intro map_cong) auto
  then have "(distinct ms \<and> set ms = {w \<in> items D e. has_written (send_at s' w)} \<and> xs = map (\<lambda>w. Msg e w (the (slot_at (send_at s' w)))) ms @ ys) \<longleftrightarrow>
      (distinct ms \<and> set ms = {w \<in> items D e. has_written (send_at s w)} \<and> xs = map (\<lambda>w. Msg e w (the (slot_at (send_at s w)))) ms @ ys)"
    for ms xs ys unfolding wr by auto
  then show ?thesis unfolding acts_ok_def assms(3,4) by (metis (no_types, lifting))
qed

lemma expert_inv_cong:
  assumes "\<forall>w\<in>items D e. send_at s' w = send_at s w" and "atomic_counter D s' e = atomic_counter D s e"
    and "finish_counter D s' e = finish_counter D s e" and "tagged s' e = tagged s e" and "counted s' e = counted s e"
    and "resp_at s' e = resp_at s e"
    and "filter (\<lambda>a. act_expert a = e) (acts s') = filter (\<lambda>a. act_expert a = e) (acts s)"
  shows "expert_inv D s' e \<longleftrightarrow> expert_inv D s e"
proof -
  have st: "started D s' e = started D s e" and dn: "done_items D s' e = done_items D s e"
    and wr: "{w \<in> items D e. has_written (send_at s' w)} = {w \<in> items D e. has_written (send_at s w)}"
    using assms(1) by (auto simp: started_def done_items_def)
  have "slots_ok D s' e \<longleftrightarrow> slots_ok D s e"
    unfolding slots_ok_def st using assms(1) by (auto simp: started_def slot_of_item_def inj_on_def)
  moreover have "acts_ok D s' e \<longleftrightarrow> acts_ok D s e" using assms by (intro acts_ok_cong) simp_all
  ultimately show ?thesis
    by (simp add: expert_inv_def counters_ok_def complete_def st dn assms)
qed

lemma expert_inv_started_le:
  assumes "expert_inv D s e" and "w \<in> items D e" and "send_at s w = Start"
  shows "card (started D s e) < card (items D e)" and "resp_at s e = Waiting"
proof -
  show "card (started D s e) < card (items D e)"
    by (rule psubset_card_mono) (use assms in \<open>auto simp: started_def\<close>)
  have "w \<notin> done_items D s e" using assms(3) by (simp add: done_items_def)
  then show "resp_at s e = Waiting"
    using assms(1,2) by (auto simp: expert_inv_def complete_def)
qed

lemma take_slot_inv:
  assumes inv: "expert_inv D s e" and w: "w \<in> items D e" "send_at s w = Start" and small: "card (items D e) < 2 ^ 31"
    and e: "e < num_experts D"
  shows "expert_inv D (s\<lparr>send_at := (send_at s)(w := Slot (atomic_counter D s e)),
      workspace_words := add_word (atomic_word D e) 1 (workspace_words s)\<rparr>) e" (is "expert_inv D ?s e")
proof -
  let ?n = "card (started D s e)"
  have n: "?n < card (items D e)" and resp: "resp_at s e = Waiting" using expert_inv_started_le [OF inv w] by simp_all
  have cnt: "atomic_counter D s e = of_nat ?n" and un: "unat (of_nat ?n :: cint) = ?n"
    using inv resp n small by (simp_all add: expert_inv_def counters_ok_def unat_of_nat)
  have nin: "w \<notin> started D s e" using w by (simp add: started_def)
  have fin: "finite (started D s e)" by (simp add: started_def)
  have st: "started D ?s e = insert w (started D s e)" using w by (auto simp: started_def)
  have dn: "done_items D ?s e = done_items D s e" and wr: "{v \<in> items D e. has_written (send_at ?s v)} = {v \<in> items D e. has_written (send_at s v)}"
    using w by (auto simp: done_items_def)
  have sl: "slot_of_item ?s v = (if v = w then ?n else slot_of_item s v)" for v
    using cnt un by (simp add: slot_of_item_def)
  have "slots_ok D s e" using inv by (simp add: expert_inv_def)
  then have inj: "inj_on (slot_of_item s) (started D s e)" and lt: "\<forall>v\<in>started D s e. slot_of_item s v < ?n"
    by (simp_all add: slots_ok_def)
  have old: "slot_of_item ?s v = slot_of_item s v" if "v \<in> started D s e" for v using sl that nin by auto
  have inj': "inj_on (slot_of_item ?s) (started D s e)" using inj old by (simp add: inj_on_def)
  have "?n \<notin> slot_of_item ?s ` started D s e" using lt old by auto
  then have "slots_ok D ?s e"
    using inj' lt old nin fin sl [of w] unfolding slots_ok_def st by (auto simp: less_Suc_eq)
  moreover have "counters_ok D ?s e"
    using inv resp nin fin cnt e unfolding expert_inv_def counters_ok_def st dn by (simp add: add_word_apply)
  moreover have "acts_ok D ?s e"
    using inv w unfolding expert_inv_def by (subst acts_ok_cong [of D e _ s]) auto
  ultimately show ?thesis using inv resp by (simp add: expert_inv_def)
qed

lemma unfinished_waiting:
  assumes "expert_inv D s e" and "w \<in> items D e" and "\<not> has_finished (send_at s w)"
  shows "resp_at s e = Waiting" and "card (done_items D s e) < card (items D e)"
proof -
  have w: "w \<notin> done_items D s e" using assms(3) by (simp add: done_items_def)
  then show "resp_at s e = Waiting" using assms(1,2) by (auto simp: expert_inv_def complete_def)
  show "card (done_items D s e) < card (items D e)"
    by (rule psubset_card_mono) (use assms(2) w in \<open>auto simp: done_items_def\<close>)
qed

lemma write_msg_inv:
  assumes inv: "expert_inv D s e" and w: "w \<in> items D e" "send_at s w = Slot v"
  shows "expert_inv D (s\<lparr>send_at := (send_at s)(w := Written v), acts := acts s @ [Msg e w v]\<rparr>) e" (is "expert_inv D ?s e")
proof -
  define s' where "s' = ?s"
  have sel: "send_at s' = send_at ?s" "workspace_words s' = workspace_words ?s"
    "tagged s' = tagged ?s" "counted s' = counted ?s" "resp_at s' = resp_at ?s" "acts s' = acts ?s"
    by (simp_all only: s'_def)
  note sel = sel [simplified]
  have resp: "resp_at s e = Waiting" using unfinished_waiting(1) [OF inv w(1)] w(2) by simp
  have st: "started D s' e = started D s e" and dn: "done_items D s' e = done_items D s e"
    using w by (auto simp: sel started_def done_items_def)
  have sl: "slot_of_item s' = slot_of_item s" using w(2) by (auto simp: sel slot_of_item_def fun_eq_iff)
  from inv obtain ms where ms: "filter (\<lambda>a. act_expert a = e) (acts s) = map (\<lambda>w. Msg e w (the (slot_at (send_at s w)))) ms"
    "distinct ms" "set ms = {w \<in> items D e. has_written (send_at s w)}"
    using resp by (auto simp: sel expert_inv_def acts_ok_def)
  have wms: "w \<notin> set ms" using ms(3) w(2) by simp
  have "map (\<lambda>w. Msg e w (the (slot_at (send_at s' w)))) ms = map (\<lambda>w. Msg e w (the (slot_at (send_at s w)))) ms"
    using wms by (intro map_cong) (auto simp: sel)
  then have "filter (\<lambda>a. act_expert a = e) (acts s') = map (\<lambda>w. Msg e w (the (slot_at (send_at s' w)))) (ms @ [w])"
    using ms(1) by (simp add: sel)
  moreover have "set (ms @ [w]) = {w \<in> items D e. has_written (send_at s' w)}" using ms(3) w by (auto simp: sel)
  ultimately have "acts_ok D s' e" using ms(2) wms resp unfolding acts_ok_def by (intro exI [of _ "ms @ [w]"]) (simp add: sel)
  then have "expert_inv D s' e"
    using inv resp by (simp add: sel expert_inv_def slots_ok_def counters_ok_def st dn sl)
  then show ?thesis by (simp only: s'_def)
qed

lemma finish_inv:
  assumes inv: "expert_inv D s e" and w: "w \<in> items D e" "send_at s w = Written v" and e: "e < num_experts D"
  shows "expert_inv D (s\<lparr>send_at := (send_at s)(w := Finished v), workspace_words := add_word (finish_word D e) 1 (workspace_words s)\<rparr>) e" (is "expert_inv D ?s e")
proof -
  define s' where "s' = ?s"
  have sel: "send_at s' = send_at ?s" "workspace_words s' = workspace_words ?s"
    "tagged s' = tagged ?s" "counted s' = counted ?s" "resp_at s' = resp_at ?s" "acts s' = acts ?s"
    by (simp_all only: s'_def)
  note sel = sel [simplified]
  have resp: "resp_at s e = Waiting" using unfinished_waiting(1) [OF inv w(1)] w(2) by simp
  have st: "started D s' e = started D s e" using w by (auto simp: sel started_def)
  have dn: "done_items D s' e = insert w (done_items D s e)" "w \<notin> done_items D s e" "finite (done_items D s e)"
    using w by (auto simp: sel done_items_def)
  have sl: "slot_of_item s' = slot_of_item s" using w(2) by (auto simp: sel slot_of_item_def fun_eq_iff)
  have "acts_ok D s' e" using inv w unfolding expert_inv_def by (subst acts_ok_cong [of D e _ s]) (auto simp: sel)
  then have "expert_inv D s' e"
    using inv resp dn(2,3) e by (simp add: sel expert_inv_def slots_ok_def counters_ok_def st dn(1) sl add_word_apply)
  then show ?thesis by (simp only: s'_def)
qed

lemma tag_inv:
  assumes inv: "expert_inv D s e" and "\<not> tagged s e" and e: "e < num_experts D"
  shows "expert_inv D (s\<lparr>tagged := (tagged s)(e := True), workspace_words := add_word (finish_word D e) FINISHED_SUM_TAG (workspace_words s)\<rparr>) e" (is "expert_inv D ?s e")
proof -
  define s' where "s' = ?s"
  have sel: "send_at s' = send_at ?s" "workspace_words s' = workspace_words ?s"
    "tagged s' = tagged ?s" "counted s' = counted ?s" "resp_at s' = resp_at ?s" "acts s' = acts ?s"
    by (simp_all only: s'_def)
  note sel = sel [simplified]
  have resp: "resp_at s e = Waiting" using inv assms(2) by (auto simp: sel expert_inv_def complete_def)
  have "acts_ok D s' e" using inv unfolding expert_inv_def by (subst acts_ok_cong [of D e _ s]) (auto simp: sel)
  then have "expert_inv D s' e" using inv resp assms(2) e
    by (auto simp: sel expert_inv_def slots_ok_def counters_ok_def started_def done_items_def slot_of_item_def inj_on_def complete_def
        add_word_apply)
  then show ?thesis by (simp only: s'_def)
qed

lemma count_inv:
  assumes inv: "expert_inv D s e" and "counted s e = None" and topk: "num_topk D \<le> 31" and e: "e < num_experts D"
  shows "expert_inv D (s\<lparr>counted := (counted s)(e \<mapsto> num_tokens_sent D e),
      workspace_words := add_word (finish_word D e) (FINISHED_SUM_TAG - num_tokens_sent D e) (workspace_words s)\<rparr>) e"
    (is "expert_inv D ?s e")
proof -
  define s' where "s' = ?s"
  have sel: "send_at s' = send_at ?s" "workspace_words s' = workspace_words ?s"
    "tagged s' = tagged ?s" "counted s' = counted ?s" "resp_at s' = resp_at ?s" "acts s' = acts ?s"
    by (simp_all only: s'_def)
  note sel = sel [simplified]
  have resp: "resp_at s e = Waiting" using inv assms(2) by (auto simp: sel expert_inv_def complete_def)
  have "acts_ok D s' e" using inv unfolding expert_inv_def by (subst acts_ok_cong [of D e _ s]) (auto simp: sel)
  then have "expert_inv D s' e" using inv resp assms(2) e
    by (auto simp: sel expert_inv_def slots_ok_def counters_ok_def started_def done_items_def slot_of_item_def inj_on_def complete_def
        num_tokens_sent_eq [OF topk] add_word_apply)
  then show ?thesis by (simp only: s'_def)
qed

text \<open>Leaving the wait loop: the counter has its final value only when everything has been reported.\<close>

lemma finish_value:
  assumes inv: "expert_inv D s e" and "resp_at s e = Waiting" and c: "counted s e = Some n"
    and f: "finish_counter D s e = FINISHED_SUM_TAG * 2" and small: "card (items D e) < 2 ^ 31"
  shows "complete D s e" and "n = of_nat (card (items D e))"
proof -
  let ?d = "card (done_items D s e)" and ?n = "card (items D e)" and ?t = "if tagged s e then 1024 else 0 :: nat"
  have "finish_counter D s e = of_nat ?d + (if tagged s e then FINISHED_SUM_TAG else 0) + (FINISHED_SUM_TAG - of_nat ?n)"
    using inv assms(2) c by (simp add: expert_inv_def counters_ok_def)
  then have "of_nat ?d + (if tagged s e then FINISHED_SUM_TAG else 0) = (of_nat ?n + FINISHED_SUM_TAG :: cint)"
    using f by (simp add: algebra_simps)
  then have eq: "(of_nat (?d + ?t) :: cint) = of_nat (?n + 1024)" by (cases "tagged s e") simp_all
  have le: "?d \<le> ?n" by (rule card_mono) (auto simp: done_items_def)
  have "?d + ?t < 2 ^ 32" "?n + 1024 < 2 ^ 32" using le small by auto
  moreover have "unat (of_nat x :: cint) = x" if "x < 2 ^ 32" for x using that by (simp add: unat_of_nat)
  ultimately have "?d + ?t = ?n + 1024" using eq by metis
  then have "tagged s e" "?d = ?n" using le by (auto split: if_splits)
  moreover have "done_items D s e \<subseteq> items D e" by (auto simp: done_items_def)
  ultimately show "complete D s e" using c by (simp add: complete_def card_subset_eq)
  show "n = of_nat ?n" using inv c by (simp add: expert_inv_def)
qed

lemma signal_inv:
  assumes inv: "expert_inv D s e" and resp: "resp_at s e = Waiting" and c: "counted s e = Some n"
    and f: "finish_counter D s e = FINISHED_SUM_TAG * 2" and small: "card (items D e) < 2 ^ 31"
  shows "expert_inv D (s\<lparr>resp_at := (resp_at s)(e := Signalled), acts := acts s @ [Signal e (- n - 1)]\<rparr>) e" (is "expert_inv D ?s e")
proof -
  define s' where "s' = ?s"
  have sel: "send_at s' = send_at ?s" "workspace_words s' = workspace_words ?s"
    "tagged s' = tagged ?s" "counted s' = counted ?s" "resp_at s' = resp_at ?s" "acts s' = acts ?s"
    by (simp_all only: s'_def)
  note sel = sel [simplified]
  note fv = finish_value [OF assms]
  have "acts_ok D s' e" using inv resp fv(2) by (auto simp: sel expert_inv_def acts_ok_def)
  then have "expert_inv D s' e" using inv resp fv
    by (auto simp: sel expert_inv_def slots_ok_def counters_ok_def started_def done_items_def slot_of_item_def inj_on_def complete_def)
  then show ?thesis by (simp only: s'_def)
qed

lemma reset_inv:
  assumes inv: "expert_inv D s e" and resp: "resp_at s e = Signalled"
  shows "expert_inv D (s\<lparr>resp_at := (resp_at s)(e := Reset), workspace_words := (workspace_words s)(atomic_word D e := 0, finish_word D e := 0),
      recv_count := c\<rparr>) e" (is "expert_inv D ?s e")
proof -
  define s' where "s' = ?s"
  have sel: "send_at s' = send_at ?s" "workspace_words s' = workspace_words ?s"
    "tagged s' = tagged ?s" "counted s' = counted ?s" "resp_at s' = resp_at ?s" "acts s' = acts ?s"
    by (simp_all only: s'_def)
  note sel = sel [simplified]
  have "acts_ok D s' e" using inv resp unfolding expert_inv_def by (subst acts_ok_cong [of D e _ s]) (auto simp: sel)
  then have "expert_inv D s' e" using inv resp
    by (auto simp: sel expert_inv_def slots_ok_def counters_ok_def started_def done_items_def slot_of_item_def inj_on_def complete_def)
  then show ?thesis by (simp only: s'_def)
qed

end
