(* ===== verification/Device_Barrier.thy ===== *)
theory Device_Barrier
  imports Dispatch_Send Step_Systems
begin

text \<open>
  The barrier over the ranks of \<^verbatim>\<open>include/ep_utils.cuh\<close>: \<^verbatim>\<open>not_finished\<close>, \<^verbatim>\<open>timeout_check\<close>,
  \<^verbatim>\<open>barrier_device\<close> and \<^verbatim>\<open>move_fifo_slots\<close>. The barrier is a step relation over the atomic accesses of
  all warps of every rank, with the trap of the time limit; the theorems show that the first warp of a rank does
  not leave before all ranks have entered, that no run gets stuck, and that the slots are left as they were. The
  other warps of a rank take no part in the additions and are not held.
\<close>

section \<open>Operations\<close>

abbreviation NUM_TIMEOUT_CYCLES :: u64 where "NUM_TIMEOUT_CYCLES \<equiv> 200000000000"
abbreviation NUM_MAX_FIFO_SLOTS :: cint where "NUM_MAX_FIFO_SLOTS \<equiv> 32768"

text \<open>Lane \<open>l\<close> below the number of ranks reads slot \<open>l\<close>; the vote is over the 32 lanes.\<close>

definition not_finished :: "nat \<Rightarrow> (nat \<Rightarrow> cint) \<Rightarrow> cint \<Rightarrow> bool" where
  "not_finished kNumRanks task expected = list_ex (\<lambda>lane_id. lane_id < kNumRanks \<and> task lane_id \<noteq> expected) [0..<32]"

text \<open>
  The loop over what its rounds see: the slots and the cycles since the start. \<open>Inl\<close> is the trap, which
  only thread 0 takes; None means that it still runs after these rounds.
\<close>

fun timeout_check :: "nat \<Rightarrow> bool \<Rightarrow> cint \<Rightarrow> ((nat \<Rightarrow> cint) \<times> u64) list \<Rightarrow> (unit + unit) option" where
  "timeout_check kNumRanks thread0 expected [] = None"
| "timeout_check kNumRanks thread0 expected ((task, elapsed) # rounds) =
     (if not_finished kNumRanks task expected
      then if NUM_TIMEOUT_CYCLES < elapsed \<and> thread0 then Some (Inl ()) else timeout_check kNumRanks thread0 expected rounds
      else Some (Inr ()))"

definition move_fifo_slots :: "cint \<Rightarrow> cint \<Rightarrow> cint" where
  "move_fifo_slots kNumRanks head = word_of_int (sint (head + kNumRanks) smod sint NUM_MAX_FIFO_SLOTS)"

section \<open>The barrier\<close>

text \<open>
  Thread \<open>t\<close> of rank \<open>r\<close> adds the tag to slot \<open>t\<close> of its own rank, takes it from slot \<open>r\<close> of rank \<open>t\<close> behind a
  fence, and then waits for its slot to be 0. \<open>slot r t\<close> is \<^verbatim>\<open>task_fifo_ptrs[r][head + t]\<close>. A lane is \<open>Passed\<close> when a
  load of its slot has given 0, and the first warp of a rank leaves when all its lanes are: a slot that is 0
  then stays 0, so the last round of the loop sees it again. The lanes of the other warps only load; \<open>seen r w t\<close>
  says that lane \<open>t\<close> of warp \<open>w\<close> has. \<open>trapped r\<close>: thread 0 of the rank has run into the time limit.
\<close>

datatype barrier_pc = Entering | Added | Waiting_zero | Passed

record barrier_state =
  slot :: "nat \<Rightarrow> nat \<Rightarrow> cint"
  pc :: "nat \<Rightarrow> nat \<Rightarrow> barrier_pc"
  seen :: "nat \<Rightarrow> nat \<Rightarrow> nat \<Rightarrow> bool"
  trapped :: "nat \<Rightarrow> bool"

definition in_check :: "barrier_pc \<Rightarrow> bool" where
  "in_check p \<longleftrightarrow> p = Waiting_zero \<or> p = Passed"

text \<open>
  \<^verbatim>\<open>EP_DEVICE_ASSERT(kNumRanks <= 32)\<close> stops every thread at once when it fails. The trap: all lanes of the first warp
  are in the check, for its vote is over the whole warp, and a load gives a value other than 0; the time limit
  may be over at any moment. A load of a waiting lane that gives another value and does not trap changes nothing
  and is left out.
\<close>

inductive barrier_step :: "nat \<Rightarrow> nat \<Rightarrow> barrier_state \<Rightarrow> barrier_state \<Rightarrow> bool" for kNumRanks num_warps where
  add: "kNumRanks \<le> 32 \<Longrightarrow> r < kNumRanks \<Longrightarrow> t < kNumRanks \<Longrightarrow> \<not> trapped s r \<Longrightarrow> pc s r t = Entering \<Longrightarrow>
    barrier_step kNumRanks num_warps s (s\<lparr>slot := (slot s)(r := (slot s r)(t := slot s r t + FINISHED_SUM_TAG)),
      pc := (pc s)(r := (pc s r)(t := Added))\<rparr>)"
| sub: "kNumRanks \<le> 32 \<Longrightarrow> r < kNumRanks \<Longrightarrow> t < kNumRanks \<Longrightarrow> \<not> trapped s r \<Longrightarrow> pc s r t = Added \<Longrightarrow>
    barrier_step kNumRanks num_warps s (s\<lparr>slot := (slot s)(t := (slot s t)(r := slot s t r - FINISHED_SUM_TAG)),
      pc := (pc s)(r := (pc s r)(t := Waiting_zero))\<rparr>)"
| pass: "kNumRanks \<le> 32 \<Longrightarrow> r < kNumRanks \<Longrightarrow> t < kNumRanks \<Longrightarrow> \<not> trapped s r \<Longrightarrow> pc s r t = Waiting_zero \<Longrightarrow> slot s r t = 0 \<Longrightarrow>
    barrier_step kNumRanks num_warps s (s\<lparr>pc := (pc s)(r := (pc s r)(t := Passed))\<rparr>)"
| time_out: "kNumRanks \<le> 32 \<Longrightarrow> r < kNumRanks \<Longrightarrow> t < kNumRanks \<Longrightarrow> \<not> trapped s r \<Longrightarrow>
    \<forall>u<kNumRanks. in_check (pc s r u) \<Longrightarrow> pc s r t = Waiting_zero \<Longrightarrow> slot s r t \<noteq> 0 \<Longrightarrow>
    barrier_step kNumRanks num_warps s (s\<lparr>trapped := (trapped s)(r := True)\<rparr>)"
| other_warp: "kNumRanks \<le> 32 \<Longrightarrow> r < kNumRanks \<Longrightarrow> t < kNumRanks \<Longrightarrow> \<not> trapped s r \<Longrightarrow> 1 \<le> w \<Longrightarrow> w < num_warps \<Longrightarrow>
    \<not> seen s r w t \<Longrightarrow> slot s r t = 0 \<Longrightarrow>
    barrier_step kNumRanks num_warps s (s\<lparr>seen := (seen s)(r := (seen s r)(w := (seen s r w)(t := True)))\<rparr>)"

definition barrier_init :: barrier_state where
  "barrier_init = \<lparr>slot = (\<lambda>_ _. 0), pc = (\<lambda>_ _. Entering), seen = (\<lambda>_ _ _. False), trapped = (\<lambda>_. False)\<rparr>"

section \<open>Invariant\<close>

text \<open>Control points are ordered by how far a thread has got.\<close>

fun progress :: "barrier_pc \<Rightarrow> nat" where
  "progress Entering = 0"
| "progress Added = 1"
| "progress Waiting_zero = 2"
| "progress Passed = 3"

lemma progress_inj: "progress p = progress q \<longleftrightarrow> p = q"
  by (cases p; cases q) simp_all

instantiation barrier_pc :: linorder
begin

definition less_eq_barrier_pc :: "barrier_pc \<Rightarrow> barrier_pc \<Rightarrow> bool" where
  "less_eq_barrier_pc p q \<longleftrightarrow> progress p \<le> progress q"

definition less_barrier_pc :: "barrier_pc \<Rightarrow> barrier_pc \<Rightarrow> bool" where
  "less_barrier_pc p q \<longleftrightarrow> progress p < progress q"

instance
  by standard (auto simp: less_eq_barrier_pc_def less_barrier_pc_def progress_inj)

end

text \<open>A slot holds the tag as long as its own thread has added it and the other rank has not taken it.\<close>

definition has_added :: "barrier_pc \<Rightarrow> bool" where
  "has_added p \<longleftrightarrow> Added \<le> p"

definition has_taken :: "barrier_pc \<Rightarrow> bool" where
  "has_taken p \<longleftrightarrow> Waiting_zero \<le> p"

lemma has_added_iff: "has_added p \<longleftrightarrow> p \<noteq> Entering"
  by (cases p) (simp_all add: has_added_def less_eq_barrier_pc_def)

lemma has_taken_iff: "has_taken p \<longleftrightarrow> p = Waiting_zero \<or> p = Passed"
  by (cases p) (simp_all add: has_taken_def less_eq_barrier_pc_def)

text \<open>A thread only goes forward.\<close>

lemma barrier_step_forward: "barrier_step R N s s' \<Longrightarrow> pc s r t \<le> pc s' r t"
  by (erule barrier_step.cases) (auto simp: less_eq_barrier_pc_def)

lemma in_check_iff: "in_check p \<longleftrightarrow> has_taken p"
  by (simp add: in_check_def has_taken_iff)

definition barrier_inv :: "nat \<Rightarrow> barrier_state \<Rightarrow> bool" where
  "barrier_inv R s \<longleftrightarrow> (\<forall>r<R. \<forall>t<R.
     slot s r t = (if has_added (pc s r t) then FINISHED_SUM_TAG else 0) - (if has_taken (pc s t r) then FINISHED_SUM_TAG else 0) \<and>
     (pc s r t = Passed \<longrightarrow> has_taken (pc s t r)) \<and> (trapped s r \<longrightarrow> has_taken (pc s r t)))"

text \<open>The accesses that a rank has left, the trap included.\<close>

definition rank_todo :: "nat \<Rightarrow> nat \<Rightarrow> barrier_state \<Rightarrow> nat \<Rightarrow> nat" where
  "rank_todo R N s r = (\<Sum>t<R. 3 - progress (pc s r t)) + (\<Sum>w<N. \<Sum>t<R. of_bool (\<not> seen s r w t)) + of_bool (\<not> trapped s r)"

definition barrier_work :: "nat \<Rightarrow> nat \<Rightarrow> barrier_state \<Rightarrow> nat" where
  "barrier_work R N s = (\<Sum>r<R. rank_todo R N s r)"

lemma barrier_invD:
  assumes "barrier_inv R s" and "r < R" and "t < R"
  shows "slot s r t = (if has_added (pc s r t) then FINISHED_SUM_TAG else 0) - (if has_taken (pc s t r) then FINISHED_SUM_TAG else 0)"
    and "pc s r t = Passed \<Longrightarrow> has_taken (pc s t r)" and "trapped s r \<Longrightarrow> has_taken (pc s r t)"
  using assms by (simp_all add: barrier_inv_def)

lemma barrier_step_inv:
  assumes inv: "barrier_inv R s" and step: "barrier_step R N s s'"
  shows "barrier_inv R s'"
  unfolding barrier_inv_def
proof (intro allI impI)
  fix i j assume i: "i < R" and j: "j < R"
  note ij = barrier_invD [OF inv i j] barrier_invD(2) [OF inv j i] and defs = has_added_iff has_taken_iff
  from step show "slot s' i j = (if has_added (pc s' i j) then FINISHED_SUM_TAG else 0) -
      (if has_taken (pc s' j i) then FINISHED_SUM_TAG else 0) \<and> (pc s' i j = Passed \<longrightarrow> has_taken (pc s' j i)) \<and>
      (trapped s' i \<longrightarrow> has_taken (pc s' i j))"
  proof cases
    case (add r t)
    then show ?thesis using ij by (cases "i = r"; cases "j = t"; cases "i = t"; cases "j = r") (auto simp: defs)
  next
    case (sub r t)
    then show ?thesis using ij by (cases "i = r"; cases "j = t"; cases "i = t"; cases "j = r") (auto simp: defs)
  next
    case (pass r t)
    then show ?thesis using ij
      by (cases "i = r"; cases "j = t"; cases "i = t"; cases "j = r") (auto simp: defs split: if_splits)
  next
    case (time_out r t)
    then show ?thesis using ij j by (auto simp: in_check_iff)
  next
    case (other_warp r t w)
    then show ?thesis using ij by auto
  qed
qed

interpretation barrier: step_system "barrier_step R N" "\<lambda>s. s = barrier_init" "barrier_inv R" for R N
proof
  show "barrier_inv R s" if "s = barrier_init" for s
    using that by (simp add: barrier_inv_def barrier_init_def has_added_iff has_taken_iff)
qed (rule barrier_step_inv)

lemma sum_progress_less:
  fixes t :: nat
  assumes "t < R" and "progress (f t) < progress p" and "progress p \<le> 3"
  shows "(\<Sum>u<R. 3 - progress ((f(t := p)) u)) < (\<Sum>u<R. 3 - progress (f u))"
  by (rule sum_less_at [OF assms(1)]) (use assms(2,3) in auto)

interpretation barrier: draining "barrier_step R N" "barrier_work R N" for R N
proof
  fix s s' assume "barrier_step R N s s'"
  then show "barrier_work R N s' < barrier_work R N s"
  proof cases
    case (add r t)
    have "rank_todo R N s' r < rank_todo R N s r"
      using sum_progress_less [OF add(4), of "pc s r" Added] add(1,6) by (simp add: rank_todo_def)
    then show ?thesis unfolding barrier_work_def by (rule sum_less_at [OF add(3)]) (simp add: add(1) rank_todo_def)
  next
    case (sub r t)
    have "rank_todo R N s' r < rank_todo R N s r"
      using sum_progress_less [OF sub(4), of "pc s r" Waiting_zero] sub(1,6) by (simp add: rank_todo_def)
    then show ?thesis unfolding barrier_work_def by (rule sum_less_at [OF sub(3)]) (simp add: sub(1) rank_todo_def)
  next
    case (pass r t)
    have "rank_todo R N s' r < rank_todo R N s r"
      using sum_progress_less [OF pass(4), of "pc s r" Passed] pass(1,6) by (simp add: rank_todo_def)
    then show ?thesis unfolding barrier_work_def by (rule sum_less_at [OF pass(3)]) (simp add: pass(1) rank_todo_def)
  next
    case (time_out r t)
    show ?thesis unfolding barrier_work_def
      by (rule sum_less_at [OF time_out(3)]) (use time_out(5) in \<open>simp_all add: time_out(1) rank_todo_def\<close>)
  next
    case (other_warp r t w)
    have "(\<Sum>x<N. \<Sum>y<R. of_bool (\<not> seen s' r x y) :: nat) < (\<Sum>x<N. \<Sum>y<R. of_bool (\<not> seen s r x y))"
      by (rule double_sum_at [OF other_warp(7,4)]) (use other_warp(1,8) in auto)
    then have "rank_todo R N s' r < rank_todo R N s r" by (simp add: other_warp(1) rank_todo_def)
    then show ?thesis unfolding barrier_work_def
      by (rule sum_less_at [OF other_warp(3)]) (simp add: other_warp(1) rank_todo_def)
  qed
qed

text \<open>At the end every thread has taken its tags, so all slots are 0 and nothing holds a rank that has not trapped.\<close>

lemma barrier_stuck:
  assumes R: "R \<le> 32" and inv: "barrier_inv R s" and st: "\<forall>s'. \<not> barrier_step R N s s'" and i: "r < R" "t < R"
  shows "slot s r t = 0" and "\<not> trapped s r \<Longrightarrow> pc s r t = Passed" and "\<not> trapped s r \<Longrightarrow> 1 \<le> w \<Longrightarrow> w < N \<Longrightarrow> seen s r w t"
proof -
  have taken: "has_taken (pc s i j)" if "i < R" "j < R" for i j
  proof (cases "trapped s i")
    case False
    then show ?thesis
      using st barrier_step.add [OF R that False] barrier_step.sub [OF R that False] unfolding has_taken_iff by (cases "pc s i j") blast+
  qed (rule barrier_invD(3) [OF inv that])
  show z: "slot s r t = 0"
    using barrier_invD(1) [OF inv i] taken [OF i] taken [OF i(2,1)] by (auto simp: has_added_iff has_taken_iff)
  show "pc s r t = Passed" if "\<not> trapped s r"
    using taken [OF i] z st barrier_step.pass [OF R i that] unfolding has_taken_iff by blast
  show "seen s r w t" if "\<not> trapped s r" "1 \<le> w" "w < N"
    using z st barrier_step.other_warp [OF R i that] by blast
qed

lemma time_out_blocked:
  assumes inv: "barrier_inv R s" and "barrier_step R N s s'" and "trapped s' r" and "\<not> trapped s r"
  shows "\<exists>t<R. pc s t r = Entering \<or> pc s t r = Added"
  using assms(2)
proof cases
  case (time_out r' t)
  then have r: "r' = r" using assms(3,4) by (auto split: if_splits)
  have "\<not> has_taken (pc s t r)"
    using barrier_invD(1) [OF inv time_out(3,4)] time_out(7,8) unfolding r by (auto simp: has_added_iff)
  then show ?thesis using time_out(4) by (cases "pc s t r") (auto simp: has_taken_iff)
qed (use assms(3,4) in auto)

section \<open>The checks\<close>

lemma not_finished_iff:
  assumes "kNumRanks \<le> 32"
  shows "not_finished kNumRanks task expected \<longleftrightarrow> (\<exists>l<kNumRanks. task l \<noteq> expected)"
  using assms by (auto simp: not_finished_def list_ex_iff)

text \<open>The check passes only with a round in which every slot has the expected value.\<close>

lemma timeout_check_passes:
  assumes "kNumRanks \<le> 32" and "timeout_check kNumRanks thread0 expected rounds = Some (Inr ())"
  shows "\<exists>(task, elapsed)\<in>set rounds. \<forall>l<kNumRanks. task l = expected"
  using assms(2)
proof (induction rounds)
  case (Cons r rounds)
  then show ?case by (cases r) (auto simp: not_finished_iff [OF assms(1)] split: if_splits)
qed simp

lemma timeout_check_ends:
  assumes "k < length rounds" and "NUM_TIMEOUT_CYCLES < snd (rounds ! k)"
  shows "timeout_check kNumRanks True expected rounds \<noteq> None"
  using assms
proof (induction rounds arbitrary: k)
  case (Cons r rounds)
  then show ?case by (cases r; cases k) auto
qed simp

text \<open>
  A warp other than the first reads slots that its own rank may not have touched yet: in the initial state the
  check passes at once.
\<close>

lemma other_warps_not_held: "timeout_check kNumRanks False 0 [(slot barrier_init r, elapsed)] = Some (Inr ())"
  by (simp add: barrier_init_def not_finished_def list_ex_iff)

lemma move_fifo_slots_range:
  assumes "0 \<le> sint head" and "sint head < 32768" and "0 \<le> sint n" and "sint n \<le> 32768"
  shows "sint (move_fifo_slots n head) = (sint head + sint n) mod 32768"
proof -
  let ?v = "sint head + sint n"
  have "sint (head + n) = ?v" using assms by (simp add: sint_word_add signed_take_bit_int_eq_self)
  moreover have "?v smod 32768 = ?v mod 32768"
    using assms by (simp add: signed_modulo_int_def signed_divide_int_def minus_div_mult_eq_mod sgn_if)
  moreover have "sint (word_of_int (?v mod 32768) :: cint) = ?v mod 32768"
    by (simp add: sint_sbintrunc' signed_take_bit_int_eq_self order_trans [OF _ pos_mod_sign] order_less_trans [OF pos_mod_bound])
  ultimately show ?thesis by (simp add: move_fifo_slots_def)
qed

section \<open>Properties\<close>

text \<open>
  C40. For up to 32 ranks: when the first warp of rank \<open>r\<close> has passed all its slots, every rank has entered the
  barrier and taken the tag from its slot at \<open>r\<close>. A rank runs into the time limit only while some rank has not
  taken its tag. When no thread can go on, every slot is 0, ready for the next barrier, and all threads of every
  rank have passed that has not run into the time limit.
\<close>

theorem barrier_holds_back:
  assumes "(barrier_step R N)\<^sup>*\<^sup>* barrier_init s" and "R \<le> 32"
  shows "(\<forall>r<R. (\<forall>t<R. pc s r t = Passed) \<longrightarrow> (\<forall>t<R. pc s t r \<noteq> Entering \<and> pc s t r \<noteq> Added)) \<and>
    (\<forall>s' r. barrier_step R N s s' \<and> trapped s' r \<and> \<not> trapped s r \<longrightarrow> (\<exists>t<R. pc s t r = Entering \<or> pc s t r = Added)) \<and>
    ((\<forall>s'. \<not> barrier_step R N s s') \<longrightarrow> (\<forall>r<R. \<forall>t<R. slot s r t = 0 \<and>
       (trapped s r \<or> pc s r t = Passed \<and> (\<forall>w. 1 \<le> w \<and> w < N \<longrightarrow> seen s r w t))))"
proof (intro conjI)
  have inv: "barrier_inv R s" by (rule barrier.reachable_inv [OF assms(1) refl])
  have "pc s t r \<noteq> Entering \<and> pc s t r \<noteq> Added" if "r < R" "t < R" "pc s r t = Passed" for r t
    using barrier_invD(2) [OF inv that] by (auto simp: has_taken_iff)
  then show "\<forall>r<R. (\<forall>t<R. pc s r t = Passed) \<longrightarrow> (\<forall>t<R. pc s t r \<noteq> Entering \<and> pc s t r \<noteq> Added)" by blast
  show "\<forall>s' r. barrier_step R N s s' \<and> trapped s' r \<and> \<not> trapped s r \<longrightarrow> (\<exists>t<R. pc s t r = Entering \<or> pc s t r = Added)"
    using time_out_blocked [OF inv] by blast
  show "(\<forall>s'. \<not> barrier_step R N s s') \<longrightarrow> (\<forall>r<R. \<forall>t<R. slot s r t = 0 \<and>
       (trapped s r \<or> pc s r t = Passed \<and> (\<forall>w. 1 \<le> w \<and> w < N \<longrightarrow> seen s r w t)))"
    using barrier_stuck [OF assms(2) inv] by blast
qed

theorem barrier_holds_back_witness:
  "\<exists>s. (barrier_step 8 32)\<^sup>*\<^sup>* barrier_init s \<and> slot s 7 3 = 0 \<and> (trapped s 3 \<or> pc s 3 7 = Passed)"
proof -
  obtain s where r: "(barrier_step 8 32)\<^sup>*\<^sup>* barrier_init s" and st: "\<forall>s'. \<not> barrier_step 8 32 s s'"
    using barrier.reaches_end by blast
  have "(8 :: nat) \<le> 32" by simp
  from barrier_holds_back [OF r this] st
  have "\<forall>r<8. \<forall>t<8. slot s r t = 0 \<and> (trapped s r \<or> pc s r t = Passed)" by blast
  then have "slot s 7 3 = 0 \<and> (trapped s 3 \<or> pc s 3 7 = Passed)" by simp
  then show ?thesis using r by blast
qed

end
