(* ===== verification/Os_Io.thy ===== *)
theory Os_Io
  imports EP_Prelude
begin

text \<open>
  The read and write loops of \<^verbatim>\<open>include/ep_ibgda/os.h\<close>. The outcomes of the system calls are an argument:
  None is -1, else what the call returned. The theorems show that a transfer in pieces of any size delivers
  the bytes in order, and when the loops stop.
\<close>

section \<open>The loops\<close>

text \<open>The buffer read so far; the result is what the function returns and the buffer. None: still in a call.\<close>

fun read_all :: "nat \<Rightarrow> u8 list option list \<Rightarrow> u8 list \<Rightarrow> (int \<times> u8 list) option" where
  "read_all len rs buf =
     (if length buf < len
      then case rs of
          [] \<Rightarrow> None
        | None # rs' \<Rightarrow> Some (- 1, buf)
        | Some bs # rs' \<Rightarrow> if bs = [] then Some (int (length buf), buf) else read_all len rs' (buf @ bs)
      else Some (int (length buf), buf))"

text \<open>A \<^verbatim>\<open>write\<close> returns the number of bytes it took from the front of what is left.\<close>

fun write_all :: "u8 list \<Rightarrow> nat option list \<Rightarrow> nat \<Rightarrow> u8 list \<Rightarrow> (int \<times> u8 list) option" where
  "write_all buf rs tot sent =
     (if tot < length buf
      then case rs of
          [] \<Rightarrow> None
        | None # rs' \<Rightarrow> Some (- 1, sent)
        | Some n # rs' \<Rightarrow> write_all buf rs' (tot + n) (sent @ take n (drop tot buf))
      else Some (int tot, sent))"

declare read_all.simps [simp del] write_all.simps [simp del]

definition close_ret :: "(int \<Rightarrow> int \<times> int) \<Rightarrow> int \<Rightarrow> int \<Rightarrow> int \<times> int" where
  "close_ret close fd errno = (let err = errno; (ret, errno) = close fd; errno = err in (ret, errno))"

section \<open>Host mutexes\<close>

text \<open>
  The wrappers put the call into the assertion of \<^verbatim>\<open>include/ep_ibgda/compiler.h\<close>, which \<^verbatim>\<open>NDEBUG\<close> turns into
  nothing. The calls of the thread library are arguments: what they return and the new mutex. None: the
  process aborts.
\<close>

definition mxa_assert :: "bool \<Rightarrow> ('s \<Rightarrow> bool \<times> 's) \<Rightarrow> 's \<Rightarrow> 's option" where
  "mxa_assert NDEBUG x s = (if NDEBUG then Some s else let (holds, s') = x s in if holds then Some s' else None)"

definition mutex_init :: "bool \<Rightarrow> ('m \<Rightarrow> int \<times> 'm) \<Rightarrow> 'm \<Rightarrow> 'm option" where
  "mutex_init NDEBUG pthread_mutex_init = mxa_assert NDEBUG (\<lambda>mutex. map_prod (\<lambda>ret. ret = 0) id (pthread_mutex_init mutex))"

definition mutex_lock :: "bool \<Rightarrow> ('m \<Rightarrow> int \<times> 'm) \<Rightarrow> 'm \<Rightarrow> 'm option" where
  "mutex_lock NDEBUG pthread_mutex_lock = mxa_assert NDEBUG (\<lambda>mutex. map_prod (\<lambda>ret. ret = 0) id (pthread_mutex_lock mutex))"

definition mutex_unlock :: "bool \<Rightarrow> ('m \<Rightarrow> int \<times> 'm) \<Rightarrow> 'm \<Rightarrow> 'm option" where
  "mutex_unlock NDEBUG pthread_mutex_unlock = mxa_assert NDEBUG (\<lambda>mutex. map_prod (\<lambda>ret. ret = 0) id (pthread_mutex_unlock mutex))"

definition mutex_destroy :: "bool \<Rightarrow> ('m \<Rightarrow> int \<times> 'm) \<Rightarrow> 'm \<Rightarrow> 'm option" where
  "mutex_destroy NDEBUG pthread_mutex_destroy = mxa_assert NDEBUG (\<lambda>mutex. map_prod (\<lambda>ret. ret = 0) id (pthread_mutex_destroy mutex))"

lemmas mutex_defs = mutex_init_def mutex_lock_def mutex_unlock_def mutex_destroy_def mxa_assert_def

text \<open>
  With assertions a lock succeeds exactly when the call returns 0, and then the mutex is the one the call left;
  without them every lock succeeds and the mutex is never touched.
\<close>

lemma mutex_lock_some: "mutex_lock False pthread_mutex_lock m = Some m' \<longleftrightarrow> pthread_mutex_lock m = (0, m')"
  by (cases "pthread_mutex_lock m") (auto simp: mutex_defs)

lemma mutexes_vanish:
  "mutex_init True f m = Some m" "mutex_lock True f m = Some m" "mutex_unlock True f m = Some m" "mutex_destroy True f m = Some m"
  by (simp_all add: mutex_defs)

section \<open>System calls that keep their contract\<close>

text \<open>
  A read returns at most what was asked for, some of the front of the stream, and nothing only at its
  end; \<open>ks\<close> are the sizes the calls choose. A write takes at most what it is given.
\<close>

fun stream_reads :: "nat \<Rightarrow> nat list \<Rightarrow> u8 list \<Rightarrow> u8 list option list" where
  "stream_reads room [] stream = []"
| "stream_reads room (k # ks) stream =
     (let n = min (min (Suc k) room) (length stream)
      in Some (take n stream) # stream_reads (room - n) ks (drop n stream))"

fun writes_ok :: "nat \<Rightarrow> nat option list \<Rightarrow> bool" where
  "writes_ok room [] = True"
| "writes_ok room (None # rs) = True"
| "writes_ok room (Some n # rs) \<longleftrightarrow> n \<le> room \<and> writes_ok (room - n) rs"

lemma read_all_stream:
  assumes "len \<le> length buf + length ks" and "length buf \<le> len"
  shows "read_all len (stream_reads (len - length buf) ks stream) buf =
    Some (int (min len (length buf + length stream)), buf @ take (len - length buf) stream)"
  using assms
proof (induction ks arbitrary: buf stream)
  case Nil
  then show ?case by (subst read_all.simps) auto
next
  case (Cons k ks)
  show ?case
  proof (cases "length buf < len")
    case False
    then show ?thesis using Cons.prems by (subst read_all.simps) auto
  next
    case True
    let ?n = "min (min (Suc k) (len - length buf)) (length stream)"
    show ?thesis
    proof (cases "stream = []")
      case True
      then show ?thesis using \<open>length buf < len\<close> by (subst read_all.simps) simp
    next
      case False
      define n where "n = ?n"
      have n: "0 < n" "n \<le> length stream" "n \<le> len - length buf" using True False by (simp_all add: n_def)
      have ne: "take n stream \<noteq> []" using n(1) False by simp
      have len: "length (buf @ take n stream) = length buf + n" using n(2) by simp
      have "stream_reads (len - length buf) (k # ks) stream =
          Some (take n stream) # stream_reads (len - length (buf @ take n stream)) ks (drop n stream)"
        using n(2) by (simp add: Let_def n_def [symmetric])
      then have step: "read_all len (stream_reads (len - length buf) (k # ks) stream) buf =
          read_all len (stream_reads (len - length (buf @ take n stream)) ks (drop n stream)) (buf @ take n stream)"
        using True ne by (subst read_all.simps) simp
      have "take n stream @ take (len - length buf - n) (drop n stream) = take (len - length buf) stream"
        using take_add [of n "len - length buf - n" stream] n(3) by (simp only: le_add_diff_inverse)
      moreover have "length buf + n + length (drop n stream) = length buf + length stream" using n(2) by simp
      ultimately show ?thesis
        using Cons.IH [of "buf @ take n stream" "drop n stream"] Cons.prems(1) n True unfolding step len by simp
    qed
  qed
qed

lemma write_all_ok:
  assumes "writes_ok (length buf - tot) rs" and "tot \<le> length buf" and "sent = take tot buf"
    and "write_all buf rs tot sent = Some (r, out)"
  shows "r = - 1 \<and> (\<exists>n\<le>length buf. out = take n buf) \<or> r = int (length buf) \<and> out = buf"
  using assms
proof (induction rs arbitrary: tot sent)
  case Nil
  then show ?case by (subst (asm) write_all.simps) (auto split: if_splits)
next
  case (Cons x rs)
  show ?case
  proof (cases "tot < length buf")
    case False
    then show ?thesis using Cons.prems by (subst (asm) write_all.simps) auto
  next
    case True
    show ?thesis
    proof (cases x)
      case None
      then have "r = - 1" "out = take tot buf" using True Cons.prems by (subst (asm) write_all.simps; simp)+
      then show ?thesis using Cons.prems(2) by blast
    next
      case (Some n)
      then have n: "n \<le> length buf - tot" "writes_ok (length buf - (tot + n)) rs" using Cons.prems(1) by simp_all
      have "write_all buf rs (tot + n) (sent @ take n (drop tot buf)) = Some (r, out)"
        using Cons.prems(4) True Some by (subst (asm) write_all.simps) simp
      moreover have "sent @ take n (drop tot buf) = take (tot + n) buf" using Cons.prems(3) by (simp add: take_add)
      ultimately show ?thesis using Cons.IH [of "tot + n"] n True by simp
    qed
  qed
qed

text \<open>A call that takes nothing is tried again: as long as there are only such calls the loop goes on.\<close>

lemma write_all_zero: "buf \<noteq> [] \<Longrightarrow> write_all buf (replicate n (Some 0)) 0 [] = None"
  by (induction n) (subst write_all.simps, simp)+

section \<open>Properties\<close>

text \<open>
  What \<^verbatim>\<open>write_all\<close> has sent when it reports success is exactly the buffer, however the calls cut it, and
  \<^verbatim>\<open>read_all\<close> reads it back from the stream, whatever the pieces: it returns the requested length with
  the first bytes of the stream, or the number of bytes up to the end of the stream.
\<close>

theorem write_read_roundtrip:
  assumes "writes_ok (length buf) ws" and "write_all buf ws 0 [] = Some (int (length buf), sent)" and "len \<le> length ks"
  shows "read_all len (stream_reads len ks (sent @ rest)) [] =
    Some (int (min len (length buf + length rest)), take len (buf @ rest))"
proof -
  have "sent = buf" using write_all_ok [OF _ _ _ assms(2)] assms(1) by auto
  then show ?thesis using read_all_stream [of len "[]" ks "sent @ rest"] assms(3) by simp
qed

theorem write_read_roundtrip_witness:
  "read_all 4 (stream_reads 4 [0, 1, 0, 5] [1, 2, 3, 4, 9]) [] = Some (4, [1, 2, 3, 4])"
proof -
  have "write_all [1, 2, 3, 4] [Some 1, Some 0, Some 3] 0 [] = Some (int (length [1, 2, 3, 4 :: u8]), [1, 2, 3, 4])"
    by (simp add: write_all.simps numeral_2_eq_2 eval_nat_numeral)
  from write_read_roundtrip [OF _ this, of 4 "[0, 1, 0, 5]" "[9]"] show ?thesis by simp
qed

end
