(* ===== verification/Dispatch_Protocol.thy ===== *)
theory Dispatch_Protocol
  imports Dispatch_Send
begin

text \<open>
  What the protocol of \<^theory_text>\<open>Dispatch_Send\<close> guarantees for every interleaving when all entries name experts that
  exist (\<^theory_text>\<open>Dispatch_Stray\<close> is about the others): its invariant holds in every
  reachable state, no state before the end is stuck, every step uses up work, and the signal of an
  expert comes after all of its messages, which fill the first slots. A launch of one block is
  trapped before anything is signalled.
\<close>

section \<open>Every reachable state satisfies the invariant\<close>

abbreviation dispatch_reachable :: "dispatch_in \<Rightarrow> (nat \<Rightarrow> cint) \<Rightarrow> dispatch_state \<Rightarrow> bool" where
  "dispatch_reachable D counts \<equiv> (dispatch_step D)\<^sup>*\<^sup>* (dispatch_init counts)"

text \<open>The host's check of \<^verbatim>\<open>num_topk\<close>, and a number of entries that an \<^verbatim>\<open>int\<close> can index.\<close>

definition launch_ok :: "dispatch_in \<Rightarrow> bool" where
  "launch_ok D \<longleftrightarrow> num_topk D \<le> 11 \<and> num_tokens D * num_topk D < 2 ^ 31"

lemma launch_okD:
  assumes "launch_ok D"
  shows "num_topk D \<le> 31" and "card (items D e) < 2 ^ 31"
  using assms card_items_le [of D e] by (simp_all add: launch_ok_def)

lemma dispatch_inv_at:
  assumes "dispatch_inv D s" and "expert_inv D s' e"
    and "\<And>e' w. e' \<noteq> e \<Longrightarrow> w \<in> items D e' \<Longrightarrow> send_at s' w = send_at s w"
    and "\<And>e'. e' \<noteq> e \<Longrightarrow> e' < num_experts D \<Longrightarrow>
      atomic_counter D s' e' = atomic_counter D s e' \<and> finish_counter D s' e' = finish_counter D s e'"
    and "\<And>e'. e' \<noteq> e \<Longrightarrow> tagged s' e' = tagged s e' \<and> counted s' e' = counted s e' \<and> resp_at s' e' = resp_at s e' \<and>
      filter (\<lambda>a. act_expert a = e') (acts s') = filter (\<lambda>a. act_expert a = e') (acts s)"
    and "zeroed s' = zeroed s" and "tagged s' e = tagged s e \<or> (\<forall>j<num_experts D. zeroed s j)"
  shows "dispatch_inv D s'"
  unfolding dispatch_inv_alt
proof (intro allI impI)
  fix i assume i: "i < num_experts D"
  have old: "expert_inv D s i" "tagged s i \<longrightarrow> (\<forall>j<num_experts D. zeroed s j)"
    using assms(1) i by (simp_all add: dispatch_inv_alt)
  show "expert_inv D s' i \<and> (tagged s' i \<longrightarrow> (\<forall>j<num_experts D. zeroed s' j))"
  proof (cases "i = e")
    case True
    then show ?thesis using assms(2,6,7) old by auto
  next
    case False
    then have "expert_inv D s' i \<longleftrightarrow> expert_inv D s i" using assms(3,4,5) i by (intro expert_inv_cong) auto
    then show ?thesis using old assms(5) [OF False] assms(6) by simp
  qed
qed

lemma dispatch_step_inv:
  assumes "dispatch_step D s s'" and inv: "dispatch_inv D s" and ok: "launch_ok D" and ent: "entries_ok D"
  shows "dispatch_inv D s'"
proof -
  have ex: "expert_inv D s e" if "e < num_experts D" for e using inv that by (simp add: dispatch_inv_alt)
  note rng = items_in_range [OF ent]
  show ?thesis
    using assms(1)
  proof cases
    case (take_slot w e)
    note e = rng [OF take_slot(2)]
    show ?thesis unfolding take_slot(1)
      by (rule dispatch_inv_at [OF inv take_slot_inv [OF ex [OF e] take_slot(2,3) launch_okD(2) [OF ok] e]])
        (use take_slot(2) e in \<open>auto simp: add_word_apply dest: items_disjoint\<close>)
  next
    case (write_msg w e v)
    show ?thesis unfolding write_msg(1)
      by (rule dispatch_inv_at [OF inv write_msg_inv [OF ex [OF rng [OF write_msg(2)]] write_msg(2,3)]])
        (use write_msg(2) in \<open>auto dest: items_disjoint\<close>)
  next
    case (finish w e v)
    note e = rng [OF finish(2)]
    show ?thesis unfolding finish(1)
      by (rule dispatch_inv_at [OF inv finish_inv [OF ex [OF e] finish(2,3) e]])
        (use finish(2) e in \<open>auto simp: add_word_apply dest: items_disjoint\<close>)
  next
    case (zero i)
    have "expert_inv D s' e \<longleftrightarrow> expert_inv D s e" for e
      unfolding zero(1) by (rule expert_inv_cong) simp_all
    then show ?thesis using inv by (simp add: dispatch_inv_alt zero(1))
  next
    case (tag i)
    show ?thesis unfolding tag(1)
      by (rule dispatch_inv_at [OF inv tag_inv [OF ex [OF tag(3)] tag(5,3)]]) (use tag(3,4) in \<open>auto simp: add_word_apply\<close>)
  next
    case (count e)
    show ?thesis unfolding count(1)
      by (rule dispatch_inv_at [OF inv count_inv [OF ex [OF count(3)] count(4) launch_okD(1) [OF ok] count(3)]])
        (use count(3) in \<open>auto simp: add_word_apply\<close>)
  next
    case (signal e n)
    show ?thesis unfolding signal(1)
      by (rule dispatch_inv_at [OF inv signal_inv [OF ex [OF signal(2)] signal(4,5,6) launch_okD(2) [OF ok]]]) auto
  next
    case (reset e)
    show ?thesis unfolding reset(1)
      by (rule dispatch_inv_at [OF inv reset_inv [OF ex [OF reset(2)] reset(3)]]) (use reset(2) in auto)
  qed
qed

interpretation dispatch: step_system "dispatch_step D"
  "\<lambda>s. launch_ok D \<and> entries_ok D \<and> (\<exists>counts. s = dispatch_init counts)"
  "\<lambda>s. launch_ok D \<and> entries_ok D \<and> dispatch_inv D s" for D
  by unfold_locales (auto intro: dispatch_inv_init dispatch_step_inv)

lemma dispatch_reachable_inv:
  assumes "dispatch_reachable D counts s" and "launch_ok D" and "entries_ok D"
  shows "dispatch_inv D s"
  using dispatch.reachable_inv [OF assms(1)] assms(2,3) by blast

section \<open>Work left\<close>

fun stage :: "send_pc \<Rightarrow> nat" where
  "stage Start = 3"
| "stage (Slot v) = 2"
| "stage (Written v) = 1"
| "stage (Finished v) = 0"

fun resp_stage :: "resp_pc \<Rightarrow> nat" where
  "resp_stage Waiting = 2"
| "resp_stage Signalled = 1"
| "resp_stage Reset = 0"

definition named_items :: "dispatch_in \<Rightarrow> item set" where
  "named_items D = (\<Union>e. items D e)"

definition expert_work :: "dispatch_in \<Rightarrow> dispatch_state \<Rightarrow> nat \<Rightarrow> nat" where
  "expert_work D s e = of_bool (\<not> zeroed s e) + of_bool (\<not> tagged s e) + of_bool (counted s e = None) + resp_stage (resp_at s e)"

definition work_left :: "dispatch_in \<Rightarrow> dispatch_state \<Rightarrow> nat" where
  "work_left D s = (\<Sum>w\<in>named_items D. stage (send_at s w)) + (\<Sum>e<num_experts D. expert_work D s e)"

lemma finite_named_items [simp]: "finite (named_items D)"
  by (rule finite_subset [of _ "{..<num_tokens D} \<times> {..<num_topk D}"]) (auto simp: named_items_def items_def)

lemma named_items_sum:
  assumes "entries_ok D"
  shows "card (named_items D) = (\<Sum>e<num_experts D. card (items D e))"
proof -
  have "named_items D = (\<Union>e<num_experts D. items D e)" using items_in_range [OF assms] by (auto simp: named_items_def)
  moreover have "card (\<Union>e<num_experts D. items D e) = (\<Sum>e<num_experts D. card (items D e))"
    by (rule card_UN_disjoint) (auto dest: items_disjoint)
  ultimately show ?thesis by simp
qed

lemma sum_at:
  fixes f g :: "'a \<Rightarrow> nat"
  assumes "finite A" and "x \<in> A" and "f x = Suc (g x)" and "\<And>y. y \<noteq> x \<Longrightarrow> g y = f y"
  shows "(\<Sum>y\<in>A. f y) = Suc (\<Sum>y\<in>A. g y)"
proof -
  have "(\<Sum>y\<in>A - {x}. g y) = (\<Sum>y\<in>A - {x}. f y)" using assms(4) by (intro sum.cong) auto
  then show ?thesis using assms(1-3) by (simp add: sum.remove)
qed

lemma item_step_work:
  assumes "w \<in> items D e" and "stage (send_at s w) = Suc (stage p)" and "send_at s' = (send_at s)(w := p)"
    and "\<And>i. expert_work D s' i = expert_work D s i"
  shows "work_left D s = Suc (work_left D s')"
proof -
  have "w \<in> named_items D" using assms(1) by (auto simp: named_items_def)
  then have "(\<Sum>v\<in>named_items D. stage (send_at s v)) = Suc (\<Sum>v\<in>named_items D. stage (send_at s' v))"
    by (intro sum_at [of _ w]) (simp_all add: assms(2,3))
  then show ?thesis using assms(4) by (simp add: work_left_def)
qed

lemma expert_step_work:
  assumes "e < num_experts D" and "expert_work D s e = Suc (expert_work D s' e)"
    and "\<And>e'. e' \<noteq> e \<Longrightarrow> expert_work D s' e' = expert_work D s e'" and "send_at s' = send_at s"
  shows "work_left D s = Suc (work_left D s')"
proof -
  have "(\<Sum>i<num_experts D. expert_work D s i) = Suc (\<Sum>i<num_experts D. expert_work D s' i)"
    by (rule sum_at [of _ e]) (use assms in simp_all)
  then show ?thesis by (simp add: work_left_def assms(4))
qed

lemma dispatch_step_work:
  assumes "dispatch_step D s s'"
  shows "work_left D s = Suc (work_left D s')"
  using assms
proof cases
  case (take_slot w e)
  then show ?thesis by (intro item_step_work [OF take_slot(2)]) (simp_all add: expert_work_def)
next
  case (write_msg w e v)
  then show ?thesis by (intro item_step_work [OF write_msg(2)]) (simp_all add: expert_work_def)
next
  case (finish w e v)
  then show ?thesis by (intro item_step_work [OF finish(2)]) (simp_all add: expert_work_def)
next
  case (zero i)
  then show ?thesis by (intro expert_step_work [OF zero(3)]) (simp_all add: expert_work_def)
next
  case (tag i)
  then show ?thesis by (intro expert_step_work [OF tag(3)]) (simp_all add: expert_work_def)
next
  case (count e)
  then show ?thesis by (intro expert_step_work [OF count(3)]) (simp_all add: expert_work_def)
next
  case (signal e n)
  then show ?thesis by (intro expert_step_work [OF signal(2)]) (simp_all add: expert_work_def)
next
  case (reset e)
  then show ?thesis by (intro expert_step_work [OF reset(2)]) (simp_all add: expert_work_def)
qed

interpretation dispatch: draining "dispatch_step D" "work_left D" for D
  by unfold_locales (simp add: dispatch_step_work)

text \<open>So the length of a run is fixed by the state it starts in.\<close>

lemma dispatch_run_length:
  assumes "(dispatch_step D ^^ n) s s'"
  shows "work_left D s = n + work_left D s'"
  using assms by (induction n arbitrary: s') (auto dest: dispatch_step_work)

lemma work_left_init:
  assumes "entries_ok D"
  shows "work_left D (dispatch_init counts) = (\<Sum>e<num_experts D. 3 * card (items D e) + 5)"
proof -
  have "work_left D (dispatch_init counts) = 3 * card (named_items D) + 5 * num_experts D"
    by (simp add: work_left_def expert_work_def dispatch_init_def)
  then show ?thesis by (simp add: named_items_sum [OF assms] sum.distrib sum_distrib_left)
qed

section \<open>Progress\<close>

text \<open>
  A state in which only the responsible threads can do something has sent, tagged and counted everything; in a
  stuck state nobody can, and then every expert is signalled and reset.
\<close>

definition idle :: "dispatch_in \<Rightarrow> dispatch_state \<Rightarrow> bool" where
  "idle D s \<longleftrightarrow> (\<forall>s'. dispatch_step D s s' \<longrightarrow> resp_at s' \<noteq> resp_at s)"

definition stuck :: "dispatch_in \<Rightarrow> dispatch_state \<Rightarrow> bool" where
  "stuck D s \<longleftrightarrow> (\<forall>s'. \<not> dispatch_step D s s')"

lemma stuck_idle: "stuck D s \<Longrightarrow> idle D s"
  by (simp add: stuck_def idle_def)

lemma idle_items:
  assumes "idle D s" and "(t, k) \<in> items D e"
  shows "\<exists>v. send_at s (t, k) = Finished v"
  using assms(2)
proof (induction t arbitrary: k e rule: less_induct)
  case (less t)
  have "earlier_sent D s t" using less.IH by (auto simp: earlier_sent_def)
  then show ?case
    using assms(1) less.prems dispatch_step.take_slot [of "(t, k)" D e s] dispatch_step.write_msg [of "(t, k)" D e s]
      dispatch_step.finish [of "(t, k)" D e s]
    unfolding idle_def by (cases "send_at s (t, k)") fastforce+
qed

lemma idle_clean:
  assumes "idle D s" and "1 < num_sms (num_experts D)" and "e < num_experts D"
  shows "zeroed s e" and "tagged s e" and "counted s e \<noteq> None"
proof -
  have z: "zeroed s i" if "i < num_experts D" for i
    using assms(1,2) that dispatch_step.zero unfolding idle_def by fastforce
  then show "zeroed s e" using assms(3) .
  show "tagged s e" using assms z dispatch_step.tag unfolding idle_def by fastforce
  show "counted s e \<noteq> None" using assms dispatch_step.count unfolding idle_def by fastforce
qed

lemma idle_done:
  assumes "idle D s"
  shows "done_items D s e = items D e"
  using idle_items [OF assms, of "fst w" "snd w" e for w] by (fastforce simp: done_items_def)

lemma idle_complete:
  assumes "idle D s" and "1 < num_sms (num_experts D)" and e: "e < num_experts D"
  shows "complete D s e"
  using idle_done [OF assms(1)] idle_clean [OF assms] by (simp add: complete_def)

lemma idle_synced:
  assumes "idle D s" and "1 < num_sms (num_experts D)"
  shows "block_synced D s b"
  unfolding block_synced_def using idle_items [OF assms(1)] idle_clean [OF assms] by blast

lemma stuck_reset:
  assumes st: "stuck D s" and sms: "1 < num_sms (num_experts D)" and inv: "dispatch_inv D s" and e: "e < num_experts D"
  shows "resp_at s e = Reset"
proof (cases "resp_at s e")
  case Waiting
  note id = stuck_idle [OF st]
  obtain n where n: "counted s e = Some n" using idle_clean(3) [OF id sms e] by blast
  have "complete D s e" by (rule idle_complete [OF id sms e])
  moreover have "expert_inv D s e" using inv e by (simp add: dispatch_inv_alt)
  ultimately have "finish_counter D s e = FINISHED_SUM_TAG * 2"
    using Waiting n by (simp add: expert_inv_def counters_ok_def complete_def)
  then show ?thesis using st dispatch_step.signal [OF e idle_synced [OF id sms] Waiting n] unfolding stuck_def by blast
next
  case Signalled
  then show ?thesis using st dispatch_step.reset [OF e Signalled] unfolding stuck_def by blast
qed

section \<open>The receive counters\<close>

text \<open>The responsible threads of the experts of rank 0 are the ones that clear the receive counters.\<close>

lemma recv_count_cleared:
  assumes "dispatch_reachable D counts s" and "e < num_experts D" and "dst_rank_of D e = 0" and "resp_at s e = Reset"
  shows "recv_count s (local_expert_of D e) = 0"
  using assms(1,4)
proof (induction rule: rtranclp_induct)
  case base
  then show ?case by (simp add: dispatch_init_def)
next
  case (step y z)
  show ?case using step(2-4) assms(3) by cases (auto split: if_splits)
qed

section \<open>One block\<close>

lemma one_block_never_counts:
  assumes "dispatch_reachable D counts s" and "num_sms (num_experts D) \<le> 1"
  shows "(\<forall>e. counted s e = None) \<and> (\<forall>e v. Signal e v \<notin> set (acts s))"
  using assms(1)
proof (induction rule: rtranclp_induct)
  case base
  then show ?case by (simp add: dispatch_init_def)
next
  case (step y z)
  show ?case using step(2,3) assms(2) by cases auto
qed

lemma num_sms_eq: "num_sms n = (n + 7) div 8"
proof -
  have "(int n + 7) sdiv 8 = (int n + 7) div 8" by (simp add: signed_divide_int_def sgn_if)
  then have "num_sms n = nat (int ((n + 7) div 8))" by (simp add: num_sms_def cell_div_def zdiv_int add.commute)
  then show ?thesis by simp
qed

lemma one_block_iff: "num_sms n \<le> 1 \<longleftrightarrow> n \<le> 8"
  by (auto simp: num_sms_eq)

section \<open>The token loops\<close>

lemma set_block_tokens:
  assumes "0 < sms"
  shows "set (block_tokens sms n i) = {t. i \<le> t \<and> t < n \<and> t mod sms = i mod sms}"
  using assms
proof (induction sms n i rule: block_tokens.induct)
  case (1 sms n i)
  have step: "i \<le> t \<and> t mod sms = i mod sms \<longleftrightarrow> t = i \<or> i + sms \<le> t \<and> t mod sms = i mod sms" for t
  proof
    assume a: "i \<le> t \<and> t mod sms = i mod sms"
    then have "sms dvd t - i" using mod_eq_dvd_iff_nat [of i t sms] by simp
    then obtain k where "t - i = sms * k" ..
    then have "t = i + sms * k" using a by arith
    then show "t = i \<or> i + sms \<le> t \<and> t mod sms = i mod sms" using a by (cases k) simp_all
  qed auto
  show ?case
  proof (cases "i < n")
    case True
    then have "set (block_tokens sms n (i + sms)) = {t. i + sms \<le> t \<and> t < n \<and> t mod sms = i mod sms}" using 1 by simp
    then show ?thesis using True 1(2) step by (subst block_tokens.simps) auto
  qed (subst block_tokens.simps, auto)
qed

lemma distinct_block_tokens: "distinct (block_tokens sms n i)"
proof (induction sms n i rule: block_tokens.induct)
  case (1 sms n i)
  show ?case
  proof (cases "i < n \<and> 0 < sms")
    case True
    then have "i \<notin> set (block_tokens sms n (i + sms))" by (simp add: set_block_tokens)
    then show ?thesis using True 1 by (subst block_tokens.simps) simp
  next
    case False
    then show ?thesis by (subst block_tokens.simps) (simp only: if_False distinct.simps)
  qed
qed

text \<open>The tokens of a block are the ones that \<open>block_of_token\<close> gives to it.\<close>

lemma block_tokens_of_block:
  assumes "b < num_sms (num_experts D)"
  shows "set (block_tokens (num_sms (num_experts D)) (num_tokens D) b) = {t. t < num_tokens D \<and> block_of_token D t = b}"
  using assms by (auto simp: set_block_tokens block_of_token_def)

section \<open>Messages and slots\<close>

text \<open>The actions for an expert are its messages with their slots, and the signal when it has been sent.\<close>

lemma expert_actions:
  assumes inv: "expert_inv D s e" and small: "card (items D e) < 2 ^ 31" and sig: "resp_at s e \<noteq> Waiting"
  shows "\<exists>ms. filter (\<lambda>a. act_expert a = e) (acts s) =
      map (\<lambda>(w, i). Msg e w (of_nat i)) ms @ [Signal e (- of_nat (card (items D e)) - 1)] \<and>
    distinct (map fst ms) \<and> set (map fst ms) = items D e \<and>
    distinct (map snd ms) \<and> set (map snd ms) = {..<card (items D e)}"
proof -
  have c: "complete D s e" using inv sig by (simp add: expert_inv_def)
  then have fin: "\<exists>v. send_at s w = Finished v" if "w \<in> items D e" for w
    using that by (auto simp: complete_def done_items_def elim: has_finished.elims)
  then have wr: "{w \<in> items D e. has_written (send_at s w)} = items D e" and st: "started D s e = items D e"
    by (fastforce simp: started_def)+
  obtain ws where ws: "filter (\<lambda>a. act_expert a = e) (acts s) =
      map (\<lambda>w. Msg e w (the (slot_at (send_at s w)))) ws @ [Signal e (- of_nat (card (items D e)) - 1)]"
    "distinct ws" "set ws = items D e"
    using inv sig wr by (auto simp: expert_inv_def acts_ok_def)
  let ?ms = "map (\<lambda>w. (w, slot_of_item s w)) ws"
  have inj: "inj_on (slot_of_item s) (items D e)" and lt: "slot_of_item s ` items D e \<subseteq> {..<card (items D e)}"
    using inv st by (auto simp: expert_inv_def slots_ok_def)
  have "slot_of_item s ` items D e = {..<card (items D e)}"
    using lt by (rule card_subset_eq [rotated]) (simp_all add: card_image inj)
  moreover have "map (\<lambda>w. Msg e w (the (slot_at (send_at s w)))) ws = map (\<lambda>(w, i). Msg e w (of_nat i)) ?ms"
    by (simp add: slot_of_item_def)
  moreover have "map fst ?ms = ws" "map snd ?ms = map (slot_of_item s) ws" by (simp_all add: comp_def)
  moreover have "distinct (map (slot_of_item s) ws)" using ws inj by (simp add: distinct_map)
  ultimately have "filter (\<lambda>a. act_expert a = e) (acts s) =
      map (\<lambda>(w, i). Msg e w (of_nat i)) ?ms @ [Signal e (- of_nat (card (items D e)) - 1)] \<and>
    distinct (map fst ?ms) \<and> set (map fst ?ms) = items D e \<and>
    distinct (map snd ?ms) \<and> set (map snd ?ms) = {..<card (items D e)}"
    using ws by (simp only: set_map [of "slot_of_item s"] simp_thms)
  then show ?thesis ..
qed

lemma acts_have_signal:
  assumes "expert_inv D s e" and "Signal e v \<in> set (acts s)"
  shows "resp_at s e \<noteq> Waiting"
proof
  assume w: "resp_at s e = Waiting"
  then obtain ms where "filter (\<lambda>a. act_expert a = e) (acts s) = map (\<lambda>w. Msg e w (the (slot_at (send_at s w)))) ms"
    using assms(1) by (auto simp: expert_inv_def acts_ok_def)
  moreover have "Signal e v \<in> set (filter (\<lambda>a. act_expert a = e) (acts s))" using assms(2) by simp
  ultimately show False by auto
qed

lemma final_signal:
  assumes "expert_inv D s e" and "card (items D e) < 2 ^ 31" and "resp_at s e = Reset"
  shows "Signal e (- of_nat (card (items D e)) - 1) \<in> set (acts s)"
proof -
  obtain ms where "filter (\<lambda>a. act_expert a = e) (acts s) =
      map (\<lambda>(w, i). Msg e w (of_nat i)) ms @ [Signal e (- of_nat (card (items D e)) - 1)]"
    using expert_actions [OF assms(1,2)] assms(3) by auto
  then have "Signal e (- of_nat (card (items D e)) - 1) \<in> set (filter (\<lambda>a. act_expert a = e) (acts s))"
    by (simp only: set_append) simp
  then show ?thesis by simp
qed

text \<open>A slot that is taken is below the number of the expert's messages.\<close>

lemma msg_slot_less:
  assumes inv: "expert_inv D s e" and small: "card (items D e) < 2 ^ 31" and m: "Msg e w v \<in> set (acts s)"
  shows "w \<in> items D e" and "unat v < card (items D e)" and "slot_at (send_at s w) = Some v"
proof -
  obtain ms where ms: "filter (\<lambda>a. act_expert a = e) (acts s) = map (\<lambda>w. Msg e w (the (slot_at (send_at s w)))) ms @
       (if resp_at s e = Waiting then [] else [Signal e (- of_nat (card (items D e)) - 1)])"
    "set ms = {w \<in> items D e. has_written (send_at s w)}"
    using inv by (auto simp: expert_inv_def acts_ok_def)
  have "Msg e w v \<in> set (filter (\<lambda>a. act_expert a = e) (acts s))" using m by simp
  then have w: "w \<in> items D e" "has_written (send_at s w)" "v = the (slot_at (send_at s w))"
    unfolding ms(1) using ms(2) by (auto split: if_splits)
  then show "w \<in> items D e" "slot_at (send_at s w) = Some v" by (auto elim: has_written.elims)
  have "w \<in> started D s e" using w by (auto simp: started_def)
  then have "unat v < card (started D s e)"
    using inv w(3) by (auto simp: expert_inv_def slots_ok_def slot_of_item_def)
  also have "\<dots> \<le> card (items D e)" by (rule card_mono) (auto simp: started_def)
  finally show "unat v < card (items D e)" .
qed

text \<open>When a token names an expert at most once, an expert has at most one message per token.\<close>

definition distinct_experts :: "dispatch_in \<Rightarrow> bool" where
  "distinct_experts D \<longleftrightarrow> (\<forall>t<num_tokens D. \<forall>k<num_topk D. \<forall>k'<num_topk D.
     dst_expert_idx D t k = dst_expert_idx D t k' \<longrightarrow> 0 \<le> dst_expert_idx D t k \<longrightarrow> k = k')"

lemma card_items_distinct:
  assumes "distinct_experts D"
  shows "card (items D e) \<le> num_tokens D"
proof -
  have "inj_on fst (items D e)"
  proof (rule inj_onI)
    fix u v assume u: "u \<in> items D e" and v: "v \<in> items D e" and eq: "fst u = fst v"
    have "dst_expert_idx D (fst u) (snd u) = dst_expert_idx D (fst u) (snd v)" "0 \<le> dst_expert_idx D (fst u) (snd u)"
      "fst u < num_tokens D" "snd u < num_topk D" "snd v < num_topk D"
      using u v eq by (auto simp: items_def)
    then have "snd u = snd v" using assms unfolding distinct_experts_def by blast
    then show "u = v" using eq by (rule prod_eqI [rotated])
  qed
  then have "card (items D e) = card (fst ` items D e)" by (simp add: card_image)
  also have "\<dots> \<le> card {..<num_tokens D}" by (rule card_mono) (auto simp: items_def)
  finally show ?thesis by simp
qed

text \<open>From every reachable state of a launch of several blocks a stuck state is reached.\<close>

lemma dispatch_reaches_stuck: "\<exists>s'. (dispatch_step D)\<^sup>*\<^sup>* s s' \<and> stuck D s'"
  using dispatch.reaches_end unfolding stuck_def .

lemma stuck_final:
  assumes "launch_ok D" and "entries_ok D" and "8 < num_experts D" and r: "dispatch_reachable D counts s" and "stuck D s" and e: "e < num_experts D"
  shows "resp_at s e = Reset" and "expert_inv D s e" and "complete D s e"
proof -
  have sms: "1 < num_sms (num_experts D)" using assms(3) one_block_iff [of "num_experts D"] by simp
  have inv: "dispatch_inv D s" by (rule dispatch_reachable_inv [OF r assms(1,2)])
  show "resp_at s e = Reset" by (rule stuck_reset [OF assms(5) sms inv e])
  show "expert_inv D s e" using inv e by (simp add: dispatch_inv_alt)
  show "complete D s e" by (rule idle_complete [OF stuck_idle [OF assms(5)] sms e])
qed

lemma stuck_no_work:
  assumes "launch_ok D" and "entries_ok D" and "8 < num_experts D" and "dispatch_reachable D counts s" and "stuck D s"
  shows "work_left D s = 0"
proof -
  note id = stuck_idle [OF assms(5)]
  have sms: "1 < num_sms (num_experts D)" using assms(3) one_block_iff [of "num_experts D"] by simp
  have "expert_work D s e = 0" if e: "e < num_experts D" for e
    using stuck_final(1) [OF assms e] idle_clean [OF id sms e] by (simp add: expert_work_def)
  moreover have "stage (send_at s w) = 0" if w: "w \<in> named_items D" for w
  proof -
    obtain e where "(fst w, snd w) \<in> items D e" using w by (auto simp: named_items_def)
    then obtain v where "send_at s w = Finished v" using idle_items [OF id] by fastforce
    then show ?thesis by simp
  qed
  ultimately show ?thesis by (simp add: work_left_def)
qed

section \<open>Properties\<close>

text \<open>A launch of two blocks: nine experts on one rank, two tokens with two entries each.\<close>

definition demo_dispatch :: dispatch_in where
  "demo_dispatch = \<lparr>num_tokens = 2, num_topk = 2, num_experts = 9, num_ranks = 1, rank = 0,
     topk_idx = (\<lambda>i. if i = 0 then 8 else if i = 1 then 3 else if i = 2 then 2 else 8)\<rparr>"

lemma demo_dispatch_ok:
  "launch_ok demo_dispatch" "8 < num_experts demo_dispatch" "distinct_experts demo_dispatch" "entries_ok demo_dispatch"
proof -
  show "launch_ok demo_dispatch" "8 < num_experts demo_dispatch" by (simp_all add: launch_ok_def demo_dispatch_def)
  show "distinct_experts demo_dispatch"
    by (auto simp: distinct_experts_def demo_dispatch_def dst_expert_idx_def less_2_cases_iff)
  show "entries_ok demo_dispatch"
    by (auto simp: entries_ok_def demo_dispatch_def dst_expert_idx_def less_2_cases_iff)
qed

text \<open>
  C3. When no entry names an expert that does not exist: whenever the signal of an expert has been sent, every message for the expert was sent before it,
  once, to the slots 0 to n-1 in some order, where n is the number of entries that name the expert,
  and the signal is the word -n-1, whatever the interleaving of the blocks and warps.
\<close>

theorem dispatch_signal_after_messages:
  assumes "launch_ok D" and "entries_ok D" and "dispatch_reachable D counts s" and "e < num_experts D" and "Signal e v \<in> set (acts s)"
  shows "\<exists>ms. filter (\<lambda>a. act_expert a = e) (acts s) =
      map (\<lambda>(w, i). Msg e w (of_nat i)) ms @ [Signal e (- of_nat (card (items D e)) - 1)] \<and>
    distinct (map fst ms) \<and> set (map fst ms) = items D e \<and>
    distinct (map snd ms) \<and> set (map snd ms) = {..<card (items D e)}"
proof -
  have inv: "expert_inv D s e" using dispatch_reachable_inv [OF assms(3,1,2)] assms(4) by (simp add: dispatch_inv_alt)
  show ?thesis by (rule expert_actions [OF inv launch_okD(2) [OF assms(1)] acts_have_signal [OF inv assms(5)]])
qed

theorem dispatch_signal_after_messages_witness:
  "\<exists>s ms. dispatch_reachable demo_dispatch (\<lambda>_. 7) s \<and>
     filter (\<lambda>a. act_expert a = 8) (acts s) = map (\<lambda>(w, i). Msg 8 w (of_nat i)) ms @ [Signal 8 (- of_nat (card (items demo_dispatch 8)) - 1)]"
proof -
  let ?D = demo_dispatch
  obtain s where r: "dispatch_reachable ?D (\<lambda>_. 7) s" and st: "stuck ?D s" using dispatch_reaches_stuck by blast
  have e: "8 < num_experts ?D" by (simp add: demo_dispatch_def)
  note fin = stuck_final [OF demo_dispatch_ok(1,4,2) r st e]
  have "Signal 8 (- of_nat (card (items ?D 8)) - 1) \<in> set (acts s)"
    by (rule final_signal [OF fin(2) launch_okD(2) [OF demo_dispatch_ok(1)] fin(1)])
  from dispatch_signal_after_messages [OF demo_dispatch_ok(1,4) r e this] r show ?thesis by blast
qed

text \<open>
  C5. When no entry names an expert that does not exist, every run of the send phase has the same length when
  it can go no further: three accesses for each message and five for each expert. So it always ends, and it
  never ends early.
\<close>

theorem dispatch_run_ends:
  assumes "launch_ok D" and "entries_ok D" and "8 < num_experts D" and "(dispatch_step D ^^ n) (dispatch_init counts) s"
  shows "(\<forall>s'. \<not> dispatch_step D s s') \<longleftrightarrow> n = (\<Sum>e<num_experts D. 3 * card (items D e) + 5)"
proof -
  have "dispatch_reachable D counts s" using assms(4) by (rule relpowp_imp_rtranclp)
  then have "stuck D s \<Longrightarrow> work_left D s = 0" by (rule stuck_no_work [OF assms(1-3)])
  moreover have "work_left D s = 0 \<Longrightarrow> stuck D s" by (auto simp: stuck_def dest: dispatch_step_work)
  ultimately show ?thesis
    using dispatch_run_length [OF assms(4)] by (auto simp: work_left_init [OF assms(2)] stuck_def)
qed

theorem dispatch_run_ends_witness:
  "\<not> (\<forall>s'. \<not> dispatch_step demo_dispatch (dispatch_init (\<lambda>_. 0)) s')"
proof -
  have "(dispatch_step demo_dispatch ^^ 0) (dispatch_init (\<lambda>_. 0)) (dispatch_init (\<lambda>_. 0))" by simp
  moreover have "0 \<noteq> (\<Sum>e<num_experts demo_dispatch. 3 * card (items demo_dispatch e) + 5)"
    by (auto simp: demo_dispatch_def intro: exI [of _ 0])
  ultimately show ?thesis using dispatch_run_ends [OF demo_dispatch_ok(1,4,2)] by blast
qed

text \<open>
  C4. When no entry names an expert that does not exist and the send phase can go no further, nothing is missing: every expert has been signalled, the
  two counters of every expert are back at 0 for the next launch, the signal words of the other buffer
  are cleared, and so are the receive counters of the rank's own experts.
\<close>

theorem dispatch_leaves_clean:
  assumes "launch_ok D" and "entries_ok D" and "8 < num_experts D" and "dispatch_reachable D counts s"
    and "\<forall>s'. \<not> dispatch_step D s s'"
  shows "(\<forall>e<num_experts D. Signal e (- of_nat (card (items D e)) - 1) \<in> set (acts s) \<and>
      atomic_counter D s e = 0 \<and> finish_counter D s e = 0 \<and> zeroed s e) \<and>
    (\<forall>l<num_local_experts D. recv_count s l = 0)"
proof (intro conjI allI impI)
  have st: "stuck D s" using assms(5) by (simp add: stuck_def)
  have sms: "1 < num_sms (num_experts D)" using assms(3) one_block_iff [of "num_experts D"] by simp
  note fin = stuck_final [OF assms(1-4) st]
  fix e assume e: "e < num_experts D"
  show "Signal e (- of_nat (card (items D e)) - 1) \<in> set (acts s)"
    by (rule final_signal [OF fin(2) [OF e] launch_okD(2) [OF assms(1)] fin(1) [OF e]])
  show "atomic_counter D s e = 0" "finish_counter D s e = 0"
    using fin(1,2) [OF e] by (simp_all add: expert_inv_def counters_ok_def)
  show "zeroed s e" by (rule idle_clean(1) [OF stuck_idle [OF st] sms e])
next
  fix l assume l: "l < num_local_experts D"
  then have le: "l < num_experts D" using div_le_dividend [of "num_experts D" "num_ranks D"]
    unfolding num_local_experts_def by linarith
  have "stuck D s" using assms(5) by (simp add: stuck_def)
  then have "resp_at s l = Reset" using stuck_final(1) [OF assms(1-4) _ le] by simp
  then show "recv_count s l = 0"
    using recv_count_cleared [OF assms(4) le] l by (simp add: dst_rank_of_def local_expert_of_def)
qed

theorem dispatch_leaves_clean_witness:
  "\<exists>s. dispatch_reachable demo_dispatch (\<lambda>_. 7) s \<and> finish_counter demo_dispatch s 8 = 0 \<and> recv_count s 3 = 0"
proof -
  obtain s where r: "dispatch_reachable demo_dispatch (\<lambda>_. 7) s" and "stuck demo_dispatch s"
    using dispatch_reaches_stuck by blast
  then have "\<forall>s'. \<not> dispatch_step demo_dispatch s s'" by (simp add: stuck_def)
  from dispatch_leaves_clean [OF demo_dispatch_ok(1,4,2) r this] r show ?thesis
    by (auto simp: demo_dispatch_def num_local_experts_def intro!: exI [of _ s])
qed

text \<open>
  A launch for eight experts or fewer has one block, whose last warp stops at its device assertion:
  no expert is ever signalled, so the receivers are left waiting.
\<close>

theorem dispatch_traps_one_block:
  assumes "num_experts D \<le> 8" and "dispatch_reachable D counts s"
  shows "Signal e v \<notin> set (acts s)"
  using one_block_never_counts [OF assms(2)] assms(1) one_block_iff by blast

theorem dispatch_traps_one_block_witness:
  "\<not> (\<exists>v. Signal 3 v \<in> set (acts (dispatch_init (\<lambda>_. 0))))"
  using dispatch_traps_one_block [of "demo_dispatch\<lparr>num_experts := 8\<rparr>" "\<lambda>_. 0" "dispatch_init (\<lambda>_. 0)" 3]
  by (simp add: demo_dispatch_def)

end
