(* ===== verification/Kernel_Messages.thy ===== *)
theory Kernel_Messages
  imports Dispatch_Protocol
begin

text \<open>
  What the kernels (\<^verbatim>\<open>src/ep_kernel.cu\<close>) send and to where: the transport chosen for a destination rank and
  the addresses it is given, for the messages and signals of the dispatch and for the rows and signals
  of the combine, and the contents of a dispatch message (the copy of the row or its quantisation).
\<close>

section \<open>Transports\<close>

text \<open>
  The pointer arguments of a kernel that concern its peers: the buffer, where each rank's buffer is
  registered and mapped, and which ranks have a mapping.
\<close>

record kernel_peers =
  mxa_buffer :: u64
  raddr_array :: "nat \<Rightarrow> u64"
  rkey_array :: "nat \<Rightarrow> u32"
  nvlink_available :: "nat \<Rightarrow> cint"
  ipc_peer_ptrs :: "nat \<Rightarrow> u64"

text \<open>
  What a warp does: copy 16-byte vectors to an address it can store to, store a word with release, or
  post to a queue pair.
\<close>

datatype transfer = Warp_copy u64 u64 nat | Store_release u64 cint | Post_send nat send

definition peer_address :: "u64 \<Rightarrow> u64 \<Rightarrow> u64 \<Rightarrow> u64" where
  "peer_address peer_base ptr base = peer_base + (ptr - base)"

text \<open>A message of the dispatch to expert \<open>dst_expert_local_idx\<close> of \<open>dst_rank\<close>.\<close>

definition dispatch_transfer :: "kernel_peers \<Rightarrow> nat \<Rightarrow> nat \<Rightarrow> nat \<Rightarrow> nat \<Rightarrow> u64 \<Rightarrow> u64 \<Rightarrow> nat \<Rightarrow> transfer" where
  "dispatch_transfer P my_rank ranks dst_rank dst_expert_local_idx src_ptr dst_ptr num_bytes =
     (if dst_rank \<noteq> my_rank then
        if nvlink_available P dst_rank \<noteq> 0
        then Warp_copy (peer_address (ipc_peer_ptrs P dst_rank) dst_ptr (mxa_buffer P)) src_ptr (num_bytes div 16)
        else Post_send (qp_index ranks dst_rank dst_expert_local_idx)
          (Send_write src_ptr (device_byteswap32 (rkey_array P my_rank))
             (peer_address (raddr_array P dst_rank) dst_ptr (mxa_buffer P))
             (device_byteswap32 (rkey_array P dst_rank)) (of_nat num_bytes))
      else Warp_copy dst_ptr src_ptr (num_bytes div 16))"

text \<open>
  The signal of an expert: the same choice for the dispatch (value \<open>-n-1\<close>) and the combine (value 1);
  only the words they write differ.
\<close>

definition signal_transfer :: "kernel_peers \<Rightarrow> nat \<Rightarrow> nat \<Rightarrow> nat \<Rightarrow> nat \<Rightarrow> u64 \<Rightarrow> u64 \<Rightarrow> cint \<Rightarrow> transfer" where
  "signal_transfer P my_rank ranks dst_rank local_idx send_word recv_word v =
     (if dst_rank \<noteq> my_rank then
        if nvlink_available P dst_rank \<noteq> 0
        then Store_release (peer_address (ipc_peer_ptrs P dst_rank) recv_word (mxa_buffer P)) v
        else Post_send (qp_index ranks dst_rank local_idx)
          (Send_add v (peer_address (raddr_array P my_rank) send_word (mxa_buffer P)) (device_byteswap32 (rkey_array P my_rank))
             (peer_address (raddr_array P dst_rank) recv_word (mxa_buffer P)) (device_byteswap32 (rkey_array P dst_rank)))
      else Store_release recv_word v)"

text \<open>A row of the combine; the row is first copied to the send region unless the caller put it there.\<close>

definition combine_transfer :: "kernel_peers \<Rightarrow> nat \<Rightarrow> nat \<Rightarrow> nat \<Rightarrow> nat \<Rightarrow> u64 \<Rightarrow> u64 \<Rightarrow> u64 \<Rightarrow> nat \<Rightarrow> bool \<Rightarrow> transfer list" where
  "combine_transfer P my_rank ranks dst_rank local_expert_idx x_row buf_ptr dst_ptr num_bytes zero_copy =
     (if dst_rank = my_rank then [Warp_copy dst_ptr x_row (num_bytes div 16)]
      else if nvlink_available P dst_rank \<noteq> 0
      then [Warp_copy (peer_address (ipc_peer_ptrs P dst_rank) dst_ptr (mxa_buffer P)) x_row (num_bytes div 16)]
      else (if zero_copy then [] else [Warp_copy buf_ptr x_row (num_bytes div 16)]) @
        [Post_send (qp_index ranks dst_rank local_expert_idx)
          (Send_write buf_ptr (device_byteswap32 (rkey_array P my_rank))
             (peer_address (raddr_array P dst_rank) dst_ptr (mxa_buffer P))
             (device_byteswap32 (rkey_array P dst_rank)) (of_nat num_bytes))])"

text \<open>The address a transfer writes to, and where the kernel sees the start of a rank's buffer.\<close>

fun transfer_target :: "transfer \<Rightarrow> u64" where
  "transfer_target (Warp_copy dst src n) = dst"
| "transfer_target (Store_release dst v) = dst"
| "transfer_target (Post_send i (Send_write laddr lk ra rk bytes)) = ra"
| "transfer_target (Post_send i (Send_add v laddr lk ra rk)) = ra"

definition peer_view :: "kernel_peers \<Rightarrow> nat \<Rightarrow> nat \<Rightarrow> u64" where
  "peer_view P my_rank r =
     (if r = my_rank then mxa_buffer P else if nvlink_available P r \<noteq> 0 then ipc_peer_ptrs P r else raddr_array P r)"

lemma transfer_targets:
  "transfer_target (dispatch_transfer P me R r l src dst n) = peer_address (peer_view P me r) dst (mxa_buffer P)"
  "transfer_target (signal_transfer P me R r l sw rw v) = peer_address (peer_view P me r) rw (mxa_buffer P)"
  "transfer_target (last (combine_transfer P me R r l x buf dst n z)) = peer_address (peer_view P me r) dst (mxa_buffer P)"
  by (simp_all add: dispatch_transfer_def signal_transfer_def combine_transfer_def peer_view_def peer_address_def)

text \<open>The regions of two buffers of the same shape lie at the same offsets.\<close>

lemma mk_BufferPair_offset:
  assumes "i < 2" and "b = buffers (mk_BufferPair base M H R E) ! i" and "c = buffers (mk_BufferPair base' M H R E) ! i"
  shows "peer_address base' (rdma_recv_signal_buffer b) base = rdma_recv_signal_buffer c"
    "peer_address base' (rdma_recv_data_buffer b) base = rdma_recv_data_buffer c"
  using assms(1) unfolding less_2_cases_iff assms(2,3)
  by (auto simp: peer_address_def mk_BufferPair_def layout_round_def Let_def advance_def)

lemma peer_address_shift: "peer_address base' (ptr + d) base = peer_address base' ptr base + d"
  by (simp add: peer_address_def)

lemma slot_ptr_shift:
  "peer_address base' (dispatch_dst_ptr p l R M r s n) base = dispatch_dst_ptr (peer_address base' p base) l R M r s n"
  "peer_address base' (dispatch_signal_ptr p l R r) base = dispatch_signal_ptr (peer_address base' p base) l R r"
  "peer_address base' (combine_dst_ptr p g M s n) base = combine_dst_ptr (peer_address base' p base) g M s n"
  "peer_address base' (combine_signal_ptr p g) base = combine_signal_ptr (peer_address base' p base) g"
  by (simp_all add: dispatch_dst_ptr_def dispatch_signal_ptr_def combine_dst_ptr_def combine_signal_ptr_def
      peer_address_def algebra_simps)

section \<open>The row of a message\<close>

text \<open>
  The 992 threads of the 31 sending warps share the vectors of a row: thread \<open>t\<close> handles \<open>t\<close>,
  \<open>t + 992\<close>, \dots. In BF16 each vector is copied.
\<close>

fun store_row :: "nat list \<Rightarrow> nat \<Rightarrow> (nat \<Rightarrow> 'v) \<Rightarrow> (nat \<Rightarrow> 'v) \<Rightarrow> nat \<Rightarrow> 'v" where
  "store_row [] n f dst = dst"
| "store_row (t # threads) n f dst = store_row threads n f (store_all (map (\<lambda>i. (i, f i)) (block_tokens 992 n t)) dst)"

text \<open>
  In FP8 a thread takes the largest magnitude of its eight elements, with a margin, and the half
  warp takes the largest of its sixteen threads. The value type is any linear order; the conversions are
  parameters. The 32 lanes of a warp handle 32 consecutive vectors in each round.
\<close>

definition thread_amax :: "'f::linorder \<Rightarrow> ('f \<Rightarrow> 'f) \<Rightarrow> (nat \<Rightarrow> 'f) \<Rightarrow> 'f" where
  "thread_amax kFP8Margin fabsf v = fold (\<lambda>j amax. max amax (fabsf (v j))) [0..<8] kFP8Margin"

definition row_amax :: "'f::linorder \<Rightarrow> ('f \<Rightarrow> 'f) \<Rightarrow> (nat \<Rightarrow> nat \<Rightarrow> 'f) \<Rightarrow> nat \<Rightarrow> 'f" where
  "row_amax kFP8Margin fabsf x i =
     half_warp_reduce_max (\<lambda>lane_id. thread_amax kFP8Margin fabsf (x (i div 32 * 32 + lane_id))) (i mod 32)"

text \<open>Lanes 0 and 16 store the scale of their half warp.\<close>

definition store_scale :: "'f::linorder \<Rightarrow> ('f \<Rightarrow> 'f) \<Rightarrow> ('f \<Rightarrow> 's) \<Rightarrow> (nat \<Rightarrow> nat \<Rightarrow> 'f) \<Rightarrow> nat \<Rightarrow> (nat \<Rightarrow> 's) \<Rightarrow> nat \<Rightarrow> 's" where
  "store_scale kFP8Margin fabsf scale_inv x i scales =
     (if i mod 32 = 0 \<or> i mod 32 = 16 then scales(i * 8 div 128 := scale_inv (row_amax kFP8Margin fabsf x i)) else scales)"

definition row_scales :: "'f::linorder \<Rightarrow> ('f \<Rightarrow> 'f) \<Rightarrow> ('f \<Rightarrow> 's) \<Rightarrow> (nat \<Rightarrow> nat \<Rightarrow> 'f) \<Rightarrow> nat list \<Rightarrow> (nat \<Rightarrow> 's) \<Rightarrow> nat \<Rightarrow> 's" where
  "row_scales kFP8Margin fabsf scale_inv x order scales = fold (store_scale kFP8Margin fabsf scale_inv x) order scales"

text \<open>An element is quantised with the scale of its half warp.\<close>

definition quantised :: "'f::linorder \<Rightarrow> ('f \<Rightarrow> 'f) \<Rightarrow> ('f \<Rightarrow> 'f \<Rightarrow> 'q) \<Rightarrow> (nat \<Rightarrow> nat \<Rightarrow> 'f) \<Rightarrow> nat \<Rightarrow> nat \<Rightarrow> 'q" where
  "quantised kFP8Margin fabsf convert x i j = convert (row_amax kFP8Margin fabsf x i) (x i j)"

section \<open>Rows and groups\<close>

lemma store_row_eq:
  "store_row threads n f dst i =
     (if i < n \<and> (\<exists>t\<in>set threads. t \<le> i \<and> i mod 992 = t mod 992) then f i else dst i)"
proof (induction threads arbitrary: dst)
  case (Cons t threads)
  have "store_all (map (\<lambda>i. (i, f i)) (block_tokens 992 n t)) dst i =
      (if t \<le> i \<and> i < n \<and> i mod 992 = t mod 992 then f i else dst i)"
    using store_all_src [of "\<lambda>i. i" f "block_tokens 992 n t" dst i] by (simp add: set_block_tokens)
  then show ?case using Cons.IH by auto
qed simp

lemma store_row_correct:
  assumes "set threads = {..<992}"
  shows "store_row threads n f dst = (\<lambda>i. if i < n then f i else dst i)"
proof
  fix i :: nat
  have "i mod 992 \<in> set threads" using assms by simp
  then show "store_row threads n f dst i = (if i < n then f i else dst i)"
    unfolding store_row_eq by (metis mod_less_eq_dividend mod_mod_trivial)
qed

lemma Max_UN:
  fixes A :: "'i \<Rightarrow> 'f::linorder set"
  assumes "finite I" and "I \<noteq> {}" and "\<And>i. i \<in> I \<Longrightarrow> finite (A i) \<and> A i \<noteq> {}"
  shows "Max ((\<lambda>i. Max (A i)) ` I) = Max (\<Union>i\<in>I. A i)"
  using assms
proof (induction rule: finite_ne_induct)
  case (insert i I)
  then have "Max (\<Union>j\<in>insert i I. A j) = max (Max (A i)) (Max (\<Union>j\<in>I. A j))" by (simp add: Max_Un)
  then show ?case using insert by simp
qed simp

lemma thread_amax_eq: "thread_amax m fabsf v = Max (insert m ((\<lambda>j. fabsf (v j)) ` {..<8}))"
proof -
  have "fold (\<lambda>j amax. max amax (fabsf (v j))) js a = Max (insert a ((\<lambda>j. fabsf (v j)) ` set js))" for js a
  proof (induction js arbitrary: a)
    case (Cons j js)
    show ?case
    proof (cases "js = []")
      case False
      then have "Max (insert (max a (fabsf (v j))) ((\<lambda>j. fabsf (v j)) ` set js)) =
          max (max a (fabsf (v j))) (Max ((\<lambda>j. fabsf (v j)) ` set js))" by simp
      also have "\<dots> = Max (insert a ((\<lambda>j. fabsf (v j)) ` set (j # js)))" using False by (simp add: max.assoc)
      finally show ?thesis using Cons.IH by simp
    qed simp
  qed simp
  from this [of "[0..<8]" m] show ?thesis by (simp only: thread_amax_def set_upt atLeast0LessThan)
qed

lemma half_of_warp: "n div 32 = n div 16 div 2" "n mod 32 div 16 = n div 16 mod 2" for n :: nat
  using mod_mult2_eq [of n 16 2] by (simp_all add: div_mult2_eq [symmetric])

lemma group_members:
  "(\<Union>l\<in>{j \<in> {..<32}. j div 16 = i mod 32 div 16}. (\<lambda>j. (i div 32 * 32 + l) * 8 + j) ` {..<8}) =
   {i div 16 * 128..<i div 16 * 128 + (128::nat)}" (is "?U = ?G")
proof (intro set_eqI iffI)
  fix e assume "e \<in> ?U"
  then obtain l j where e: "l < 32" "l div 16 = i mod 32 div 16" "j < 8" "e = (i div 32 * 32 + l) * 8 + j" by auto
  have "(i div 32 * 32 + l) div 16 = i div 16"
  proof -
    have "i div 16 = i div 16 div 2 * 2 + i div 16 mod 2" by simp
    then have "i div 16 = i div 32 * 2 + l div 16" unfolding e(2) half_of_warp .
    then show ?thesis by simp
  qed
  then have "i div 16 * 16 \<le> i div 32 * 32 + l" "i div 32 * 32 + l < i div 16 * 16 + 16"
    using div_mult_mod_eq [of "i div 32 * 32 + l" 16] mod_less_divisor [of 16 "i div 32 * 32 + l"] by linarith+
  then show "e \<in> ?G" using e(3,4) by simp
next
  fix e assume g: "e \<in> ?G"
  then have "e div 128 = i div 16" by (intro div_nat_eqI) simp_all
  then have d: "e div 8 div 16 = i div 16" by (simp add: div_mult2_eq [symmetric])
  let ?l = "e div 8 mod 32"
  have "e div 8 div 16 div 2 = i div 16 div 2" using d by simp
  then have hi: "e div 8 div 32 = i div 32" by (simp add: div_mult2_eq [symmetric])

  have "e = (e div 8 div 32 * 32 + ?l) * 8 + e mod 8" by simp
  then have eq: "e = (i div 32 * 32 + ?l) * 8 + e mod 8" using hi by simp
  have "e mod 8 \<in> {..<8}" by simp
  with eq have "e \<in> (\<lambda>j. (i div 32 * 32 + ?l) * 8 + j) ` {..<8}" by (rule image_eqI)
  moreover have "?l \<in> {j \<in> {..<32}. j div 16 = i mod 32 div 16}" using d half_of_warp(2) by simp
  ultimately show "e \<in> ?U" by (rule UN_I [rotated])
qed

text \<open>The scale covers exactly the 128 elements of the group.\<close>

lemma row_amax_eq:
  "row_amax m fabsf x i = Max (insert m ((\<lambda>e. fabsf (x (e div 8) (e mod 8))) ` {i div 16 * 128..<i div 16 * 128 + 128}))"
proof -
  let ?v = "\<lambda>e. fabsf (x (e div 8) (e mod 8))"
  let ?L = "{j \<in> {..<32}. j div 16 = i mod 32 div 16}"
  let ?A = "\<lambda>l. insert m ((\<lambda>j. fabsf (x (i div 32 * 32 + l) j)) ` {..<8})"
  have "i mod 32 \<in> ?L" by simp
  then have ne: "?L \<noteq> {}" by blast
  have dm: "(a * 8 + j) div 8 = a" "(a * 8 + j) mod 8 = j" if "j < 8" for a j :: nat using that by simp_all
  have "row_amax m fabsf x i = Max ((\<lambda>l. Max (?A l)) ` ?L)"
    unfolding row_amax_def by (subst half_warp_max) (simp_all add: thread_amax_eq)
  also have "\<dots> = Max (\<Union>l\<in>?L. ?A l)" by (rule Max_UN) (use ne in simp_all)
  also have "?A l = insert m (?v ` (\<lambda>j. (i div 32 * 32 + l) * 8 + j) ` {..<8})" for l
    unfolding image_image by (intro arg_cong [where f = "insert m"] image_cong refl) (simp only: dm lessThan_iff)
  then have "(\<Union>l\<in>?L. ?A l) = insert m (?v ` (\<Union>l\<in>?L. (\<lambda>j. (i div 32 * 32 + l) * 8 + j) ` {..<8}))"
    using ne by (simp add: image_UN insert_commute UN_insert_distrib)
  finally show ?thesis unfolding group_members .
qed

section \<open>Properties\<close>

definition group_amax :: "'f::linorder \<Rightarrow> ('f \<Rightarrow> 'f) \<Rightarrow> (nat \<Rightarrow> nat \<Rightarrow> 'f) \<Rightarrow> nat \<Rightarrow> 'f" where
  "group_amax m fabsf x g = Max (insert m ((\<lambda>e. fabsf (x (e div 8) (e mod 8))) ` {g * 128..<g * 128 + 128}))"

lemma row_scales_eq:
  assumes "16 * g \<in> set order"
  shows "row_scales m fabsf scale_inv x order scales g = scale_inv (group_amax m fabsf x g)"
  using assms
proof (induction order arbitrary: scales)
  case (Cons i order)
  show ?case
  proof (cases "16 * g \<in> set order")
    case True
    then show ?thesis using Cons.IH by (simp add: row_scales_def)
  next
    case False
    have hit: "store_scale m fabsf scale_inv x j s g = (if j = 16 * g then scale_inv (group_amax m fabsf x g) else s g)"
      if "j \<in> insert i (set order)" for j s
    proof -
      have "j mod 32 = 0 \<or> j mod 32 = 16 \<longleftrightarrow> j mod 16 = 0" using mod_mult2_eq [of j 16 2] by (auto simp: mod2_eq_if)
      moreover have "j mod 16 = 0 \<and> j div 16 = g \<longleftrightarrow> j = 16 * g" by auto
      moreover have "j * 8 div 128 = j div 16" using div_mult2_eq [of "j * 8" 8 16] by simp
      ultimately show ?thesis by (auto simp: store_scale_def row_amax_eq group_amax_def)
    qed
    have rest: "fold (store_scale m fabsf scale_inv x) js s g = s g" if "16 * g \<notin> set js" "set js \<subseteq> set order" for js s
      using that by (induction js arbitrary: s) (auto simp: hit)
    have "i = 16 * g" using Cons.prems False by simp
    then show ?thesis using rest [of order] False by (simp add: row_scales_def hit)
  qed
qed simp

text \<open>
  C26. In FP8 the scale stored for a group of 128 elements of a row and the scale every element of the
  group is quantised with come from the same value: the largest magnitude of exactly these 128 elements, or
  the margin when that is larger; whatever the order in which the threads run.
\<close>

theorem fp8_scale_of_group:
  assumes "128 dvd kHidden" and "set order = {..<kHidden div 8}" and "e < kHidden"
  shows "row_scales m fabsf scale_inv x order scales (e div 128) = scale_inv (group_amax m fabsf x (e div 128)) \<and>
    quantised m fabsf convert x (e div 8) (e mod 8) = convert (group_amax m fabsf x (e div 128)) (x (e div 8) (e mod 8))"
proof
  obtain k where k: "kHidden = 128 * k" using assms(1) ..
  then have "e div 128 < k" using assms(3) by (simp add: less_mult_imp_div_less)
  then have "16 * (e div 128) \<in> set order" using assms(2) k by simp
  then show "row_scales m fabsf scale_inv x order scales (e div 128) = scale_inv (group_amax m fabsf x (e div 128))"
    by (rule row_scales_eq)
  have "e div 8 div 16 = e div 128" by (simp add: div_mult2_eq [symmetric])
  then show "quantised m fabsf convert x (e div 8) (e mod 8) = convert (group_amax m fabsf x (e div 128)) (x (e div 8) (e mod 8))"
    by (simp add: quantised_def row_amax_eq group_amax_def)
qed

theorem fp8_scale_of_group_witness:
  "row_scales (1 :: int) abs (\<lambda>a. 2 * a) (\<lambda>i j. int (8 * i + j) - 300) (rev [0..<256]) (\<lambda>_. 0) 2 =
   2 * group_amax 1 abs (\<lambda>i j. int (8 * i + j) - 300) 2"
  using fp8_scale_of_group [of 2048 "rev [0..<256]" 300 1 abs "\<lambda>a. 2 * a" "\<lambda>i j. int (8 * i + j) - 300" "\<lambda>_. 0" "\<lambda>a v. v"]
  by (simp add: atLeast0LessThan)

text \<open>
  C10. Whatever the transport (a local copy, a copy through the NVLink mapping or an RDMA write), a
  message, a row and a signal go to the address at which the destination rank itself looks for it in
  its own buffer, seen through the view the sender has of that buffer: the mapping when there is one,
  else the registered address.
\<close>

theorem transfers_reach_peer_slots:
  assumes "i < 2" and "b = buffers (mk_BufferPair (mxa_buffer P) M H R E) ! i"
    and "c = buffers (mk_BufferPair (peer_view P me dst) M H R E) ! i"
  shows "transfer_target (dispatch_transfer P me ranks dst k src
        (dispatch_dst_ptr (rdma_recv_data_buffer b) l R M r s nb) n) =
      dispatch_dst_ptr (rdma_recv_data_buffer c) l R M r s nb \<and>
    transfer_target (signal_transfer P me ranks dst k sw (dispatch_signal_ptr (rdma_recv_signal_buffer b) l R r) v) =
      dispatch_signal_ptr (rdma_recv_signal_buffer c) l R r \<and>
    transfer_target (last (combine_transfer P me ranks dst k x buf
        (combine_dst_ptr (rdma_recv_data_buffer b) g M t nb) n z)) =
      combine_dst_ptr (rdma_recv_data_buffer c) g M t nb \<and>
    transfer_target (signal_transfer P me ranks dst k sw (combine_signal_ptr (rdma_recv_signal_buffer b) g) 1) =
      combine_signal_ptr (rdma_recv_signal_buffer c) g"
  using mk_BufferPair_offset [OF assms] by (simp add: transfer_targets slot_ptr_shift)

definition demo_peers :: kernel_peers where
  "demo_peers = \<lparr>mxa_buffer = 4096, raddr_array = (\<lambda>r. 65536 * of_nat r), rkey_array = (\<lambda>r. of_nat r),
     nvlink_available = (\<lambda>r. if r = 1 then 1 else 0), ipc_peer_ptrs = (\<lambda>r. if r = 1 then 1048576 else 0)\<rparr>"

theorem transfers_reach_peer_slots_witness:
  "transfer_target (dispatch_transfer demo_peers 0 4 2 5 0
     (dispatch_dst_ptr (rdma_recv_data_buffer (buffers (mk_BufferPair 4096 128 2048 4 16) ! 1)) 5 4 128 0 7 4112) 4112) =
   dispatch_dst_ptr (rdma_recv_data_buffer (buffers (mk_BufferPair 131072 128 2048 4 16) ! 1)) 5 4 128 0 7 4112"
  using transfers_reach_peer_slots [of 1 _ demo_peers 128 2048 4 16 _ 0 2]
  by (simp add: demo_peers_def peer_view_def)

end
