(* ===== verification/Dispatch_Recv.thy ===== *)
theory Dispatch_Recv
  imports Kernel_Messages
begin

text \<open>
  The receive phase of the \<^verbatim>\<open>dispatch\<close> kernel (\<^verbatim>\<open>src/ep_kernel.cu\<close>): the wait for a source rank's signal with
  its time limit (the \<^verbatim>\<open>combine\<close> kernel has the same loop), the place in the packed output that the
  atomic counter of a local expert gives to each source rank, and the copies out of the slots.
\<close>

section \<open>Waiting for a signal\<close>

text \<open>
  One round of the loop sees the signal word, the ticks since the start, and whether another thread
  has marked the source rank as inactive by then. The result is the word the loop leaves with (-1 when
  it gives up) and whether the rank is still active. None: still waiting after these rounds. The
  limit is compared as an unsigned 64-bit number; -1 means no limit.
\<close>

fun recv_wait :: "u64 \<Rightarrow> (cint \<times> u64 \<times> bool) list \<Rightarrow> bool \<Rightarrow> (cint \<times> bool) option" where
  "recv_wait timeout_ticks [] active = None"
| "recv_wait timeout_ticks ((sig, elapsed, cleared) # rounds) active =
     (if sig \<noteq> 0 then Some (sig, active)
      else let active = (active \<and> \<not> cleared \<and> \<not> (timeout_ticks \<noteq> - 1 \<and> timeout_ticks < elapsed)) in
        if \<not> active then Some (- 1, active) else recv_wait timeout_ticks rounds active)"

text \<open>The number of tokens behind the word.\<close>

definition num_recv_tokens :: "cint \<Rightarrow> cint" where
  "num_recv_tokens sig = - sig - 1"

section \<open>The packed output of one local expert\<close>

text \<open>
  The threads of the source ranks add their numbers of tokens to the expert's counter, in some order;
  each gets the count before as the start of its range and stores both in the layout.
\<close>

fun take_ranges :: "(nat \<Rightarrow> cint) \<Rightarrow> nat list \<Rightarrow> cint \<Rightarrow> (nat \<Rightarrow> cint) \<Rightarrow> cint \<times> (nat \<Rightarrow> cint)" where
  "take_ranges n [] packed_recv_count begin_idx = (packed_recv_count, begin_idx)"
| "take_ranges n (src_rank # order) packed_recv_count begin_idx =
     take_ranges n order (packed_recv_count + n src_rank) (begin_idx(src_rank := packed_recv_count))"

definition recv_range :: "(nat \<Rightarrow> cint) \<Rightarrow> (nat \<Rightarrow> cint) \<Rightarrow> nat \<Rightarrow> u64" where
  "recv_range n begin_idx src_rank = pack2 (n src_rank) (begin_idx src_rank)"

text \<open>
  Warp \<open>sub_warp_id\<close> of the group copies the slots \<open>sub_warp_id\<close>, \<open>sub_warp_id + 4\<close>, \dots of the
  source rank to the rows of its range: the token's index to \<^verbatim>\<open>packed_recv_src_info\<close> and the payload to
  \<^verbatim>\<open>packed_recv_x\<close> and its scales. A message stands for both.
\<close>

definition warp_rows :: "cint \<Rightarrow> cint \<Rightarrow> (nat \<Rightarrow> 'm) \<Rightarrow> nat \<Rightarrow> (nat \<times> 'm) list" where
  "warp_rows n begin_idx slots sub_warp_id =
     map (\<lambda>i. (unat begin_idx + i, slots i)) (block_tokens kNumWarpsPerGroup (nat (sint n)) sub_warp_id)"

definition rank_rows :: "cint \<Rightarrow> cint \<Rightarrow> (nat \<Rightarrow> 'm) \<Rightarrow> (nat \<times> 'm) list" where
  "rank_rows n begin_idx slots =
     concat (map (warp_rows n begin_idx slots) [0..<kNumWarpsPerGroup])"

text \<open>The scales are stored by columns: lane \<open>lane_id\<close> stores the scales \<open>lane_id\<close> and \<open>lane_id + 32\<close>.\<close>

definition lane_scales :: "nat \<Rightarrow> nat \<Rightarrow> nat \<Rightarrow> (nat \<Rightarrow> 's) \<Rightarrow> nat \<Rightarrow> (nat \<times> 's) list" where
  "lane_scales scales scale_stride row src_scales lane_id =
     (if lane_id < scales then [(row + lane_id * scale_stride, src_scales lane_id)] else []) @
     (if lane_id + 32 < scales then [(row + (lane_id + 32) * scale_stride, src_scales (lane_id + 32))] else [])"

section \<open>The wait\<close>

lemma recv_wait_gives_up:
  assumes "timeout_ticks \<noteq> - 1" and "k < length rounds" and "timeout_ticks < fst (snd (rounds ! k))"
  shows "recv_wait timeout_ticks rounds active \<noteq> None"
  using assms
proof (induction timeout_ticks rounds active arbitrary: k rule: recv_wait.induct)
  case (2 T sig elapsed cleared rounds active)
  show ?case
  proof (cases k)
    case 0
    then show ?thesis using 2(2-) by (auto simp: Let_def intro: exI [of _ False])
  next
    case (Suc j)
    then show ?thesis using 2(1) [OF _ refl _ 2(2), of j] 2(3,4) by (auto simp: Let_def)
  qed
qed simp

lemma recv_wait_word:
  assumes "recv_wait timeout_ticks rounds active = Some (v, a)"
  shows "(v = - 1 \<and> \<not> a) \<or> v \<noteq> 0 \<and> v \<in> fst ` set rounds"
  using assms
  by (induction timeout_ticks rounds active rule: recv_wait.induct) (auto simp: Let_def split: if_splits)

lemma recv_wait_no_limit:
  assumes "\<forall>(sig, elapsed, cleared)\<in>set rounds. \<not> cleared"
  shows "recv_wait (- 1) rounds True = map_option (\<lambda>(sig, _). (sig, True)) (find (\<lambda>(sig, _). sig \<noteq> 0) rounds)"
  using assms by (induction rounds) (auto simp: Let_def)

section \<open>The ranges\<close>

lemma sint_cint_of_nat: "n < 2 ^ 31 \<Longrightarrow> sint (of_nat n :: cint) = int n"
  by (simp add: signed_of_nat signed_take_bit_int_eq_self)

lemma take_ranges_keeps: "r \<notin> set order \<Longrightarrow> snd (take_ranges n order c b) r = b r"
  by (induction order arbitrary: c b) auto

lemma take_ranges_eq:
  assumes "distinct order"
  shows "fst (take_ranges (\<lambda>r. of_nat (N r)) order (of_nat c) b) = of_nat (c + (\<Sum>r\<leftarrow>order. N r))"
    and "i < length order \<Longrightarrow>
      snd (take_ranges (\<lambda>r. of_nat (N r)) order (of_nat c) b) (order ! i) = of_nat (c + (\<Sum>r\<leftarrow>take i order. N r))"
  using assms
proof (induction order arbitrary: c b i)
  case (Cons r order)
  {
    case 1
    then show ?case using Cons.IH(1) [of "c + N r"] by (simp add: add.assoc)
  next
    case 2
    show ?case
    proof (cases i)
      case 0
      then show ?thesis using 2 by (simp add: take_ranges_keeps)
    next
      case (Suc j)
      then show ?thesis using 2 Cons.IH(2) [of j "c + N r"] by (simp add: add.assoc)
    qed
  }
qed simp_all

text \<open>Ranges that follow each other tile the numbers below their total.\<close>

lemma sum_list_take_mono: "i \<le> j \<Longrightarrow> (\<Sum>r\<leftarrow>take i order. N r) \<le> (\<Sum>r\<leftarrow>take j order. (N r :: nat))"
  by (induction order arbitrary: i j) (auto simp: take_Cons' split: nat.splits)

lemma sum_list_take_Suc: "i < length order \<Longrightarrow> (\<Sum>r\<leftarrow>take (Suc i) order. N r) = (\<Sum>r\<leftarrow>take i order. N r) + (N (order ! i) :: nat)"
  by (simp add: take_Suc_conv_app_nth)

lemma ranges_tile:
  fixes N :: "nat \<Rightarrow> nat"
  assumes "distinct order" and st: "\<And>i. i < length order \<Longrightarrow> start (order ! i) = (\<Sum>r\<leftarrow>take i order. N r)"
  shows "bij_betw (\<lambda>(r, i). start r + i) (SIGMA r:set order. {..<N r}) {..<\<Sum>r\<leftarrow>order. N r}"
  using assms
proof (induction order rule: rev_induct)
  case (snoc r order)
  have "start (order ! i) = (\<Sum>r\<leftarrow>take i order. N r)" if "i < length order" for i
    using snoc.prems(2) [of i] that by (simp add: nth_append)
  then have ih: "bij_betw (\<lambda>(r, i). start r + i) (SIGMA r:set order. {..<N r}) {..<\<Sum>r\<leftarrow>order. N r}"
    using snoc by simp
  have s: "start r = (\<Sum>r\<leftarrow>order. N r)" using snoc.prems(2) [of "length order"] by simp
  have "bij_betw (\<lambda>(r, i). start r + i) ({r} \<times> {..<N r}) {\<Sum>r\<leftarrow>order. N r..<(\<Sum>r\<leftarrow>order. N r) + N r}"
    by (rule bij_betw_byWitness [where f' = "\<lambda>k. (r, k - start r)"]) (auto simp: s)
  then have "bij_betw (\<lambda>(r, i). start r + i) ((SIGMA r:set order. {..<N r}) \<union> {r} \<times> {..<N r})
      ({..<\<Sum>r\<leftarrow>order. N r} \<union> {\<Sum>r\<leftarrow>order. N r..<(\<Sum>r\<leftarrow>order. N r) + N r})"
    using ih by (intro bij_betw_combine) auto
  moreover have "(SIGMA r:set order. {..<N r}) \<union> {r} \<times> {..<N r} = (SIGMA r:set (order @ [r]). {..<N r})" by auto
  moreover have "{..<\<Sum>r\<leftarrow>order. N r} \<union> {\<Sum>r\<leftarrow>order. N r..<(\<Sum>r\<leftarrow>order. N r) + N r} = {..<\<Sum>r\<leftarrow>order @ [r]. N r}" by auto
  ultimately show ?case by simp
qed (simp add: bij_betw_def)

section \<open>The copies\<close>

lemma set_rank_rows: "set (rank_rows n b slots) = (\<lambda>i. (unat b + i, slots i)) ` {..<nat (sint n)}"
proof -
  have "(\<Union>w<4. set (block_tokens 4 m w)) = {..<m}" for m
  proof (intro set_eqI iffI)
    fix i assume "i \<in> {..<m}"
    then have "i mod 4 < 4 \<and> i \<in> set (block_tokens 4 m (i mod 4))" by (simp add: set_block_tokens)
    then show "i \<in> (\<Union>w<4. set (block_tokens 4 m w))" by blast
  qed (auto simp: set_block_tokens)
  then show ?thesis by (simp add: rank_rows_def warp_rows_def image_UN [symmetric] atLeast0LessThan)
qed

text \<open>Stores that agree on every index may run in any order.\<close>

lemma store_all_any_order:
  assumes "\<And>v'. (i, v') \<in> set sts \<Longrightarrow> v' = v" and "(i, v) \<in> set sts"
  shows "store_all sts dst i = v"
proof -
  have "store_all sts dst i = v" if "\<And>v'. (i, v') \<in> set sts \<Longrightarrow> v' = v" and "(i, v) \<in> set sts \<or> dst i = v" for dst
    using that
  proof (induction sts arbitrary: dst)
    case (Cons st sts)
    obtain j w where st: "st = (j, w)" by (cases st)
    have "(i, v) \<in> set sts \<or> (dst(j := w)) i = v" using Cons.prems st by auto
    moreover have "v' = v" if "(i, v') \<in> set sts" for v' using Cons.prems(1) that by simp
    ultimately have "store_all sts (dst(j := w)) i = v" by (rule Cons.IH [rotated])
    then show ?case by (simp only: st store_all.simps)
  qed simp
  then show ?thesis using assms by blast
qed

lemma store_all_untouched: "i \<notin> fst ` set sts \<Longrightarrow> store_all sts dst i = dst i"
proof (induction sts arbitrary: dst)
  case (Cons st sts)
  then show ?case by (cases st) auto
qed simp

text \<open>The output of a local expert: the ranges in the order of the atomic additions, the rows in any order.\<close>

lemma packed_rows:
  fixes N :: "nat \<Rightarrow> nat"
  assumes order: "distinct order" and small: "(\<Sum>r\<leftarrow>order. N r) < 2 ^ 31"
    and b: "b = snd (take_ranges (\<lambda>r. of_nat (N r)) order 0 b0)"
    and sts: "set sts = (\<Union>r\<in>set order. set (rank_rows (of_nat (N r)) (b r) (slots r)))"
  shows "bij_betw (\<lambda>(r, i). unat (b r) + i) (SIGMA r:set order. {..<N r}) {..<\<Sum>r\<leftarrow>order. N r}"
    and "r \<in> set order \<Longrightarrow> i < N r \<Longrightarrow> store_all sts dst (unat (b r) + i) = slots r i"
    and "r \<in> set order \<Longrightarrow> unpack2 (recv_range (\<lambda>r. of_nat (N r)) b r) = (of_nat (N r), b r)"
    and "r \<in> set order \<Longrightarrow> unat (b r) + N r \<le> (\<Sum>r\<leftarrow>order. N r)"
proof -
  have le: "(\<Sum>r\<leftarrow>take i order. N r) \<le> (\<Sum>r\<leftarrow>order. N r)" for i
    using sum_list_take_mono [of i "max i (length order)" N order] by simp
  have start: "unat (b (order ! i)) = (\<Sum>r\<leftarrow>take i order. N r)" if "i < length order" for i
  proof -
    have "b (order ! i) = of_nat (\<Sum>r\<leftarrow>take i order. N r)"
      using take_ranges_eq(2) [OF order, of i N 0 b0] that b by simp
    moreover have "(\<Sum>r\<leftarrow>take i order. N r) < 2 ^ 32" using le [of i] small by simp
    ultimately show ?thesis by (simp add: unat_of_nat)
  qed
  show bij: "bij_betw (\<lambda>(r, i). unat (b r) + i) (SIGMA r:set order. {..<N r}) {..<\<Sum>r\<leftarrow>order. N r}"
    by (rule ranges_tile [OF order start])
  show "unat (b r) + N r \<le> (\<Sum>r\<leftarrow>order. N r)" if r: "r \<in> set order"
  proof -
    obtain i where i: "i < length order" "r = order ! i" using r by (metis in_set_conv_nth)
    then show ?thesis using start [OF i(1)] le [of "Suc i"] sum_list_take_Suc [OF i(1), of N] by simp
  qed
  have n: "nat (sint (of_nat (N r) :: cint)) = N r" if "r \<in> set order" for r
  proof -
    have "N r \<le> (\<Sum>r\<leftarrow>order. N r)" using that by (intro member_le_sum_list) auto
    then have "N r < 2 ^ 31" using small by linarith
    then show ?thesis using sint_cint_of_nat by simp
  qed
  have rows: "(k, v) \<in> set sts \<longleftrightarrow> (\<exists>r\<in>set order. \<exists>i<N r. k = unat (b r) + i \<and> v = slots r i)" for k v
    unfolding sts using n by (auto simp: set_rank_rows)
  show "store_all sts dst (unat (b r) + i) = slots r i" if r: "r \<in> set order" and i: "i < N r"
  proof (rule store_all_any_order)
    show "(unat (b r) + i, slots r i) \<in> set sts" using rows r i by blast
    fix v assume "(unat (b r) + i, v) \<in> set sts"
    then obtain r' i' where r': "r' \<in> set order" "i' < N r'" "unat (b r) + i = unat (b r') + i'" "v = slots r' i'"
      using rows by blast
    have "(r, i) = (r', i')"
      using inj_onD [OF bij_betw_imp_inj_on [OF bij], of "(r, i)" "(r', i')"] r i r' by auto
    then show "v = slots r i" using r'(4) by simp
  qed
  show "unpack2 (recv_range (\<lambda>r. of_nat (N r)) b r) = (of_nat (N r), b r)"
    by (simp only: recv_range_def pack2_roundtrip)
qed

section \<open>Properties\<close>

text \<open>
  C24. With a time limit the wait for a source rank ends as soon as a round sees the limit exceeded, at the
  latest: either with a word that was read from the signal, or by giving up, and then the rank is
  marked as inactive and counts as having sent no token.
\<close>

theorem recv_wait_ends:
  assumes "timeout_ticks \<noteq> - 1" and "k < length rounds" and "timeout_ticks < fst (snd (rounds ! k))"
  shows "\<exists>v a. recv_wait timeout_ticks (take (Suc k) rounds) active = Some (v, a) \<and>
    (v = - 1 \<and> \<not> a \<and> num_recv_tokens v = 0 \<or> v \<noteq> 0 \<and> v \<in> fst ` set (take (Suc k) rounds))"
proof -
  have "recv_wait timeout_ticks (take (Suc k) rounds) active \<noteq> None"
    by (rule recv_wait_gives_up [OF assms(1), of k]) (use assms in simp_all)
  then obtain v a where "recv_wait timeout_ticks (take (Suc k) rounds) active = Some (v, a)" by auto
  then show ?thesis using recv_wait_word [of timeout_ticks "take (Suc k) rounds" active v a]
    by (auto simp: num_recv_tokens_def)
qed

theorem recv_wait_ends_witness:
  "recv_wait 100 [(0, 40, False), (0, 90, False), (0, 101, False), (- 8, 130, False)] True = Some (- 1, False)"
  using recv_wait_ends [of 100 2 "[(0, 40, False), (0, 90, False), (0, 101, False), (- 8, 130, False)]" True]
  by simp

text \<open>
  C22. The ranges that the source ranks of a local expert get from the atomic counter, in whatever order
  they arrive, tile the rows from 0 to the total number of tokens; every row of a range holds the
  message of its slot, whatever the order of the copies; and the word stored in the layout unpacks
  to the number of tokens and the start.
\<close>

theorem recv_packs_rows:
  fixes N :: "nat \<Rightarrow> nat"
  assumes "distinct order" and "(\<Sum>r\<leftarrow>order. N r) < 2 ^ 31"
    and "b = snd (take_ranges (\<lambda>r. of_nat (N r)) order 0 b0)"
    and "set sts = (\<Union>r\<in>set order. set (rank_rows (of_nat (N r)) (b r) (slots r)))"
  shows "bij_betw (\<lambda>(r, i). unat (b r) + i) (SIGMA r:set order. {..<N r}) {..<\<Sum>r\<leftarrow>order. N r} \<and>
    (\<forall>r\<in>set order. unpack2 (recv_range (\<lambda>r. of_nat (N r)) b r) = (of_nat (N r), b r) \<and>
      (\<forall>i<N r. store_all sts dst (unat (b r) + i) = slots r i))"
  using packed_rows(1-3) [OF assms] by blast

theorem recv_packs_rows_witness:
  "let b = snd (take_ranges (\<lambda>r. of_nat (if r = 0 then 3 else 5)) [1, 0] 0 (\<lambda>_. 0));
       sts = rank_rows 3 (b 0) (\<lambda>i. (0, i)) @ rank_rows 5 (b 1) (\<lambda>i. (1 :: nat, i))
   in store_all sts (\<lambda>_. (9, 9)) 6 = (0, 1)"
proof -
  let ?N = "\<lambda>r. if r = 0 then 3 else 5 :: nat"
  let ?b = "snd (take_ranges (\<lambda>r. of_nat (?N r)) [1, 0] 0 (\<lambda>_. 0))"
  let ?sts = "rank_rows 3 (?b 0) (\<lambda>i. (0, i)) @ rank_rows 5 (?b 1) (\<lambda>i. (1 :: nat, i))"
  have s: "set ?sts = (\<Union>r\<in>set [1, 0]. set (rank_rows (of_nat (?N r)) (?b r) (\<lambda>i. (r, i))))" by auto
  have "\<forall>r\<in>set [1, 0]. unpack2 (recv_range (\<lambda>r. of_nat (?N r)) ?b r) = (of_nat (?N r), ?b r) \<and>
      (\<forall>i<?N r. store_all ?sts (\<lambda>_. (9, 9)) (unat (?b r) + i) = (r, i))"
    by (rule recv_packs_rows [OF _ _ refl s, THEN conjunct2]) simp_all
  then have "\<forall>i<?N 0. store_all ?sts (\<lambda>_. (9, 9)) (unat (?b 0) + i) = (0, i)" by (elim ballE [of _ _ 0]) simp_all
  then have "1 < ?N 0 \<longrightarrow> store_all ?sts (\<lambda>_. (9, 9)) (unat (?b 0) + 1) = (0, 1)" by (rule spec)
  then have "store_all ?sts (\<lambda>_. (9, 9)) (unat (?b 0) + 1) = (0, 1)" by (rule mp) simp
  moreover have "?b 0 = 5" by simp
  ultimately show ?thesis by (simp add: Let_def)
qed

end
