(* ===== verification/Combine.thy ===== *)
theory Combine
  imports Dispatch_Recv
begin

text \<open>
  The \<^verbatim>\<open>combine\<close> kernel (\<^verbatim>\<open>src/ep_kernel.cu\<close>): the rows an expert returns, the flag that keeps the signals
  behind the clearing of the other buffer's signal words, and the weighted sum of the rows of a token
  with its narrowing in place. The send phase is a step relation over the accesses to global memory.
\<close>

section \<open>The send phase\<close>

text \<open>
  The launch: the number of experts, and for each responsible expert index the start of the range of
  packed rows to return and its length, unpacked from the layout word of (local expert, destination).
\<close>

record combine_in =
  c_num_experts :: nat
  row_offset :: "nat \<Rightarrow> nat"
  row_count :: "nat \<Rightarrow> nat"

datatype c_act = Row nat nat | Done nat

record combine_state =
  clean_flag :: cint
  cleared :: "nat \<Rightarrow> bool"
  raised :: bool
  next_row :: "nat \<Rightarrow> nat \<Rightarrow> nat"
  signalled :: "nat \<Rightarrow> bool"
  dropped :: "nat \<Rightarrow> bool"
  c_acts :: "c_act list"

definition row_end :: "combine_in \<Rightarrow> nat \<Rightarrow> nat" where
  "row_end C e = row_offset C e + row_count C e"

text \<open>
  \<open>clear\<close> and \<open>raise\<close>: the first warp of block 0 clears the words and adds the number of experts to the
  flag. \<open>row\<close>: warp \<open>w\<close> of the group sends its next row. \<open>signal\<close>: behind the barrier of the group
  and the wait for a flag that is not 0; \<open>drop\<close>: the decrement after the signal.
\<close>

inductive combine_step :: "combine_in \<Rightarrow> combine_state \<Rightarrow> combine_state \<Rightarrow> bool" for C where
  clear: "i < c_num_experts C \<Longrightarrow> \<not> cleared s i \<Longrightarrow> combine_step C s (s\<lparr>cleared := (cleared s)(i := True)\<rparr>)"
| raise: "\<forall>i<c_num_experts C. cleared s i \<Longrightarrow> \<not> raised s \<Longrightarrow>
    combine_step C s (s\<lparr>raised := True, clean_flag := clean_flag s + of_nat (c_num_experts C)\<rparr>)"
| row: "e < c_num_experts C \<Longrightarrow> w < kNumWarpsPerGroup \<Longrightarrow> next_row s e w < row_end C e \<Longrightarrow>
    combine_step C s (s\<lparr>next_row := (next_row s)(e := (next_row s e)(w := next_row s e w + kNumWarpsPerGroup)),
      c_acts := c_acts s @ [Row e (next_row s e w)]\<rparr>)"
| signal: "e < c_num_experts C \<Longrightarrow> \<forall>w<kNumWarpsPerGroup. row_end C e \<le> next_row s e w \<Longrightarrow> \<not> signalled s e \<Longrightarrow>
    clean_flag s \<noteq> 0 \<Longrightarrow>
    combine_step C s (s\<lparr>signalled := (signalled s)(e := True), c_acts := c_acts s @ [Done e]\<rparr>)"
| drop: "e < c_num_experts C \<Longrightarrow> signalled s e \<Longrightarrow> \<not> dropped s e \<Longrightarrow>
    combine_step C s (s\<lparr>dropped := (dropped s)(e := True), clean_flag := clean_flag s + - 1\<rparr>)"

definition combine_init :: "combine_in \<Rightarrow> combine_state" where
  "combine_init C = \<lparr>clean_flag = 0, cleared = (\<lambda>_. False), raised = False, next_row = (\<lambda>e w. row_offset C e + w),
     signalled = (\<lambda>_. False), dropped = (\<lambda>_. False), c_acts = []\<rparr>"

abbreviation combine_reachable :: "combine_in \<Rightarrow> combine_state \<Rightarrow> bool" where
  "combine_reachable C \<equiv> (combine_step C)\<^sup>*\<^sup>* (combine_init C)"

section \<open>The rows\<close>

text \<open>
  Expert \<open>g\<close> stores its row \<open>i\<close> at row \<open>g * num_max_dispatch_tokens_per_rank + src_idx\<close> of the
  destination, where \<open>src_idx\<close> is the token's index there. The row number is a product and sum of \<^verbatim>\<open>int\<close>s
  that is widened to \<^verbatim>\<open>size_t\<close> when the slot size multiplies it; so are the bounds of the loop \<^verbatim>\<open>int\<close>s.
\<close>

definition combine_row_no :: "cint \<Rightarrow> cint \<Rightarrow> cint \<Rightarrow> nat" where
  "combine_row_no expert_idx num_max token_idx = unat (scast (expert_idx * num_max + token_idx) :: size_t)"

definition combine_stores :: "cint \<Rightarrow> cint \<Rightarrow> cint \<Rightarrow> cint \<Rightarrow> (nat \<Rightarrow> cint) \<Rightarrow> (nat \<Rightarrow> 'r) \<Rightarrow> (nat \<times> 'r) list" where
  "combine_stores num_max global_expert_idx offset num_tokens_to_send src_info x =
     concat (map (\<lambda>sub_warp_id. map (\<lambda>i. (combine_row_no global_expert_idx num_max (src_info i), x i))
         (block_tokens kNumWarpsPerGroup (nat (sint (offset + num_tokens_to_send))) (nat (sint (offset + of_nat sub_warp_id)))))
       [0..<kNumWarpsPerGroup])"

text \<open>
  The sum for a token: the rows of its entries in order, each element times the entry's weight. The row
  number is again computed with \<^verbatim>\<open>int\<close>s. The operations on floats are parameters.
\<close>

definition reg_topk_idx :: "dispatch_in \<Rightarrow> nat \<Rightarrow> nat \<Rightarrow> cint" where
  "reg_topk_idx D token_idx i = ucast (topk_idx D (token_idx * num_topk D + i))"

definition combined_value :: "('f \<Rightarrow> 'f \<Rightarrow> 'f) \<Rightarrow> ('f \<Rightarrow> 'f \<Rightarrow> 'f) \<Rightarrow> 'f \<Rightarrow> (nat \<Rightarrow> nat \<Rightarrow> 'f) \<Rightarrow> cint \<Rightarrow> nat \<Rightarrow>
    (nat \<Rightarrow> cint) \<Rightarrow> (nat \<Rightarrow> 'f) \<Rightarrow> cint \<Rightarrow> nat \<Rightarrow> 'f" where
  "combined_value add mul zero rows num_max k topk weights token_idx j =
     fold (\<lambda>i acc. if 0 \<le> sint (topk i)
         then add acc (mul (rows (combine_row_no (topk i) num_max token_idx) j) (weights i)) else acc) [0..<k] zero"

text \<open>The row number of a return and of the sum is the one in the address of the slot.\<close>

lemma combine_dst_ptr_row: "combine_dst_ptr recv_data g num_max t nb = recv_data + of_nat (combine_row_no g num_max t) * nb"
  by (simp add: combine_dst_ptr_def combine_row_no_def)

lemma combine_row_no_nat:
  assumes "g < E" and "t < M" and "E * M < 2 ^ 31"
  shows "combine_row_no (of_nat g) (of_nat M) (of_nat t) = g * M + t"
proof -
  have lt: "g * M + t < 2 ^ 31" using mixed_radix_less [OF assms(1,2)] assms(3) by simp
  have "(of_nat g * of_nat M + of_nat t :: cint) = of_nat (g * M + t)" by simp
  then have "combine_row_no (of_nat g) (of_nat M) (of_nat t) = unat (of_nat (g * M + t) :: u64)"
    unfolding combine_row_no_def by (simp only: scast_of_nat_int [OF lt])
  then show ?thesis using lt by (simp add: unat_of_nat del: of_nat_add of_nat_mult)
qed

lemma sint_reg_topk_idx: "i < num_topk D \<Longrightarrow> sint (reg_topk_idx D t i) = dst_expert_idx D t i"
  by (simp add: reg_topk_idx_def dst_expert_idx_def)

text \<open>
  The eight sums are narrowed in place: halfword \<open>j\<close> of the array is overwritten with the narrowed
  float that lies in halfwords \<open>2j\<close> and \<open>2j+1\<close>.
\<close>

definition narrow_step :: "('h \<Rightarrow> 'h \<Rightarrow> 'h) \<Rightarrow> nat \<Rightarrow> (nat \<Rightarrow> 'h) \<Rightarrow> nat \<Rightarrow> 'h" where
  "narrow_step narrow j buf = buf(j := narrow (buf (2 * j)) (buf (2 * j + 1)))"

definition narrow_in_place :: "('h \<Rightarrow> 'h \<Rightarrow> 'h) \<Rightarrow> (nat \<Rightarrow> 'h) \<Rightarrow> nat \<Rightarrow> 'h" where
  "narrow_in_place narrow buf = fold (narrow_step narrow) [0..<8] buf"

section \<open>Waiting for the signals\<close>

text \<open>
  The wait of the receive phase for an expert of a source rank, over what its rounds see, as in
  \<open>recv_wait\<close>; the result is whether the source rank is still active.
\<close>

fun combine_wait :: "u64 \<Rightarrow> (cint \<times> u64 \<times> bool) list \<Rightarrow> bool \<Rightarrow> bool option" where
  "combine_wait timeout_ticks [] active = None"
| "combine_wait timeout_ticks ((v, elapsed, gone) # rounds) active =
     (if v \<noteq> 0 then Some active
      else let active = (active \<and> \<not> gone \<and> \<not> (timeout_ticks \<noteq> - 1 \<and> timeout_ticks < elapsed)) in
        if \<not> active then Some active else combine_wait timeout_ticks rounds active)"

text \<open>Both kernels wait for the same, so what is shown of one wait holds of the other.\<close>

lemma combine_wait_eq: "combine_wait timeout_ticks rounds active = map_option snd (recv_wait timeout_ticks rounds active)"
  by (induction timeout_ticks rounds active rule: combine_wait.induct) (auto simp: Let_def)

lemma combine_wait_gives_up:
  assumes "timeout_ticks \<noteq> - 1" and "k < length rounds" and "timeout_ticks < fst (snd (rounds ! k))"
  shows "combine_wait timeout_ticks rounds active \<noteq> None"
  using recv_wait_gives_up [OF assms] by (simp add: combine_wait_eq)

section \<open>The invariant of the send phase\<close>

text \<open>
  Rows: a warp is at its start plus a multiple of four, the rows below it have been sent and no
  others. Flag: raised only behind the clearing, then the number of experts that have not dropped.
\<close>

definition rows_sent :: "combine_in \<Rightarrow> combine_state \<Rightarrow> nat \<Rightarrow> nat set" where
  "rows_sent C s e = {i. row_offset C e \<le> i \<and> i < row_end C e \<and> i < next_row s e ((i - row_offset C e) mod kNumWarpsPerGroup)}"

definition done_after_rows :: "combine_in \<Rightarrow> combine_state \<Rightarrow> nat \<Rightarrow> bool" where
  "done_after_rows C s e \<longleftrightarrow> (\<exists>js. filter (\<lambda>a. a = Done e \<or> (\<exists>i. a = Row e i)) (c_acts s) =
     map (Row e) js @ (if signalled s e then [Done e] else []) \<and> distinct js \<and> set js = rows_sent C s e)"

definition combine_inv :: "combine_in \<Rightarrow> combine_state \<Rightarrow> bool" where
  "combine_inv C s \<longleftrightarrow>
     (\<forall>e<c_num_experts C. done_after_rows C s e \<and>
        (\<forall>w<kNumWarpsPerGroup. \<exists>m. next_row s e w = row_offset C e + w + kNumWarpsPerGroup * m) \<and>
        (signalled s e \<longrightarrow> raised s \<and> (\<forall>w<kNumWarpsPerGroup. row_end C e \<le> next_row s e w)) \<and>
        (dropped s e \<longrightarrow> signalled s e)) \<and>
     (raised s \<longrightarrow> (\<forall>i<c_num_experts C. cleared s i)) \<and>
     clean_flag s = (if raised s then of_nat (card {e. e < c_num_experts C \<and> \<not> dropped s e}) else 0)"

lemma combine_inv_init: "combine_inv C (combine_init C)"
  by (auto simp: combine_inv_def combine_init_def done_after_rows_def rows_sent_def intro: exI [of _ 0])

text \<open>The invariant looks at one expert at a time.\<close>

definition c_expert_inv :: "combine_in \<Rightarrow> combine_state \<Rightarrow> nat \<Rightarrow> bool" where
  "c_expert_inv C s e \<longleftrightarrow> done_after_rows C s e \<and>
     (\<forall>w<kNumWarpsPerGroup. \<exists>m. next_row s e w = row_offset C e + w + kNumWarpsPerGroup * m) \<and>
     (signalled s e \<longrightarrow> raised s \<and> (\<forall>w<kNumWarpsPerGroup. row_end C e \<le> next_row s e w)) \<and>
     (dropped s e \<longrightarrow> signalled s e)"

lemma combine_inv_alt:
  "combine_inv C s \<longleftrightarrow> (\<forall>e<c_num_experts C. c_expert_inv C s e) \<and> (raised s \<longrightarrow> (\<forall>i<c_num_experts C. cleared s i)) \<and>
     clean_flag s = (if raised s then of_nat (card {e. e < c_num_experts C \<and> \<not> dropped s e}) else 0)"
  by (simp add: combine_inv_def c_expert_inv_def)

lemma c_expert_inv_cong:
  assumes "next_row s' e = next_row s e" and "signalled s' e = signalled s e" and "dropped s' e = dropped s e"
    and "raised s \<longrightarrow> raised s'"
    and "filter (\<lambda>a. a = Done e \<or> (\<exists>i. a = Row e i)) (c_acts s') = filter (\<lambda>a. a = Done e \<or> (\<exists>i. a = Row e i)) (c_acts s)"
  shows "c_expert_inv C s e \<Longrightarrow> c_expert_inv C s' e"
  using assms by (auto simp: c_expert_inv_def done_after_rows_def rows_sent_def)

lemma row_inv:
  assumes inv: "c_expert_inv C s e" and w: "w < 4" and lt: "next_row s e w < row_end C e"
  shows "c_expert_inv C (s\<lparr>next_row := (next_row s)(e := (next_row s e)(w := next_row s e w + kNumWarpsPerGroup)),
      c_acts := c_acts s @ [Row e (next_row s e w)]\<rparr>) e" (is "c_expert_inv C ?s e")
proof -
  define s' where "s' = ?s"
  have sel: "next_row s' = (next_row s)(e := (next_row s e)(w := next_row s e w + 4))" "signalled s' = signalled s"
    "dropped s' = dropped s" "raised s' = raised s" "c_acts s' = c_acts s @ [Row e (next_row s e w)]"
    by (simp_all add: s'_def)
  let ?n = "next_row s e w"
  have ns: "\<not> signalled s e" using inv w lt by (auto simp: c_expert_inv_def not_le)
  have at: "\<exists>m. next_row s e v = row_offset C e + v + 4 * m" if "v < 4" for v using inv that by (simp add: c_expert_inv_def)
  have at': "\<exists>m. next_row s' e v = row_offset C e + v + 4 * m" if v: "v < 4" for v
  proof (cases "v = w")
    case True
    obtain m where "?n = row_offset C e + w + 4 * m" using at w by blast
    then have "next_row s' e v = row_offset C e + v + 4 * Suc m" using True by (simp add: sel)
    then show ?thesis ..
  qed (use at v in \<open>simp add: sel\<close>)
  have new: "?n \<notin> rows_sent C s e" and rows: "rows_sent C s' e = insert ?n (rows_sent C s e)"
  proof -
    obtain m where m: "?n = row_offset C e + w + 4 * m" using at w by blast
    then have "(?n - row_offset C e) mod 4 = w" using w by simp
    then show "?n \<notin> rows_sent C s e" by (simp add: rows_sent_def)
    have key: "i < ?n + 4 \<longleftrightarrow> i < ?n \<or> i = ?n" if le: "row_offset C e \<le> i" and md: "(i - row_offset C e) mod 4 = w" for i
    proof -
      obtain d where d: "i = row_offset C e + d" using le le_Suc_ex by blast
      then have "d = 4 * (d div 4) + w" using md div_mult_mod_eq [of d 4] by simp
      then have "i = row_offset C e + w + 4 * (d div 4)" using d by simp
      then show ?thesis unfolding m by (simp only:) arith
    qed
    show "rows_sent C s' e = insert ?n (rows_sent C s e)"
    proof (intro set_eqI iffI)
      fix i assume i: "i \<in> rows_sent C s' e"
      show "i \<in> insert ?n (rows_sent C s e)"
      proof (cases "(i - row_offset C e) mod 4 = w")
        case True
        then show ?thesis using i key [of i] by (auto simp: rows_sent_def sel)
      qed (use i in \<open>auto simp: rows_sent_def sel\<close>)
    next
      fix i assume i: "i \<in> insert ?n (rows_sent C s e)"
      have "?n \<in> rows_sent C s' e" using m lt w by (simp add: rows_sent_def sel)
      moreover have "rows_sent C s e \<subseteq> rows_sent C s' e" by (auto simp: rows_sent_def sel)
      ultimately show "i \<in> rows_sent C s' e" using i by blast
    qed
  qed
  obtain js where "filter (\<lambda>a. a = Done e \<or> (\<exists>i. a = Row e i)) (c_acts s) = map (Row e) js" "distinct js"
    "set js = rows_sent C s e" using inv ns by (auto simp: c_expert_inv_def done_after_rows_def)
  then have "done_after_rows C s' e"
    unfolding done_after_rows_def using new rows ns by (intro exI [of _ "js @ [?n]"]) (simp add: sel)
  then have "c_expert_inv C s' e" using inv ns at' by (simp add: c_expert_inv_def sel)
  then show ?thesis by (simp only: s'_def)
qed

lemma combine_inv_at:
  assumes inv: "combine_inv C s" and "c_expert_inv C s' e"
    and "\<And>i. i \<noteq> e \<Longrightarrow> next_row s' i = next_row s i \<and> signalled s' i = signalled s i \<and> dropped s' i = dropped s i \<and>
      filter (\<lambda>a. a = Done i \<or> (\<exists>k. a = Row i k)) (c_acts s') = filter (\<lambda>a. a = Done i \<or> (\<exists>k. a = Row i k)) (c_acts s)"
    and "raised s' = raised s" and "cleared s' = cleared s"
    and "clean_flag s' = (if raised s' then of_nat (card {e. e < c_num_experts C \<and> \<not> dropped s' e}) else 0)"
  shows "combine_inv C s'"
  unfolding combine_inv_alt
proof (intro conjI allI impI)
  fix i assume i: "i < c_num_experts C"
  show "c_expert_inv C s' i"
  proof (cases "i = e")
    case False
    have "c_expert_inv C s i" using inv i by (simp add: combine_inv_alt)
    then show ?thesis using assms(3) [OF False] assms(4) by (intro c_expert_inv_cong [of s' i s]) auto
  qed (use assms(2) in simp)
qed (use inv assms(4-6) in \<open>simp_all add: combine_inv_alt\<close>)

lemma card_undropped:
  fixes n :: nat
  assumes "e < n" and "\<not> d e"
  shows "card {i. i < n \<and> \<not> d i} = Suc (card {i. i < n \<and> \<not> (d(e := True)) i})"
proof -
  have "{i. i < n \<and> \<not> d i} = insert e {i. i < n \<and> \<not> (d(e := True)) i}" using assms by auto
  moreover have "e \<notin> {i. i < n \<and> \<not> (d(e := True)) i}" by simp
  moreover have "finite {i. i < n \<and> \<not> (d(e := True)) i}" by (rule finite_subset [of _ "{..<n}"]) auto
  ultimately show ?thesis using card_insert_disjoint by metis
qed

lemma combine_step_inv:
  assumes "combine_step C s s'" and inv: "combine_inv C s" and small: "c_num_experts C < 2 ^ 31"
  shows "combine_inv C s'"
proof -
  let ?E = "c_num_experts C"
  have ex: "c_expert_inv C s e" if "e < ?E" for e using inv that by (simp add: combine_inv_alt)
  have flag: "clean_flag s = (if raised s then of_nat (card {e. e < ?E \<and> \<not> dropped s e}) else 0)"
    using inv by (simp add: combine_inv_alt)
  show ?thesis
    using assms(1)
  proof cases
    case (clear i)
    have "c_expert_inv C s' e" if "e < ?E" for e
      unfolding clear(1) by (rule c_expert_inv_cong [OF _ _ _ _ _ ex [OF that]]) simp_all
    then show ?thesis using inv by (simp add: combine_inv_alt clear(1))
  next
    case raise
    have "c_expert_inv C s' e" if "e < ?E" for e
      unfolding raise(1) by (rule c_expert_inv_cong [OF _ _ _ _ _ ex [OF that]]) simp_all
    moreover have "{e. e < ?E \<and> \<not> dropped s e} = {..<?E}"
      using ex raise(3) by (auto simp: c_expert_inv_def)
    ultimately show ?thesis using inv raise by (simp add: combine_inv_alt)
  next
    case (row e w)
    show ?thesis unfolding row(1)
      by (rule combine_inv_at [OF inv row_inv [OF ex [OF row(2)] row(3,4)]]) (use flag in auto)
  next
    case (signal e)
    have "raised s" using flag signal(5) by (auto split: if_splits)
    have "c_expert_inv C s' e"
      using ex [OF signal(2)] signal(3,4) \<open>raised s\<close>
      by (auto simp: signal(1) c_expert_inv_def done_after_rows_def rows_sent_def)
    then show ?thesis
      by (rule combine_inv_at [OF inv]) (use flag in \<open>auto simp: signal(1)\<close>)
  next
    case (drop e)
    have "c_expert_inv C s' e"
      using ex [OF drop(2)] drop(3) by (auto simp: drop(1) c_expert_inv_def done_after_rows_def rows_sent_def)
    then show ?thesis
    proof (rule combine_inv_at [OF inv])
      have "raised s" using ex [OF drop(2)] drop(3) by (simp add: c_expert_inv_def)
      then show "clean_flag s' = (if raised s' then of_nat (card {e. e < ?E \<and> \<not> dropped s' e}) else 0)"
        using flag card_undropped [of e ?E "dropped s"] drop(2,4) by (simp add: drop(1))
    qed (simp_all add: drop(1))
  qed
qed

interpretation combine: step_system "combine_step C" "\<lambda>s. c_num_experts C < 2 ^ 31 \<and> s = combine_init C"
  "\<lambda>s. c_num_experts C < 2 ^ 31 \<and> combine_inv C s" for C
  by unfold_locales (auto intro: combine_inv_init combine_step_inv)

lemma combine_reachable_inv:
  assumes "combine_reachable C s" and "c_num_experts C < 2 ^ 31"
  shows "combine_inv C s"
  using combine.reachable_inv [OF assms(1)] assms(2) by blast

section \<open>Progress\<close>

lemma combine_stuck:
  assumes inv: "combine_inv C s" and st: "\<forall>s'. \<not> combine_step C s s'" and small: "c_num_experts C < 2 ^ 31"
    and e: "e < c_num_experts C"
  shows "cleared s e" and "raised s" and "signalled s e" and "dropped s e"
proof -
  let ?E = "c_num_experts C"
  have cl: "cleared s i" if "i < ?E" for i using st that combine_step.clear by blast
  then show "cleared s e" using e .
  show r: "raised s" using st cl combine_step.raise by blast
  have rows: "row_end C i \<le> next_row s i w" if "i < ?E" "w < 4" for i w
    using st combine_step.row [OF that] not_le by blast
  have dr: "dropped s i" if "i < ?E" "signalled s i" for i using st that combine_step.drop by blast
  have sg: "signalled s i" if i: "i < ?E" for i
  proof (rule ccontr)
    assume ns: "\<not> signalled s i"
    then have "\<not> dropped s i" using inv i by (auto simp: combine_inv_alt c_expert_inv_def)
    then have "i \<in> {e. e < ?E \<and> \<not> dropped s e}" using i by simp
    then have "0 < card {e. e < ?E \<and> \<not> dropped s e}" using card_gt_0_iff by fastforce
    moreover have "card {e. e < ?E \<and> \<not> dropped s e} \<le> ?E"
      using card_mono [of "{..<?E}" "{e. e < ?E \<and> \<not> dropped s e}"] by auto
    ultimately have "(of_nat (card {e. e < ?E \<and> \<not> dropped s e}) :: cint) \<noteq> 0"
      using small by (simp add: word_of_nat_eq_0_iff nat_dvd_not_less)
    then have "clean_flag s \<noteq> 0" using inv r by (simp add: combine_inv_alt)
    then show False using st combine_step.signal [OF i _ ns] rows [OF i] by blast
  qed
  show "signalled s e" by (rule sg [OF e])
  show "dropped s e" by (rule dr [OF e sg [OF e]])
qed

text \<open>Work: the words to clear, the flag, the rows of every warp, two accesses per expert.\<close>

definition c_expert_work :: "combine_in \<Rightarrow> combine_state \<Rightarrow> nat \<Rightarrow> nat" where
  "c_expert_work C s e = of_bool (\<not> cleared s e) + of_bool (\<not> signalled s e) + of_bool (\<not> dropped s e) +
     (\<Sum>w<kNumWarpsPerGroup. row_end C e - next_row s e w)"

definition c_work :: "combine_in \<Rightarrow> combine_state \<Rightarrow> nat" where
  "c_work C s = of_bool (\<not> raised s) + (\<Sum>e<c_num_experts C. c_expert_work C s e)"

lemma c_work_at:
  assumes "e < c_num_experts C" and "c_expert_work C s' e < c_expert_work C s e"
    and "\<And>i. i \<noteq> e \<Longrightarrow> c_expert_work C s' i = c_expert_work C s i" and "raised s' = raised s"
  shows "c_work C s' < c_work C s"
  using sum_less_at [of e "c_num_experts C" "c_expert_work C s'" "c_expert_work C s", OF assms(1-3)] assms(4)
  by (simp add: c_work_def)

lemma combine_step_work:
  assumes "combine_step C s s'"
  shows "c_work C s' < c_work C s"
  using assms
proof cases
  case (clear i)
  show ?thesis unfolding clear(1) by (rule c_work_at [OF clear(2)]) (use clear(3) in \<open>simp_all add: c_expert_work_def\<close>)
next
  case raise
  then show ?thesis by (simp add: c_work_def c_expert_work_def)
next
  case (row e w)
  have "(\<Sum>v<4. row_end C e - ((next_row s e)(w := next_row s e w + 4)) v) < (\<Sum>v<4. row_end C e - next_row s e v)"
    by (rule sum_less_at [OF row(3)]) (use row(4) in auto)
  then show ?thesis unfolding row(1)
    by (intro c_work_at [OF row(2)]) (simp_all add: c_expert_work_def del: fun_upd_apply, simp_all)
next
  case (signal e)
  show ?thesis unfolding signal(1) by (rule c_work_at [OF signal(2)]) (use signal(4) in \<open>simp_all add: c_expert_work_def\<close>)
next
  case (drop e)
  show ?thesis unfolding drop(1) by (rule c_work_at [OF drop(2)]) (use drop(4) in \<open>simp_all add: c_expert_work_def\<close>)
qed

interpretation combine: draining "combine_step C" "c_work C" for C
  by unfold_locales (rule combine_step_work)

section \<open>Rows and sums\<close>

lemma set_combine_stores:
  assumes "unat offset + unat n + 3 < 2 ^ 31"
  shows "set (combine_stores num_max g offset n src_info x) =
    (\<lambda>i. (combine_row_no g num_max (src_info i), x i)) ` {unat offset..<unat offset + unat n}"
proof -
  let ?o = "unat offset" and ?n = "unat n"
  have "(\<Union>w<4. set (block_tokens 4 (?o + ?n) (?o + w))) = {?o..<?o + ?n}"
  proof (intro set_eqI iffI)
    fix i assume i: "i \<in> {?o..<?o + ?n}"
    then obtain d where d: "i = ?o + d" using le_Suc_ex by (metis atLeastLessThan_iff)
    have "i mod 4 = (?o + d mod 4) mod 4" unfolding d by (simp add: mod_simps)
    then have "i \<in> set (block_tokens 4 (?o + ?n) (?o + d mod 4))" using i d by (simp add: set_block_tokens)
    moreover have "d mod 4 \<in> {..<4}" by simp
    ultimately show "i \<in> (\<Union>w<4. set (block_tokens 4 (?o + ?n) (?o + w)))" by blast
  qed (auto simp: set_block_tokens)
  moreover have int: "nat (sint (offset + of_nat m)) = ?o + m" if "m \<le> ?n \<or> m \<le> 3" for m
  proof -
    have "offset + of_nat m = of_nat (?o + m)" by simp
    moreover have "?o + m < 2 ^ 31" using that assms by linarith
    ultimately show ?thesis using sint_cint_of_nat [of "?o + m"] by (simp del: of_nat_add)
  qed
  have "nat (sint (offset + n)) = ?o + ?n" using int [of ?n] by simp
  moreover have "nat (sint (offset + of_nat w)) = ?o + w" if "w < 4" for w using int [of w] that by simp
  ultimately show ?thesis by (simp add: combine_stores_def image_UN [symmetric] atLeast0LessThan)
qed

text \<open>Step \<open>j\<close> of the narrowing reads halfwords that no earlier step has written.\<close>

lemma narrow_prefix:
  assumes "n \<le> 8"
  shows "fold (narrow_step narrow) [0..<n] buf =
    (\<lambda>i. if i < n then narrow (buf (2 * i)) (buf (2 * i + 1)) else buf i)"
  using assms
proof (induction n)
  case (Suc n)
  then show ?case by (auto simp: fun_eq_iff narrow_step_def less_Suc_eq)
qed simp

section \<open>Properties\<close>

text \<open>
  C6. Whenever an expert's completion has been signalled, every row of its range was sent before, once,
  and no other row, and the signal words of the other buffer had all been cleared.
\<close>

theorem combine_signal_after_rows:
  assumes "combine_reachable C s" and "c_num_experts C < 2 ^ 31" and "e < c_num_experts C" and "Done e \<in> set (c_acts s)"
  shows "(\<forall>i<c_num_experts C. cleared s i) \<and>
    (\<exists>js. filter (\<lambda>a. a = Done e \<or> (\<exists>i. a = Row e i)) (c_acts s) = map (Row e) js @ [Done e] \<and> distinct js \<and>
      set js = {row_offset C e..<row_offset C e + row_count C e})"
proof -
  have inv: "combine_inv C s" by (rule combine_reachable_inv [OF assms(1,2)])
  then have ex: "c_expert_inv C s e" using assms(3) by (simp add: combine_inv_alt)
  then obtain js where js: "filter (\<lambda>a. a = Done e \<or> (\<exists>i. a = Row e i)) (c_acts s) =
      map (Row e) js @ (if signalled s e then [Done e] else [])" "distinct js" "set js = rows_sent C s e"
    by (auto simp: c_expert_inv_def done_after_rows_def)
  have "Done e \<in> set (filter (\<lambda>a. a = Done e \<or> (\<exists>i. a = Row e i)) (c_acts s))" using assms(4) by simp
  then have sg: "signalled s e" unfolding js(1) by (auto split: if_splits)
  then have all: "raised s" "\<forall>w<4. row_end C e \<le> next_row s e w" using ex by (simp_all add: c_expert_inv_def)
  have "rows_sent C s e = {row_offset C e..<row_offset C e + row_count C e}"
  proof (intro set_eqI iffI)
    fix i assume i: "i \<in> {row_offset C e..<row_offset C e + row_count C e}"
    have "row_end C e \<le> next_row s e ((i - row_offset C e) mod 4)" using all(2) by simp
    then show "i \<in> rows_sent C s e" using i by (simp add: rows_sent_def row_end_def)
  qed (simp add: rows_sent_def row_end_def)
  then show ?thesis using js sg all(1) inv by (auto simp: combine_inv_alt)
qed

definition demo_combine :: combine_in where
  "demo_combine = \<lparr>c_num_experts = 3, row_offset = (\<lambda>e. 10 * e), row_count = (\<lambda>e. if e = 1 then 6 else 0)\<rparr>"

theorem combine_signal_after_rows_witness:
  "\<exists>s js. combine_reachable demo_combine s \<and>
     filter (\<lambda>a. a = Done 1 \<or> (\<exists>i. a = Row 1 i)) (c_acts s) = map (Row 1) js @ [Done 1] \<and> set js = {10..<16}"
proof -
  obtain s where r: "combine_reachable demo_combine s" and st: "\<forall>s'. \<not> combine_step demo_combine s s'"
    using combine.reaches_end by blast
  have E: "c_num_experts demo_combine < 2 ^ 31" "1 < c_num_experts demo_combine" by (simp_all add: demo_combine_def)
  have inv: "combine_inv demo_combine s" by (rule combine_reachable_inv [OF r E(1)])
  have "signalled s 1" by (rule combine_stuck(3) [OF inv st E])
  moreover have "c_expert_inv demo_combine s 1" using inv E(2) by (simp add: combine_inv_alt)
  ultimately obtain js where "filter (\<lambda>a. a = Done 1 \<or> (\<exists>i. a = Row 1 i)) (c_acts s) = map (Row 1) js @ [Done 1]"
    by (auto simp: c_expert_inv_def done_after_rows_def)
  then have "Done 1 \<in> set (filter (\<lambda>a. a = Done 1 \<or> (\<exists>i. a = Row 1 i)) (c_acts s))" by (simp only: set_append) simp
  then have "Done 1 \<in> set (c_acts s)" by simp
  from combine_signal_after_rows [OF r E this] obtain js where js:
    "filter (\<lambda>a. a = Done 1 \<or> (\<exists>i. a = Row 1 i)) (c_acts s) = map (Row 1) js @ [Done 1]"
    "set js = {row_offset demo_combine 1..<row_offset demo_combine 1 + row_count demo_combine 1}" by blast
  have "set js = {10..<16}" using js(2) by (simp add: demo_combine_def)
  then show ?thesis using r js(1) by blast
qed

text \<open>
  C7. The send phase of the combine uses up work with every step, and when it can go no further every
  expert has signalled and the flag in the workspace is back at 0 for the next launch.
\<close>

theorem combine_flag_returns:
  assumes "combine_reachable C s" and "c_num_experts C < 2 ^ 31"
  shows "(\<forall>s'. combine_step C s s' \<longrightarrow> c_work C s' < c_work C s) \<and>
    ((\<forall>s'. \<not> combine_step C s s') \<longrightarrow> clean_flag s = 0 \<and> (\<forall>e<c_num_experts C. signalled s e \<and> cleared s e))"
proof (intro conjI impI)
  have inv: "combine_inv C s" by (rule combine_reachable_inv [OF assms])
  assume st: "\<forall>s'. \<not> combine_step C s s'"
  note end_ = combine_stuck [OF inv st assms(2)]
  then show "\<forall>e<c_num_experts C. signalled s e \<and> cleared s e" by blast
  have none: "{e. e < c_num_experts C \<and> \<not> dropped s e} = {}" using end_ by blast
  show "clean_flag s = 0" using inv unfolding combine_inv_alt none by simp
qed (simp add: combine_step_work)

theorem combine_flag_returns_witness:
  "\<exists>s. combine_reachable demo_combine s \<and> clean_flag s = 0 \<and> signalled s 1"
proof -
  obtain s where r: "combine_reachable demo_combine s" and st: "\<forall>s'. \<not> combine_step demo_combine s s'"
    using combine.reaches_end by blast
  have "c_num_experts demo_combine < 2 ^ 31" by (simp add: demo_combine_def)
  from combine_flag_returns [OF r this] st r show ?thesis by (auto simp: demo_combine_def)
qed

text \<open>
  The narrowing of the eight sums in place never overwrites a sum before it is narrowed: the first eight
  halfwords are the narrowed sums and the others are unchanged.
\<close>

theorem narrow_in_place_correct:
  "narrow_in_place narrow buf = (\<lambda>i. if i < 8 then narrow (buf (2 * i)) (buf (2 * i + 1)) else buf i)"
  unfolding narrow_in_place_def by (rule narrow_prefix) simp

end
