(* ===== verification/Kernel_Launch.thy ===== *)
theory Kernel_Launch
  imports Combine
begin

text \<open>
  The host functions \<^verbatim>\<open>dispatch\<close> and \<^verbatim>\<open>combine\<close> (\<^verbatim>\<open>src/ep_kernel.cu\<close>): their checks, the launch configuration
  and the choice of the kernel instance. The CUDA runtime's answer to a launch is a parameter. The
  lemmas show which of the launches that are made satisfy the device assertions of their kernel.
\<close>

section \<open>Launches\<close>

datatype kernel_instance = Dispatch_kernel bool nat | Combine_kernel nat

datatype host_error = Assertion_failed string | Cuda_error int

record kernel_launch =
  grid_dim :: int
  block_dim :: nat
  cooperative :: bool
  instance_of :: kernel_instance
  counter_ptrs :: "u64 list"

abbreviation NUM_WORKSPACE_BYTES :: size_t where "NUM_WORKSPACE_BYTES \<equiv> 33554432"
abbreviation kNumMaxTopK :: cint where "kNumMaxTopK \<equiv> 11"
abbreviation LOW_LATENCY_SEND_PHASE :: cint where "LOW_LATENCY_SEND_PHASE \<equiv> 1"
abbreviation LOW_LATENCY_RECV_PHASE :: cint where "LOW_LATENCY_RECV_PHASE \<equiv> 2"

text \<open>\<^verbatim>\<open>EP_HOST_ASSERT\<close> throws and \<^verbatim>\<open>CUDA_CHECK\<close> throws on every code but 0.\<close>

definition host_assert :: "bool \<Rightarrow> string \<Rightarrow> (host_error + 'a) \<Rightarrow> host_error + 'a" where
  "host_assert ok name k = (if ok then k else Inl (Assertion_failed name))"

definition cuda_launch :: "(kernel_launch \<Rightarrow> int) \<Rightarrow> kernel_launch \<Rightarrow> host_error + kernel_launch" where
  "cuda_launch cudaLaunchKernelEx l =
     (let code = cudaLaunchKernelEx l in if code = 0 then Inr l else Inl (Cuda_error code))"

definition supported_hidden :: "nat list" where
  "supported_hidden = [2048, 2560, 3072, 4096, 5120, 6144, 7168, 8192]"

text \<open>The \<^verbatim>\<open>switch\<close> on the hidden size: the instances differ in it only.\<close>

definition switch_hidden :: "cint \<Rightarrow> (nat \<Rightarrow> host_error + 'a) \<Rightarrow> host_error + 'a" where
  "switch_hidden hidden k =
     (case find (\<lambda>h. hidden = of_nat h) supported_hidden of
        Some kHidden \<Rightarrow> k kHidden
      | None \<Rightarrow> host_assert False ''Unsupported hidden'' (k 0))"

definition host_dispatch :: "(kernel_launch \<Rightarrow> int) \<Rightarrow> cint \<Rightarrow> cint \<Rightarrow> cint \<Rightarrow> bool \<Rightarrow> u64 \<Rightarrow> host_error + kernel_launch" where
  "host_dispatch cudaLaunchKernelEx hidden topk experts use_fp8 workspace =
     (let sms = cell_div (sint experts) 8; num_warps = 8 * 4 in
      host_assert (topk <=s kNumMaxTopK) ''num_topk <= kNumMaxTopK''
        (let atomic_counter_per_expert = workspace;
             atomic_finish_counter_per_expert = atomic_counter_per_expert + 4 * scast experts in
         host_assert (scast experts * 4 * 2 \<le> NUM_WORKSPACE_BYTES) ''NUM_WORKSPACE_BYTES''
           (switch_hidden hidden (\<lambda>kHidden. cuda_launch cudaLaunchKernelEx
             \<lparr>grid_dim = sms, block_dim = num_warps * 32, cooperative = True,
              instance_of = Dispatch_kernel use_fp8 kHidden,
              counter_ptrs = [atomic_counter_per_expert, atomic_finish_counter_per_expert]\<rparr>))))"

definition host_combine :: "(kernel_launch \<Rightarrow> int) \<Rightarrow> cint \<Rightarrow> cint \<Rightarrow> cint \<Rightarrow> u64 \<Rightarrow> host_error + kernel_launch" where
  "host_combine cudaLaunchKernelEx hidden topk experts workspace =
     (let num_warps = 8 * 4; sms = cell_div (sint experts) 8; atomic_clean_flag = workspace in
      host_assert (4 \<le> NUM_WORKSPACE_BYTES) ''NUM_WORKSPACE_BYTES''
        (host_assert (topk <=s kNumMaxTopK) ''num_topk <= kNumMaxTopk''
          (switch_hidden hidden (\<lambda>kHidden. cuda_launch cudaLaunchKernelEx
            \<lparr>grid_dim = sms, block_dim = num_warps * 32, cooperative = False,
             instance_of = Combine_kernel kHidden, counter_ptrs = [atomic_clean_flag]\<rparr>))))"

text \<open>The assertions that the compiler checks on an instance.\<close>

definition dispatch_vectors_static :: bool where
  "dispatch_vectors_static \<longleftrightarrow> 8 * 32 mod 128 = (0 :: nat) \<and> 8 * 32 div 128 = (2 :: nat)"

definition warps_static :: bool where
  "warps_static \<longleftrightarrow> 1 < kNumWarpsPerGroup \<and> unat kNumMaxTopK + 1 \<le> kNumWarpGroups * kNumWarpsPerGroup"

definition combine_slot_static :: "nat \<Rightarrow> bool" where
  "combine_slot_static kHidden \<longleftrightarrow> num_bytes_per_slot kHidden mod 16 = 0"

definition combine_hidden_static :: "nat \<Rightarrow> bool" where
  "combine_hidden_static kHidden \<longleftrightarrow> kHidden mod (32 * 8) = 0"

fun static_asserts :: "kernel_instance \<Rightarrow> bool" where
  "static_asserts (Dispatch_kernel kUseFP8 kHidden) \<longleftrightarrow> warps_static \<and> dispatch_vectors_static"
| "static_asserts (Combine_kernel kHidden) \<longleftrightarrow> warps_static \<and> combine_slot_static kHidden \<and> combine_hidden_static kHidden"

text \<open>
  The assertions that the threads of a launch check: on the message size in every phase; in the send phase of the
  dispatch on the vectors of a token and, in the last warp of every block, on the number of blocks; in its receive
  phase on the scales; in the receive phase of the combine on the entries and the threads.
\<close>

definition dispatch_message_assert :: "bool \<Rightarrow> nat \<Rightarrow> bool" where
  "dispatch_message_assert kUseFP8 kHidden \<longleftrightarrow> num_bytes_per_msg kUseFP8 kHidden mod 16 = 0"

definition dispatch_reads_assert :: "nat \<Rightarrow> bool" where
  "dispatch_reads_assert kHidden \<longleftrightarrow> kHidden mod 8 = 0"

definition dispatch_blocks_assert :: "int \<Rightarrow> bool" where
  "dispatch_blocks_assert sms \<longleftrightarrow> 1 < sms"

definition dispatch_scales_assert :: "nat \<Rightarrow> bool" where
  "dispatch_scales_assert kHidden \<longleftrightarrow> num_scales kHidden \<le> 64"

definition combine_threads_assert :: "cint \<Rightarrow> nat \<Rightarrow> nat \<Rightarrow> bool" where
  "combine_threads_assert topk kHidden num_threads \<longleftrightarrow> topk <=s 32 \<and> kHidden div 8 \<le> num_threads"

definition in_phase :: "cint \<Rightarrow> cint \<Rightarrow> bool" where
  "in_phase phases p \<longleftrightarrow> phases AND p \<noteq> 0"

definition device_asserts :: "kernel_launch \<Rightarrow> cint \<Rightarrow> cint \<Rightarrow> bool" where
  "device_asserts l phases topk \<longleftrightarrow>
     (case instance_of l of
        Dispatch_kernel kUseFP8 kHidden \<Rightarrow> dispatch_message_assert kUseFP8 kHidden \<and>
          (in_phase phases LOW_LATENCY_SEND_PHASE \<longrightarrow> dispatch_reads_assert kHidden \<and> dispatch_blocks_assert (grid_dim l)) \<and>
          (in_phase phases LOW_LATENCY_RECV_PHASE \<longrightarrow> dispatch_scales_assert kHidden)
      | Combine_kernel kHidden \<Rightarrow>
          in_phase phases LOW_LATENCY_RECV_PHASE \<longrightarrow> combine_threads_assert topk kHidden (block_dim l))"

fun is_dispatch :: "kernel_instance \<Rightarrow> bool" where
  "is_dispatch (Dispatch_kernel kUseFP8 kHidden) = True"
| "is_dispatch (Combine_kernel kHidden) = False"

text \<open>Whether a kernel synchronises the grid in the given phases.\<close>

fun syncs_grid :: "kernel_instance \<Rightarrow> cint \<Rightarrow> bool" where
  "syncs_grid (Dispatch_kernel kUseFP8 kHidden) phases \<longleftrightarrow>
     phases AND LOW_LATENCY_RECV_PHASE \<noteq> 0 \<and> phases AND LOW_LATENCY_SEND_PHASE \<noteq> 0"
| "syncs_grid (Combine_kernel kHidden) phases \<longleftrightarrow> phases AND LOW_LATENCY_RECV_PHASE \<noteq> 0"

section \<open>Lemmas\<close>

lemma host_assert_Inr [simp]: "host_assert ok name k = Inr l \<longleftrightarrow> ok \<and> k = Inr l"
  by (simp add: host_assert_def)

lemma cuda_launch_Inr [simp]: "cuda_launch cuda l = Inr l' \<longleftrightarrow> cuda l = 0 \<and> l' = l"
  by (auto simp: cuda_launch_def Let_def)

lemma switch_hidden_Inr:
  "switch_hidden hidden k = Inr l \<longleftrightarrow> (\<exists>h\<in>set supported_hidden. hidden = of_nat h \<and> k h = Inr l)"
  by (simp add: switch_hidden_def supported_hidden_def)

lemmas assert_defs = dispatch_message_assert_def dispatch_reads_assert_def dispatch_scales_assert_def combine_threads_assert_def
  warps_static_def dispatch_vectors_static_def combine_slot_static_def combine_hidden_static_def

lemma supported_asserts:
  assumes "h \<in> set supported_hidden"
  shows "static_asserts (Dispatch_kernel fp8 h)" "static_asserts (Combine_kernel h)"
    "dispatch_message_assert fp8 h" "dispatch_reads_assert h" "dispatch_scales_assert h"
    "topk <=s 32 \<Longrightarrow> combine_threads_assert topk h 1024"
  using assms
  by (auto simp: supported_hidden_def num_bytes_per_msg_def num_bytes_per_slot_def num_scales_def assert_defs)

lemma topk_small: "topk <=s kNumMaxTopK \<Longrightarrow> topk <=s (32 :: cint)"
  by (simp add: word_sle_eq)

lemma grid_covers: "0 \<le> experts \<Longrightarrow> experts \<le> 8 * cell_div experts 8" for experts :: int
  by (simp add: cell_div_def sdiv_nonneg)

lemma blocks_assert_iff: "0 \<le> experts \<Longrightarrow> dispatch_blocks_assert (cell_div experts 8) \<longleftrightarrow> 8 < experts" for experts :: int
  by (simp add: dispatch_blocks_assert_def cell_div_def sdiv_nonneg) presburger

section \<open>Properties\<close>

text \<open>
  C39. A launch that the host makes is of an instance that meets the static assertions, has 1024 threads in a block
  and enough blocks for one warp group per expert. It satisfies the assertions that its threads make in the given
  phases except in one case, which the host does not check: the send phase of a dispatch for eight experts or fewer
  fails the assertion on the number of blocks.
\<close>

theorem launches_meet_device_asserts:
  assumes "host_dispatch cuda hidden topk experts use_fp8 workspace = Inr l \<or> host_combine cuda hidden topk experts workspace = Inr l"
    and "0 \<le> sint experts"
  shows "static_asserts (instance_of l) \<and> block_dim l = 1024 \<and> sint experts \<le> 8 * grid_dim l \<and>
    (device_asserts l phases topk \<longleftrightarrow>
       \<not> (is_dispatch (instance_of l) \<and> in_phase phases LOW_LATENCY_SEND_PHASE \<and> sint experts \<le> 8))"
  using assms grid_covers [OF assms(2)] topk_small [of topk] supported_asserts blocks_assert_iff [OF assms(2)]
  by (auto simp: host_dispatch_def host_combine_def Let_def switch_hidden_Inr device_asserts_def simp del: static_asserts.simps)

theorem launches_meet_device_asserts_witness:
  "\<exists>l. host_dispatch (\<lambda>_. 0) 2560 8 288 True 4096 = Inr l \<and> device_asserts l 3 8 \<and> grid_dim l = 36"
proof -
  let ?l = "\<lparr>grid_dim = 36, block_dim = 1024, cooperative = True, instance_of = Dispatch_kernel True 2560, counter_ptrs = [4096, 5248]\<rparr>"
  have "cell_div (sint (288 :: cint)) 8 = 36" by code_simp
  then have l: "host_dispatch (\<lambda>_. 0) 2560 8 288 True 4096 = Inr ?l"
    by (simp add: host_dispatch_def Let_def switch_hidden_def supported_hidden_def cuda_launch_def host_assert_def word_sle_eq)
  from launches_meet_device_asserts [of "\<lambda>_. 0" 2560 8 288 True 4096 ?l 3] show ?thesis
    by (intro exI [of _ ?l]) (simp add: l)
qed

text \<open>
  Every launch of the combine that includes the receive phase synchronises the whole grid although it
  is not a cooperative launch; the launches of the dispatch are cooperative.
\<close>

theorem combine_syncs_without_cooperation:
  assumes "host_combine cuda hidden topk experts workspace = Inr l" and "phases AND LOW_LATENCY_RECV_PHASE \<noteq> 0"
    and "host_dispatch cuda' hidden topk experts use_fp8 workspace = Inr l'"
  shows "syncs_grid (instance_of l) phases \<and> \<not> cooperative l \<and> cooperative l'"
  using assms by (auto simp: host_combine_def host_dispatch_def Let_def switch_hidden_Inr)

theorem combine_syncs_without_cooperation_witness:
  "\<exists>l. host_combine (\<lambda>_. 0) 7168 8 256 4096 = Inr l \<and> syncs_grid (instance_of l) 3 \<and> \<not> cooperative l"
proof -
  let ?l = "\<lparr>grid_dim = 32, block_dim = 1024, cooperative = False, instance_of = Combine_kernel 7168, counter_ptrs = [4096]\<rparr>"
  let ?d = "\<lparr>grid_dim = 32, block_dim = 1024, cooperative = True, instance_of = Dispatch_kernel True 7168, counter_ptrs = [4096, 5120]\<rparr>"
  have g: "cell_div (sint (256 :: cint)) 8 = 32" by code_simp
  then have l: "host_combine (\<lambda>_. 0) 7168 8 256 4096 = Inr ?l"
    by (simp add: host_combine_def Let_def switch_hidden_def supported_hidden_def cuda_launch_def host_assert_def word_sle_eq)
  have d: "host_dispatch (\<lambda>_. 0) 7168 8 256 True 4096 = Inr ?d"
    using g by (simp add: host_dispatch_def Let_def switch_hidden_def supported_hidden_def cuda_launch_def host_assert_def word_sle_eq)
  have "(3 :: cint) AND LOW_LATENCY_RECV_PHASE \<noteq> 0" by code_simp
  from combine_syncs_without_cooperation [OF l this d] l show ?thesis by blast
qed

end
