(* ===== verification/Launch_Macros.thy ===== *)
theory Launch_Macros
  imports Kernel_Launch
begin

text \<open>
  The \<^verbatim>\<open>switch\<close> macros of \<^verbatim>\<open>include/ep_launch.cuh\<close>. None of them writes a \<^verbatim>\<open>break\<close>, so what a case
  does after its macro is up to the macro: it leaves the \<^verbatim>\<open>switch\<close> or falls into the next case and at
  last into the failing assertion of the default.
\<close>

datatype after_case = Break | Fall

fun run_cases :: "string \<Rightarrow> ('v \<Rightarrow> 's \<Rightarrow> after_case \<times> 's) \<Rightarrow> 'v list \<Rightarrow> 's \<Rightarrow> host_error + 's" where
  "run_cases reason case_macro [] s = host_assert False reason (Inr s)"
| "run_cases reason case_macro (v # vs) s =
     (case case_macro v s of (Break, s') \<Rightarrow> Inr s' | (Fall, s') \<Rightarrow> run_cases reason case_macro vs s')"

fun switch_on :: "string \<Rightarrow> ('v \<Rightarrow> 's \<Rightarrow> after_case \<times> 's) \<Rightarrow> 'v list \<Rightarrow> 'v \<Rightarrow> 's \<Rightarrow> host_error + 's" where
  "switch_on reason case_macro [] x s = host_assert False reason (Inr s)"
| "switch_on reason case_macro (v # vs) x s =
     (if x = v then run_cases reason case_macro (v # vs) s else switch_on reason case_macro vs x s)"

abbreviation NUM_MAX_NVL_PEERS :: int where "NUM_MAX_NVL_PEERS \<equiv> 8"

definition SWITCH_RANKS :: "(int \<Rightarrow> 's \<Rightarrow> after_case \<times> 's) \<Rightarrow> int \<Rightarrow> 's \<Rightarrow> host_error + 's" where
  "SWITCH_RANKS case_macro ranks = switch_on ''Unsupported ranks'' case_macro [2, 4, 8] ranks"

definition SWITCH_RDMA_RANKS :: "(int \<Rightarrow> 's \<Rightarrow> after_case \<times> 's) \<Rightarrow> int \<Rightarrow> 's \<Rightarrow> host_error + 's" where
  "SWITCH_RDMA_RANKS case_macro ranks =
     switch_on ''Unsupported RDMA ranks'' case_macro [2, 3, 4, 8, 16, 18, 20] (ranks sdiv NUM_MAX_NVL_PEERS)"

definition SWITCH_RANKS_WITH_DTYPE ::
  "('t \<Rightarrow> int \<Rightarrow> 's \<Rightarrow> after_case \<times> 's) \<Rightarrow> 't \<Rightarrow> int \<Rightarrow> 's \<Rightarrow> host_error + 's" where
  "SWITCH_RANKS_WITH_DTYPE case_macro dtype ranks = switch_on ''Unsupported ranks'' (case_macro dtype) [2, 4, 8] ranks"

datatype cuda_type = CUDA_R_16BF | CUDA_R_32F | Other_type int

definition SWITCH_TYPES :: "(cuda_type \<Rightarrow> 's \<Rightarrow> after_case \<times> 's) \<Rightarrow> cuda_type \<Rightarrow> 's \<Rightarrow> host_error + 's" where
  "SWITCH_TYPES case_macro type = switch_on ''Unsupported type'' case_macro [CUDA_R_16BF, CUDA_R_32F] type"

definition SWITCH_HIDDEN :: "(int \<Rightarrow> 's \<Rightarrow> after_case \<times> 's) \<Rightarrow> int \<Rightarrow> 's \<Rightarrow> host_error + 's" where
  "SWITCH_HIDDEN case_macro hidden =
     switch_on ''Unsupported hidden'' case_macro [2048, 2560, 3072, 4096, 5120, 6144, 7168, 8192] hidden"

section \<open>What a switch does\<close>

lemma switch_on_break:
  assumes "\<And>v s. fst (m v s) = Break"
  shows "switch_on reason m vs x s = (if x \<in> set vs then Inr (snd (m x s)) else Inl (Assertion_failed reason))"
proof (induction vs)
  case (Cons v vs)
  have "m v s = (Break, snd (m v s))" using assms by (simp add: prod_eq_iff)
  then show ?case using Cons.IH by (auto split: prod.splits after_case.splits)
qed (simp add: host_assert_def)

lemma run_cases_fall:
  assumes "\<And>v s. fst (m v s) = Fall"
  shows "run_cases reason m vs s = Inl (Assertion_failed reason)"
proof (induction vs arbitrary: s)
  case (Cons v vs)
  have "m v s = (Fall, snd (m v s))" using assms by (simp add: prod_eq_iff)
  then show ?case using Cons.IH by (auto split: prod.splits)
qed (simp add: host_assert_def)

lemma switch_on_fall:
  assumes "\<And>v s. fst (m v s) = Fall"
  shows "switch_on reason m vs x s = Inl (Assertion_failed reason)"
  by (induction vs) (simp_all add: run_cases_fall [OF assms] host_assert_def del: run_cases.simps)

section \<open>Properties\<close>

text \<open>
  With a case macro that leaves the switch, \<^verbatim>\<open>SWITCH_HIDDEN\<close> picks the same case as the switch that is
  written out in the launch functions and fails on the same sizes; with a case macro that does not, every
  one of the switches ends in its failing assertion, whatever it is given.
\<close>

theorem launch_switches:
  assumes "\<And>v s. fst (brk v s) = Break" and "\<And>v s. fst (fall v s) = Fall" and "\<And>v s. fst (fallt v s) = Fall"
    and "- (2 ^ 31) \<le> h" and "h < 2 ^ 31"
  shows "SWITCH_HIDDEN brk h s = switch_hidden (word_of_int h) (\<lambda>kHidden. Inr (snd (brk (int kHidden) s))) \<and>
    SWITCH_HIDDEN fall h s = Inl (Assertion_failed ''Unsupported hidden'') \<and>
    SWITCH_RANKS fall n s = Inl (Assertion_failed ''Unsupported ranks'') \<and>
    SWITCH_RDMA_RANKS fall n s = Inl (Assertion_failed ''Unsupported RDMA ranks'') \<and>
    SWITCH_TYPES fallt t s = Inl (Assertion_failed ''Unsupported type'')"
proof (intro conjI)
  have inj: "word_of_int h = (word_of_int k :: cint) \<longleftrightarrow> h = k" if "- (2 ^ 31) \<le> k" "k < 2 ^ 31" for k
  proof
    assume "word_of_int h = (word_of_int k :: cint)"
    then have "sint (word_of_int h :: cint) = sint (word_of_int k :: cint)" by simp
    then show "h = k" using assms(4,5) that by (simp add: sint_sbintrunc' signed_take_bit_int_eq_self)
  qed simp
  have eqs: "word_of_int h = (of_nat k :: cint) \<longleftrightarrow> h = int k" if "k \<in> set supported_hidden" for k
  proof -
    have "k < 2 ^ 31" using that by (auto simp: supported_hidden_def)
    then show ?thesis using inj [of "int k"] by simp
  qed
  have f: "find (\<lambda>k. word_of_int h = (of_nat k :: cint)) supported_hidden = find (\<lambda>k. h = int k) supported_hidden"
    using eqs by (intro find_cong) auto
  show "SWITCH_HIDDEN brk h s = switch_hidden (word_of_int h) (\<lambda>kHidden. Inr (snd (brk (int kHidden) s)))"
    unfolding SWITCH_HIDDEN_def switch_on_break [OF assms(1)] switch_hidden_def f
    by (auto simp: supported_hidden_def host_assert_def)
qed (simp_all add: SWITCH_HIDDEN_def SWITCH_RANKS_def SWITCH_RDMA_RANKS_def SWITCH_TYPES_def switch_on_fall [OF assms(2)]
    switch_on_fall [OF assms(3)] del: switch_on.simps)

theorem launch_switches_witness:
  "SWITCH_HIDDEN (\<lambda>v s. (Break, v)) 7168 0 = switch_hidden (word_of_int 7168) (\<lambda>kHidden. Inr (int kHidden)) \<and>
   SWITCH_RANKS (\<lambda>v s. (Fall, v)) 4 0 = Inl (Assertion_failed ''Unsupported ranks'')"
  using launch_switches [of "\<lambda>v s. (Break, v)" "\<lambda>v s. (Fall, v)" "\<lambda>v s. (Fall, s)" 7168 0 4 CUDA_R_32F] by simp

end
