(* ===== verification/Kernel_Interface.thy ===== *)
theory Kernel_Interface
  imports Kernel_Launch
begin

text \<open>
  The arguments of the kernels, by position: the functions of \<^verbatim>\<open>include/ep_kernel.h\<close>, the \<^verbatim>\<open>extern "C"\<close>
  functions of \<^verbatim>\<open>src/ep_kernel.cu\<close> that forward to them, and the launches, which pass on some of the arguments
  and the counters in the workspace. Many arguments have the same type, so their order is all that keeps them
  apart. Pointers, the stream and the 64-bit time limit are words.
\<close>

section \<open>What a kernel is started with\<close>

record dispatch_args =
  da_packed_recv_x :: u64
  da_packed_recv_x_scales :: u64
  da_packed_recv_src_info :: u64
  da_packed_recv_layout_range :: u64
  da_packed_recv_count :: u64
  da_active_ranks :: u64
  da_mxa :: u64
  da_send_signals :: u64
  da_recv_signals :: u64
  da_send_data :: u64
  da_recv_data :: u64
  da_counter_buffer :: u64
  da_data_buffer :: u64
  da_raddrs :: u64
  da_rkeys :: u64
  da_qp_devctxs :: u64
  da_nvlink :: u64
  da_ipc_ptrs :: u64
  da_x :: u64
  da_topk_indices :: u64
  da_counter_per_expert :: u64
  da_finish_counter_per_expert :: u64
  da_next_clean :: u64
  da_tokens :: cint
  da_num_max :: cint
  da_topk :: cint
  da_experts :: cint
  da_r :: cint
  da_ranks :: cint
  da_timeout :: u64
  da_phases :: cint

record combine_args =
  ca_combined_x :: u64
  ca_active_ranks :: u64
  ca_mxa :: u64
  ca_send_signals :: u64
  ca_recv_signals :: u64
  ca_send_data :: u64
  ca_recv_data :: u64
  ca_counter_buffer :: u64
  ca_data_buffer :: u64
  ca_raddrs :: u64
  ca_rkeys :: u64
  ca_qp_devctxs :: u64
  ca_nvlink :: u64
  ca_ipc_ptrs :: u64
  ca_x :: u64
  ca_topk_indices :: u64
  ca_topk_weights :: u64
  ca_src_info :: u64
  ca_layout_range :: u64
  ca_next_clean :: u64
  ca_atomic_clean_flag :: u64
  ca_combined_tokens :: cint
  ca_hidden :: cint
  ca_topk :: cint
  ca_num_max :: cint
  ca_experts :: cint
  ca_r :: cint
  ca_ranks :: cint
  ca_timeout :: u64
  ca_phases :: cint
  ca_zero_copy :: bool

text \<open>The parameters of the kernel \<^verbatim>\<open>dispatch\<close>.\<close>

definition dispatch_kernel ::
  "u64 \<Rightarrow> u64 \<Rightarrow> u64 \<Rightarrow> u64 \<Rightarrow> u64 \<Rightarrow> u64 \<Rightarrow> u64 \<Rightarrow>
   u64 \<Rightarrow> u64 \<Rightarrow> u64 \<Rightarrow> u64 \<Rightarrow> u64 \<Rightarrow> u64 \<Rightarrow> u64 \<Rightarrow>
   u64 \<Rightarrow> u64 \<Rightarrow> u64 \<Rightarrow> u64 \<Rightarrow> u64 \<Rightarrow> u64 \<Rightarrow> u64 \<Rightarrow>
   u64 \<Rightarrow> u64 \<Rightarrow> cint \<Rightarrow> cint \<Rightarrow> cint \<Rightarrow> cint \<Rightarrow> cint
   \<Rightarrow> cint \<Rightarrow> u64 \<Rightarrow> cint \<Rightarrow> dispatch_args" where
  "dispatch_kernel packed_recv_x packed_recv_x_scales packed_recv_src_info packed_recv_layout_range packed_recv_count
    active_ranks mxa send_signals recv_signals send_data recv_data counter_buffer data_buffer raddrs rkeys qp_devctxs nvlink
    ipc_ptrs x topk_indices counter_per_expert finish_counter_per_expert next_clean tokens num_max topk experts r ranks timeout
    phases
     = \<lparr>da_packed_recv_x = packed_recv_x, da_packed_recv_x_scales = packed_recv_x_scales, da_packed_recv_src_info =
        packed_recv_src_info, da_packed_recv_layout_range = packed_recv_layout_range, da_packed_recv_count = packed_recv_count,
        da_active_ranks = active_ranks, da_mxa = mxa, da_send_signals = send_signals, da_recv_signals = recv_signals,
        da_send_data = send_data, da_recv_data = recv_data, da_counter_buffer = counter_buffer, da_data_buffer = data_buffer,
        da_raddrs = raddrs, da_rkeys = rkeys, da_qp_devctxs = qp_devctxs, da_nvlink = nvlink, da_ipc_ptrs = ipc_ptrs, da_x = x,
        da_topk_indices = topk_indices, da_counter_per_expert = counter_per_expert, da_finish_counter_per_expert =
        finish_counter_per_expert, da_next_clean = next_clean, da_tokens = tokens, da_num_max = num_max, da_topk = topk,
        da_experts = experts, da_r = r, da_ranks = ranks, da_timeout = timeout, da_phases = phases\<rparr>"

text \<open>The parameters of the kernel \<^verbatim>\<open>combine\<close>.\<close>

definition combine_kernel ::
  "u64 \<Rightarrow> u64 \<Rightarrow> u64 \<Rightarrow> u64 \<Rightarrow> u64 \<Rightarrow> u64 \<Rightarrow> u64 \<Rightarrow>
   u64 \<Rightarrow> u64 \<Rightarrow> u64 \<Rightarrow> u64 \<Rightarrow> u64 \<Rightarrow> u64 \<Rightarrow> u64 \<Rightarrow>
   u64 \<Rightarrow> u64 \<Rightarrow> u64 \<Rightarrow> u64 \<Rightarrow> u64 \<Rightarrow> u64 \<Rightarrow> u64 \<Rightarrow>
   cint \<Rightarrow> cint \<Rightarrow> cint \<Rightarrow> cint \<Rightarrow> cint \<Rightarrow> cint \<Rightarrow> cint
   \<Rightarrow> u64 \<Rightarrow> cint \<Rightarrow> bool \<Rightarrow> combine_args" where
  "combine_kernel combined_x active_ranks mxa send_signals recv_signals send_data recv_data counter_buffer data_buffer raddrs
    rkeys qp_devctxs nvlink ipc_ptrs x topk_indices topk_weights src_info layout_range next_clean atomic_clean_flag combined_tokens hidden
    topk num_max experts r ranks timeout phases zero_copy
     = \<lparr>ca_combined_x = combined_x, ca_active_ranks = active_ranks, ca_mxa = mxa, ca_send_signals = send_signals, ca_recv_signals
        = recv_signals, ca_send_data = send_data, ca_recv_data = recv_data, ca_counter_buffer = counter_buffer, ca_data_buffer =
        data_buffer, ca_raddrs = raddrs, ca_rkeys = rkeys, ca_qp_devctxs = qp_devctxs, ca_nvlink = nvlink, ca_ipc_ptrs =
        ipc_ptrs, ca_x = x, ca_topk_indices = topk_indices, ca_topk_weights = topk_weights, ca_src_info = src_info, ca_layout_range =
        layout_range, ca_next_clean = next_clean, ca_atomic_clean_flag = atomic_clean_flag, ca_combined_tokens = combined_tokens, ca_hidden =
        hidden, ca_topk = topk, ca_num_max = num_max, ca_experts = experts, ca_r = r, ca_ranks = ranks, ca_timeout = timeout,
        ca_phases = phases, ca_zero_copy = zero_copy\<rparr>"

section \<open>The host functions\<close>

definition ep_dispatch ::
  "(kernel_launch \<Rightarrow> int) \<Rightarrow> u64 \<Rightarrow> u64 \<Rightarrow> u64 \<Rightarrow> u64 \<Rightarrow> u64
   \<Rightarrow> u64 \<Rightarrow> u64 \<Rightarrow> u64 \<Rightarrow> u64 \<Rightarrow> u64 \<Rightarrow> u64 \<Rightarrow> u64
   \<Rightarrow> u64 \<Rightarrow> u64 \<Rightarrow> u64 \<Rightarrow> u64 \<Rightarrow> u64 \<Rightarrow> u64 \<Rightarrow> u64
   \<Rightarrow> u64 \<Rightarrow> u64 \<Rightarrow> cint \<Rightarrow> cint \<Rightarrow> cint \<Rightarrow> cint \<Rightarrow>
   cint \<Rightarrow> cint \<Rightarrow> cint \<Rightarrow> bool \<Rightarrow> u64 \<Rightarrow> u64 \<Rightarrow> u64
   \<Rightarrow> cint \<Rightarrow> host_error + kernel_launch \<times> dispatch_args" where
  "ep_dispatch cudaLaunchKernelEx packed_recv_x packed_recv_x_scales packed_recv_src_info packed_recv_layout_range
    packed_recv_count active_ranks mxa send_signals recv_signals send_data recv_data counter_buffer data_buffer raddrs rkeys
    qp_devctxs nvlink ipc_ptrs x topk_indices next_clean tokens hidden num_max topk experts r ranks use_fp8 workspace stream timeout
    phases =
     (case host_dispatch cudaLaunchKernelEx hidden topk experts use_fp8 workspace of
        Inl e \<Rightarrow> Inl e
      | Inr l \<Rightarrow> Inr (l, dispatch_kernel packed_recv_x packed_recv_x_scales packed_recv_src_info packed_recv_layout_range packed_recv_count
          active_ranks mxa send_signals recv_signals send_data recv_data counter_buffer data_buffer raddrs rkeys qp_devctxs
          nvlink ipc_ptrs x topk_indices workspace (workspace + 4 * scast experts) next_clean tokens num_max topk experts r ranks
          timeout phases))"

definition c_dispatch ::
  "(kernel_launch \<Rightarrow> int) \<Rightarrow> u64 \<Rightarrow> u64 \<Rightarrow> u64 \<Rightarrow> u64 \<Rightarrow> u64
   \<Rightarrow> u64 \<Rightarrow> u64 \<Rightarrow> u64 \<Rightarrow> u64 \<Rightarrow> u64 \<Rightarrow> u64 \<Rightarrow> u64
   \<Rightarrow> u64 \<Rightarrow> u64 \<Rightarrow> u64 \<Rightarrow> u64 \<Rightarrow> u64 \<Rightarrow> u64 \<Rightarrow> u64
   \<Rightarrow> u64 \<Rightarrow> u64 \<Rightarrow> cint \<Rightarrow> cint \<Rightarrow> cint \<Rightarrow> cint \<Rightarrow>
   cint \<Rightarrow> cint \<Rightarrow> cint \<Rightarrow> bool \<Rightarrow> u64 \<Rightarrow> u64 \<Rightarrow> u64
   \<Rightarrow> cint \<Rightarrow> host_error + kernel_launch \<times> dispatch_args" where
  "c_dispatch cudaLaunchKernelEx packed_recv_x packed_recv_x_scales packed_recv_src_info packed_recv_layout_range
    packed_recv_count active_ranks mxa send_signals recv_signals send_data recv_data counter_buffer data_buffer raddrs rkeys
    qp_devctxs nvlink ipc_ptrs x topk_indices next_clean tokens hidden num_max topk experts r ranks use_fp8 workspace stream timeout
    phases =
     ep_dispatch cudaLaunchKernelEx packed_recv_x packed_recv_x_scales packed_recv_src_info packed_recv_layout_range
       packed_recv_count active_ranks mxa send_signals recv_signals send_data recv_data counter_buffer data_buffer raddrs rkeys
       qp_devctxs nvlink ipc_ptrs x topk_indices next_clean tokens hidden num_max topk experts r ranks use_fp8 workspace stream
       timeout phases"

definition ep_combine ::
  "(kernel_launch \<Rightarrow> int) \<Rightarrow> u64 \<Rightarrow> u64 \<Rightarrow> u64 \<Rightarrow> u64 \<Rightarrow> u64
   \<Rightarrow> u64 \<Rightarrow> u64 \<Rightarrow> u64 \<Rightarrow> u64 \<Rightarrow> u64 \<Rightarrow> u64 \<Rightarrow> u64
   \<Rightarrow> u64 \<Rightarrow> u64 \<Rightarrow> u64 \<Rightarrow> u64 \<Rightarrow> u64 \<Rightarrow> u64 \<Rightarrow> u64
   \<Rightarrow> u64 \<Rightarrow> cint \<Rightarrow> cint \<Rightarrow> cint \<Rightarrow> cint \<Rightarrow> cint \<Rightarrow>
   cint \<Rightarrow> cint \<Rightarrow> u64 \<Rightarrow> u64 \<Rightarrow> u64 \<Rightarrow> cint \<Rightarrow> bool
   \<Rightarrow> host_error + kernel_launch \<times> combine_args" where
  "ep_combine cudaLaunchKernelEx combined_x active_ranks mxa send_signals recv_signals send_data recv_data counter_buffer
    data_buffer raddrs rkeys qp_devctxs nvlink ipc_ptrs x topk_indices topk_weights src_info layout_range next_clean combined_tokens
    hidden num_max topk experts r ranks workspace stream timeout phases zero_copy =
     (case host_combine cudaLaunchKernelEx hidden topk experts workspace of
        Inl e \<Rightarrow> Inl e
      | Inr l \<Rightarrow> Inr (l, combine_kernel combined_x active_ranks mxa send_signals recv_signals send_data recv_data counter_buffer data_buffer
          raddrs rkeys qp_devctxs nvlink ipc_ptrs x topk_indices topk_weights src_info layout_range next_clean workspace
          combined_tokens hidden topk num_max experts r ranks timeout phases zero_copy))"

definition c_combine ::
  "(kernel_launch \<Rightarrow> int) \<Rightarrow> u64 \<Rightarrow> u64 \<Rightarrow> u64 \<Rightarrow> u64 \<Rightarrow> u64
   \<Rightarrow> u64 \<Rightarrow> u64 \<Rightarrow> u64 \<Rightarrow> u64 \<Rightarrow> u64 \<Rightarrow> u64 \<Rightarrow> u64
   \<Rightarrow> u64 \<Rightarrow> u64 \<Rightarrow> u64 \<Rightarrow> u64 \<Rightarrow> u64 \<Rightarrow> u64 \<Rightarrow> u64
   \<Rightarrow> u64 \<Rightarrow> cint \<Rightarrow> cint \<Rightarrow> cint \<Rightarrow> cint \<Rightarrow> cint \<Rightarrow>
   cint \<Rightarrow> cint \<Rightarrow> u64 \<Rightarrow> u64 \<Rightarrow> u64 \<Rightarrow> cint \<Rightarrow> bool
   \<Rightarrow> host_error + kernel_launch \<times> combine_args" where
  "c_combine cudaLaunchKernelEx combined_x active_ranks mxa send_signals recv_signals send_data recv_data counter_buffer
    data_buffer raddrs rkeys qp_devctxs nvlink ipc_ptrs x topk_indices topk_weights src_info layout_range next_clean combined_tokens
    hidden num_max topk experts r ranks workspace stream timeout phases zero_copy =
     ep_combine cudaLaunchKernelEx combined_x active_ranks mxa send_signals recv_signals send_data recv_data counter_buffer
       data_buffer raddrs rkeys qp_devctxs nvlink ipc_ptrs x topk_indices topk_weights src_info layout_range next_clean
       combined_tokens hidden num_max topk experts r ranks workspace stream timeout phases zero_copy"
section \<open>Arguments reach the parameter of their name\<close>

lemma workspace_counters:
  assumes "host_dispatch cuda hidden topk experts use_fp8 workspace = Inr l" and "0 \<le> sint experts"
  shows "counter_ptrs l = [workspace, workspace + 4 * scast experts]" and "sint experts * 8 \<le> 33554432"
proof -
  show "counter_ptrs l = [workspace, workspace + 4 * scast experts]"
    using assms(1) by (auto simp: host_dispatch_def Let_def switch_hidden_Inr)
  have le: "scast experts * 4 * 2 \<le> NUM_WORKSPACE_BYTES"
    using assms(1) by (simp add: host_dispatch_def Let_def)
  have e: "sint experts < 2 ^ 31" using sint_lt [of experts] by simp
  have "uint (word_of_int k :: u64) = k" if "0 \<le> k" "k < 2 ^ 31" for k
    using that by (simp add: uint_word_of_int_eq take_bit_int_eq_self)
  from this [OF assms(2) e] have "uint (scast experts :: u64) = sint experts" by (simp only: scast_eq)
  then have "uint (scast experts * 4 * 2 :: u64) = sint experts * 8"
    using assms(2) e by (simp add: uint_word_ariths)
  then show "sint experts * 8 \<le> 33554432" using le by (simp add: word_le_def)
qed

lemma c_dispatch_passes:
  assumes "c_dispatch cuda packed_recv_x packed_recv_x_scales packed_recv_src_info packed_recv_layout_range packed_recv_count
      active_ranks mxa send_signals recv_signals send_data recv_data counter_buffer data_buffer raddrs rkeys qp_devctxs nvlink
      ipc_ptrs x topk_indices next_clean tokens hidden num_max topk experts r ranks use_fp8 workspace stream timeout phases = Inr (l, a)"
  shows "host_dispatch cuda hidden topk experts use_fp8 workspace = Inr l"
    and "da_tokens a = tokens \<and> da_num_max a = num_max \<and> da_topk a = topk \<and> da_experts a = experts \<and> da_r a = r \<and> da_ranks a = ranks"
    and "da_send_signals a = send_signals \<and> da_recv_signals a = recv_signals \<and> da_send_data a = send_data \<and> da_recv_data a = recv_data"
    and "da_raddrs a = raddrs \<and> da_rkeys a = rkeys \<and> da_qp_devctxs a = qp_devctxs \<and> da_nvlink a = nvlink \<and> da_ipc_ptrs a = ipc_ptrs"
    and "da_packed_recv_x a = packed_recv_x \<and> da_packed_recv_x_scales a = packed_recv_x_scales \<and>
      da_packed_recv_src_info a = packed_recv_src_info \<and> da_packed_recv_layout_range a = packed_recv_layout_range \<and>
      da_packed_recv_count a = packed_recv_count"
    and "da_active_ranks a = active_ranks \<and> da_mxa a = mxa \<and> da_x a = x \<and> da_topk_indices a = topk_indices \<and> da_next_clean a = next_clean \<and>
      da_timeout a = timeout \<and> da_phases a = phases"
    and "[da_counter_per_expert a, da_finish_counter_per_expert a] = [workspace, workspace + 4 * scast experts]"
  using assms by (auto simp: c_dispatch_def ep_dispatch_def dispatch_kernel_def split: sum.splits)

text \<open>The kernel of the combine takes the number of entries before the number of tokens, the host functions after it.\<close>

lemma c_combine_passes:
  assumes "c_combine cuda combined_x active_ranks mxa send_signals recv_signals send_data recv_data counter_buffer data_buffer
      raddrs rkeys qp_devctxs nvlink ipc_ptrs x topk_indices topk_weights src_info layout_range next_clean combined_tokens hidden
      num_max topk experts r ranks workspace stream timeout phases zero_copy = Inr (l, a)"
  shows "host_combine cuda hidden topk experts workspace = Inr l"
    and "ca_combined_tokens a = combined_tokens \<and> ca_num_max a = num_max \<and> ca_topk a = topk \<and> ca_hidden a = hidden \<and>
      ca_experts a = experts \<and> ca_r a = r \<and> ca_ranks a = ranks"
    and "ca_send_signals a = send_signals \<and> ca_recv_signals a = recv_signals \<and> ca_send_data a = send_data \<and> ca_recv_data a = recv_data"
    and "ca_raddrs a = raddrs \<and> ca_rkeys a = rkeys \<and> ca_qp_devctxs a = qp_devctxs \<and> ca_nvlink a = nvlink \<and> ca_ipc_ptrs a = ipc_ptrs"
    and "ca_combined_x a = combined_x \<and> ca_x a = x \<and> ca_topk_indices a = topk_indices \<and> ca_topk_weights a = topk_weights \<and>
      ca_src_info a = src_info \<and> ca_layout_range a = layout_range \<and> ca_next_clean a = next_clean"
    and "ca_active_ranks a = active_ranks \<and> ca_mxa a = mxa \<and> ca_timeout a = timeout \<and> ca_phases a = phases \<and> ca_zero_copy a = zero_copy"
    and "[ca_atomic_clean_flag a] = counter_ptrs l"
  using assms
  by (auto simp: c_combine_def ep_combine_def combine_kernel_def host_combine_def Let_def switch_hidden_Inr split: sum.splits)

text \<open>
  What the caller of the \<^verbatim>\<open>extern "C"\<close> function passes as numbers of tokens, experts and ranks is what the launched
  kernel works with, its instance is the one of the hidden size, and its counters lie in the workspace.
\<close>

lemma dispatch_launched:
  assumes "c_dispatch cuda packed_recv_x packed_recv_x_scales packed_recv_src_info packed_recv_layout_range packed_recv_count
      active_ranks mxa send_signals recv_signals send_data recv_data counter_buffer data_buffer raddrs rkeys qp_devctxs nvlink
      ipc_ptrs x topk_indices next_clean tokens hidden num_max topk experts r ranks use_fp8 workspace stream timeout phases = Inr (l, a)"
    and "0 \<le> sint experts"
  shows "\<exists>h\<in>set supported_hidden. hidden = of_nat h \<and> instance_of l = Dispatch_kernel use_fp8 h"
    and "[da_counter_per_expert a, da_finish_counter_per_expert a] = counter_ptrs l" and "sint (da_experts a) * 8 \<le> 33554432"
proof -
  note p = c_dispatch_passes [OF assms(1)]
  show "\<exists>h\<in>set supported_hidden. hidden = of_nat h \<and> instance_of l = Dispatch_kernel use_fp8 h"
    using p(1) by (auto simp: host_dispatch_def Let_def switch_hidden_Inr)
  show "[da_counter_per_expert a, da_finish_counter_per_expert a] = counter_ptrs l" "sint (da_experts a) * 8 \<le> 33554432"
    using workspace_counters [OF p(1) assms(2)] p(2,7) by simp_all
qed

end
