(* ===== verification/Packed_Output.thy ===== *)
theory Packed_Output
  imports Dispatch_Recv
begin

text \<open>
  Where the receive phase of the \<^verbatim>\<open>dispatch\<close> kernel reads the messages and stores the packed rows, their
  sources and their scales, and where the \<^verbatim>\<open>combine\<close> kernel reads them back. The indices are computed as in
  the source: products of \<^verbatim>\<open>int\<close>s first, widened where a \<^verbatim>\<open>size_t\<close> or a pointer is added.
\<close>

section \<open>Addresses\<close>

text \<open>\<^verbatim>\<open>rdma_recv_x_uint8 + i * num_bytes_per_msg\<close>, the slot of message \<open>i\<close> of a source rank.\<close>

definition recv_slot_ptr :: "u64 \<Rightarrow> cint \<Rightarrow> cint \<Rightarrow> cint \<Rightarrow> cint \<Rightarrow> cint \<Rightarrow> size_t \<Rightarrow> u64" where
  "recv_slot_ptr recv_data local_expert_idx ranks num_max src_rank i num_bytes =
     recv_data + scast (local_expert_idx * ranks * num_max) * num_bytes +
     scast (src_rank * num_max) * num_bytes + scast i * num_bytes"

text \<open>The indices into \<^verbatim>\<open>packed_recv_x\<close> (as \<^verbatim>\<open>int4\<close>), \<^verbatim>\<open>packed_recv_src_info\<close> and \<^verbatim>\<open>packed_recv_layout_range\<close>.\<close>

definition packed_x_idx :: "cint \<Rightarrow> cint \<Rightarrow> cint \<Rightarrow> cint \<Rightarrow> size_t \<Rightarrow> u64" where
  "packed_x_idx local_expert_idx ranks num_max row hidden_int4 =
     scast (local_expert_idx * ranks * num_max) * hidden_int4 + scast row * hidden_int4"

definition packed_src_info_idx :: "cint \<Rightarrow> cint \<Rightarrow> cint \<Rightarrow> cint \<Rightarrow> u64" where
  "packed_src_info_idx local_expert_idx ranks num_max row = scast (local_expert_idx * ranks * num_max) + scast row"

definition layout_range_idx :: "cint \<Rightarrow> cint \<Rightarrow> cint \<Rightarrow> u64" where
  "layout_range_idx local_expert_idx ranks r = scast (local_expert_idx * ranks) + scast r"

text \<open>The scales are stored by columns: scale \<open>s\<close> of a row is a stride away from scale \<open>s - 1\<close>.\<close>

definition packed_scale_idx :: "cint \<Rightarrow> cint \<Rightarrow> cint \<Rightarrow> cint \<Rightarrow> cint \<Rightarrow> cint \<Rightarrow> cint \<Rightarrow> u64" where
  "packed_scale_idx local_expert_idx ranks num_max scales begin_idx i s =
     scast (local_expert_idx * ranks * num_max * scales) + scast begin_idx + scast i + scast (s * (ranks * num_max))"

text \<open>What the combine reads for its row \<open>token_idx\<close>.\<close>

definition combine_x_idx :: "cint \<Rightarrow> cint \<Rightarrow> cint \<Rightarrow> cint \<Rightarrow> size_t \<Rightarrow> u64" where
  "combine_x_idx local_expert_idx ranks num_max token_idx hidden_bf16_int4 =
     scast (local_expert_idx * ranks * num_max) * hidden_bf16_int4 + scast token_idx * hidden_bf16_int4"

definition combine_src_info_idx :: "cint \<Rightarrow> cint \<Rightarrow> cint \<Rightarrow> cint \<Rightarrow> u64" where
  "combine_src_info_idx local_expert_idx ranks num_max token_idx =
     scast (local_expert_idx * ranks * num_max) + scast token_idx"

section \<open>The numbers behind them\<close>

lemma recv_slot_is_sent_slot: "recv_slot_ptr p l R M r i nb = dispatch_dst_ptr p l R M r i nb"
  by (simp add: recv_slot_ptr_def dispatch_dst_ptr_def)

text \<open>A row number of an expert, and the place of a scale in the column-major block of an expert.\<close>

definition row_no :: "nat \<Rightarrow> nat \<Rightarrow> nat \<Rightarrow> nat \<Rightarrow> nat" where
  "row_no R M l row = l * (R * M) + row"

definition scale_no :: "nat \<Rightarrow> nat \<Rightarrow> nat \<Rightarrow> nat \<Rightarrow> nat \<Rightarrow> nat \<Rightarrow> nat" where
  "scale_no R M S l row s = (l * S + s) * (R * M) + row"

lemma mixed_radix_bij: "bij_betw (\<lambda>(a, b). a * B + b) ({..<A} \<times> {..<B}) {..<A * B}" for A B :: nat
proof (rule bij_betwI')
  fix p q assume "p \<in> {..<A} \<times> {..<B}" "q \<in> {..<A} \<times> {..<B}"
  then show "((case p of (a, b) \<Rightarrow> a * B + b) = (case q of (a, b) \<Rightarrow> a * B + b)) = (p = q)" by (auto simp: mixed_radix_inj)
next
  fix n assume n: "n \<in> {..<A * B}"
  then have "0 < B" by (cases B) simp_all
  then have "n div B < A" "n mod B < B" "n = n div B * B + n mod B" using n by (simp_all add: less_mult_imp_div_less)
  then show "\<exists>p\<in>{..<A} \<times> {..<B}. n = (case p of (a, b) \<Rightarrow> a * B + b)" by (intro bexI [of _ "(n div B, n mod B)"]) auto
qed (auto simp: mixed_radix_less)

lemma mixed_radix_bij2:
  "bij_betw (\<lambda>((a, b), c). (a * B + b) * C + c) (({..<A} \<times> {..<B}) \<times> {..<C}) {..<A * B * C}" for A B C :: nat
proof -
  have "bij_betw (map_prod (\<lambda>(a, b). a * B + b) id) (({..<A} \<times> {..<B}) \<times> {..<C}) ({..<A * B} \<times> {..<C})"
    by (intro bij_betw_map_prod mixed_radix_bij) simp
  from bij_betw_trans [OF this mixed_radix_bij] show ?thesis by (simp add: comp_def map_prod_def case_prod_beta')
qed

lemma row_no_less: "l < L \<Longrightarrow> row < R * M \<Longrightarrow> row_no R M l row < L * (R * M)"
  by (simp add: row_no_def mixed_radix_less)

lemma scale_no_less: "l < L \<Longrightarrow> row < R * M \<Longrightarrow> s < S \<Longrightarrow> scale_no R M S l row s < L * S * (R * M)"
  by (simp add: scale_no_def mixed_radix_less)

lemma scale_no_inj:
  assumes "row < R * M" "row' < R * M" "s < S" "s' < S"
  shows "scale_no R M S l row s = scale_no R M S l' row' s' \<longleftrightarrow> l = l' \<and> row = row' \<and> s = s'"
  using assms by (auto simp: scale_no_def mixed_radix_inj)

lemma u64_of_nat: "n < 2 ^ 63 \<Longrightarrow> unat (of_nat n :: u64) = n"
  by (simp add: unat_of_nat)

lemma row_idx_nat:
  assumes "l < L" "row < R * M" "L * (R * M) < 2 ^ 31"
  shows "(scast (of_nat l * of_nat R * of_nat M :: cint) :: u64) + scast (of_nat row :: cint) = of_nat (row_no R M l row)"
    and "row_no R M l row < 2 ^ 31"
proof -
  have lt: "row_no R M l row < L * (R * M)" by (rule row_no_less [OF assms(1,2)])
  then show "row_no R M l row < 2 ^ 31" using assms(3) by simp
  then have b: "l * R * M < 2 ^ 31" "row < 2 ^ 31" by (simp_all add: row_no_def mult.assoc)
  have int: "(of_nat l * of_nat R * of_nat M :: cint) = of_nat (l * R * M)" by simp
  show "(scast (of_nat l * of_nat R * of_nat M :: cint) :: u64) + scast (of_nat row :: cint) = of_nat (row_no R M l row)"
    unfolding int scast_of_nat_int [OF b(1)] scast_of_nat_int [OF b(2)] by (simp add: row_no_def mult.assoc)
qed

lemma packed_src_info_idx_nat:
  assumes "l < L" "row < R * M" "L * (R * M) < 2 ^ 31"
  shows "unat (packed_src_info_idx (of_nat l) (of_nat R) (of_nat M) (of_nat row)) = row_no R M l row"
  unfolding packed_src_info_idx_def row_idx_nat(1) [OF assms] using row_idx_nat(2) [OF assms] by (simp add: u64_of_nat)

lemma packed_x_idx_nat:
  assumes "l < L" "row < R * M" "L * (R * M) < 2 ^ 31" "h < 2 ^ 31"
  shows "unat (packed_x_idx (of_nat l) (of_nat R) (of_nat M) (of_nat row) (of_nat h)) = row_no R M l row * h"
proof -
  have "packed_x_idx (of_nat l) (of_nat R) (of_nat M) (of_nat row) (of_nat h) = of_nat (row_no R M l row * h)"
    unfolding packed_x_idx_def distrib_right [symmetric] row_idx_nat(1) [OF assms(1-3)] by simp
  moreover have "row_no R M l row * h < 2 ^ 31 * 2 ^ 31"
    by (rule mult_strict_mono) (use row_idx_nat(2) [OF assms(1-3)] assms(4) in simp_all)
  ultimately show ?thesis by (simp add: u64_of_nat del: of_nat_mult)
qed

lemma packed_scale_idx_nat:
  assumes "l < L" "b + i < R * M" "s < S" "L * S * (R * M) < 2 ^ 31"
  shows "unat (packed_scale_idx (of_nat l) (of_nat R) (of_nat M) (of_nat S) (of_nat b) (of_nat i) (of_nat s)) =
    scale_no R M S l (b + i) s"
proof -
  have lt: "scale_no R M S l (b + i) s < 2 ^ 31" using scale_no_less [OF assms(1-3)] assms(4) by simp
  have parts: "scale_no R M S l (b + i) s = l * R * M * S + b + i + s * (R * M)" by (simp add: scale_no_def algebra_simps)
  have d: "l * R * M * S < 2 ^ 31" "b < 2 ^ 31" "i < 2 ^ 31" "s * (R * M) < 2 ^ 31" using lt unfolding parts by linarith+
  have ints: "(of_nat l * of_nat R * of_nat M * of_nat S :: cint) = of_nat (l * R * M * S)"
    "(of_nat s * (of_nat R * of_nat M) :: cint) = of_nat (s * (R * M))" by simp_all
  have "packed_scale_idx (of_nat l) (of_nat R) (of_nat M) (of_nat S) (of_nat b) (of_nat i) (of_nat s) =
      of_nat (scale_no R M S l (b + i) s)"
    unfolding packed_scale_idx_def ints scast_of_nat_int [OF d(1)] scast_of_nat_int [OF d(2)] scast_of_nat_int [OF d(3)]
      scast_of_nat_int [OF d(4)] parts by simp
  then show ?thesis using lt by (simp add: u64_of_nat)
qed

lemma layout_range_idx_nat:
  assumes "l < L" "r < R" "L * R < 2 ^ 31"
  shows "unat (layout_range_idx (of_nat l) (of_nat R) (of_nat r)) = l * R + r"
proof -
  have lt: "l * R + r < 2 ^ 31" using mixed_radix_less [OF assms(1,2)] assms(3) by simp
  then have b: "l * R < 2 ^ 31" "r < 2 ^ 31" by linarith+
  have int: "(of_nat l * of_nat R :: cint) = of_nat (l * R)" by simp
  have "layout_range_idx (of_nat l) (of_nat R) (of_nat r) = of_nat (l * R + r)"
    unfolding layout_range_idx_def int scast_of_nat_int [OF b(1)] scast_of_nat_int [OF b(2)] by simp
  then show ?thesis using lt by (simp add: u64_of_nat del: of_nat_mult of_nat_add)
qed

lemma combine_reads_packed:
  "combine_x_idx l R M i h = packed_x_idx l R M i h" "combine_src_info_idx l R M i = packed_src_info_idx l R M i"
  by (simp_all add: combine_x_idx_def packed_x_idx_def combine_src_info_idx_def packed_src_info_idx_def)

section \<open>Properties\<close>

text \<open>
  C23. Over the local experts, rows and scales the stores of the receive phase fill the outputs exactly: the
  indices of the vectors of the rows, of the source words, of the layout words and of the scales (stored by
  columns, and wherever the range of a row begins) are one-to-one onto the arrays; and the combine reads a row and
  its source word where the dispatch has stored them.
\<close>

theorem packed_output_fills:
  assumes "L * (R * M) < 2 ^ 31" and "L * S * (R * M) < 2 ^ 31" and "L * R < 2 ^ 31" and "h < 2 ^ 31" and "\<And>l row. begin_idx l row \<le> row"
  defines "x \<equiv> \<lambda>l row. unat (packed_x_idx (of_nat l) (of_nat R) (of_nat M) (of_nat row) (of_nat h))"
    and "src \<equiv> \<lambda>l row. unat (packed_src_info_idx (of_nat l) (of_nat R) (of_nat M) (of_nat row))"
    and "scale \<equiv> \<lambda>l row s. unat (packed_scale_idx (of_nat l) (of_nat R) (of_nat M) (of_nat S)
      (of_nat (begin_idx l row)) (of_nat (row - begin_idx l row)) (of_nat s))"
    and "lay \<equiv> \<lambda>l r. unat (layout_range_idx (of_nat l) (of_nat R) (of_nat r))"
  shows "bij_betw (\<lambda>((l, row), v). x l row + v) (({..<L} \<times> {..<R * M}) \<times> {..<h}) {..<L * (R * M) * h} \<and>
    bij_betw (\<lambda>(l, row). src l row) ({..<L} \<times> {..<R * M}) {..<L * (R * M)} \<and>
    bij_betw (\<lambda>((l, s), row). scale l row s) (({..<L} \<times> {..<S}) \<times> {..<R * M}) {..<L * S * (R * M)} \<and>
    bij_betw (\<lambda>(l, r). lay l r) ({..<L} \<times> {..<R}) {..<L * R} \<and>
    (\<forall>l<L. \<forall>row<R * M.
       unat (combine_x_idx (of_nat l) (of_nat R) (of_nat M) (of_nat row) (of_nat h)) = x l row \<and>
       unat (combine_src_info_idx (of_nat l) (of_nat R) (of_nat M) (of_nat row)) = src l row)"
proof (intro conjI allI impI)
  have x: "x l row = (l * (R * M) + row) * h" if "l < L" "row < R * M" for l row
    using packed_x_idx_nat [OF that assms(1,4)] by (simp add: x_def row_no_def)
  have "bij_betw (\<lambda>((l, row), v). x l row + v) (({..<L} \<times> {..<R * M}) \<times> {..<h}) {..<L * (R * M) * h} \<longleftrightarrow>
      bij_betw (\<lambda>((l, row), v). (l * (R * M) + row) * h + v) (({..<L} \<times> {..<R * M}) \<times> {..<h}) {..<L * (R * M) * h}"
    by (intro bij_betw_cong) (auto simp: x)
  then show "bij_betw (\<lambda>((l, row), v). x l row + v) (({..<L} \<times> {..<R * M}) \<times> {..<h}) {..<L * (R * M) * h}"
    using mixed_radix_bij2 by blast
  have src: "src l row = l * (R * M) + row" if "l < L" "row < R * M" for l row
    using packed_src_info_idx_nat [OF that assms(1)] by (simp add: src_def row_no_def)
  then have "bij_betw (\<lambda>(l, row). src l row) ({..<L} \<times> {..<R * M}) {..<L * (R * M)} \<longleftrightarrow>
      bij_betw (\<lambda>(l, row). l * (R * M) + row) ({..<L} \<times> {..<R * M}) {..<L * (R * M)}"
    by (intro bij_betw_cong) auto
  then show "bij_betw (\<lambda>(l, row). src l row) ({..<L} \<times> {..<R * M}) {..<L * (R * M)}" using mixed_radix_bij by simp
  have sc: "scale l row s = (l * S + s) * (R * M) + row" if "l < L" "row < R * M" "s < S" for l row s
    using packed_scale_idx_nat [of l L "begin_idx l row" "row - begin_idx l row" R M s S] that assms(2,5)
    by (simp add: scale_def scale_no_def)
  have "bij_betw (\<lambda>((l, s), row). scale l row s) (({..<L} \<times> {..<S}) \<times> {..<R * M}) {..<L * S * (R * M)} \<longleftrightarrow>
      bij_betw (\<lambda>((l, s), row). (l * S + s) * (R * M) + row) (({..<L} \<times> {..<S}) \<times> {..<R * M}) {..<L * S * (R * M)}"
    by (intro bij_betw_cong) (auto simp: sc)
  then show "bij_betw (\<lambda>((l, s), row). scale l row s) (({..<L} \<times> {..<S}) \<times> {..<R * M}) {..<L * S * (R * M)}"
    using mixed_radix_bij2 by blast
  have "bij_betw (\<lambda>(l, r). lay l r) ({..<L} \<times> {..<R}) {..<L * R} \<longleftrightarrow>
      bij_betw (\<lambda>(l, r). l * R + r) ({..<L} \<times> {..<R}) {..<L * R}"
    by (intro bij_betw_cong) (auto simp: lay_def layout_range_idx_nat [OF _ _ assms(3)])
  then show "bij_betw (\<lambda>(l, r). lay l r) ({..<L} \<times> {..<R}) {..<L * R}" using mixed_radix_bij by simp
  fix l row
  show "unat (combine_x_idx (of_nat l) (of_nat R) (of_nat M) (of_nat row) (of_nat h)) = x l row"
    "unat (combine_src_info_idx (of_nat l) (of_nat R) (of_nat M) (of_nat row)) = src l row"
    by (simp_all add: combine_reads_packed x_def src_def)
qed

text \<open>Four local experts, 8 ranks with 128 rows each, and the 56 scales of a row of 7168 elements.\<close>

theorem packed_output_fills_witness:
  "bij_betw (\<lambda>((l, row), v). unat (packed_x_idx (of_nat l) 8 128 (of_nat row) 448) + v)
     (({..<4::nat} \<times> {..<1024::nat}) \<times> {..<448::nat}) {..<1835008} \<and>
   unat (combine_x_idx 3 8 128 1023 448) = unat (packed_x_idx 3 8 128 1023 448)"
proof -
  note fills = packed_output_fills [of 4 8 128 56 448 "\<lambda>l row. row - row mod 2"]
  have "bij_betw (\<lambda>((l, row), v). unat (packed_x_idx (of_nat l) (of_nat 8) (of_nat 128) (of_nat row) (of_nat 448)) + v)
      (({..<4} \<times> {..<8 * 128}) \<times> {..<448}) {..<4 * (8 * 128) * 448}"
    by (rule fills [THEN conjunct1]) simp_all
  moreover have "\<forall>l<4. \<forall>row<8 * 128.
      unat (combine_x_idx (of_nat l) (of_nat 8) (of_nat 128) (of_nat row) (of_nat 448)) =
        unat (packed_x_idx (of_nat l) (of_nat 8) (of_nat 128) (of_nat row) (of_nat 448)) \<and>
      unat (combine_src_info_idx (of_nat l) (of_nat 8) (of_nat 128) (of_nat row)) =
        unat (packed_src_info_idx (of_nat l) (of_nat 8) (of_nat 128) (of_nat row))"
    by (rule fills [THEN conjunct2, THEN conjunct2, THEN conjunct2, THEN conjunct2]) simp_all
  from this [rule_format, of 3 1023] have "unat (combine_x_idx 3 8 128 1023 448) = unat (packed_x_idx 3 8 128 1023 448)" by simp
  ultimately show ?thesis by simp
qed

end
