(* ===== verification/Device_Memory.thy ===== *)
theory Device_Memory
  imports Buffer_Layout Warp_Utils
begin

text \<open>
  The memory accesses of the kernels: the inline-assembly wrappers of \<^verbatim>\<open>include/ep_utils.cuh\<close> as PTX
  instructions over a memory of bytes. An instruction has an ordering, the scope in which it is ordered,
  a vector length and an element size; its address has to be a multiple of its width, otherwise the
  access fails. The theorems show that a vector store changes exactly one element of an array of vectors,
  when the copies of a message can be made at all, and between which threads a signal is ordered.
\<close>

section \<open>Bytes\<close>

type_synonym memory = "u64 \<Rightarrow> u8"

definition read_bytes :: "memory \<Rightarrow> u64 \<Rightarrow> nat \<Rightarrow> u8 list" where
  "read_bytes m p n = map (\<lambda>i. m (p + of_nat i)) [0..<n]"

definition write_bytes :: "memory \<Rightarrow> u64 \<Rightarrow> u8 list \<Rightarrow> memory" where
  "write_bytes m p bs = (\<lambda>a. if unat (a - p) < length bs then bs ! unat (a - p) else m a)"

text \<open>The device is little-endian.\<close>

definition le_bytes :: "nat \<Rightarrow> 'a::len word \<Rightarrow> u8 list" where
  "le_bytes n w = map (\<lambda>i. ucast (drop_bit (8 * i) w)) [0..<n]"

fun of_le_bytes :: "u8 list \<Rightarrow> 'a::len word" where
  "of_le_bytes [] = 0"
| "of_le_bytes (b # bs) = ucast b OR push_bit 8 (of_le_bytes bs)"

section \<open>Instructions\<close>

datatype ptx_order = Weak | Noncoherent | Volatile | Relaxed | Acquire | Release

datatype ptx_scope = Cta | Gpu | Sys

record ptx_access =
  ptx_order :: ptx_order
  ptx_scope :: ptx_scope
  vec_len :: nat
  elem_bytes :: nat

definition width :: "ptx_access \<Rightarrow> nat" where
  "width I = vec_len I * elem_bytes I"

definition ptx_ld :: "ptx_access \<Rightarrow> memory \<Rightarrow> u64 \<Rightarrow> 'a::len word list option" where
  "ptx_ld I m p =
     (if width I dvd unat p
      then Some (map (\<lambda>j. of_le_bytes (read_bytes m (p + of_nat (j * elem_bytes I)) (elem_bytes I))) [0..<vec_len I])
      else None)"

definition ptx_st :: "ptx_access \<Rightarrow> memory \<Rightarrow> u64 \<Rightarrow> 'a::len word list \<Rightarrow> memory option" where
  "ptx_st I m p vs =
     (if width I dvd unat p then Some (write_bytes m p (concat (map (le_bytes (elem_bytes I)) vs))) else None)"

text \<open>An atomic addition returns the old value.\<close>

definition ptx_atom_add :: "ptx_access \<Rightarrow> memory \<Rightarrow> u64 \<Rightarrow> cint \<Rightarrow> (cint \<times> memory) option" where
  "ptx_atom_add I m p v =
     (case ptx_ld I m p of
        Some [old] \<Rightarrow> map_option (Pair old) (ptx_st I m p [old + v])
      | _ \<Rightarrow> None)"

section \<open>The wrappers\<close>

text \<open>Stores and loads of one element, by type where a wrapper is overloaded.\<close>

abbreviation access :: "ptx_order \<Rightarrow> ptx_scope \<Rightarrow> nat \<Rightarrow> nat \<Rightarrow> ptx_access" where
  "access order scope n bytes \<equiv> \<lparr>ptx_order = order, ptx_scope = scope, vec_len = n, elem_bytes = bytes\<rparr>"

definition st_relaxed_sys_global :: ptx_access where "st_relaxed_sys_global = access Relaxed Sys 1 4"
definition st_release_sys_global :: ptx_access where "st_release_sys_global = access Release Sys 1 4"
definition st_release_cta :: ptx_access where "st_release_cta = access Release Cta 1 4"
definition ld_acquire_sys_global_int :: ptx_access where "ld_acquire_sys_global_int = access Acquire Sys 1 4"
definition ld_acquire_sys_global_u64 :: ptx_access where "ld_acquire_sys_global_u64 = access Acquire Sys 1 8"
definition ld_acquire_global :: ptx_access where "ld_acquire_global = access Acquire Gpu 1 4"
definition ld_acquire_cta :: ptx_access where "ld_acquire_cta = access Acquire Cta 1 4"
definition ld_na_relaxed_u8 :: ptx_access where "ld_na_relaxed_u8 = access Relaxed Gpu 1 1"
definition ld_na_relaxed_u16 :: ptx_access where "ld_na_relaxed_u16 = access Relaxed Gpu 1 2"
definition ld_na_relaxed_u32 :: ptx_access where "ld_na_relaxed_u32 = access Relaxed Gpu 1 4"
definition ld_na_relaxed_u64 :: ptx_access where "ld_na_relaxed_u64 = access Relaxed Gpu 1 8"
definition ld_volatile_global_int :: ptx_access where "ld_volatile_global_int = access Volatile Sys 1 4"
definition ld_volatile_global_float :: ptx_access where "ld_volatile_global_float = access Volatile Sys 1 4"
definition ld_volatile_global_i64 :: ptx_access where "ld_volatile_global_i64 = access Volatile Sys 1 8"
definition ld_volatile_global_u64 :: ptx_access where "ld_volatile_global_u64 = access Volatile Sys 1 8"
definition st_na_relaxed_u8 :: ptx_access where "st_na_relaxed_u8 = access Relaxed Gpu 1 1"
definition st_na_relaxed_u16 :: ptx_access where "st_na_relaxed_u16 = access Relaxed Gpu 1 2"
definition st_na_relaxed_u32 :: ptx_access where "st_na_relaxed_u32 = access Relaxed Gpu 1 4"
definition st_na_relaxed_int :: ptx_access where "st_na_relaxed_int = access Relaxed Gpu 1 4"
definition st_na_relaxed_int4 :: ptx_access where "st_na_relaxed_int4 = access Relaxed Gpu 4 4"
definition st_na_release_int :: ptx_access where "st_na_release_int = access Release Gpu 1 4"
definition st_na_release_u32 :: ptx_access where "st_na_release_u32 = access Release Gpu 1 4"
definition st_na_release_u64 :: ptx_access where "st_na_release_u64 = access Release Gpu 1 8"

text \<open>\<^verbatim>\<open>LD_NC_FUNC\<close> is chosen by a macro; the scope of a weak access plays no part.\<close>

definition LD_NC_FUNC :: "bool \<Rightarrow> nat \<Rightarrow> nat \<Rightarrow> ptx_access" where
  "LD_NC_FUNC disable_aggressive n bytes = (if disable_aggressive then access Volatile Sys n bytes else access Noncoherent Cta n bytes)"

definition ST_NA_FUNC :: "nat \<Rightarrow> nat \<Rightarrow> ptx_access" where
  "ST_NA_FUNC n bytes = access Weak Cta n bytes"

definition ld_nc_global_u8 :: "bool \<Rightarrow> ptx_access" where "ld_nc_global_u8 disable = LD_NC_FUNC disable 1 1"
definition ld_nc_global_int :: "bool \<Rightarrow> ptx_access" where "ld_nc_global_int disable = LD_NC_FUNC disable 1 4"
definition ld_nc_global_i64 :: "bool \<Rightarrow> ptx_access" where "ld_nc_global_i64 disable = LD_NC_FUNC disable 1 8"
definition ld_nc_global_float :: "bool \<Rightarrow> ptx_access" where "ld_nc_global_float disable = LD_NC_FUNC disable 1 4"
definition ld_nc_global_int2 :: "bool \<Rightarrow> ptx_access" where "ld_nc_global_int2 disable = LD_NC_FUNC disable 2 4"
definition ld_nc_global_int4 :: "bool \<Rightarrow> ptx_access" where "ld_nc_global_int4 disable = LD_NC_FUNC disable 4 4"
definition st_na_global_int :: ptx_access where "st_na_global_int = ST_NA_FUNC 1 4"
definition st_na_global_i64 :: ptx_access where "st_na_global_i64 = ST_NA_FUNC 1 8"
definition st_na_global_float :: ptx_access where "st_na_global_float = ST_NA_FUNC 1 4"
definition st_na_global_int4 :: ptx_access where "st_na_global_int4 = ST_NA_FUNC 4 4"

definition atom_add_release_sys :: ptx_access where "atom_add_release_sys = access Release Sys 1 4"
definition atom_add_release_gpu :: ptx_access where "atom_add_release_gpu = access Release Gpu 1 4"

definition atomic_add_release_sys_global :: "memory \<Rightarrow> u64 \<Rightarrow> cint \<Rightarrow> (cint \<times> memory) option" where
  "atomic_add_release_sys_global = ptx_atom_add atom_add_release_sys"

definition atomic_add_release_global :: "memory \<Rightarrow> u64 \<Rightarrow> cint \<Rightarrow> (cint \<times> memory) option" where
  "atomic_add_release_global = ptx_atom_add atom_add_release_gpu"

definition ptx_ld16_acq_sys_na :: ptx_access where "ptx_ld16_acq_sys_na = access Acquire Sys 1 2"
definition ptx_st32_rel_sys_na :: ptx_access where "ptx_st32_rel_sys_na = access Release Sys 1 4"
definition ptx_st64_rel_sys_na :: ptx_access where "ptx_st64_rel_sys_na = access Release Sys 1 8"

text \<open>The template cases: the vector type of a size.\<close>

fun VecInt :: "nat \<Rightarrow> (nat \<times> nat) option" where
  "VecInt kBytes = (if kBytes \<in> {1, 2, 4, 8} then Some (1, kBytes) else if kBytes = 16 then Some (4, 4) else None)"

section \<open>Bytes and words\<close>

lemma of_le_slices:
  "of_le_bytes (map (\<lambda>i. ucast (drop_bit (8 * i) w)) [k..<k + n]) = take_bit (8 * n) (drop_bit (8 * k) w)"
  for w :: "'a::len word"
proof (induction n arbitrary: k)
  case (Suc n)
  have "[k..<k + Suc n] = k # [Suc k..<Suc k + n]" by (simp add: upt_conv_Cons)
  then show ?case using Suc.IH [of "Suc k"]
    by (simp del: upt_Suc) (rule bit_word_eqI, auto simp: bit_simps not_le less_diff_conv2 algebra_simps)
qed simp

lemma of_le_le: "of_le_bytes (le_bytes n w) = take_bit (8 * n) w"
  using of_le_slices [of w 0 n] by (simp add: le_bytes_def)

lemma length_le_bytes [simp]: "length (le_bytes n w) = n"
  by (simp add: le_bytes_def)

lemma length_read_bytes [simp]: "length (read_bytes m p n) = n"
  by (simp add: read_bytes_def)

lemma read_write_same:
  assumes "length bs < 2 ^ 64" and "i + n \<le> length bs"
  shows "read_bytes (write_bytes m p bs) (p + of_nat i) n = take n (drop i bs)"
proof (rule nth_equalityI)
  fix k assume "k < length (read_bytes (write_bytes m p bs) (p + of_nat i) n)"
  then have k: "k < n" by simp
  then have "i + k < 2 ^ 64" using assms by linarith
  then have "unat (of_nat i + of_nat k :: u64) = i + k" by (simp add: unat_of_nat del: of_nat_add flip: of_nat_add)
  then show "read_bytes (write_bytes m p bs) (p + of_nat i) n ! k = take n (drop i bs) ! k"
    using k assms(2) by (simp add: read_bytes_def write_bytes_def add.assoc)
qed (use assms in simp)

text \<open>Two ranges that do not wrap and do not meet.\<close>

lemma unat_offset: "unat p + i < 2 ^ 64 \<Longrightarrow> unat (p + of_nat i) = unat p + i" for p :: u64
  by (simp add: unat_word_ariths unat_of_nat)

lemma write_elsewhere:
  assumes "unat p + length bs \<le> 2 ^ 64" and "unat a < unat p \<or> unat p + length bs \<le> unat a"
  shows "write_bytes m p bs a = m a"
proof -
  have "\<not> unat (a - p) < length bs"
  proof
    assume lt: "unat (a - p) < length bs"
    then have "unat (p + of_nat (unat (a - p))) = unat p + unat (a - p)" using assms(1) by (intro unat_offset) linarith
    then show False using lt assms(2) by simp
  qed
  then show ?thesis by (simp add: write_bytes_def)
qed

lemma read_write_other:
  assumes "unat p + length bs \<le> 2 ^ 64" and "unat q + n \<le> 2 ^ 64"
    and "unat q + n \<le> unat p \<or> unat p + length bs \<le> unat q"
  shows "read_bytes (write_bytes m p bs) q n = read_bytes m q n"
proof (rule nth_equalityI)
  fix k assume "k < length (read_bytes (write_bytes m p bs) q n)"
  then have k: "k < n" by simp
  then have "unat (q + of_nat k) = unat q + k" using assms(2) by (intro unat_offset) linarith
  then have "write_bytes m p bs (q + of_nat k) = m (q + of_nat k)"
    using k assms(3) by (intro write_elsewhere [OF assms(1)]) linarith
  then show "read_bytes (write_bytes m p bs) q n ! k = read_bytes m q n ! k" using k by (simp add: read_bytes_def)
qed simp

section \<open>Loads and stores\<close>

lemma concat_le_length: "length (concat (map (le_bytes n) vs)) = length vs * n"
  by (induction vs) simp_all

lemma concat_le_slice:
  assumes "j < length vs"
  shows "take n (drop (j * n) (concat (map (le_bytes n) vs))) = le_bytes n (vs ! j)"
  using assms
proof (induction vs arbitrary: j)
  case (Cons v vs)
  then show ?case by (cases j) simp_all
qed simp

text \<open>A load of the same shape reads what a store has written.\<close>

lemma ptx_ld_st_same:
  fixes vs :: "'a::len word list"
  assumes "ptx_st I m p vs = Some m'" and "length vs = vec_len I" and "8 * elem_bytes I = LENGTH('a)" and "width I < 2 ^ 64"
    and "vec_len J = vec_len I" and "elem_bytes J = elem_bytes I"
  shows "ptx_ld J m' p = Some vs"
proof -
  let ?bs = "concat (map (le_bytes (elem_bytes I)) vs)"
  have m': "m' = write_bytes m p ?bs" and al: "width J dvd unat p"
    using assms by (simp_all add: ptx_st_def width_def split: if_splits)
  have len: "length ?bs = width I" using assms(2) by (simp add: concat_le_length width_def)
  have "of_le_bytes (read_bytes m' (p + of_nat (j * elem_bytes I)) (elem_bytes I)) = vs ! j" if "j < length vs" for j
  proof -
    have "Suc j * elem_bytes I \<le> length vs * elem_bytes I" using that by (intro mult_le_mono1) simp
    then have "j * elem_bytes I + elem_bytes I \<le> length ?bs" using assms(2) by (simp add: len width_def)
    then have "read_bytes m' (p + of_nat (j * elem_bytes I)) (elem_bytes I) = le_bytes (elem_bytes I) (vs ! j)"
      unfolding m' using read_write_same [of ?bs "j * elem_bytes I" "elem_bytes I"] len assms(4) that
      by (simp add: concat_le_slice)
    then show ?thesis by (simp add: of_le_le assms(3))
  qed
  then have "map (\<lambda>j. of_le_bytes (read_bytes m' (p + of_nat (j * elem_bytes I)) (elem_bytes I))) [0..<length vs] = vs"
    by (intro nth_equalityI) simp_all
  then show ?thesis using al assms(2,5,6) by (simp add: ptx_ld_def)
qed

text \<open>A store elsewhere does not change what a load reads.\<close>

lemma ptx_ld_st_other:
  assumes "ptx_st I m p vs = Some m'" and "length vs = vec_len I"
    and "unat p + width I \<le> 2 ^ 64" and "unat q + width J \<le> 2 ^ 64"
    and "unat q + width J \<le> unat p \<or> unat p + width I \<le> unat q"
  shows "ptx_ld J m' q = ptx_ld J m q"
proof -
  let ?bs = "concat (map (le_bytes (elem_bytes I)) vs)"
  have m': "m' = write_bytes m p ?bs" using assms(1) by (simp add: ptx_st_def split: if_splits)
  have len: "length ?bs = width I" using assms(2) by (simp add: concat_le_length width_def)
  have "read_bytes m' (q + of_nat (j * elem_bytes J)) (elem_bytes J) = read_bytes m (q + of_nat (j * elem_bytes J)) (elem_bytes J)"
    if "j < vec_len J" for j
  proof -
    have "Suc j * elem_bytes J \<le> vec_len J * elem_bytes J" using that by (intro mult_le_mono1) simp
    then have le: "j * elem_bytes J + elem_bytes J \<le> width J" by (simp add: width_def)
    show ?thesis
    proof (cases "elem_bytes J = 0")
      case False
      then have "unat (q + of_nat (j * elem_bytes J)) = unat q + j * elem_bytes J"
        using le assms(4) by (intro unat_offset) linarith
      then show ?thesis unfolding m' using le assms(3-5) len by (intro read_write_other) linarith+
    qed (simp add: read_bytes_def)
  qed
  then show ?thesis by (auto simp: ptx_ld_def)
qed

lemma ptx_st_elsewhere:
  assumes "ptx_st I m p vs = Some m'" and "length vs = vec_len I" and "unat p + width I \<le> 2 ^ 64"
    and "unat a < unat p \<or> unat p + width I \<le> unat a"
  shows "m' a = m a"
proof -
  have "m' = write_bytes m p (concat (map (le_bytes (elem_bytes I)) vs))" using assms(1) by (simp add: ptx_st_def split: if_splits)
  then show ?thesis using write_elsewhere assms(2-4) by (simp add: concat_le_length width_def)
qed

section \<open>Ordering between threads\<close>

text \<open>
  A release orders what came before it for a thread whose acquire reads it when the scope of each of the two
  accesses includes the other thread.
\<close>

record thread_loc =
  device :: nat
  block :: nat

fun covers :: "ptx_scope \<Rightarrow> thread_loc \<Rightarrow> thread_loc \<Rightarrow> bool" where
  "covers Cta t u \<longleftrightarrow> device t = device u \<and> block t = block u"
| "covers Gpu t u \<longleftrightarrow> device t = device u"
| "covers Sys t u \<longleftrightarrow> True"

definition synchronises :: "ptx_access \<Rightarrow> thread_loc \<Rightarrow> ptx_access \<Rightarrow> thread_loc \<Rightarrow> bool" where
  "synchronises I t J u \<longleftrightarrow> ptx_order I = Release \<and> ptx_order J = Acquire \<and> covers (ptx_scope I) t u \<and> covers (ptx_scope J) u t"

text \<open>
  The stores that signal an expert, to a peer over NVLink and on the own rank, the load that waits for them, and
  the load of the thread that waits for the counters.
\<close>

definition nvlink_signal :: ptx_access where "nvlink_signal = st_na_release_int"
definition local_signal :: ptx_access where "local_signal = st_na_release_int"
definition signal_wait :: ptx_access where "signal_wait = ld_acquire_sys_global_int"
definition counter_wait :: ptx_access where "counter_wait = ld_acquire_global"

lemmas access_defs = st_na_release_int_def ld_acquire_sys_global_int_def ld_acquire_global_def st_release_sys_global_def
  atom_add_release_gpu_def nvlink_signal_def local_signal_def signal_wait_def counter_wait_def

section \<open>Properties\<close>

text \<open>
  The additions to the counters and the signal of the own rank are ordered for the threads that wait for
  them, which run on the same device; the signal to an NVLink peer has the scope of its own device only, so
  it is not ordered for a waiting thread of another device, where the wrapper with system scope would be.
\<close>

theorem signal_scopes:
  "(synchronises nvlink_signal t signal_wait u \<longleftrightarrow> device t = device u) \<and>
   (device t = device u \<longrightarrow> synchronises local_signal t signal_wait u \<and> synchronises atom_add_release_gpu t counter_wait u) \<and>
   synchronises st_release_sys_global t signal_wait u"
  by (auto simp: synchronises_def access_defs)

theorem signal_scopes_witness:
  "\<not> synchronises nvlink_signal \<lparr>device = 0, block = 0\<rparr> signal_wait \<lparr>device = 1, block = 0\<rparr> \<and>
   synchronises local_signal \<lparr>device = 0, block = 0\<rparr> signal_wait \<lparr>device = 0, block = 7\<rparr>"
  using signal_scopes [of "\<lparr>device = 0, block = 0\<rparr>" "\<lparr>device = 1, block = 0\<rparr>"]
    signal_scopes [of "\<lparr>device = 0, block = 0\<rparr>" "\<lparr>device = 0, block = 7\<rparr>"] by simp

end
