(* ===== verification/Memory_Copy.thy ===== *)
theory Memory_Copy
  imports Device_Memory
begin

text \<open>
  \<^verbatim>\<open>UNROLLED_WARP_COPY\<close> of \<^verbatim>\<open>include/ep_utils.cuh\<close> with the loads and stores the kernels pass to it, over a
  memory of bytes: \<^verbatim>\<open>ld_nc_global\<close> and \<^verbatim>\<open>st_na_global\<close> of \<^verbatim>\<open>int4\<close>s. The copy refines the copy of arrays in
  \<^theory_text>\<open>Warp_Utils\<close>, and it can be made exactly when both addresses are multiples of 16.
\<close>

section \<open>The copy\<close>

text \<open>Element \<open>i\<close> of an \<^verbatim>\<open>int4*\<close>; \<open>disable\<close> is the macro that selects the load instruction.\<close>

definition ld_int4 :: "bool \<Rightarrow> memory \<Rightarrow> u64 \<Rightarrow> nat \<Rightarrow> cint list option" where
  "ld_int4 disable m p i = ptx_ld (ld_nc_global_int4 disable) m (p + of_nat (16 * i))"

definition st_int4 :: "memory \<Rightarrow> u64 \<Rightarrow> nat \<Rightarrow> cint list \<Rightarrow> memory option" where
  "st_int4 m p i v = ptx_st st_na_global_int4 m (p + of_nat (16 * i)) v"

fun st_unrolled :: "memory \<Rightarrow> u64 \<Rightarrow> (nat \<times> cint list) list \<Rightarrow> memory option" where
  "st_unrolled m dst [] = Some m"
| "st_unrolled m dst ((i, v) # sts) = (case st_int4 m dst i v of None \<Rightarrow> None | Some m' \<Rightarrow> st_unrolled m' dst sts)"

function mem_copy_main :: "bool \<Rightarrow> nat \<Rightarrow> nat \<Rightarrow> nat \<Rightarrow> u64 \<Rightarrow> u64 \<Rightarrow> memory \<Rightarrow> memory option" where
  "mem_copy_main disable unroll i lim dst src m =
     (if 0 < unroll \<and> i < lim then
        case those (map (\<lambda>j. ld_int4 disable m src (i + j * 32)) [0..<unroll]) of
          None \<Rightarrow> None
        | Some unrolled_values \<Rightarrow>
            (case st_unrolled m dst (map (\<lambda>j. (i + j * 32, unrolled_values ! j)) [0..<unroll]) of
               None \<Rightarrow> None
             | Some m' \<Rightarrow> mem_copy_main disable unroll (i + 32 * unroll) lim dst src m')
      else Some m)"
  by pat_completeness auto
termination
  by (relation "measure (\<lambda>(disable, unroll, i, lim, dst, src, m). lim - i)") auto

function mem_copy_tail :: "bool \<Rightarrow> nat \<Rightarrow> nat \<Rightarrow> u64 \<Rightarrow> u64 \<Rightarrow> memory \<Rightarrow> memory option" where
  "mem_copy_tail disable i n dst src m =
     (if i < n then
        case ld_int4 disable m src i of
          None \<Rightarrow> None
        | Some v \<Rightarrow> (case st_int4 m dst i v of None \<Rightarrow> None | Some m' \<Rightarrow> mem_copy_tail disable (i + 32) n dst src m')
      else Some m)"
  by pat_completeness auto
termination
  by (relation "measure (\<lambda>(disable, i, n, dst, src, m). n - i)") auto

declare mem_copy_main.simps [simp del] mem_copy_tail.simps [simp del]

definition mem_copy_lane :: "bool \<Rightarrow> nat \<Rightarrow> nat \<Rightarrow> nat \<Rightarrow> u64 \<Rightarrow> u64 \<Rightarrow> memory \<Rightarrow> memory option" where
  "mem_copy_lane disable unroll n lane dst src m =
     (let stride = 32 * unroll; lim = (n div stride) * stride
      in case mem_copy_main disable unroll lane lim dst src m of
           None \<Rightarrow> None
         | Some m' \<Rightarrow> mem_copy_tail disable (lim + lane) n dst src m')"

fun mem_warp_copy :: "nat list \<Rightarrow> bool \<Rightarrow> nat \<Rightarrow> nat \<Rightarrow> u64 \<Rightarrow> u64 \<Rightarrow> memory \<Rightarrow> memory option" where
  "mem_warp_copy [] disable unroll n dst src m = Some m"
| "mem_warp_copy (lane # lanes) disable unroll n dst src m =
     (case mem_copy_lane disable unroll n lane dst src m of
        None \<Rightarrow> None
      | Some m' \<Rightarrow> mem_warp_copy lanes disable unroll n dst src m')"

section \<open>Refinement of the copy of arrays\<close>

text \<open>Two arrays of \<open>n\<close> vectors that do not meet, do not wrap and start at multiples of 16.\<close>

definition regions_ok :: "u64 \<Rightarrow> u64 \<Rightarrow> nat \<Rightarrow> bool" where
  "regions_ok dst src n \<longleftrightarrow> 16 dvd unat dst \<and> 16 dvd unat src \<and>
     unat dst + 16 * n \<le> 2 ^ 64 \<and> unat src + 16 * n \<le> 2 ^ 64 \<and>
     (unat dst + 16 * n \<le> unat src \<or> unat src + 16 * n \<le> unat dst)"

text \<open>The memory behind the arrays \<open>f\<close> at the destination and \<open>s\<close> at the source; the rest is that of \<open>m0\<close>.\<close>

definition holds_arrays :: "bool \<Rightarrow> u64 \<Rightarrow> u64 \<Rightarrow> nat \<Rightarrow> memory \<Rightarrow> (nat \<Rightarrow> cint list) \<Rightarrow> (nat \<Rightarrow> cint list) \<Rightarrow> memory \<Rightarrow> bool" where
  "holds_arrays disable dst src n m0 s f m \<longleftrightarrow>
     (\<forall>k<n. ld_int4 disable m dst k = Some (f k)) \<and> (\<forall>k<n. ld_int4 disable m src k = Some (s k)) \<and>
     (\<forall>a. unat a < unat dst \<or> unat dst + 16 * n \<le> unat a \<longrightarrow> m a = m0 a)"

lemma nc_int4 [simp]: "vec_len (ld_nc_global_int4 d) = 4" "elem_bytes (ld_nc_global_int4 d) = 4" "width (ld_nc_global_int4 d) = 16"
  by (simp_all add: ld_nc_global_int4_def LD_NC_FUNC_def width_def)

lemma na_int4 [simp]: "vec_len st_na_global_int4 = 4" "elem_bytes st_na_global_int4 = 4" "width st_na_global_int4 = 16"
  by (simp_all add: st_na_global_int4_def ST_NA_FUNC_def width_def)

lemma elem_addr:
  fixes p :: u64
  assumes "unat p + 16 * n \<le> 2 ^ 64" and "i < n"
  shows "unat (p + of_nat (16 * i)) = unat p + 16 * i"
  using assms by (intro unat_offset) linarith

lemma ld_int4_length: "ld_int4 d m p i = Some v \<Longrightarrow> length v = 4"
  by (auto simp: ld_int4_def ptx_ld_def split: if_splits)

lemma holds_st:
  assumes ok: "regions_ok dst src n" and h: "holds_arrays d dst src n m0 s f m" and i: "i < n" and v: "length v = 4"
  shows "\<exists>m'. st_int4 m dst i v = Some m' \<and> holds_arrays d dst src n m0 s (f(i := v)) m'"
proof -
  let ?p = "dst + of_nat (16 * i)"
  have lim: "unat dst + 16 * n \<le> 2 ^ 64" "unat src + 16 * n \<le> 2 ^ 64" using ok by (simp_all add: regions_ok_def)
  have p: "unat ?p = unat dst + 16 * i" by (rule elem_addr [OF lim(1) i])
  have "16 dvd unat ?p" unfolding p using ok by (simp add: regions_ok_def)
  then obtain m' where st: "ptx_st st_na_global_int4 m ?p v = Some m'" by (simp add: ptx_st_def)
  have room: "unat ?p + width st_na_global_int4 \<le> 2 ^ 64" unfolding p using lim(1) i by simp
  have same: "ld_int4 d m' dst i = Some v"
    unfolding ld_int4_def by (rule ptx_ld_st_same [OF st]) (simp_all add: v)
  have other: "ld_int4 d m' q k = ld_int4 d m q k"
    if "unat q + 16 * n \<le> 2 ^ 64" "k < n" "unat q + 16 * k + 16 \<le> unat dst + 16 * i \<or> unat dst + 16 * i + 16 \<le> unat q + 16 * k" for q k
    unfolding ld_int4_def
    by (rule ptx_ld_st_other [OF st _ room]) (use that(2,3) v p elem_addr [OF that(1,2)] that(1) in simp_all)
  have "\<forall>k<n. ld_int4 d m' dst k = Some ((f(i := v)) k)"
  proof (intro allI impI)
    fix k assume k: "k < n"
    show "ld_int4 d m' dst k = Some ((f(i := v)) k)"
    proof (cases "k = i")
      case False
      then have "unat dst + 16 * k + 16 \<le> unat dst + 16 * i \<or> unat dst + 16 * i + 16 \<le> unat dst + 16 * k" by linarith
      then have "ld_int4 d m' dst k = ld_int4 d m dst k" by (rule other [OF lim(1) k])
      then show ?thesis using False h k by (simp add: holds_arrays_def)
    qed (simp add: same)
  qed
  moreover have "\<forall>k<n. ld_int4 d m' src k = Some (s k)"
  proof (intro allI impI)
    fix k assume k: "k < n"
    have "unat src + 16 * k + 16 \<le> unat dst + 16 * i \<or> unat dst + 16 * i + 16 \<le> unat src + 16 * k"
      using ok k i unfolding regions_ok_def by linarith
    then have "ld_int4 d m' src k = ld_int4 d m src k" by (rule other [OF lim(2) k])
    then show "ld_int4 d m' src k = Some (s k)" using h k by (simp add: holds_arrays_def)
  qed
  moreover have "m' a = m0 a" if a: "unat a < unat dst \<or> unat dst + 16 * n \<le> unat a" for a
  proof -
    have "unat a < unat ?p \<or> unat ?p + width st_na_global_int4 \<le> unat a" unfolding p using a i by auto
    then have "m' a = m a" using ptx_st_elsewhere [OF st _ room] v by simp
    moreover have "m a = m0 a" using h a unfolding holds_arrays_def by blast
    ultimately show ?thesis by simp
  qed
  ultimately show ?thesis using st by (simp add: holds_arrays_def st_int4_def)
qed

lemma holds_st_unrolled:
  assumes "regions_ok dst src n" and "holds_arrays d dst src n m0 s f m" and "\<forall>(i, v)\<in>set sts. i < n \<and> length v = 4"
  shows "\<exists>m'. st_unrolled m dst sts = Some m' \<and> holds_arrays d dst src n m0 s (store_all sts f) m'"
  using assms(2,3)
proof (induction sts arbitrary: m f)
  case (Cons st sts)
  obtain i v where st: "st = (i, v)" by (cases st)
  obtain m1 where "st_int4 m dst i v = Some m1" "holds_arrays d dst src n m0 s (f(i := v)) m1"
    using holds_st [OF assms(1) Cons.prems(1), of i v] Cons.prems(2) st by auto
  then show ?case using Cons.IH [OF \<open>holds_arrays d dst src n m0 s (f(i := v)) m1\<close>] Cons.prems(2) st
    by (simp del: fun_upd_apply)
qed simp

text \<open>A round of the main loop stays inside the part of whole strides.\<close>

lemma holds_main:
  assumes ok: "regions_ok dst src n" and h: "holds_arrays d dst src n m0 s f m" and u: "0 < unroll" "lane < 32"
    and lim: "lim = c * (32 * unroll)" "lim \<le> n" and i: "i = q * (32 * unroll) + lane"
  shows "\<exists>m'. mem_copy_main d unroll i lim dst src m = Some m' \<and> holds_arrays d dst src n m0 s (copy_main unroll i lim s f) m'"
  using h i
proof (induction "c - q" arbitrary: q i f m)
  case (Suc e)
  then have qc: "q < c" by simp
  then have "Suc q * (32 * unroll) \<le> c * (32 * unroll)" by (intro mult_le_mono1) simp
  then have top: "q * (32 * unroll) + 32 * unroll \<le> lim" using lim(1) by simp
  have il: "i < lim" using top Suc.prems(2) u by linarith
  have idx: "i + j * 32 < n" if "j < unroll" for j
  proof -
    have "Suc j * 32 \<le> unroll * 32" using that by (intro mult_le_mono1) simp
    then show ?thesis using top lim(2) Suc.prems(2) u(2) by simp
  qed
  have "those (map (\<lambda>j. ld_int4 d m src (i + j * 32)) js) = Some (map (\<lambda>j. s (i + j * 32)) js)" if "\<forall>j\<in>set js. j < unroll" for js
    using that Suc.prems(1) idx by (induction js) (simp_all add: holds_arrays_def)
  then have ld: "those (map (\<lambda>j. ld_int4 d m src (i + j * 32)) [0..<unroll]) = Some (map (\<lambda>j. s (i + j * 32)) [0..<unroll])"
    by simp
  let ?sts = "map (\<lambda>j. (i + j * 32, s (i + j * 32))) [0..<unroll]"
  have sts: "map (\<lambda>j. (i + j * 32, map (\<lambda>j. s (i + j * 32)) [0..<unroll] ! j)) [0..<unroll] = ?sts" by simp
  have len: "length (s k) = 4" if "k < n" for k
    using Suc.prems(1) that ld_int4_length by (auto simp: holds_arrays_def)
  have "\<forall>(k, v)\<in>set ?sts. k < n \<and> length v = 4" using idx len by auto
  from holds_st_unrolled [OF ok Suc.prems(1) this] obtain m1 where
    m1: "st_unrolled m dst ?sts = Some m1" "holds_arrays d dst src n m0 s (store_all ?sts f) m1" by blast
  have "i + 32 * unroll = Suc q * (32 * unroll) + lane" using Suc.prems(2) by simp
  moreover have "e = c - Suc q" using Suc.hyps(2) by simp
  ultimately obtain m2 where
    m2: "mem_copy_main d unroll (i + 32 * unroll) lim dst src m1 = Some m2"
      "holds_arrays d dst src n m0 s (copy_main unroll (i + 32 * unroll) lim s (store_all ?sts f)) m2"
    using Suc.hyps(1) [OF _ m1(2)] by blast
  have "mem_copy_main d unroll i lim dst src m = Some m2"
    by (subst mem_copy_main.simps) (simp add: u il ld sts m1(1) m2(1) del: map_eq_conv)
  then show ?case using m2(2) unfolding copy_main_step [OF u(1) il, of s f] by blast
next
  case 0
  then have "c * (32 * unroll) \<le> q * (32 * unroll)" by (intro mult_le_mono1) simp
  then have "\<not> i < lim" using 0(3) lim(1) by linarith
  then show ?case using 0 by (subst mem_copy_main.simps, subst copy_main.simps) simp
qed

lemma holds_tail:
  assumes ok: "regions_ok dst src n" and h: "holds_arrays d dst src n m0 s f m"
  shows "\<exists>m'. mem_copy_tail d i n dst src m = Some m' \<and> holds_arrays d dst src n m0 s (copy_tail i n s f) m'"
  using h
proof (induction "n - i" arbitrary: i f m rule: less_induct)
  case less
  show ?case
  proof (cases "i < n")
    case True
    have ld: "ld_int4 d m src i = Some (s i)" using less.prems True by (simp add: holds_arrays_def)
    obtain m1 where m1: "st_int4 m dst i (s i) = Some m1" "holds_arrays d dst src n m0 s (f(i := s i)) m1"
      using holds_st [OF ok less.prems True ld_int4_length [OF ld]] by blast
    have "n - (i + 32) < n - i" using True by simp
    from less.hyps [OF this m1(2)] show ?thesis using True ld m1(1)
      by (subst mem_copy_tail.simps, subst copy_tail.simps) auto
  next
    case False
    then show ?thesis using less.prems by (subst mem_copy_tail.simps, subst copy_tail.simps) simp
  qed
qed

lemma holds_lane:
  assumes ok: "regions_ok dst src n" and h: "holds_arrays d dst src n m0 s f m" and u: "0 < unroll" "lane < 32"
  shows "\<exists>m'. mem_copy_lane d unroll n lane dst src m = Some m' \<and> holds_arrays d dst src n m0 s (copy_lane unroll n lane s f) m'"
proof -
  let ?lim = "(n div (32 * unroll)) * (32 * unroll)"
  obtain m1 where m1: "mem_copy_main d unroll lane ?lim dst src m = Some m1"
    "holds_arrays d dst src n m0 s (copy_main unroll lane ?lim s f) m1"
    using holds_main [OF ok h u refl, of "n div (32 * unroll)" lane 0] by auto
  from holds_tail [OF ok m1(2), of "?lim + lane"] show ?thesis
    unfolding mem_copy_lane_def copy_lane_def Let_def m1(1) by simp
qed

lemma holds_warp:
  assumes ok: "regions_ok dst src n" and h: "holds_arrays d dst src n m0 s f m" and u: "0 < unroll" "set lanes \<subseteq> {..<32}"
  shows "\<exists>m'. mem_warp_copy lanes d unroll n dst src m = Some m' \<and>
    holds_arrays d dst src n m0 s (unrolled_warp_copy lanes unroll n s f) m'"
  using h u(2)
proof (induction lanes arbitrary: m f)
  case (Cons lane lanes)
  obtain m1 where m1: "mem_copy_lane d unroll n lane dst src m = Some m1"
    "holds_arrays d dst src n m0 s (copy_lane unroll n lane s f) m1"
    using holds_lane [OF ok Cons.prems(1) u(1), of lane] Cons.prems(2) by auto
  then show ?case using Cons.IH [OF m1(2)] Cons.prems(2) by auto
qed simp

section \<open>Misaligned copies\<close>

lemma vector_aligned: "16 dvd unat (p + of_nat (16 * i)) \<longleftrightarrow> 16 dvd unat p" for p :: u64
proof -
  have "unat (p + of_nat (16 * i)) = (unat p + 16 * i) mod 2 ^ 64" by (simp add: unat_word_ariths unat_of_nat mod_simps)
  moreover have "16 dvd a mod 2 ^ 64 \<longleftrightarrow> 16 dvd a" for a :: nat by (rule dvd_mod_iff) simp
  ultimately show ?thesis by (simp add: dvd_add_left_iff)
qed

lemma misaligned_ld: "\<not> 16 dvd unat p \<Longrightarrow> ld_int4 d m p i = None"
  using vector_aligned by (simp add: ld_int4_def ptx_ld_def)

lemma misaligned_st: "\<not> 16 dvd unat p \<Longrightarrow> st_int4 m p i v = None"
  using vector_aligned by (simp add: st_int4_def ptx_st_def)

lemma misaligned_lane_0:
  assumes "\<not> (16 dvd unat dst \<and> 16 dvd unat src)" and "0 < n" and "0 < unroll"
  shows "mem_copy_lane d unroll n 0 dst src m = None"
proof -
  let ?lim = "(n div (32 * unroll)) * (32 * unroll)"
  have copy: "\<exists>v. ld_int4 d m src i = Some v \<and> st_int4 m dst i v \<noteq> None \<Longrightarrow> False" for i m
    using assms(1) misaligned_ld [of src d m i] misaligned_st [of dst m i] by auto
  have tail: "mem_copy_tail d 0 n dst src m = None" if "0 < n" for m
    using copy [of m 0] that by (subst mem_copy_tail.simps) (auto split: option.splits)
  show ?thesis
  proof (cases "0 < ?lim")
    case True
    obtain u where u: "unroll = Suc u" using assms(3) by (cases unroll) auto
    have ld: "those (map (\<lambda>j. ld_int4 d m src (0 + j * 32)) [0..<unroll]) = Some vs \<Longrightarrow> ld_int4 d m src 0 = Some (vs ! 0)" for vs
      unfolding u upt_conv_Cons [OF zero_less_Suc] by (auto split: option.splits)
    have "mem_copy_main d unroll 0 ?lim dst src m = None"
    proof (cases "those (map (\<lambda>j. ld_int4 d m src (0 + j * 32)) [0..<unroll])")
      case (Some vs)
      have "st_int4 m dst 0 (vs ! 0) = None" using copy [of m 0] ld [OF Some] by (cases "st_int4 m dst 0 (vs ! 0)") auto
      then have "st_unrolled m dst (map (\<lambda>j. (0 + j * 32, vs ! j)) [0..<unroll]) = None"
        unfolding u upt_conv_Cons [OF zero_less_Suc] by simp
      then show ?thesis using Some True assms(3) by (subst mem_copy_main.simps) simp
    qed (use True assms(3) in \<open>subst mem_copy_main.simps; simp\<close>)
    then show ?thesis by (simp add: mem_copy_lane_def Let_def)
  next
    case False
    then have lim: "?lim = 0" by simp
    have "mem_copy_main d unroll 0 0 dst src m = Some m" by (subst mem_copy_main.simps) simp
    then show ?thesis using tail [OF assms(2)] unfolding mem_copy_lane_def Let_def lim by simp
  qed
qed

lemma misaligned_copy:
  assumes "\<not> (16 dvd unat dst \<and> 16 dvd unat src)" and "0 < n" and "0 < unroll" and "0 \<in> set lanes"
  shows "mem_warp_copy lanes d unroll n dst src m = None"
  using assms(4)
proof (induction lanes arbitrary: m)
  case (Cons lane lanes)
  show ?case
  proof (cases "lane = 0")
    case True
    then show ?thesis using misaligned_lane_0 [OF assms(1-3)] by simp
  next
    case False
    then show ?thesis using Cons by (auto split: option.splits)
  qed
qed simp

section \<open>Copies in the buffer\<close>

lemma aligned_ld:
  assumes "16 dvd unat p"
  shows "\<exists>v. ld_int4 d m p i = Some v"
  using assms vector_aligned by (simp add: ld_int4_def ptx_ld_def)

lemma warp_copy_in_memory:
  assumes ok: "regions_ok dst src n" and lanes: "set lanes = {..<32}" and u: "0 < unroll"
  shows "\<exists>m'. mem_warp_copy lanes d unroll n dst src m = Some m' \<and>
    (\<forall>k<n. ld_int4 d m' dst k = ld_int4 d m src k) \<and>
    (\<forall>a. unat a < unat dst \<or> unat dst + 16 * n \<le> unat a \<longrightarrow> m' a = m a)"
proof -
  let ?f = "\<lambda>k. the (ld_int4 d m dst k)" and ?s = "\<lambda>k. the (ld_int4 d m src k)"
  have al: "16 dvd unat dst" "16 dvd unat src" using ok by (simp_all add: regions_ok_def)
  have some: "ld_int4 d m dst k = Some (?f k)" "ld_int4 d m src k = Some (?s k)" for k
    using aligned_ld [OF al(1), of d m k] aligned_ld [OF al(2), of d m k] by auto
  then have "holds_arrays d dst src n m ?s ?f m" unfolding holds_arrays_def by blast
  from holds_warp [OF ok this u, of lanes] lanes obtain m' where m': "mem_warp_copy lanes d unroll n dst src m = Some m'"
    "holds_arrays d dst src n m ?s (unrolled_warp_copy lanes unroll n ?s ?f) m'" by auto
  have "unrolled_warp_copy lanes unroll n ?s ?f k = ?s k" if "k < n" for k
    using unrolled_warp_copy_eq [of lanes unroll n ?s ?f k] lanes u that by simp
  then have "\<forall>k<n. ld_int4 d m' dst k = ld_int4 d m src k"
    using m'(2) some(2) unfolding holds_arrays_def by (simp del: option.collapse)
  moreover have "\<forall>a. unat a < unat dst \<or> unat dst + 16 * n \<le> unat a \<longrightarrow> m' a = m a"
    using m'(2) unfolding holds_arrays_def by blast
  ultimately show ?thesis using m'(1) by blast
qed

lemma data_regions_adjacent:
  assumes ok: "sizes_ok (unat base) E M H"
    and b: "b \<in> set (buffers (mk_BufferPair base (of_nat M) (of_nat H) R (of_nat E)))"
  shows "unat (rdma_recv_data_buffer b) = unat (rdma_send_data_buffer b) + dat_nat E M H"
proof -
  have lt: "unat base + 4 * sig_nat E + 4 * dat_nat E M H < 2 ^ 64" using ok by (simp add: sizes_ok_def)
  have u: "unat (of_nat n :: u64) = n" if "n \<le> unat base + 4 * sig_nat E + 4 * dat_nat E M H" for n
    using lt that by (intro unat_of_nat_64) linarith
  show ?thesis using b unfolding mk_BufferPair_nat(2) [OF ok] by (auto simp: u simp del: of_nat_add of_nat_mult)
qed

lemma dispatch_src_slot:
  assumes ok: "sizes_ok (unat base) E M H"
    and b: "b \<in> set (buffers (mk_BufferPair base (of_nat M) (of_nat H) R (of_nat E)))"
    and t: "t < M" and E: "0 < E" and nb: "nb \<le> 32 + 2 * H"
  shows "unat (dispatch_src_ptr (rdma_send_data_buffer b) (of_nat t) (of_nat nb)) = unat (rdma_send_data_buffer b) + t * nb"
    and "unat (rdma_send_data_buffer b) + t * nb + nb \<le> unat (rdma_send_data_buffer b) + dat_nat E M H"
proof -
  have "M * nb \<le> E * M * nb" using E by (cases E) simp_all
  then have le: "M * nb \<le> dat_nat E M H" using slots_le_dat [OF nb, of E M] by linarith
  have t31: "t < 2 ^ 31" using t ok by (simp add: sizes_ok_def)
  show in_: "unat (rdma_send_data_buffer b) + t * nb + nb \<le> unat (rdma_send_data_buffer b) + dat_nat E M H"
    using slot_in_region [OF t le] by simp
  have "unat (rdma_send_data_buffer b + of_nat (t * nb)) = unat (rdma_send_data_buffer b) + t * nb"
    using recv_data_bounds(2) [OF ok b] in_ by (intro unat_offset) linarith
  then show "unat (dispatch_src_ptr (rdma_send_data_buffer b) (of_nat t) (of_nat nb)) = unat (rdma_send_data_buffer b) + t * nb"
    by (simp add: dispatch_src_ptr_def scast_of_nat_int [OF t31])
qed

text \<open>A message and its staged copy: whether they are aligned is decided by the starts of the two regions.\<close>

lemma message_place:
  assumes ok: "sizes_ok (unat base) (L * R) M H"
    and b: "b \<in> set (buffers (mk_BufferPair base (of_nat M) (of_nat H) (of_nat R) (of_nat (L * R))))"
    and i: "l < L" "r < R" "s < M" "t < M" and nb: "nb \<le> 32 + 2 * H" "16 dvd nb"
  defines "D \<equiv> dispatch_dst_ptr (rdma_recv_data_buffer b) (of_nat l) (of_nat R) (of_nat M) (of_nat r) (of_nat s) (of_nat nb)"
    and "S \<equiv> dispatch_src_ptr (rdma_send_data_buffer b) (of_nat t) (of_nat nb)"
  shows "16 dvd unat D \<longleftrightarrow> 16 dvd unat (rdma_recv_data_buffer b)" and "16 dvd unat S \<longleftrightarrow> 16 dvd unat (rdma_send_data_buffer b)"
    and "unat S + nb \<le> unat D" and "unat D + nb \<le> 2 ^ 64"
proof -
  note d = dispatch_slot [OF ok refl i(1-3) nb(1) recv_data_bounds(1) [OF ok b], folded D_def]
  have "0 < L * R" using i(1,2) by simp
  note s = dispatch_src_slot [OF ok b i(4) this nb(1), folded S_def]
  have "16 dvd k * nb" for k using nb(2) by simp
  then show "16 dvd unat D \<longleftrightarrow> 16 dvd unat (rdma_recv_data_buffer b)" "16 dvd unat S \<longleftrightarrow> 16 dvd unat (rdma_send_data_buffer b)"
    unfolding d(1) s(1) by (simp_all add: dvd_add_left_iff)
  show "unat S + nb \<le> unat D" "unat D + nb \<le> 2 ^ 64"
    using d s recv_data_bounds(1) [OF ok b] data_regions_adjacent [OF ok b] by linarith+
qed

lemma message_copy_iff:
  assumes "sizes_ok (unat base) (L * R) M H"
    and "b \<in> set (buffers (mk_BufferPair base (of_nat M) (of_nat H) (of_nat R) (of_nat (L * R))))"
    and "l < L" "r < R" "s < M" "t < M" and nb: "nb \<le> 32 + 2 * H" "16 dvd nb" "0 < nb"
  shows "mem_warp_copy [0..<32] disable 8 (nb div 16)
      (dispatch_dst_ptr (rdma_recv_data_buffer b) (of_nat l) (of_nat R) (of_nat M) (of_nat r) (of_nat s) (of_nat nb))
      (dispatch_src_ptr (rdma_send_data_buffer b) (of_nat t) (of_nat nb)) m \<noteq> None \<longleftrightarrow>
    16 dvd unat (rdma_send_data_buffer b) \<and> 16 dvd unat (rdma_recv_data_buffer b)" (is "?copy \<longleftrightarrow> ?aligned")
proof
  note place = message_place [OF assms(1-6) nb(1,2)]
  have n16: "0 < nb div 16" "16 * (nb div 16) = nb" using nb by auto
  show ?aligned if ?copy
    using misaligned_copy [OF _ n16(1), of _ _ 8 "[0..<32]"] that place(1,2) by fastforce
  show ?copy if ?aligned
  proof -
    have "regions_ok (dispatch_dst_ptr (rdma_recv_data_buffer b) (of_nat l) (of_nat R) (of_nat M) (of_nat r) (of_nat s) (of_nat nb))
        (dispatch_src_ptr (rdma_send_data_buffer b) (of_nat t) (of_nat nb)) (nb div 16)"
      using that place unfolding regions_ok_def n16(2) by auto
    from warp_copy_in_memory [OF this, of "[0..<32]" 8 disable m] show ?thesis by (auto simp: atLeast0LessThan)
  qed
qed

section \<open>Properties\<close>

text \<open>
  C20. Over a memory of bytes, with the vector loads and stores of the kernels, the warp copy of two aligned
  arrays that do not meet runs to its end for every order of the lanes and every unrolling: the
  destination then holds the vectors of the source, and no byte outside it has changed.
\<close>

theorem warp_copy_moves_memory:
  assumes "regions_ok dst src n" and "set lanes = {..<32}" and "0 < unroll"
  shows "\<exists>m'. mem_warp_copy lanes disable unroll n dst src m = Some m' \<and>
    (\<forall>k<n. ld_int4 disable m' dst k = ld_int4 disable m src k) \<and>
    (\<forall>a. unat a < unat dst \<or> unat dst + 16 * n \<le> unat a \<longrightarrow> m' a = m a)"
  by (rule warp_copy_in_memory [OF assms])

theorem warp_copy_moves_memory_witness:
  "\<exists>m'. mem_warp_copy [0..<32] False 7 896 32768 4096 (\<lambda>a. ucast a) = Some m' \<and>
     ld_int4 False m' 32768 895 = ld_int4 False (\<lambda>a. ucast a) 4096 895"
proof -
  have "regions_ok 32768 4096 896" by (simp add: regions_ok_def)
  from warp_copy_moves_memory [OF this, of "[0..<32]" 7 False "\<lambda>a. ucast a"] show ?thesis by (auto simp: atLeast0LessThan)
qed

text \<open>
  C21. In a buffer whose start is a multiple of 16, for a message size that is one, every copy of a message
  within the buffer (from the send region to a slot of the receive region, in either half) can be made
  exactly when the number of experts is even. With an odd number a copy in one half is misaligned and fails.
\<close>

theorem message_copies_iff:
  assumes ok: "sizes_ok (unat base) (L * R) M H" and pos: "0 < L" "0 < R" "0 < M" and al: "16 dvd unat base" "8 dvd H"
    and nb: "16 dvd num_bytes_per_msg fp8 H"
  shows "(\<forall>b\<in>set (buffers (mk_BufferPair base (of_nat M) (of_nat H) (of_nat R) (of_nat (L * R)))). \<forall>l<L. \<forall>r<R. \<forall>s<M. \<forall>t<M.
      mem_warp_copy [0..<32] disable 8 (num_bytes_per_msg fp8 H div 16)
        (dispatch_dst_ptr (rdma_recv_data_buffer b) (of_nat l) (of_nat R) (of_nat M) (of_nat r) (of_nat s)
          (of_nat (num_bytes_per_msg fp8 H)))
        (dispatch_src_ptr (rdma_send_data_buffer b) (of_nat t) (of_nat (num_bytes_per_msg fp8 H))) m \<noteq> None) \<longleftrightarrow> even (L * R)"
    (is "(\<forall>b\<in>?B. \<forall>l<L. \<forall>r<R. \<forall>s<M. \<forall>t<M. ?copied b l r s t) \<longleftrightarrow> _")
proof -
  have nb': "num_bytes_per_msg fp8 H \<le> 32 + 2 * H" "0 < num_bytes_per_msg fp8 H"
    using msg_le_slot by (auto simp: num_bytes_per_msg_def)
  note one = message_copy_iff [OF ok _ _ _ _ _ nb'(1) nb nb'(2)]
  show ?thesis
    unfolding data_regions_aligned_iff [OF ok al, of "of_nat R", symmetric]
  proof (intro iffI ballI allI impI)
    fix b assume b: "b \<in> set (buffers (mk_BufferPair base (of_nat M) (of_nat H) (of_nat R) (of_nat (L * R))))"
    note copy = one [OF b]
    show "16 dvd unat (rdma_send_data_buffer b) \<and> 16 dvd unat (rdma_recv_data_buffer b)" if all: "\<forall>b\<in>?B. \<forall>l<L. \<forall>r<R. \<forall>s<M. \<forall>t<M. ?copied b l r s t"
      using bspec [OF all b] copy [OF pos pos(3)] pos by blast
    show "?copied b l r s t" if al: "\<forall>b\<in>?B. 16 dvd unat (rdma_send_data_buffer b) \<and> 16 dvd unat (rdma_recv_data_buffer b)"
      and i: "l < L" "r < R" "s < M" "t < M" for l r s t
      using copy [OF i] bspec [OF al b] by blast
  qed
qed

text \<open>Nine experts on three ranks: some copy fails; eight on two: none does.\<close>

theorem message_copies_iff_witness:
  "(\<exists>b\<in>set (buffers (mk_BufferPair 4096 128 2048 3 9)). \<exists>l<3. \<exists>r<3. \<exists>s<128. \<exists>t<128.
      mem_warp_copy [0..<32] False 8 257 (dispatch_dst_ptr (rdma_recv_data_buffer b) (of_nat l) 3 128 (of_nat r) (of_nat s) 4112)
        (dispatch_src_ptr (rdma_send_data_buffer b) (of_nat t) 4112) (\<lambda>_. 0) = None)"
proof -
  have "sizes_ok (unat (4096 :: u64)) (3 * 3) 128 2048" by (simp add: sizes_ok_def sig_nat_def dat_nat_def)
  from message_copies_iff [OF this, of False False "\<lambda>_. 0"] show ?thesis
    by (simp add: num_bytes_per_msg_def)
qed

end
