(* ===== verification/Message_Path.thy ===== *)
theory Message_Path
  imports Memory_Copy Packed_Output
begin

text \<open>
  The way of a token's row through memory, byte by byte (\<^verbatim>\<open>dispatch\<close> of \<^verbatim>\<open>src/ep_kernel.cu\<close>): the sending block
  stages the message (the token's index and its row), a warp or the NIC carries it to its slot of the
  destination, and the receive phase copies the row from the slot to the packed output. All
  addresses are in one space, in which the destination's buffer lies where its rank sees it.
\<close>

section \<open>Stores of a row\<close>

definition plain_int :: ptx_access where "plain_int = access Weak Cta 1 4"

text \<open>The threads of the sending warps store the header and then the vectors of the row (in BF16).\<close>

definition stage_message :: "u64 \<Rightarrow> cint \<Rightarrow> (nat \<Rightarrow> cint list) \<Rightarrow> nat list \<Rightarrow> nat \<Rightarrow> memory \<Rightarrow> memory option" where
  "stage_message rdma_x_src_idx token_idx x_int4 threads hidden_bf16_int4 m =
     (case ptx_st plain_int m rdma_x_src_idx [token_idx] of
        None \<Rightarrow> None
      | Some m1 \<Rightarrow> st_unrolled m1 (rdma_x_src_idx + 16)
          (concat (map (\<lambda>t. map (\<lambda>i. (i, x_int4 i)) (block_tokens 992 hidden_bf16_int4 t)) threads)))"

text \<open>Memory that agrees on a region gives the same vectors there.\<close>

lemma ld_int4_cong:
  assumes "\<And>a. unat p \<le> unat a \<Longrightarrow> unat a < unat p + 16 * n \<Longrightarrow> m' a = m a" and "unat p + 16 * n \<le> 2 ^ 64" and "k < n"
  shows "ld_int4 d m' p k = ld_int4 d m p k"
proof -
  have "read_bytes m' (p + of_nat (16 * k) + of_nat (j * 4)) 4 = read_bytes m (p + of_nat (16 * k) + of_nat (j * 4)) 4" if "j < 4" for j
  proof -
    have "m' (p + of_nat (16 * k) + of_nat (j * 4) + of_nat i) = m (p + of_nat (16 * k) + of_nat (j * 4) + of_nat i)" if "i < 4" for i
    proof -
      have "unat (p + of_nat (16 * k + j * 4 + i)) = unat p + (16 * k + j * 4 + i)"
        using assms(2,3) \<open>j < 4\<close> that by (intro unat_offset) linarith
      then have "m' (p + of_nat (16 * k + j * 4 + i)) = m (p + of_nat (16 * k + j * 4 + i))"
        by (intro assms(1)) (use assms(3) \<open>j < 4\<close> that in linarith)+
      then show ?thesis by (simp add: add.assoc)
    qed
    then show ?thesis by (simp add: read_bytes_def)
  qed
  then show ?thesis by (simp add: ld_int4_def ptx_ld_def)
qed

lemma ld_int_of_vector:
  assumes "ld_int4 d m p 0 = Some v" and "vec_len I = 1" and "elem_bytes I = 4"
  shows "ptx_ld I m p = Some [hd v]"
proof -
  have "4 dvd unat p" if "16 dvd unat p" using that by (rule dvd_trans [rotated]) simp
  then show ?thesis using assms by (auto simp: ld_int4_def ptx_ld_def width_def upt_rec split: if_splits)
qed

lemma st_int4_effect:
  assumes p: "16 dvd unat p" "unat p + 16 * n \<le> 2 ^ 64" and i: "i < n" and v: "length v = 4"
  shows "\<exists>m'. st_int4 m p i v = Some m' \<and> (\<forall>k<n. ld_int4 d m' p k = (if k = i then Some v else ld_int4 d m p k)) \<and>
    (\<forall>a. unat a < unat p \<or> unat p + 16 * n \<le> unat a \<longrightarrow> m' a = m a)"
proof -
  let ?q = "p + of_nat (16 * i)"
  have q: "unat ?q = unat p + 16 * i" by (rule elem_addr [OF p(2) i])
  have "16 dvd unat ?q" using vector_aligned p(1) by blast
  then obtain m' where st: "ptx_st st_na_global_int4 m ?q v = Some m'" by (simp add: ptx_st_def)
  have room: "unat ?q + width st_na_global_int4 \<le> 2 ^ 64" unfolding q using p(2) i by simp
  have "ld_int4 d m' p i = Some v" unfolding ld_int4_def by (rule ptx_ld_st_same [OF st]) (simp_all add: v)
  moreover have "ld_int4 d m' p k = ld_int4 d m p k" if k: "k < n" "k \<noteq> i" for k
  proof -
    have "16 * k + 16 \<le> 16 * i \<or> 16 * i + 16 \<le> 16 * k" using k(2) by linarith
    then show ?thesis unfolding ld_int4_def
      by (intro ptx_ld_st_other [OF st _ room]) (use v q elem_addr [OF p(2) k(1)] k(1) p(2) in auto)
  qed
  moreover have "m' a = m a" if "unat a < unat p \<or> unat p + 16 * n \<le> unat a" for a
    using ptx_st_elsewhere [OF st _ room] v that i unfolding q by fastforce
  ultimately show ?thesis using st by (auto simp: st_int4_def)
qed

lemma st_row_effect:
  assumes p: "16 dvd unat p" "unat p + 16 * n \<le> 2 ^ 64" and row: "\<forall>i. length (f i) = 4" and "set is \<subseteq> {..<n}"
  shows "\<exists>m'. st_unrolled m p (map (\<lambda>i. (i, f i)) is) = Some m' \<and>
    (\<forall>k<n. ld_int4 d m' p k = (if k \<in> set is then Some (f k) else ld_int4 d m p k)) \<and>
    (\<forall>a. unat a < unat p \<or> unat p + 16 * n \<le> unat a \<longrightarrow> m' a = m a)"
  using assms(4)
proof (induction "is" arbitrary: m)
  case (Cons i "is")
  obtain m1 where m1: "st_int4 m p i (f i) = Some m1"
      "\<forall>k<n. ld_int4 d m1 p k = (if k = i then Some (f i) else ld_int4 d m p k)"
      "\<forall>a. unat a < unat p \<or> unat p + 16 * n \<le> unat a \<longrightarrow> m1 a = m a"
    using st_int4_effect [OF p, of i "f i" m d] Cons.prems row by auto
  have "set is \<subseteq> {..<n}" using Cons.prems by simp
  then obtain m' where "st_unrolled m1 p (map (\<lambda>i. (i, f i)) is) = Some m'"
      "\<forall>k<n. ld_int4 d m' p k = (if k \<in> set is then Some (f k) else ld_int4 d m1 p k)"
      "\<forall>a. unat a < unat p \<or> unat p + 16 * n \<le> unat a \<longrightarrow> m' a = m1 a"
    using Cons.IH [of m1] by blast
  then show ?case using m1 by (intro exI [of _ m']) auto
qed simp

text \<open>Every vector of the row is stored by the thread with its number modulo 992.\<close>

lemma stage_message_holds:
  assumes p: "16 dvd unat p" "unat p + 16 * Suc h < 2 ^ 64" and row: "\<forall>i. length (x i) = 4" and threads: "set threads = {..<992}"
  shows "\<exists>m'. stage_message p tok x threads h m = Some m' \<and> (\<exists>v. ld_int4 d m' p 0 = Some v \<and> hd v = tok) \<and>
    (\<forall>k<h. ld_int4 d m' p (Suc k) = Some (x k)) \<and>
    (\<forall>a. unat a < unat p \<or> unat p + 16 * Suc h \<le> unat a \<longrightarrow> m' a = m a)"
proof -
  have "4 dvd unat p" using p(1) by (rule dvd_trans [rotated]) simp
  then obtain m1 where m1: "ptx_st plain_int m p [tok] = Some m1" by (simp add: ptx_st_def plain_int_def width_def)
  have w: "width plain_int = 4" "vec_len plain_int = 1" "elem_bytes plain_int = 4" by (simp_all add: plain_int_def width_def)
  have q: "unat (p + 16) = unat p + 16" using unat_offset [of p 16] p(2) by simp
  have q16: "16 dvd unat (p + 16)" "unat (p + 16) + 16 * h \<le> 2 ^ 64" using p q by simp_all
  have is_row: "concat (map (\<lambda>t. map (\<lambda>i. (i, x i)) (block_tokens 992 h t)) threads) =
      map (\<lambda>i. (i, x i)) (concat (map (block_tokens 992 h) threads))"
    by (simp add: map_concat comp_def)
  define js where "js = concat (map (block_tokens 992 h) threads)"
  have all: "set js = {..<h}"
  proof (intro equalityI subsetI)
    fix i assume i: "i \<in> {..<h}"
    then have "i \<in> set (block_tokens 992 h (i mod 992))" "i mod 992 \<in> set threads"
      by (simp_all add: set_block_tokens threads)
    then show "i \<in> set js" unfolding js_def by auto
  qed (auto simp: js_def set_block_tokens)
  obtain m' where m': "st_unrolled m1 (p + 16) (map (\<lambda>i. (i, x i)) js) = Some m'"
      "\<forall>k<h. ld_int4 d m' (p + 16) k = Some (x k)"
      "\<forall>a. unat a < unat (p + 16) \<or> unat (p + 16) + 16 * h \<le> unat a \<longrightarrow> m' a = m1 a"
    using st_row_effect [OF q16 row, of js m1 d] all by auto
  have next_vec: "ld_int4 d m' p (Suc k) = ld_int4 d m' (p + 16) k" for k by (simp add: ld_int4_def algebra_simps)
  obtain v where v: "ld_int4 d m1 p 0 = Some v" using aligned_ld [OF p(1)] by blast
  have "ptx_ld plain_int m1 p = Some [tok]"
    using ptx_ld_st_same [OF m1, of plain_int] by (simp add: w)
  then have "hd v = tok" using ld_int_of_vector [OF v w(2,3)] by simp
  moreover have "ld_int4 d m' p 0 = Some v"
    using ld_int4_cong [of p 1 m' m1 0 d] m'(3) q p(2) v by simp
  moreover have "m' a = m a" if a: "unat a < unat p \<or> unat p + 16 * Suc h \<le> unat a" for a
  proof -
    have "m' a = m1 a" using m'(3) a q by auto
    moreover have "m1 a = m a" using ptx_st_elsewhere [OF m1 _ _ ] a p(2) by (auto simp: w)
    ultimately show ?thesis by simp
  qed
  ultimately show ?thesis using m1 m'(1,2) by (auto simp: stage_message_def is_row js_def [symmetric] next_vec)
qed

section \<open>Operations on disjoint regions\<close>

text \<open>A region is a start and a number of bytes.\<close>

fun inside :: "u64 \<times> nat \<Rightarrow> u64 \<Rightarrow> bool" where
  "inside (p, n) a \<longleftrightarrow> unat p \<le> unat a \<and> unat a < unat p + n"

fun regions_apart :: "u64 \<times> nat \<Rightarrow> u64 \<times> nat \<Rightarrow> bool" where
  "regions_apart (p, n) (q, k) \<longleftrightarrow> unat p + n \<le> unat q \<or> unat q + k \<le> unat p"

definition same_on :: "u64 \<times> nat \<Rightarrow> memory \<Rightarrow> memory \<Rightarrow> bool" where
  "same_on A m m' \<longleftrightarrow> (\<forall>a. inside A a \<longrightarrow> m' a = m a)"

definition same_outside :: "u64 \<times> nat \<Rightarrow> memory \<Rightarrow> memory \<Rightarrow> bool" where
  "same_outside A m m' \<longleftrightarrow> (\<forall>a. \<not> inside A a \<longrightarrow> m' a = m a)"

lemma same_outsideI: "\<forall>a. unat a < unat p \<or> unat p + n \<le> unat a \<longrightarrow> m' a = m a \<Longrightarrow> same_outside (p, n) m m'"
  unfolding same_outside_def inside.simps by (meson not_le)

lemma same_outside_on: "same_outside A m m' \<Longrightarrow> regions_apart A B \<or> regions_apart B A \<Longrightarrow> same_on B m m'"
  by (cases A; cases B) (fastforce simp: same_outside_def same_on_def)

fun run_all :: "('c \<Rightarrow> memory \<Rightarrow> memory option) \<Rightarrow> 'c list \<Rightarrow> memory \<Rightarrow> memory option" where
  "run_all f [] m = Some m"
| "run_all f (c # cs) m = (case f c m of None \<Rightarrow> None | Some m' \<Rightarrow> run_all f cs m')"

text \<open>
  An operation that reads one region and changes another: what it needs depends on the first, what it
  establishes on the second. Operations whose regions do not meet can be run in any order.
\<close>

locale region_ops =
  fixes f :: "'c \<Rightarrow> memory \<Rightarrow> memory option" and ok :: "'c \<Rightarrow> bool"
    and reads :: "'c \<Rightarrow> u64 \<times> nat" and changes :: "'c \<Rightarrow> u64 \<times> nat"
    and pre :: "'c \<Rightarrow> memory \<Rightarrow> bool" and post :: "'c \<Rightarrow> memory \<Rightarrow> bool"
  assumes effect: "ok c \<Longrightarrow> pre c m \<Longrightarrow> \<exists>m'. f c m = Some m' \<and> post c m' \<and> same_outside (changes c) m m'"
    and pre_local: "ok c \<Longrightarrow> pre c m \<Longrightarrow> same_on (reads c) m m' \<Longrightarrow> pre c m'"
    and post_local: "ok c \<Longrightarrow> post c m \<Longrightarrow> same_on (changes c) m m' \<Longrightarrow> post c m'"
begin

lemma run_all_effect:
  assumes "\<forall>c\<in>set cs. ok c \<and> pre c m" and "\<forall>c\<in>set cs. \<forall>c'\<in>set cs. regions_apart (reads c) (changes c')"
    and "sorted_wrt (\<lambda>c c'. regions_apart (changes c) (changes c')) cs"
  shows "\<exists>m'. run_all f cs m = Some m' \<and> (\<forall>c\<in>set cs. post c m') \<and> (\<forall>a. (\<forall>c\<in>set cs. \<not> inside (changes c) a) \<longrightarrow> m' a = m a)"
  using assms
proof (induction cs arbitrary: m)
  case (Cons c cs)
  obtain m1 where m1: "f c m = Some m1" "post c m1" "same_outside (changes c) m m1" using effect [of c m] Cons.prems(1) by auto
  have "pre c' m1" if "c' \<in> set cs" for c'
    using pre_local [of c' m m1] same_outside_on [OF m1(3)] Cons.prems(1,2) that by auto
  then obtain m' where m': "run_all f cs m1 = Some m'" "\<forall>c\<in>set cs. post c m'"
      "\<forall>a. (\<forall>c\<in>set cs. \<not> inside (changes c) a) \<longrightarrow> m' a = m1 a"
    using Cons.IH [of m1] Cons.prems by auto
  have "same_on (changes c) m1 m'"
    unfolding same_on_def
  proof (intro allI impI)
    fix a assume "inside (changes c) a"
    then have "\<forall>c'\<in>set cs. \<not> inside (changes c') a"
      using Cons.prems(3) by (cases "changes c") (fastforce elim!: regions_apart.elims)
    then show "m' a = m1 a" using m'(3) by blast
  qed
  then have "post c m'" using post_local m1(2) Cons.prems(1) by auto
  moreover have "m' a = m a" if "\<forall>c'\<in>set (c # cs). \<not> inside (changes c') a" for a
    using m'(3) m1(3) that by (simp add: same_outside_def)
  ultimately show ?case using m1(1) m'(1,2) by auto
qed simp

end

section \<open>Staging and copying\<close>

record staged =
  st_ptr :: u64
  st_token :: cint
  st_row :: "nat \<Rightarrow> cint list"

definition staged_at :: "bool \<Rightarrow> nat \<Rightarrow> cint \<Rightarrow> (nat \<Rightarrow> cint list) \<Rightarrow> u64 \<Rightarrow> memory \<Rightarrow> bool" where
  "staged_at disable h tok x p m \<longleftrightarrow>
     (\<exists>v. ld_int4 disable m p 0 = Some v \<and> hd v = tok) \<and> (\<forall>k<h. ld_int4 disable m p (Suc k) = Some (x k))"

definition stage_ok :: "nat list \<Rightarrow> nat \<Rightarrow> staged \<Rightarrow> bool" where
  "stage_ok threads h c \<longleftrightarrow> 16 dvd unat (st_ptr c) \<and> unat (st_ptr c) + 16 * Suc h < 2 ^ 64 \<and>
     (\<forall>i. length (st_row c i) = 4) \<and> set threads = {..<992}"

lemma staged_at_local:
  assumes "staged_at d h tok x p m" and "same_on (p, 16 * Suc h) m m'" and "unat p + 16 * Suc h \<le> 2 ^ 64"
  shows "staged_at d h tok x p m'"
proof -
  have "ld_int4 d m' p k = ld_int4 d m p k" if "k < Suc h" for k
    by (rule ld_int4_cong [OF _ assms(3) that]) (use assms(2) in \<open>auto simp: same_on_def\<close>)
  then show ?thesis using assms(1) by (simp add: staged_at_def)
qed

interpretation staging: region_ops "\<lambda>c. stage_message (st_ptr c) (st_token c) (st_row c) threads h" "stage_ok threads h"
  "\<lambda>_. (0, 0)" "\<lambda>c. (st_ptr c, 16 * Suc h)" "\<lambda>_ _. True" "\<lambda>c. staged_at d h (st_token c) (st_row c) (st_ptr c)" for threads h d
proof
  fix c m assume "stage_ok threads h c"
  then have c: "16 dvd unat (st_ptr c)" "unat (st_ptr c) + 16 * Suc h < 2 ^ 64" "\<forall>i. length (st_row c i) = 4" "set threads = {..<992}"
    by (simp_all add: stage_ok_def)
  obtain m' where m': "stage_message (st_ptr c) (st_token c) (st_row c) threads h m = Some m'"
    "staged_at d h (st_token c) (st_row c) (st_ptr c) m'"
    and frame: "\<forall>a. unat a < unat (st_ptr c) \<or> unat (st_ptr c) + 16 * Suc h \<le> unat a \<longrightarrow> m' a = m a"
    using stage_message_holds [OF c, of "st_token c" m d] unfolding staged_at_def by blast
  have "same_outside (st_ptr c, 16 * Suc h) m m'" using frame by (rule same_outsideI)
  with m' show "\<exists>m'. stage_message (st_ptr c) (st_token c) (st_row c) threads h m = Some m' \<and>
      staged_at d h (st_token c) (st_row c) (st_ptr c) m' \<and> same_outside (st_ptr c, 16 * Suc h) m m'"
    by (intro exI [of _ m'] conjI)
next
  fix c m m' assume "stage_ok threads h c" and "staged_at d h (st_token c) (st_row c) (st_ptr c) m" and "same_on (st_ptr c, 16 * Suc h) m m'"
  moreover from this(1) have "unat (st_ptr c) + 16 * Suc h \<le> 2 ^ 64" by (simp add: stage_ok_def)
  ultimately show "staged_at d h (st_token c) (st_row c) (st_ptr c) m'" by (blast intro: staged_at_local)
qed

text \<open>A copy of vectors, by a warp or by the NIC.\<close>

record copy_job =
  cj_dst :: u64
  cj_src :: u64
  cj_vectors :: nat
  cj_unroll :: nat
  cj_nic :: bool

definition run_copy :: "bool \<Rightarrow> copy_job \<Rightarrow> memory \<Rightarrow> memory option" where
  "run_copy disable j m =
     (if cj_nic j then Some (write_bytes m (cj_dst j) (read_bytes m (cj_src j) (16 * cj_vectors j)))
      else mem_warp_copy [0..<32] disable (cj_unroll j) (cj_vectors j) (cj_dst j) (cj_src j) m)"

lemma read_bytes_slice:
  assumes "i + n \<le> k"
  shows "take n (drop i (read_bytes m p k)) = read_bytes m (p + of_nat i) n"
proof (rule nth_equalityI)
  show "length (take n (drop i (read_bytes m p k))) = length (read_bytes m (p + of_nat i) n)" using assms by simp
  fix j assume "j < length (take n (drop i (read_bytes m p k)))"
  then have j: "j < n" "i + j < k" using assms by auto
  then show "take n (drop i (read_bytes m p k)) ! j = read_bytes m (p + of_nat i) n ! j"
    using assms unfolding read_bytes_def by (simp add: add.assoc)
qed

lemma nic_copy:
  fixes m :: memory
  assumes ok: "regions_ok dst src n"
  defines "m' \<equiv> write_bytes m dst (read_bytes m src (16 * n))"
  shows "\<forall>k<n. ld_int4 d m' dst k = ld_int4 d m src k" and "same_outside (dst, 16 * n) m m'"
proof -
  have lim: "unat dst + 16 * n \<le> 2 ^ 64" "unat src + 16 * n \<le> 2 ^ 64" and al: "16 dvd unat dst" "16 dvd unat src"
    using ok by (simp_all add: regions_ok_def)
  show "same_outside (dst, 16 * n) m m'"
    unfolding m'_def by (rule same_outsideI) (use lim(1) in \<open>simp add: write_elsewhere\<close>)
  show "\<forall>k<n. ld_int4 d m' dst k = ld_int4 d m src k"
  proof (intro allI impI)
    fix k assume k: "k < n"
    have n: "16 * n < 2 ^ 64"
    proof (rule ccontr)
      assume "\<not> 16 * n < 2 ^ 64"
      then have "unat dst = 0" "unat src = 0" "0 < n" using lim by auto
      then show False using ok by (simp add: regions_ok_def)
    qed
    have "read_bytes m' (dst + of_nat (16 * k + j * 4)) 4 = read_bytes m (src + of_nat (16 * k + j * 4)) 4" if "j < 4" for j
    proof -
      have "16 * k + j * 4 + 4 \<le> 16 * n" using k that by linarith
      then show ?thesis unfolding m'_def
        using read_write_same [of "read_bytes m src (16 * n)" "16 * k + j * 4" 4 m dst] n
          read_bytes_slice [of "16 * k + j * 4" 4 "16 * n" m src] by simp
    qed
    then show "ld_int4 d m' dst k = ld_int4 d m src k"
      using al vector_aligned by (simp add: ld_int4_def ptx_ld_def add.assoc)
  qed
qed

definition copy_ok :: "copy_job \<Rightarrow> bool" where
  "copy_ok j \<longleftrightarrow> regions_ok (cj_dst j) (cj_src j) (cj_vectors j) \<and> 0 < cj_unroll j"

text \<open>\<open>V j\<close> are the vectors that job \<open>j\<close> copies.\<close>

definition holds_vectors :: "bool \<Rightarrow> u64 \<Rightarrow> nat \<Rightarrow> (nat \<Rightarrow> cint list) \<Rightarrow> memory \<Rightarrow> bool" where
  "holds_vectors d p n V m \<longleftrightarrow> (\<forall>k<n. ld_int4 d m p k = Some (V k))"

lemma holds_vectors_local:
  assumes "holds_vectors d p n V m" and "same_on (p, 16 * n) m m'" and "unat p + 16 * n \<le> 2 ^ 64"
  shows "holds_vectors d p n V m'"
proof -
  have "ld_int4 d m' p k = ld_int4 d m p k" if "k < n" for k
    by (rule ld_int4_cong [OF _ assms(3) that]) (use assms(2) in \<open>auto simp: same_on_def\<close>)
  then show ?thesis using assms(1) by (simp add: holds_vectors_def)
qed

interpretation copies: region_ops "run_copy d" copy_ok "\<lambda>j. (cj_src j, 16 * cj_vectors j)" "\<lambda>j. (cj_dst j, 16 * cj_vectors j)"
  "\<lambda>j. holds_vectors d (cj_src j) (cj_vectors j) (V j)" "\<lambda>j. holds_vectors d (cj_dst j) (cj_vectors j) (V j)" for d V
proof
  fix j m assume "copy_ok j" and pre: "holds_vectors d (cj_src j) (cj_vectors j) (V j) m"
  then have ok: "regions_ok (cj_dst j) (cj_src j) (cj_vectors j)" and u: "0 < cj_unroll j" by (simp_all add: copy_ok_def)
  have "\<exists>m'. run_copy d j m = Some m' \<and> (\<forall>k<cj_vectors j. ld_int4 d m' (cj_dst j) k = ld_int4 d m (cj_src j) k) \<and>
      same_outside (cj_dst j, 16 * cj_vectors j) m m'"
  proof (cases "cj_nic j")
    case True
    then show ?thesis using nic_copy [OF ok] by (simp add: run_copy_def)
  next
    case False
    have "set [0..<32] = {..<32::nat}" by (simp add: atLeast0LessThan)
    from warp_copy_in_memory [OF ok this u, of d m] obtain m' where
      w: "mem_warp_copy [0..<32] d (cj_unroll j) (cj_vectors j) (cj_dst j) (cj_src j) m = Some m'"
      "\<forall>k<cj_vectors j. ld_int4 d m' (cj_dst j) k = ld_int4 d m (cj_src j) k"
      and frame: "\<forall>a. unat a < unat (cj_dst j) \<or> unat (cj_dst j) + 16 * cj_vectors j \<le> unat a \<longrightarrow> m' a = m a" by blast
    have "same_outside (cj_dst j, 16 * cj_vectors j) m m'" using frame by (rule same_outsideI)
    moreover have "run_copy d j m = Some m'" using w(1) False by (simp only: run_copy_def if_False)
    ultimately show ?thesis using w(2) by (intro exI [of _ m'] conjI)
  qed
  then show "\<exists>m'. run_copy d j m = Some m' \<and> holds_vectors d (cj_dst j) (cj_vectors j) (V j) m' \<and>
      same_outside (cj_dst j, 16 * cj_vectors j) m m'"
    using pre unfolding holds_vectors_def by metis
next
  fix j m m' assume "copy_ok j" and "holds_vectors d (cj_src j) (cj_vectors j) (V j) m" and "same_on (cj_src j, 16 * cj_vectors j) m m'"
  moreover from this(1) have "unat (cj_src j) + 16 * cj_vectors j \<le> 2 ^ 64" by (simp add: copy_ok_def regions_ok_def)
  ultimately show "holds_vectors d (cj_src j) (cj_vectors j) (V j) m'" by (blast intro: holds_vectors_local)
next
  fix j m m' assume "copy_ok j" and "holds_vectors d (cj_dst j) (cj_vectors j) (V j) m" and "same_on (cj_dst j, 16 * cj_vectors j) m m'"
  moreover from this(1) have "unat (cj_dst j) + 16 * cj_vectors j \<le> 2 ^ 64" by (simp add: copy_ok_def regions_ok_def)
  ultimately show "holds_vectors d (cj_dst j) (cj_vectors j) (V j) m'" by (blast intro: holds_vectors_local)
qed

section \<open>Messages\<close>

text \<open>A message: the local expert and source rank, its slot, what was staged, and whether the NIC carries it.\<close>

record msg_copy =
  mc_local :: nat
  mc_rank :: nat
  mc_slot :: nat
  mc_item :: staged
  mc_nic :: bool

definition msg_slot_ptr :: "u64 \<Rightarrow> nat \<Rightarrow> nat \<Rightarrow> nat \<Rightarrow> msg_copy \<Rightarrow> u64" where
  "msg_slot_ptr recv R M nb c = dispatch_dst_ptr recv (of_nat (mc_local c)) (of_nat R) (of_nat M) (of_nat (mc_rank c)) (of_nat (mc_slot c)) (of_nat nb)"

text \<open>\<^verbatim>\<open>UNROLLED_WARP_COPY\<close> of the message, or the RDMA write of its bytes.\<close>

definition send_job :: "u64 \<Rightarrow> nat \<Rightarrow> nat \<Rightarrow> nat \<Rightarrow> msg_copy \<Rightarrow> copy_job" where
  "send_job recv R M nb c = \<lparr>cj_dst = msg_slot_ptr recv R M nb c, cj_src = st_ptr (mc_item c), cj_vectors = nb div 16,
     cj_unroll = 8, cj_nic = mc_nic c\<rparr>"

text \<open>The receive phase copies the row behind the header to the packed row \<open>row\<close> of the local expert.\<close>

definition packed_row_ptr :: "u64 \<Rightarrow> nat \<Rightarrow> nat \<Rightarrow> nat \<Rightarrow> nat \<Rightarrow> nat \<Rightarrow> u64" where
  "packed_row_ptr packed_recv_x R M h l row = packed_recv_x + 16 * packed_x_idx (of_nat l) (of_nat R) (of_nat M) (of_nat row) (of_nat h)"

definition recv_job :: "u64 \<Rightarrow> u64 \<Rightarrow> nat \<Rightarrow> nat \<Rightarrow> nat \<Rightarrow> nat \<Rightarrow> msg_copy \<times> nat \<Rightarrow> copy_job" where
  "recv_job packed_recv_x recv R M nb h = (\<lambda>(c, row). \<lparr>cj_dst = packed_row_ptr packed_recv_x R M h (mc_local c) row,
     cj_src = msg_slot_ptr recv R M nb c + 16, cj_vectors = h, cj_unroll = 7, cj_nic = False\<rparr>)"

definition recv_src_info :: "bool \<Rightarrow> memory \<Rightarrow> u64 \<Rightarrow> cint list option" where
  "recv_src_info disable m src_src_idx = ptx_ld (ld_nc_global_int disable) m src_src_idx"

text \<open>
  The setting: \<open>L\<close> experts on each of \<open>R\<close> ranks, up to \<open>M\<close> tokens, a hidden size in whole vectors; the receive
  region of the destination, the packed output and the staged messages do not meet.
\<close>

record path =
  p_L :: nat
  p_R :: nat
  p_M :: nat
  p_h :: nat
  p_recv :: u64
  p_packed :: u64

abbreviation p_nb :: "path \<Rightarrow> nat" where "p_nb A \<equiv> 16 * Suc (p_h A)"
abbreviation recv_bytes :: "path \<Rightarrow> nat" where "recv_bytes A \<equiv> p_L A * p_R A * p_M A * p_nb A"
abbreviation packed_bytes :: "path \<Rightarrow> nat" where "packed_bytes A \<equiv> p_L A * (p_R A * p_M A) * (16 * p_h A)"

definition path_ok :: "path \<Rightarrow> bool" where
  "path_ok A \<longleftrightarrow> 16 dvd unat (p_recv A) \<and> 16 dvd unat (p_packed A) \<and> p_L A * (p_R A * p_M A) < 2 ^ 31 \<and> p_h A < 2 ^ 31 \<and>
     unat (p_recv A) + recv_bytes A < 2 ^ 64 \<and> unat (p_packed A) + packed_bytes A < 2 ^ 64 \<and>
     regions_apart (p_recv A, recv_bytes A) (p_packed A, packed_bytes A)"

definition msg_ok :: "path \<Rightarrow> msg_copy \<times> nat \<Rightarrow> bool" where
  "msg_ok A = (\<lambda>(c, row). mc_local c < p_L A \<and> mc_rank c < p_R A \<and> mc_slot c < p_M A \<and> row < p_R A * p_M A \<and>
     regions_apart (st_ptr (mc_item c), p_nb A) (p_recv A, recv_bytes A))"

lemma slot_place:
  assumes "path_ok A" and "msg_ok A (c, row)"
  shows "unat (msg_slot_ptr (p_recv A) (p_R A) (p_M A) (p_nb A) c) =
      unat (p_recv A) + slot_no (p_R A) (p_M A) (mc_local c) (mc_rank c) (mc_slot c) * p_nb A"
    and "unat (p_recv A) + slot_no (p_R A) (p_M A) (mc_local c) (mc_rank c) (mc_slot c) * p_nb A + p_nb A \<le> unat (p_recv A) + recv_bytes A"
proof -
  have c: "mc_local c < p_L A" "mc_rank c < p_R A" "mc_slot c < p_M A" using assms(2) by (simp_all add: msg_ok_def)
  have a: "p_L A * p_R A * p_M A < 2 ^ 31" "unat (p_recv A) + recv_bytes A < 2 ^ 64" using assms(1) by (simp_all add: path_ok_def mult.assoc)
  show "unat (msg_slot_ptr (p_recv A) (p_R A) (p_M A) (p_nb A) c) =
      unat (p_recv A) + slot_no (p_R A) (p_M A) (mc_local c) (mc_rank c) (mc_slot c) * p_nb A"
    unfolding msg_slot_ptr_def by (rule dispatch_dst_ptr_nat [OF c a(1) _ a(2)]) (use c(1) in linarith)
  show "unat (p_recv A) + slot_no (p_R A) (p_M A) (mc_local c) (mc_rank c) (mc_slot c) * p_nb A + p_nb A \<le> unat (p_recv A) + recv_bytes A"
    by (rule slot_in_region [OF slot_no_less [OF c]]) simp
qed

lemma row_place:
  assumes "path_ok A" and "l < p_L A" "row < p_R A * p_M A"
  shows "unat (packed_row_ptr (p_packed A) (p_R A) (p_M A) (p_h A) l row) = unat (p_packed A) + row_no (p_R A) (p_M A) l row * (16 * p_h A)"
    and "unat (p_packed A) + row_no (p_R A) (p_M A) l row * (16 * p_h A) + 16 * p_h A \<le> unat (p_packed A) + packed_bytes A"
proof -
  have a: "p_L A * (p_R A * p_M A) < 2 ^ 31" "p_h A < 2 ^ 31" "unat (p_packed A) + packed_bytes A < 2 ^ 64"
    using assms(1) by (simp_all add: path_ok_def)
  show le: "unat (p_packed A) + row_no (p_R A) (p_M A) l row * (16 * p_h A) + 16 * p_h A \<le> unat (p_packed A) + packed_bytes A"
    by (rule slot_in_region [OF row_no_less [OF assms(2,3)]]) simp
  let ?i = "packed_x_idx (of_nat l) (of_nat (p_R A)) (of_nat (p_M A)) (of_nat row) (of_nat (p_h A))"
  have i: "unat ?i = row_no (p_R A) (p_M A) l row * p_h A" by (rule packed_x_idx_nat [OF assms(2,3) a(1,2)])
  have "16 * ?i = of_nat (16 * unat ?i)" by simp
  then have "packed_row_ptr (p_packed A) (p_R A) (p_M A) (p_h A) l row = p_packed A + of_nat (16 * unat ?i)"
    by (simp add: packed_row_ptr_def)
  also have "unat (p_packed A + of_nat (16 * unat ?i)) = unat (p_packed A) + 16 * unat ?i"
    by (rule unat_offset) (use le a(3) i in \<open>simp add: mult.left_commute\<close>)
  finally show "unat (packed_row_ptr (p_packed A) (p_R A) (p_M A) (p_h A) l row) = unat (p_packed A) + row_no (p_R A) (p_M A) l row * (16 * p_h A)"
    using i by (simp add: mult.left_commute)
qed

section \<open>The three phases\<close>

lemma distinct_sorted_wrt:
  assumes "distinct (map f xs)" and "\<And>x y. x \<in> set xs \<Longrightarrow> y \<in> set xs \<Longrightarrow> f x \<noteq> f y \<Longrightarrow> P x y"
  shows "sorted_wrt P xs"
  using assms
proof (induction xs)
  case (Cons x xs)
  have "P x y" if "y \<in> set xs" for y using that Cons.prems(1) by (intro Cons.prems(2)) auto
  then show ?case using Cons by simp
qed simp

lemma msg_okD:
  assumes "\<forall>x\<in>set cs. msg_ok A x" and "x \<in> set cs"
  shows "mc_local (fst x) < p_L A" "mc_rank (fst x) < p_R A" "mc_slot (fst x) < p_M A" "snd x < p_R A * p_M A"
    "msg_ok A (fst x, snd x)" "regions_apart (st_ptr (mc_item (fst x)), p_nb A) (p_recv A, recv_bytes A)"
  using bspec [OF assms] by (cases x; simp add: msg_ok_def)+

lemma aligned_pred: "16 dvd unat p \<Longrightarrow> holds_vectors d p n (\<lambda>k. the (ld_int4 d m p k)) m"
  using aligned_ld [of p d m] by (fastforce simp: holds_vectors_def)

text \<open>Jobs whose regions do not meet copy what was there before the first of them.\<close>

lemma jobs_deliver:
  assumes ok: "\<forall>x\<in>set cs. copy_ok (job x)"
    and away: "\<forall>x\<in>set cs. \<forall>y\<in>set cs. regions_apart (cj_src (job x), 16 * cj_vectors (job x)) (cj_dst (job y), 16 * cj_vectors (job y))"
    and sorted: "sorted_wrt (\<lambda>x y. regions_apart (cj_dst (job x), 16 * cj_vectors (job x)) (cj_dst (job y), 16 * cj_vectors (job y))) cs"
  shows "\<exists>m'. run_all (run_copy d) (map job cs) m = Some m' \<and>
    (\<forall>x\<in>set cs. \<forall>k<cj_vectors (job x). ld_int4 d m' (cj_dst (job x)) k = ld_int4 d m (cj_src (job x)) k)"
proof -
  let ?V = "\<lambda>j k. the (ld_int4 d m (cj_src j) k)"
  have pre: "holds_vectors d (cj_src (job x)) (cj_vectors (job x)) (?V (job x)) m" if "x \<in> set cs" for x
    using bspec [OF ok that] by (intro aligned_pred) (simp add: copy_ok_def regions_ok_def)
  have jobs: "\<forall>j\<in>set (map job cs). copy_ok j \<and> holds_vectors d (cj_src j) (cj_vectors j) (?V j) m"
    unfolding set_map ball_simps(9) using ok pre by blast
  have "\<forall>j\<in>set (map job cs). \<forall>j'\<in>set (map job cs). regions_apart (cj_src j, 16 * cj_vectors j) (cj_dst j', 16 * cj_vectors j')"
    unfolding set_map ball_simps(9) by (rule away)
  note copies.run_all_effect [OF jobs this]
  then obtain m' where "run_all (run_copy d) (map job cs) m = Some m'"
    and post: "\<forall>j\<in>set (map job cs). holds_vectors d (cj_dst j) (cj_vectors j) (?V j) m'"
    using sorted by (auto simp: sorted_wrt_map)
  moreover have "ld_int4 d m' (cj_dst (job x)) k = ld_int4 d m (cj_src (job x)) k" if "x \<in> set cs" "k < cj_vectors (job x)" for x k
    using bspec [OF post, of "job x"] pre [OF that(1)] that by (simp add: holds_vectors_def)
  ultimately show ?thesis by blast
qed

lemma sends_deliver:
  assumes A: "path_ok A" and msgs: "\<forall>x\<in>set cs. msg_ok A x" and items: "\<forall>x\<in>set cs. stage_ok threads (p_h A) (mc_item (fst x))"
    and dist: "distinct (map (\<lambda>x. (mc_local (fst x), mc_rank (fst x), mc_slot (fst x))) cs)"
  shows "\<exists>m2. run_all (run_copy d) (map (\<lambda>x. send_job (p_recv A) (p_R A) (p_M A) (p_nb A) (fst x)) cs) m1 = Some m2 \<and>
    (\<forall>x\<in>set cs. \<forall>k<Suc (p_h A). ld_int4 d m2 (msg_slot_ptr (p_recv A) (p_R A) (p_M A) (p_nb A) (fst x)) k =
      ld_int4 d m1 (st_ptr (mc_item (fst x))) k)"
proof -
  let ?job = "\<lambda>x. send_job (p_recv A) (p_R A) (p_M A) (p_nb A) (fst x)" and ?n = "Suc (p_h A)"
  have sel: "cj_vectors (?job x) = ?n" "cj_src (?job x) = st_ptr (mc_item (fst x))" "0 < cj_unroll (?job x)"
    "cj_dst (?job x) = msg_slot_ptr (p_recv A) (p_R A) (p_M A) (p_nb A) (fst x)" for x
    by (simp_all add: send_job_def)
  let ?no = "\<lambda>x. slot_no (p_R A) (p_M A) (mc_local (fst x)) (mc_rank (fst x)) (mc_slot (fst x))"
  have place: "unat (cj_dst (?job x)) = unat (p_recv A) + ?no x * p_nb A"
    "unat (cj_dst (?job x)) + p_nb A \<le> unat (p_recv A) + recv_bytes A" if "x \<in> set cs" for x
    using slot_place [OF A msg_okD(5) [OF msgs that]] unfolding sel(4) by simp_all
  have away: "regions_apart (st_ptr (mc_item (fst x)), p_nb A) (cj_dst (?job y), p_nb A)" if "x \<in> set cs" "y \<in> set cs" for x y
    using msg_okD(6) [OF msgs that(1)] place [OF that(2)] unfolding regions_apart.simps by linarith
  have ok: "copy_ok (?job x)" if x: "x \<in> set cs" for x
  proof -
    have s: "16 dvd unat (st_ptr (mc_item (fst x)))" "unat (st_ptr (mc_item (fst x))) + p_nb A < 2 ^ 64"
      using items x by (simp_all add: stage_ok_def del: mult_Suc_right)
    have "16 dvd unat (cj_dst (?job x))" unfolding place(1) [OF x] using A by (simp add: path_ok_def del: mult_Suc_right)
    moreover have "unat (cj_dst (?job x)) + p_nb A \<le> 2 ^ 64"
      using place(2) [OF x] A unfolding path_ok_def by linarith
    ultimately show ?thesis
      using s(1) less_imp_le [OF s(2)] away [OF x x] sel(3) unfolding copy_ok_def regions_ok_def sel(1,2) regions_apart.simps by blast
  qed
  have "sorted_wrt (\<lambda>x y. regions_apart (cj_dst (?job x), p_nb A) (cj_dst (?job y), p_nb A)) cs"
  proof (rule distinct_sorted_wrt [OF dist])
    fix x y assume xy: "x \<in> set cs" "y \<in> set cs"
      "(mc_local (fst x), mc_rank (fst x), mc_slot (fst x)) \<noteq> (mc_local (fst y), mc_rank (fst y), mc_slot (fst y))"
    then have "?no x \<noteq> ?no y"
      using slot_no_inj [OF msg_okD(2) [OF msgs xy(1)] msg_okD(2) [OF msgs xy(2)] msg_okD(3) [OF msgs xy(1)] msg_okD(3) [OF msgs xy(2)]]
      by simp
    then show "regions_apart (cj_dst (?job x), p_nb A) (cj_dst (?job y), p_nb A)"
      unfolding regions_apart.simps place(1) [OF xy(1)] place(1) [OF xy(2)] by (rule disjoint_slots)
  qed
  from jobs_deliver [of cs ?job, unfolded sel(1), OF _ _ this] show ?thesis
    using ok away unfolding sel(1,2,4) by blast
qed

lemma recvs_deliver:
  assumes A: "path_ok A" and msgs: "\<forall>x\<in>set cs. msg_ok A x" and dist: "distinct (map (\<lambda>x. (mc_local (fst x), snd x)) cs)"
  shows "\<exists>m3. run_all (run_copy d) (map (recv_job (p_packed A) (p_recv A) (p_R A) (p_M A) (p_nb A) (p_h A)) cs) m2 = Some m3 \<and>
    (\<forall>x\<in>set cs. \<forall>k<p_h A. ld_int4 d m3 (packed_row_ptr (p_packed A) (p_R A) (p_M A) (p_h A) (mc_local (fst x)) (snd x)) k =
      ld_int4 d m2 (msg_slot_ptr (p_recv A) (p_R A) (p_M A) (p_nb A) (fst x)) (Suc k))"
proof -
  let ?job = "recv_job (p_packed A) (p_recv A) (p_R A) (p_M A) (p_nb A) (p_h A)" and ?n = "16 * p_h A"
  let ?slot = "\<lambda>x. msg_slot_ptr (p_recv A) (p_R A) (p_M A) (p_nb A) (fst x)"
  have sel: "cj_vectors (?job x) = p_h A" "cj_src (?job x) = ?slot x + 16" "0 < cj_unroll (?job x)"
    "cj_dst (?job x) = packed_row_ptr (p_packed A) (p_R A) (p_M A) (p_h A) (mc_local (fst x)) (snd x)" for x
    by (simp_all add: recv_job_def split: prod.splits)
  let ?no = "\<lambda>x. row_no (p_R A) (p_M A) (mc_local (fst x)) (snd x)"
  have m: "mc_local (fst x) < p_L A" "snd x < p_R A * p_M A" "msg_ok A (fst x, snd x)" if "x \<in> set cs" for x
    using msg_okD [OF msgs that] by simp_all
  have dst: "unat (cj_dst (?job x)) = unat (p_packed A) + ?no x * ?n"
    "unat (cj_dst (?job x)) + ?n \<le> unat (p_packed A) + packed_bytes A" if "x \<in> set cs" for x
    using row_place [OF A m(1,2) [OF that]] unfolding sel(4) by simp_all
  have top: "unat (p_recv A) + recv_bytes A < 2 ^ 64" "unat (p_packed A) + packed_bytes A < 2 ^ 64" using A by (simp_all add: path_ok_def)
  have src: "unat (cj_src (?job x)) = unat (?slot x) + 16" "unat (p_recv A) \<le> unat (?slot x)" "16 dvd unat (?slot x)"
    "unat (?slot x) + 16 + ?n \<le> unat (p_recv A) + recv_bytes A" if "x \<in> set cs" for x
  proof -
    note s = slot_place [OF A m(3) [OF that]]
    show "unat (p_recv A) \<le> unat (?slot x)" "unat (?slot x) + 16 + ?n \<le> unat (p_recv A) + recv_bytes A" using s by simp_all
    then show "unat (cj_src (?job x)) = unat (?slot x) + 16" unfolding sel(2) using unat_offset [of "?slot x" 16] top(1) by simp
    show "16 dvd unat (?slot x)" unfolding s(1) using A by (simp add: path_ok_def del: mult_Suc_right)
  qed
  have away: "regions_apart (cj_src (?job x), ?n) (cj_dst (?job y), ?n)" if "x \<in> set cs" "y \<in> set cs" for x y
  proof -
    have "regions_apart (p_recv A, recv_bytes A) (p_packed A, packed_bytes A)" using A by (simp add: path_ok_def)
    then show ?thesis using src(1,2,4) [OF that(1)] dst [OF that(2)] unfolding regions_apart.simps by linarith
  qed
  have ok: "copy_ok (?job x)" if x: "x \<in> set cs" for x
  proof -
    have "16 dvd unat (cj_dst (?job x))" unfolding dst(1) [OF x] using A by (simp add: path_ok_def)
    moreover have "16 dvd unat (cj_src (?job x))" unfolding src(1) [OF x] using src(3) [OF x] by simp
    moreover have "unat (cj_dst (?job x)) + ?n \<le> 2 ^ 64" "unat (cj_src (?job x)) + ?n \<le> 2 ^ 64"
      using dst(2) [OF x] src(1,4) [OF x] top by linarith+
    ultimately show ?thesis
      using away [OF x x] sel(3) unfolding copy_ok_def regions_ok_def sel(1) regions_apart.simps by blast
  qed
  have "sorted_wrt (\<lambda>x y. regions_apart (cj_dst (?job x), ?n) (cj_dst (?job y), ?n)) cs"
  proof (rule distinct_sorted_wrt [OF dist])
    fix x y assume xy: "x \<in> set cs" "y \<in> set cs" "(mc_local (fst x), snd x) \<noteq> (mc_local (fst y), snd y)"
    then have "?no x \<noteq> ?no y"
      using m(2) mixed_radix_inj [of "snd x" "p_R A * p_M A" "snd y" "mc_local (fst x)" "mc_local (fst y)"] by (simp add: row_no_def)
    then show "regions_apart (cj_dst (?job x), ?n) (cj_dst (?job y), ?n)"
      unfolding regions_apart.simps dst(1) [OF xy(1)] dst(1) [OF xy(2)] by (rule disjoint_slots)
  qed
  from jobs_deliver [of cs ?job, unfolded sel(1), OF _ _ this] obtain m3 where
    "run_all (run_copy d) (map ?job cs) m2 = Some m3"
    "\<forall>x\<in>set cs. \<forall>k<p_h A. ld_int4 d m3 (cj_dst (?job x)) k = ld_int4 d m2 (cj_src (?job x)) k"
    using ok away by blast
  moreover have "ld_int4 d m2 (?slot x + 16) k = ld_int4 d m2 (?slot x) (Suc k)" for x k by (simp add: ld_int4_def algebra_simps)
  ultimately show ?thesis unfolding sel(2,4) by auto
qed

lemma staged_all:
  assumes "\<forall>t\<in>set toks. stage_ok threads h t" and "sorted_wrt (\<lambda>t t'. regions_apart (st_ptr t, 16 * Suc h) (st_ptr t', 16 * Suc h)) toks"
  shows "\<exists>m1. run_all (\<lambda>t. stage_message (st_ptr t) (st_token t) (st_row t) threads h) toks m = Some m1 \<and>
    (\<forall>t\<in>set toks. staged_at d h (st_token t) (st_row t) (st_ptr t) m1)"
proof -
  have "regions_apart (0, 0) (p, n)" for p n by simp
  then have "\<forall>t\<in>set toks. \<forall>t'\<in>set toks. regions_apart (0, 0) (st_ptr t', 16 * Suc h)" by blast
  from staging.run_all_effect [OF _ this assms(2)] assms(1) show ?thesis by blast
qed

lemma bf16_message: "8 dvd H \<Longrightarrow> num_bytes_per_msg False H = 16 * Suc (H div 8)"
  by (auto simp: num_bytes_per_msg_def)

section \<open>Property\<close>

text \<open>
  C19. Over a memory of bytes, in BF16: when the sending blocks have staged the tokens, the messages have been carried to
  their slots (by warps or by the NIC, in any order) and the receive phase has copied them to packed rows of
  their own, then each of these accesses could be made and every packed row holds the row of the token that was
  staged for it, and the word in front of it that the receive phase reads is the token's index.
\<close>

theorem tokens_through_memory:
  assumes "path_ok A" and "\<forall>x\<in>set cs. msg_ok A x"
    and "distinct (map (\<lambda>x. (mc_local (fst x), mc_rank (fst x), mc_slot (fst x))) cs)"
    and "distinct (map (\<lambda>x. (mc_local (fst x), snd x)) cs)"
    and "\<forall>x\<in>set cs. mc_item (fst x) \<in> set toks" and "\<forall>t\<in>set toks. stage_ok threads (p_h A) t"
    and "sorted_wrt (\<lambda>t t'. regions_apart (st_ptr t, p_nb A) (st_ptr t', p_nb A)) toks"
  shows "\<exists>m1 m2 m3. run_all (\<lambda>t. stage_message (st_ptr t) (st_token t) (st_row t) threads (p_h A)) toks m = Some m1 \<and>
    run_all (run_copy d) (map (\<lambda>x. send_job (p_recv A) (p_R A) (p_M A) (p_nb A) (fst x)) cs) m1 = Some m2 \<and>
    run_all (run_copy d) (map (recv_job (p_packed A) (p_recv A) (p_R A) (p_M A) (p_nb A) (p_h A)) cs) m2 = Some m3 \<and>
    (\<forall>x\<in>set cs. recv_src_info d m2 (msg_slot_ptr (p_recv A) (p_R A) (p_M A) (p_nb A) (fst x)) = Some [st_token (mc_item (fst x))] \<and>
      (\<forall>k<p_h A. ld_int4 d m3 (packed_row_ptr (p_packed A) (p_R A) (p_M A) (p_h A) (mc_local (fst x)) (snd x)) k =
        Some (st_row (mc_item (fst x)) k)))"
proof -
  obtain m1 where m1: "run_all (\<lambda>t. stage_message (st_ptr t) (st_token t) (st_row t) threads (p_h A)) toks m = Some m1"
    "\<forall>t\<in>set toks. staged_at d (p_h A) (st_token t) (st_row t) (st_ptr t) m1"
    using staged_all [OF assms(6,7)] by blast
  have items: "\<forall>x\<in>set cs. stage_ok threads (p_h A) (mc_item (fst x))" using assms(5,6) by blast
  obtain m2 where m2: "run_all (run_copy d) (map (\<lambda>x. send_job (p_recv A) (p_R A) (p_M A) (p_nb A) (fst x)) cs) m1 = Some m2"
    "\<forall>x\<in>set cs. \<forall>k<Suc (p_h A). ld_int4 d m2 (msg_slot_ptr (p_recv A) (p_R A) (p_M A) (p_nb A) (fst x)) k =
      ld_int4 d m1 (st_ptr (mc_item (fst x))) k"
    using sends_deliver [OF assms(1,2) items assms(3)] by blast
  obtain m3 where m3: "run_all (run_copy d) (map (recv_job (p_packed A) (p_recv A) (p_R A) (p_M A) (p_nb A) (p_h A)) cs) m2 = Some m3"
    "\<forall>x\<in>set cs. \<forall>k<p_h A. ld_int4 d m3 (packed_row_ptr (p_packed A) (p_R A) (p_M A) (p_h A) (mc_local (fst x)) (snd x)) k =
      ld_int4 d m2 (msg_slot_ptr (p_recv A) (p_R A) (p_M A) (p_nb A) (fst x)) (Suc k)"
    using recvs_deliver [OF assms(1,2,4)] by blast
  have nc: "vec_len (ld_nc_global_int d) = 1" "elem_bytes (ld_nc_global_int d) = 4"
    by (simp_all add: ld_nc_global_int_def LD_NC_FUNC_def)
  have "recv_src_info d m2 (msg_slot_ptr (p_recv A) (p_R A) (p_M A) (p_nb A) (fst x)) = Some [st_token (mc_item (fst x))] \<and>
      (\<forall>k<p_h A. ld_int4 d m3 (packed_row_ptr (p_packed A) (p_R A) (p_M A) (p_h A) (mc_local (fst x)) (snd x)) k =
        Some (st_row (mc_item (fst x)) k))" if x: "x \<in> set cs" for x
  proof -
    have st: "staged_at d (p_h A) (st_token (mc_item (fst x))) (st_row (mc_item (fst x))) (st_ptr (mc_item (fst x))) m1"
      using m1(2) assms(5) x by blast
    then obtain v where v: "ld_int4 d m1 (st_ptr (mc_item (fst x))) 0 = Some v" "hd v = st_token (mc_item (fst x))"
      by (auto simp: staged_at_def)
    have "ld_int4 d m2 (msg_slot_ptr (p_recv A) (p_R A) (p_M A) (p_nb A) (fst x)) 0 = Some v"
      using bspec [OF m2(2) x] v(1) by simp
    from ld_int_of_vector [OF this nc] show ?thesis
      using bspec [OF m2(2) x] bspec [OF m3(2) x] st v(2) by (simp add: recv_src_info_def staged_at_def)
  qed
  then show ?thesis using m1(1) m2(1) m3(1) by blast
qed

text \<open>Two tokens for one expert, one message by the NIC and one by a warp, whose rows end up in the other order.\<close>

definition demo_path :: path where
  "demo_path = \<lparr>p_L = 2, p_R = 2, p_M = 8, p_h = 256, p_recv = 1048576, p_packed = 16777216\<rparr>"

definition demo_staged :: "staged list" where
  "demo_staged = [\<lparr>st_ptr = 65536, st_token = 5, st_row = \<lambda>k. [of_nat k, 1, 2, 3]\<rparr>,
     \<lparr>st_ptr = 131072, st_token = 6, st_row = \<lambda>k. [of_nat k, 7, 8, 9]\<rparr>]"

definition demo_msgs :: "(msg_copy \<times> nat) list" where
  "demo_msgs = [(\<lparr>mc_local = 1, mc_rank = 0, mc_slot = 3, mc_item = demo_staged ! 0, mc_nic = True\<rparr>, 1),
     (\<lparr>mc_local = 1, mc_rank = 0, mc_slot = 4, mc_item = demo_staged ! 1, mc_nic = False\<rparr>, 0)]"

theorem tokens_through_memory_witness:
  "\<exists>m1 m2 m3. run_all (\<lambda>t. stage_message (st_ptr t) (st_token t) (st_row t) [0..<992] 256) demo_staged (\<lambda>a. ucast a) = Some m1 \<and>
     run_all (run_copy False) (map (\<lambda>x. send_job 1048576 2 8 4112 (fst x)) demo_msgs) m1 = Some m2 \<and>
     run_all (run_copy False) (map (recv_job 16777216 1048576 2 8 4112 256) demo_msgs) m2 = Some m3 \<and>
     recv_src_info False m2 (dispatch_dst_ptr 1048576 1 2 8 0 4 4112) = Some [6] \<and>
     ld_int4 False m3 (packed_row_ptr 16777216 2 8 256 1 0) 9 = Some [9, 7, 8, 9]"
proof -
  let ?A = demo_path
  note defs = demo_path_def demo_msgs_def demo_staged_def
  have A: "path_ok ?A" by (simp add: path_ok_def defs)
  have msgs: "\<forall>x\<in>set demo_msgs. msg_ok ?A x" by (simp add: msg_ok_def defs)
  have st: "\<forall>t\<in>set demo_staged. stage_ok [0..<992] (p_h ?A) t" by (auto simp: stage_ok_def defs)
  have ap: "sorted_wrt (\<lambda>t t'. regions_apart (st_ptr t, p_nb ?A) (st_ptr t', p_nb ?A)) demo_staged" by (simp add: defs)
  have keys: "distinct (map (\<lambda>x. (mc_local (fst x), mc_rank (fst x), mc_slot (fst x))) demo_msgs)"
    "distinct (map (\<lambda>x. (mc_local (fst x), snd x)) demo_msgs)" "\<forall>x\<in>set demo_msgs. mc_item (fst x) \<in> set demo_staged"
    by (simp_all add: defs)
  have sel: "p_R ?A = 2" "p_M ?A = 8" "p_h ?A = 256" "p_recv ?A = 1048576" "p_packed ?A = 16777216" by (simp_all add: demo_path_def)
  let ?y = "demo_msgs ! 1"
  have y: "?y \<in> set demo_msgs" by (simp add: demo_msgs_def)
  have nb: "16 * Suc 256 = (4112 :: nat)" by simp
  obtain m1 m2 m3 where m: "run_all (\<lambda>t. stage_message (st_ptr t) (st_token t) (st_row t) [0..<992] 256) demo_staged (\<lambda>a. ucast a) = Some m1"
    "run_all (run_copy False) (map (\<lambda>x. send_job 1048576 2 8 4112 (fst x)) demo_msgs) m1 = Some m2"
    "run_all (run_copy False) (map (recv_job 16777216 1048576 2 8 4112 256) demo_msgs) m2 = Some m3"
    and rows: "\<forall>x\<in>set demo_msgs. recv_src_info False m2 (msg_slot_ptr 1048576 2 8 4112 (fst x)) = Some [st_token (mc_item (fst x))] \<and>
      (\<forall>k<256. ld_int4 False m3 (packed_row_ptr 16777216 2 8 256 (mc_local (fst x)) (snd x)) k = Some (st_row (mc_item (fst x)) k))"
    using tokens_through_memory [OF A msgs keys st ap, of "\<lambda>a. ucast a" False] unfolding sel nb by (elim exE conjE)
  have "recv_src_info False m2 (dispatch_dst_ptr 1048576 1 2 8 0 4 4112) = Some [6]"
    using bspec [OF rows y] by (simp add: msg_slot_ptr_def demo_msgs_def demo_staged_def)
  moreover have "ld_int4 False m3 (packed_row_ptr 16777216 2 8 256 1 0) 9 = Some [9, 7, 8, 9]"
    using bspec [OF rows y] by (simp add: demo_msgs_def demo_staged_def)
  ultimately show ?thesis using m by (intro exI [of _ m1] exI [of _ m2] exI [of _ m3] conjI)
qed

end
