(* ===== verification/Async_Copy.thy ===== *)
theory Async_Copy
  imports Device_Memory Step_Systems
begin

text \<open>
  The rest of the wrappers of \<^verbatim>\<open>include/ep_utils.cuh\<close>: fences, the templates that choose a load or store by the
  size of a type, the broadcast of a lane, and the asynchronous bulk copies with the \<^verbatim>\<open>mbarrier\<close> that counts
  their bytes. A bulk copy is a request that the copy engine serves at some later step; a wait takes the
  list of what its tries see. No kernel calls the asynchronous wrappers; the lemmas say what they give a caller.
\<close>

section \<open>Fences\<close>

datatype ptx_fence = Fence_acq_rel ptx_scope | Fence_proxy_async | Fence_mbarrier_init

definition memory_fence :: ptx_fence where "memory_fence = Fence_acq_rel Sys"
definition memory_fence_gpu :: ptx_fence where "memory_fence_gpu = Fence_acq_rel Gpu"
definition memory_fence_cta :: ptx_fence where "memory_fence_cta = Fence_acq_rel Cta"
definition fence_view_async_shared :: ptx_fence where "fence_view_async_shared = Fence_proxy_async"
definition fence_barrier_init :: ptx_fence where "fence_barrier_init = Fence_mbarrier_init"
definition tma_store_fence :: ptx_fence where "tma_store_fence = Fence_proxy_async"

text \<open>A fence before a strong store makes a release of the two, in the smaller of their scopes.\<close>

fun fence_releases :: "ptx_fence \<Rightarrow> ptx_access \<Rightarrow> thread_loc \<Rightarrow> thread_loc \<Rightarrow> bool" where
  "fence_releases (Fence_acq_rel scope) I t u \<longleftrightarrow>
     ptx_order I \<in> {Volatile, Relaxed, Release} \<and> covers scope t u \<and> covers (ptx_scope I) t u"
| "fence_releases _ _ _ _ \<longleftrightarrow> False"

lemma fence_scopes:
  "fence_releases memory_fence st_relaxed_sys_global t u"
  "fence_releases memory_fence_gpu st_relaxed_sys_global t u \<longleftrightarrow> device t = device u"
  "fence_releases memory_fence st_na_relaxed_int t u \<longleftrightarrow> device t = device u"
  by (auto simp: memory_fence_def memory_fence_gpu_def st_relaxed_sys_global_def st_na_relaxed_int_def)

section \<open>The templates for other types\<close>

text \<open>The types with a wrapper of their own, and any other type by its size.\<close>

datatype ctype = UInt8 | Int8 | Int16 | Int32 | Int64 | Float32 | Vec2 | Vec4 | Sized_type nat

fun sizeof_ctype :: "ctype \<Rightarrow> nat" where
  "sizeof_ctype UInt8 = 1" | "sizeof_ctype Int8 = 1" | "sizeof_ctype Int16 = 2" | "sizeof_ctype Int32 = 4"
| "sizeof_ctype Int64 = 8" | "sizeof_ctype Float32 = 4" | "sizeof_ctype Vec2 = 8" | "sizeof_ctype Vec4 = 16"
| "sizeof_ctype (Sized_type n) = n"

definition vec_t :: "nat \<Rightarrow> ctype option" where
  "vec_t kBytes = (if kBytes = 1 then Some Int8 else if kBytes = 2 then Some Int16 else if kBytes = 4 then Some Int32
     else if kBytes = 8 then Some Int64 else if kBytes = 16 then Some Vec4 else None)"

fun ld_nc_special :: "bool \<Rightarrow> ctype \<Rightarrow> ptx_access option" where
  "ld_nc_special disable UInt8 = Some (ld_nc_global_u8 disable)"
| "ld_nc_special disable Int32 = Some (ld_nc_global_int disable)"
| "ld_nc_special disable Int64 = Some (ld_nc_global_i64 disable)"
| "ld_nc_special disable Float32 = Some (ld_nc_global_float disable)"
| "ld_nc_special disable Vec2 = Some (ld_nc_global_int2 disable)"
| "ld_nc_special disable Vec4 = Some (ld_nc_global_int4 disable)"
| "ld_nc_special disable _ = None"

fun st_na_special :: "ctype \<Rightarrow> ptx_access option" where
  "st_na_special Int32 = Some st_na_global_int"
| "st_na_special Int64 = Some st_na_global_i64"
| "st_na_special Float32 = Some st_na_global_float"
| "st_na_special Vec4 = Some st_na_global_int4"
| "st_na_special _ = None"

text \<open>The general template calls itself at the type of \<^verbatim>\<open>VecInt\<close> for the size.\<close>

partial_function (option) ld_nc_global :: "bool \<Rightarrow> ctype \<Rightarrow> ptx_access option" where
  "ld_nc_global disable ty = (case ld_nc_special disable ty of Some I \<Rightarrow> Some I
     | None \<Rightarrow> (case vec_t (sizeof_ctype ty) of None \<Rightarrow> None | Some v \<Rightarrow> ld_nc_global disable v))"

partial_function (option) st_na_global :: "ctype \<Rightarrow> ptx_access option" where
  "st_na_global ty = (case st_na_special ty of Some I \<Rightarrow> Some I
     | None \<Rightarrow> (case vec_t (sizeof_ctype ty) of None \<Rightarrow> None | Some v \<Rightarrow> st_na_global v))"

text \<open>For one or two bytes \<^verbatim>\<open>VecInt\<close> gives a type without a wrapper, whose template is the call itself.\<close>

lemma small_types_diverge: "ld_nc_global disable Int8 = None" "ld_nc_global disable Int16 = None"
  "st_na_global Int8 = None" "st_na_global Int16 = None"
proof -
  have loop: "ld_nc_global disable ty = Some I \<Longrightarrow> ty \<noteq> Int8 \<and> ty \<noteq> Int16" for ty I
    by (erule ld_nc_global.raw_induct [where P = "\<lambda>_ ty _. ty \<noteq> Int8 \<and> ty \<noteq> Int16", rotated])
      (auto simp: vec_t_def split: option.splits if_splits)
  have loop': "st_na_global ty = Some I \<Longrightarrow> ty \<noteq> Int8 \<and> ty \<noteq> Int16" for ty I
    by (erule st_na_global.raw_induct [where P = "\<lambda>ty _. ty \<noteq> Int8 \<and> ty \<noteq> Int16", rotated])
      (auto simp: vec_t_def split: option.splits if_splits)
  show "ld_nc_global disable Int8 = None" "ld_nc_global disable Int16 = None"
    "st_na_global Int8 = None" "st_na_global Int16 = None"
    using loop loop' by (metis not_Some_eq)+
qed

lemma st_na_global_iff: "st_na_global ty \<noteq> None \<longleftrightarrow> sizeof_ctype ty \<in> {4, 8, 16}"
proof -
  have vecs: "st_na_global Int32 = Some st_na_global_int" "st_na_global Int64 = Some st_na_global_i64"
    "st_na_global Vec4 = Some st_na_global_int4"
    by (simp_all add: st_na_global.simps)
  show ?thesis
    by (cases ty; subst st_na_global.simps) (auto simp: vecs small_types_diverge vec_t_def)
qed

lemma st_na_global_width: "st_na_global ty = Some I \<Longrightarrow> width I = sizeof_ctype ty"
proof -
  have vecs: "st_na_global Int32 = Some st_na_global_int" "st_na_global Int64 = Some st_na_global_i64"
    "st_na_global Vec4 = Some st_na_global_int4"
    by (simp_all add: st_na_global.simps)
  assume "st_na_global ty = Some I"
  then show ?thesis
    by (cases ty; subst (asm) st_na_global.simps)
      (auto simp: vecs small_types_diverge vec_t_def width_def ST_NA_FUNC_def st_na_global_int_def st_na_global_i64_def
        st_na_global_float_def st_na_global_int4_def split: if_splits)
qed

section \<open>Lanes\<close>

definition get_lane_id :: "nat \<Rightarrow> nat" where
  "get_lane_id thread_id = thread_id mod 32"

definition shfl_sync :: "(nat \<Rightarrow> 'a) \<Rightarrow> nat \<Rightarrow> nat \<Rightarrow> 'a" where
  "shfl_sync reg src_lane lane = reg (src_lane mod 32)"

text \<open>A value is a list of \<^verbatim>\<open>int\<close>s, exchanged one by one.\<close>

definition broadcast :: "nat \<Rightarrow> (nat \<Rightarrow> cint list) \<Rightarrow> nat \<Rightarrow> nat \<Rightarrow> cint list option" where
  "broadcast bytes ptr src_lane_idx lane =
     (if bytes mod 4 = 0 then Some (map (\<lambda>i. shfl_sync (\<lambda>l. ptr l ! i) src_lane_idx lane) [0..<bytes div 4]) else None)"

lemma broadcast_eq:
  assumes "bytes = 4 * length (ptr src)" and "src < 32"
  shows "broadcast bytes ptr src lane = Some (ptr src)"
  using assms by (auto simp: broadcast_def shfl_sync_def intro!: nth_equalityI)

section \<open>Transaction barriers\<close>

text \<open>
  An \<^verbatim>\<open>mbarrier\<close>: its phase, the arrivals pending in it and those expected of the next one, and the bytes
  expected and not yet copied. A phase is complete when nothing is pending and no byte is missing.
\<close>

record mbar =
  mb_phase :: nat
  mb_pending :: nat
  mb_expected :: nat
  mb_tx :: int

definition mbar_settle :: "mbar \<Rightarrow> mbar" where
  "mbar_settle b = (if mb_pending b = 0 \<and> mb_tx b = 0
     then b\<lparr>mb_phase := Suc (mb_phase b), mb_pending := mb_expected b\<rparr> else b)"

definition mbarrier_init :: "u32 \<Rightarrow> mbar" where
  "mbarrier_init arrive_count = \<lparr>mb_phase = 0, mb_pending = unat arrive_count, mb_expected = unat arrive_count, mb_tx = 0\<rparr>"

definition mbarrier_arrive_and_expect_tx :: "cint \<Rightarrow> mbar \<Rightarrow> mbar" where
  "mbarrier_arrive_and_expect_tx num_bytes b = mbar_settle (b\<lparr>mb_tx := mb_tx b + sint num_bytes, mb_pending := mb_pending b - 1\<rparr>)"

definition complete_tx :: "nat \<Rightarrow> mbar \<Rightarrow> mbar" where
  "complete_tx n b = mbar_settle (b\<lparr>mb_tx := mb_tx b - int n\<rparr>)"

text \<open>A try succeeds when the phase of the given parity is complete.\<close>

definition try_wait_parity :: "u32 \<Rightarrow> mbar \<Rightarrow> bool" where
  "try_wait_parity phase b \<longleftrightarrow> (odd (mb_phase b) \<longleftrightarrow> \<not> bit phase 0)"

fun mbarrier_wait :: "mbar list \<Rightarrow> u32 \<Rightarrow> u32 option" where
  "mbarrier_wait [] phase = None"
| "mbarrier_wait (b # bs) phase = (if try_wait_parity phase b then Some (phase XOR 1) else mbarrier_wait bs phase)"

lemma mbarrier_wait_iff: "mbarrier_wait bs phase = (if \<exists>b\<in>set bs. try_wait_parity phase b then Some (phase XOR 1) else None)"
  by (induction bs) auto

lemma phase_flips: "bit (phase XOR 1) 0 \<longleftrightarrow> \<not> bit phase 0" for phase :: u32
  by (simp add: bit_simps)

section \<open>Bulk copies\<close>

record bulk_load =
  bl_smem :: u64
  bl_gmem :: u64
  bl_bytes :: nat
  bl_hint :: u64

text \<open>A store is a group of its own: the bytes once they are read, and whether they are written.\<close>

record bulk_store =
  bs_smem :: u64
  bs_gmem :: u64
  bs_bytes :: nat
  bs_hint :: u64
  bs_data :: "u8 list option"
  bs_written :: bool

record copy_state =
  smem :: memory
  gmem :: memory
  barrier :: mbar
  loads :: "bulk_load list"
  groups :: "bulk_store list"

definition kEvictFirst :: u64 where "kEvictFirst = 0x12f0000000000000"
definition kEvictNormal :: u64 where "kEvictNormal = 0x1000000000000000"

definition bulk_aligned :: "u64 \<Rightarrow> u64 \<Rightarrow> cint \<Rightarrow> bool" where
  "bulk_aligned a b num_bytes \<longleftrightarrow> 16 dvd unat a \<and> 16 dvd unat b \<and> 0 \<le> sint num_bytes \<and> 16 dvd unat num_bytes"

definition tma_load_1d :: "u64 \<Rightarrow> u64 \<Rightarrow> cint \<Rightarrow> bool \<Rightarrow> copy_state \<Rightarrow> copy_state option" where
  "tma_load_1d smem_ptr gmem_ptr num_bytes evict_first s =
     (if bulk_aligned smem_ptr gmem_ptr num_bytes
      then Some (s\<lparr>loads := loads s @ [\<lparr>bl_smem = smem_ptr, bl_gmem = gmem_ptr, bl_bytes = unat num_bytes,
        bl_hint = (if evict_first then kEvictFirst else kEvictNormal)\<rparr>]\<rparr>)
      else None)"

definition tma_store_1d :: "u64 \<Rightarrow> u64 \<Rightarrow> cint \<Rightarrow> bool \<Rightarrow> copy_state \<Rightarrow> copy_state option" where
  "tma_store_1d smem_ptr gmem_ptr num_bytes evict_first s =
     (if bulk_aligned smem_ptr gmem_ptr num_bytes
      then Some (s\<lparr>groups := groups s @ [\<lparr>bs_smem = smem_ptr, bs_gmem = gmem_ptr, bs_bytes = unat num_bytes,
        bs_hint = (if evict_first then kEvictFirst else kEvictNormal), bs_data = None, bs_written = False\<rparr>]\<rparr>)
      else None)"

text \<open>The wait for the stores ends when all groups but the last \<open>N\<close> have read their bytes.\<close>

definition tma_store_wait :: "nat \<Rightarrow> copy_state \<Rightarrow> bool" where
  "tma_store_wait N s \<longleftrightarrow> (\<forall>i < length (groups s) - N. bs_data (groups s ! i) \<noteq> None)"

text \<open>The steps of the copy engine, in any order.\<close>

inductive engine_step :: "copy_state \<Rightarrow> copy_state \<Rightarrow> bool" where
  serve_load: "i < length (loads s) \<Longrightarrow> L = loads s ! i \<Longrightarrow>
    engine_step s (s\<lparr>smem := write_bytes (smem s) (bl_smem L) (read_bytes (gmem s) (bl_gmem L) (bl_bytes L)),
      loads := take i (loads s) @ drop (Suc i) (loads s), barrier := complete_tx (bl_bytes L) (barrier s)\<rparr>)"
| read_group: "i < length (groups s) \<Longrightarrow> G = groups s ! i \<Longrightarrow> bs_data G = None \<Longrightarrow>
    engine_step s (s\<lparr>groups := (groups s)[i := G\<lparr>bs_data := Some (read_bytes (smem s) (bs_smem G) (bs_bytes G))\<rparr>]\<rparr>)"
| write_group: "i < length (groups s) \<Longrightarrow> G = groups s ! i \<Longrightarrow> bs_data G = Some bytes \<Longrightarrow> \<not> bs_written G \<Longrightarrow>
    engine_step s (s\<lparr>gmem := write_bytes (gmem s) (bs_gmem G) bytes, groups := (groups s)[i := G\<lparr>bs_written := True\<rparr>]\<rparr>)"

section \<open>What the waits give\<close>

text \<open>A barrier of one thread that has used it for \<open>k\<close> rounds.\<close>

definition idle_bar :: "nat \<Rightarrow> mbar" where
  "idle_bar k = \<lparr>mb_phase = k, mb_pending = 1, mb_expected = 1, mb_tx = 0\<rparr>"

lemma mbarrier_init_idle: "mbarrier_init 1 = idle_bar 0"
  by (simp add: mbarrier_init_def idle_bar_def)

lemma armed_bar:
  assumes "0 < sint n"
  shows "mbarrier_arrive_and_expect_tx n (idle_bar k) = \<lparr>mb_phase = k, mb_pending = 0, mb_expected = 1, mb_tx = sint n\<rparr>"
  using assms by (simp add: mbarrier_arrive_and_expect_tx_def idle_bar_def mbar_settle_def)

text \<open>
  One round of a load: arrive and expect the bytes, start the copy, wait. When a try of the wait succeeds the
  bytes are in shared memory, nothing is on its way, and the barrier and the parity are those of the next
  round.
\<close>

lemma tma_load_round:
  assumes n: "0 < sint n" and bar: "barrier s = mbarrier_arrive_and_expect_tx n (idle_bar k)" and idle: "loads s = []" "groups s = []"
    and start: "tma_load_1d p q n ev s = Some s1" and run: "engine_step\<^sup>*\<^sup>* s1 s2"
    and parity: "bit phase 0 \<longleftrightarrow> odd k" and woken: "mbarrier_wait bs phase = Some phase'" "set bs \<subseteq> {barrier s2}"
  shows "read_bytes (smem s2) p (unat n) = read_bytes (gmem s) q (unat n)" and "gmem s2 = gmem s"
    and "loads s2 = [] \<and> groups s2 = []" and "barrier s2 = idle_bar (Suc k)" and "bit phase' 0 \<longleftrightarrow> odd (Suc k)"
proof -
  let ?served = "s1\<lparr>smem := write_bytes (smem s1) p (read_bytes (gmem s1) q (unat n)), loads := [], barrier := idle_bar (Suc k)\<rparr>"
  have bar1: "barrier s = \<lparr>mb_phase = k, mb_pending = 0, mb_expected = 1, mb_tx = sint n\<rparr>" using armed_bar [OF n] bar by simp
  have s1: "loads s1 = [\<lparr>bl_smem = p, bl_gmem = q, bl_bytes = unat n, bl_hint = (if ev then kEvictFirst else kEvictNormal)\<rparr>]"
    "groups s1 = []" "barrier s1 = barrier s" "gmem s1 = gmem s" "smem s1 = smem s"
    using start idle by (auto simp: tma_load_1d_def split: if_splits)
  have "sint n < 2 ^ 31" using sint_lt [of n] by simp
  then have n': "int (unat n) = sint n" using n by (simp add: uint_sint take_bit_int_eq_self)
  have "s2 = s1 \<or> s2 = ?served"
    using run
  proof (induction rule: rtranclp_induct)
    case (step y z)
    from step.hyps(2) step.IH show ?case
      by cases (use s1 bar1 n' in \<open>auto simp: complete_tx_def mbar_settle_def idle_bar_def\<close>)
  qed simp
  moreover have "try_wait_parity phase (barrier s2)" using woken by (auto simp: mbarrier_wait_iff split: if_splits)
  then have "mb_phase (barrier s2) \<noteq> k" using parity by (auto simp: try_wait_parity_def)
  then have "s2 \<noteq> s1" using s1(3) bar1 by auto
  ultimately have s2: "s2 = ?served" by blast
  have "unat n < 2 ^ LENGTH(32)" by (rule unsigned_less)
  then have "unat n < 2 ^ 64" by simp
  then show "read_bytes (smem s2) p (unat n) = read_bytes (gmem s) q (unat n)"
    using read_write_same [of "read_bytes (gmem s1) q (unat n)" 0 "unat n" "smem s1" p] by (simp add: s2 s1(4))
  show "gmem s2 = gmem s" "loads s2 = [] \<and> groups s2 = []" "barrier s2 = idle_bar (Suc k)" by (simp_all add: s2 s1)
  have "phase' = phase XOR 1" using woken by (auto simp: mbarrier_wait_iff split: if_splits)
  then show "bit phase' 0 \<longleftrightarrow> odd (Suc k)" using parity by (simp add: phase_flips)
qed

text \<open>While the round is not complete the engine can go on, and each step leaves less to do.\<close>

definition engine_work :: "copy_state \<Rightarrow> nat" where
  "engine_work s = length (loads s) + (\<Sum>G\<leftarrow>groups s. of_bool (bs_data G = None) + of_bool (\<not> bs_written G))"

lemma engine_step_work:
  assumes "engine_step s s'"
  shows "engine_work s' < engine_work s"
  using assms
proof cases
  case (serve_load i L)
  then show ?thesis by (simp add: engine_work_def)
next
  case (read_group i G)
  let ?f = "\<lambda>G. of_bool (bs_data G = None) + of_bool (\<not> bs_written G) :: nat"
  have "sum_list (map ?f (groups s')) + ?f G = sum_list (map ?f (groups s)) + ?f (G\<lparr>bs_data := Some (read_bytes (smem s) (bs_smem G) (bs_bytes G))\<rparr>)"
    using sum_list_map_update [OF read_group(2), of ?f] read_group(1,3) by simp
  then show ?thesis using read_group by (simp add: engine_work_def)
next
  case (write_group i G bytes)
  let ?f = "\<lambda>G. of_bool (bs_data G = None) + of_bool (\<not> bs_written G) :: nat"
  have "sum_list (map ?f (groups s')) + ?f G = sum_list (map ?f (groups s)) + ?f (G\<lparr>bs_written := True\<rparr>)"
    using sum_list_map_update [OF write_group(2), of ?f] write_group(1,3) by simp
  then show ?thesis using write_group by (simp add: engine_work_def)
qed

interpretation engine: draining engine_step engine_work
  by unfold_locales (rule engine_step_work)

lemma engine_stuck:
  assumes "\<forall>s'. \<not> engine_step s s'"
  shows "loads s = []" and "\<forall>G\<in>set (groups s). bs_data G \<noteq> None \<and> bs_written G" and "tma_store_wait N s"
proof -
  show "loads s = []" using engine_step.serve_load [of 0 s] assms by auto
  show G: "\<forall>G\<in>set (groups s). bs_data G \<noteq> None \<and> bs_written G"
    using engine_step.read_group engine_step.write_group assms by (metis in_set_conv_nth not_Some_eq)
  show "tma_store_wait N s" using G by (auto simp: tma_store_wait_def)
qed

text \<open>So the waits of a round and of the stores are over at the latest when the engine has nothing left to do.\<close>

lemma copies_complete: "\<exists>s'. engine_step\<^sup>*\<^sup>* s s' \<and> loads s' = [] \<and> tma_store_wait N s'"
  using engine.reaches_end [of s] engine_stuck(1,3) by blast

text \<open>
  When the wait for the stores ends with \<open>N\<close> = 0, every store has read its bytes, so the caller may overwrite
  the shared memory: what is written is what was there when the store was started.
\<close>

lemma tma_store_reads:
  assumes idle: "loads s = []" "groups s = []" and start: "tma_store_1d p q n ev s = Some s1"
    and run: "engine_step\<^sup>*\<^sup>* s1 s2" and wait: "tma_store_wait 0 s2"
  shows "map bs_data (groups s2) = [Some (read_bytes (smem s) p (unat n))]"
proof -
  have s1: "loads s1 = []" "smem s1 = smem s" "map bs_data (groups s1) = [None]"
      "\<forall>G\<in>set (groups s1). bs_smem G = p \<and> bs_bytes G = unat n"
    using start idle by (auto simp: tma_store_1d_def split: if_splits)
  have "loads s2 = [] \<and> smem s2 = smem s \<and> (map bs_data (groups s2) = [None] \<or> map bs_data (groups s2) = [Some (read_bytes (smem s) p (unat n))]) \<and>
      (\<forall>G\<in>set (groups s2). bs_smem G = p \<and> bs_bytes G = unat n)"
    using run
  proof (induction rule: rtranclp_induct)
    case (step y z)
    from step.hyps(2) step.IH show ?case
      by cases (auto simp: map_update length_Suc_conv less_Suc_eq_0_disj map_eq_Cons_conv)
  qed (use s1 in simp)
  then show ?thesis using wait by (auto simp: tma_store_wait_def map_eq_Cons_conv)
qed

end
