(* ===== verification/Launch_Sequence.thy ===== *)
theory Launch_Sequence
  imports Dispatch_Recv
begin

text \<open>
  A sequence of launches on all ranks: dispatch, combine, dispatch, and so on, each with the buffer of a
  \<^verbatim>\<open>BufferPair\<close> and the signal words to clear that its caller passes (\<^verbatim>\<open>rdma_recv_signal_buffer\<close> and
  \<^verbatim>\<open>next_clean_buffer\<close> of \<^verbatim>\<open>src/ep_kernel.cu\<close>). What a single launch guarantees (\<^theory_text>\<open>Dispatch_Protocol\<close>,
  \<^theory_text>\<open>Combine\<close>) are the guards here: no signal before the clearing, no wait of a dispatch before its signals,
  no end of a launch before all signals are sent and seen. A signal by RDMA is only posted; the NIC adds it at
  some later time, which may be after the launch has ended. No wait reaches its time limit here. The theorems
  say which words a launch sees when the two buffers alternate, and when they do not.
\<close>

section \<open>The launches\<close>

text \<open>
  The word that rank \<open>p\<close> signals to rank \<open>d\<close> for local expert \<open>l\<close> in launch \<open>k\<close>, and whether it does so by an
  RDMA atomic addition or by a store; the buffer of a launch and the buffer it clears, if that is one of the two.
\<close>

record launches_in =
  n_ranks :: nat
  n_local :: nat
  n_launches :: nat
  signal_word :: "nat \<Rightarrow> nat \<Rightarrow> nat \<Rightarrow> nat \<Rightarrow> cint"
  by_rdma :: "nat \<Rightarrow> nat \<Rightarrow> bool"
  buffer_of :: "nat \<Rightarrow> nat"
  clears :: "nat \<Rightarrow> nat option"

text \<open>
  The dispatch (an even launch) signals expert \<open>l\<close> of the destination at word \<open>l * ranks + p\<close>, the combine
  expert \<open>l\<close> of the source at word \<open>p * local + l\<close>.
\<close>

definition signal_index :: "launches_in \<Rightarrow> nat \<Rightarrow> nat \<Rightarrow> nat \<Rightarrow> nat" where
  "signal_index I k p l = (if even k then l * n_ranks I + p else p * n_local I + l)"

abbreviation n_words :: "launches_in \<Rightarrow> nat" where
  "n_words I \<equiv> n_ranks I * n_local I"

text \<open>
  Per rank: its launch, and in it the words cleared, the signals sent and the words seen; the additions of each
  launch that the NIC has not made yet; and the signal words of the two buffers.
\<close>

record launches_state =
  launch_no :: "nat \<Rightarrow> nat"
  wiped :: "nat \<Rightarrow> nat \<Rightarrow> bool"
  sent_to :: "nat \<Rightarrow> nat \<Rightarrow> nat \<Rightarrow> bool"
  seen :: "nat \<Rightarrow> nat \<Rightarrow> nat \<Rightarrow> cint option"
  in_flight :: "nat \<Rightarrow> nat \<Rightarrow> nat \<Rightarrow> nat \<Rightarrow> bool"
  sig_words :: "nat \<Rightarrow> nat \<Rightarrow> nat \<Rightarrow> cint"

definition all_wiped :: "launches_in \<Rightarrow> launches_state \<Rightarrow> nat \<Rightarrow> bool" where
  "all_wiped I s r \<longleftrightarrow> (\<forall>i<n_words I. wiped s r i)"

definition all_sent :: "launches_in \<Rightarrow> launches_state \<Rightarrow> nat \<Rightarrow> bool" where
  "all_sent I s r \<longleftrightarrow> (\<forall>d<n_ranks I. \<forall>l<n_local I. sent_to s r d l)"

definition set_word :: "nat \<Rightarrow> nat \<Rightarrow> nat \<Rightarrow> cint \<Rightarrow> (nat \<Rightarrow> nat \<Rightarrow> nat \<Rightarrow> cint) \<Rightarrow> nat \<Rightarrow> nat \<Rightarrow> nat \<Rightarrow> cint" where
  "set_word r b i v ws = ws(r := (ws r)(b := (ws r b)(i := v)))"

text \<open>
  The last warp of every block of a dispatch stops at \<^verbatim>\<open>EP_DEVICE_ASSERT(num_sms > 1)\<close> before it clears or counts
  anything, so a dispatch of one block clears and signals nothing. The combine has no such assertion.
\<close>

definition not_trapped :: "launches_in \<Rightarrow> nat \<Rightarrow> bool" where
  "not_trapped I k \<longleftrightarrow> odd k \<or> 1 < num_sms (n_words I)"

inductive launches_step :: "launches_in \<Rightarrow> launches_state \<Rightarrow> launches_state \<Rightarrow> bool" for I where
  wipe: "r < n_ranks I \<Longrightarrow> launch_no s r < n_launches I \<Longrightarrow> clears I (launch_no s r) = Some b \<Longrightarrow>
    i < n_words I \<Longrightarrow> \<not> wiped s r i \<Longrightarrow> not_trapped I (launch_no s r) \<Longrightarrow>
    launches_step I s (s\<lparr>sig_words := set_word r b i 0 (sig_words s), wiped := (wiped s)(r := (wiped s r)(i := True))\<rparr>)"
| store: "r < n_ranks I \<Longrightarrow> launch_no s r < n_launches I \<Longrightarrow> d < n_ranks I \<Longrightarrow> l < n_local I \<Longrightarrow>
    clears I (launch_no s r) = None \<or> all_wiped I s r \<Longrightarrow> \<not> sent_to s r d l \<Longrightarrow> \<not> by_rdma I r d \<Longrightarrow>
    b = buffer_of I (launch_no s r) \<Longrightarrow> i = signal_index I (launch_no s r) r l \<Longrightarrow> not_trapped I (launch_no s r) \<Longrightarrow>
    launches_step I s (s\<lparr>sig_words := set_word d b i (signal_word I (launch_no s r) r d l) (sig_words s),
      sent_to := (sent_to s)(r := (sent_to s r)(d := (sent_to s r d)(l := True)))\<rparr>)"
| post: "r < n_ranks I \<Longrightarrow> launch_no s r < n_launches I \<Longrightarrow> d < n_ranks I \<Longrightarrow> l < n_local I \<Longrightarrow>
    clears I (launch_no s r) = None \<or> all_wiped I s r \<Longrightarrow> \<not> sent_to s r d l \<Longrightarrow> by_rdma I r d \<Longrightarrow>
    not_trapped I (launch_no s r) \<Longrightarrow>
    launches_step I s (s\<lparr>sent_to := (sent_to s)(r := (sent_to s r)(d := (sent_to s r d)(l := True))),
      in_flight := (in_flight s)(r := (in_flight s r)(d := (in_flight s r d)(l := (in_flight s r d l)(launch_no s r := True))))\<rparr>)"
| deliver: "p < n_ranks I \<Longrightarrow> d < n_ranks I \<Longrightarrow> l < n_local I \<Longrightarrow> k < n_launches I \<Longrightarrow> in_flight s p d l k \<Longrightarrow>
    b = buffer_of I k \<Longrightarrow> i = signal_index I k p l \<Longrightarrow>
    launches_step I s (s\<lparr>sig_words := set_word d b i (sig_words s d b i + signal_word I k p d l) (sig_words s),
      in_flight := (in_flight s)(p := (in_flight s p)(d := (in_flight s p d)(l := (in_flight s p d l)(k := False))))\<rparr>)"
| see: "r < n_ranks I \<Longrightarrow> launch_no s r < n_launches I \<Longrightarrow> p < n_ranks I \<Longrightarrow> l < n_local I \<Longrightarrow> seen s r p l = None \<Longrightarrow>
    even (launch_no s r) \<longrightarrow> all_sent I s r \<Longrightarrow>
    w = sig_words s r (buffer_of I (launch_no s r)) (signal_index I (launch_no s r) p l) \<Longrightarrow> w \<noteq> 0 \<Longrightarrow>
    launches_step I s (s\<lparr>seen := (seen s)(r := (seen s r)(p := (seen s r p)(l := Some w)))\<rparr>)"
| finish: "r < n_ranks I \<Longrightarrow> launch_no s r < n_launches I \<Longrightarrow> all_sent I s r \<Longrightarrow>
    \<forall>p<n_ranks I. \<forall>l<n_local I. seen s r p l \<noteq> None \<Longrightarrow>
    launches_step I s (s\<lparr>launch_no := (launch_no s)(r := Suc (launch_no s r)), wiped := (wiped s)(r := (\<lambda>_. False)),
      sent_to := (sent_to s)(r := (\<lambda>_ _. False)), seen := (seen s)(r := (\<lambda>_ _. None))\<rparr>)"

text \<open>Nothing sets the words of a fresh buffer: they hold whatever the allocation left in it.\<close>

definition launches_init :: "(nat \<Rightarrow> nat \<Rightarrow> nat \<Rightarrow> cint) \<Rightarrow> launches_state" where
  "launches_init W = \<lparr>launch_no = (\<lambda>_. 0), wiped = (\<lambda>_ _. False), sent_to = (\<lambda>_ _ _. False), seen = (\<lambda>_ _ _. None),
     in_flight = (\<lambda>_ _ _ _. False), sig_words = W\<rparr>"

text \<open>The caller uses the two buffers in turn and has each launch clear the words of the next one.\<close>

definition alternating :: "launches_in \<Rightarrow> bool" where
  "alternating I \<longleftrightarrow> buffer_of I = (\<lambda>k. k mod 2) \<and> clears I = (\<lambda>k. Some (Suc k mod 2)) \<and> 0 < n_local I \<and>
     (\<forall>k p d l. signal_word I k p d l \<noteq> 0)"

section \<open>Invariant\<close>

text \<open>What is in the word of a launch at rank \<open>d\<close> for expert \<open>l\<close> and source \<open>p\<close>.\<close>

definition word_of :: "launches_in \<Rightarrow> launches_state \<Rightarrow> nat \<Rightarrow> nat \<Rightarrow> nat \<Rightarrow> nat \<Rightarrow> cint" where
  "word_of I s d k p l = sig_words s d (k mod 2) (signal_index I k p l)"

definition reached :: "launches_state \<Rightarrow> nat \<Rightarrow> nat \<Rightarrow> nat \<Rightarrow> nat \<Rightarrow> bool" where
  "reached s p d l k \<longleftrightarrow> k < launch_no s p \<or> launch_no s p = k \<and> sent_to s p d l"

definition arrived :: "launches_state \<Rightarrow> nat \<Rightarrow> nat \<Rightarrow> nat \<Rightarrow> nat \<Rightarrow> bool" where
  "arrived s p d l k \<longleftrightarrow> reached s p d l k \<and> \<not> in_flight s p d l k"

definition expected :: "launches_in \<Rightarrow> launches_state \<Rightarrow> nat \<Rightarrow> nat \<Rightarrow> nat \<Rightarrow> nat \<Rightarrow> cint" where
  "expected I s d k p l = (if arrived s p d l k then signal_word I k p d l else 0)"

text \<open>
  Of two ranks, \<open>p\<close> is at most one launch ahead of \<open>d\<close>, and then \<open>d\<close> has cleared and signalled; the words of the
  current launch are those that arrived, and so are the words of the next one as far as they are cleared; no
  signal of an earlier launch of \<open>d\<close> is on its way.
\<close>

definition pair_inv :: "launches_in \<Rightarrow> launches_state \<Rightarrow> nat \<Rightarrow> nat \<Rightarrow> bool" where
  "pair_inv I s d p \<longleftrightarrow>
     launch_no s p \<le> Suc (launch_no s d) \<and>
     (launch_no s p = Suc (launch_no s d) \<longrightarrow> all_wiped I s d \<and> (\<forall>l<n_local I. sent_to s d p l)) \<and>
     (\<forall>l<n_local I. sent_to s p d l \<longrightarrow> all_wiped I s p) \<and>
     (\<forall>l<n_local I. word_of I s d (launch_no s d) p l = expected I s d (launch_no s d) p l) \<and>
     (\<forall>l<n_local I. wiped s d (signal_index I (Suc (launch_no s d)) p l) \<longrightarrow>
        word_of I s d (Suc (launch_no s d)) p l = expected I s d (Suc (launch_no s d)) p l) \<and>
     (\<forall>l<n_local I. \<forall>x. seen s d p l = Some x \<longrightarrow>
        x = signal_word I (launch_no s d) p d l \<and> arrived s p d l (launch_no s d)) \<and>
     (\<forall>l<n_local I. \<forall>k. in_flight s p d l k \<longrightarrow> launch_no s d \<le> k \<and> reached s p d l k)"

definition launches_inv :: "launches_in \<Rightarrow> launches_state \<Rightarrow> bool" where
  "launches_inv I s \<longleftrightarrow> (\<forall>d<n_ranks I. \<forall>p<n_ranks I. pair_inv I s d p)"

lemma signal_index_less: "p < n_ranks I \<Longrightarrow> l < n_local I \<Longrightarrow> signal_index I k p l < n_words I"
  using mixed_radix_less [of l "n_local I" p "n_ranks I"] mixed_radix_less [of p "n_ranks I" l "n_local I"]
  by (simp add: signal_index_def mult.commute)

lemma signal_index_inj:
  assumes "p < n_ranks I" "p' < n_ranks I" "l < n_local I" "l' < n_local I" and "even k \<longleftrightarrow> even k'"
  shows "signal_index I k p l = signal_index I k' p' l' \<longleftrightarrow> p = p' \<and> l = l'"
  using assms by (auto simp: signal_index_def mixed_radix_inj)

lemma set_word_apply: "set_word r b i v ws d c j = (if d = r \<and> c = b \<and> j = i then v else ws d c j)"
  by (simp add: set_word_def)

lemma parity: "j mod 2 = k mod 2 \<longleftrightarrow> (even j \<longleftrightarrow> even k)" for j k :: nat
  by (auto simp: even_iff_mod_2_eq_zero)

lemma pair_invD:
  assumes "launches_inv I s" "d < n_ranks I" "p < n_ranks I"
  shows "launch_no s p \<le> Suc (launch_no s d)"
    and "launch_no s p = Suc (launch_no s d) \<Longrightarrow> all_wiped I s d"
    and "launch_no s p = Suc (launch_no s d) \<Longrightarrow> l < n_local I \<Longrightarrow> sent_to s d p l"
    and "sent_to s p d l \<Longrightarrow> l < n_local I \<Longrightarrow> all_wiped I s p"
    and "l < n_local I \<Longrightarrow> word_of I s d (launch_no s d) p l = expected I s d (launch_no s d) p l"
    and "l < n_local I \<Longrightarrow> wiped s d (signal_index I (Suc (launch_no s d)) p l) \<Longrightarrow>
      word_of I s d (Suc (launch_no s d)) p l = expected I s d (Suc (launch_no s d)) p l"
    and "seen s d p l = Some x \<Longrightarrow> l < n_local I \<Longrightarrow>
      x = signal_word I (launch_no s d) p d l \<and> arrived s p d l (launch_no s d)"
    and "in_flight s p d l k \<Longrightarrow> l < n_local I \<Longrightarrow> launch_no s d \<le> k \<and> reached s p d l k"
proof -
  have P: "pair_inv I s d p" using assms by (simp add: launches_inv_def)
  show "launch_no s p \<le> Suc (launch_no s d)" "launch_no s p = Suc (launch_no s d) \<Longrightarrow> all_wiped I s d"
    "launch_no s p = Suc (launch_no s d) \<Longrightarrow> l < n_local I \<Longrightarrow> sent_to s d p l"
    "sent_to s p d l \<Longrightarrow> l < n_local I \<Longrightarrow> all_wiped I s p"
    "l < n_local I \<Longrightarrow> word_of I s d (launch_no s d) p l = expected I s d (launch_no s d) p l"
    "l < n_local I \<Longrightarrow> wiped s d (signal_index I (Suc (launch_no s d)) p l) \<Longrightarrow>
      word_of I s d (Suc (launch_no s d)) p l = expected I s d (Suc (launch_no s d)) p l"
    "seen s d p l = Some x \<Longrightarrow> l < n_local I \<Longrightarrow>
      x = signal_word I (launch_no s d) p d l \<and> arrived s p d l (launch_no s d)"
    "in_flight s p d l k \<Longrightarrow> l < n_local I \<Longrightarrow> launch_no s d \<le> k \<and> reached s p d l k"
    using P by (simp_all add: pair_inv_def)
qed

lemma pair_invI:
  assumes "launch_no s p \<le> Suc (launch_no s d)"
    and "launch_no s p = Suc (launch_no s d) \<Longrightarrow> all_wiped I s d"
    and "\<And>l. launch_no s p = Suc (launch_no s d) \<Longrightarrow> l < n_local I \<Longrightarrow> sent_to s d p l"
    and "\<And>l. sent_to s p d l \<Longrightarrow> l < n_local I \<Longrightarrow> all_wiped I s p"
    and "\<And>l. l < n_local I \<Longrightarrow> word_of I s d (launch_no s d) p l = expected I s d (launch_no s d) p l"
    and "\<And>l. l < n_local I \<Longrightarrow> wiped s d (signal_index I (Suc (launch_no s d)) p l) \<Longrightarrow>
      word_of I s d (Suc (launch_no s d)) p l = expected I s d (Suc (launch_no s d)) p l"
    and "\<And>l x. seen s d p l = Some x \<Longrightarrow> l < n_local I \<Longrightarrow>
      x = signal_word I (launch_no s d) p d l \<and> arrived s p d l (launch_no s d)"
    and "\<And>l k. in_flight s p d l k \<Longrightarrow> l < n_local I \<Longrightarrow> launch_no s d \<le> k \<and> reached s p d l k"
  shows "pair_inv I s d p"
  unfolding pair_inv_def
  by (intro conjI allI impI; (rule assms(1) | erule assms(2) | erule (1) assms(3,4) | rule assms(5), assumption |
    erule (1) assms(6) | drule (1) assms(7), simp | drule (1) assms(8), simp))

section \<open>The steps keep the invariant\<close>

lemmas sent_defs = expected_def arrived_def reached_def

lemma wipe_keeps:
  assumes alt: "alternating I" and inv: "launches_inv I s" and r: "r < n_ranks I" and i: "i < n_words I" "\<not> wiped s r i"
    and b: "b = Suc (launch_no s r) mod 2"
    and s': "s' = s\<lparr>sig_words := set_word r b i 0 (sig_words s), wiped := (wiped s)(r := (wiped s r)(i := True))\<rparr>"
  shows "launches_inv I s'"
  unfolding launches_inv_def
proof (intro allI impI)
  fix d p assume dp: "d < n_ranks I" "p < n_ranks I"
  note P = pair_invD [OF inv dp]
  have wiped: "all_wiped I s x \<Longrightarrow> all_wiped I s' x" for x by (auto simp: all_wiped_def s')
  have not_ahead: "launch_no s p \<noteq> Suc (launch_no s d)" if "d = r" using P(2) i that by (auto simp: all_wiped_def)
  show "pair_inv I s' d p"
  proof (rule pair_invI)
    fix l assume l: "l < n_local I"
    show "word_of I s' d (launch_no s' d) p l = expected I s' d (launch_no s' d) p l"
      using P(5) [OF l] b by (auto simp: s' word_of_def sent_defs set_word_apply parity)
    show "word_of I s' d (Suc (launch_no s' d)) p l = expected I s' d (Suc (launch_no s' d)) p l"
      if "wiped s' d (signal_index I (Suc (launch_no s' d)) p l)"
    proof (cases "d = r \<and> signal_index I (Suc (launch_no s d)) p l = i")
      case True
      then show ?thesis using not_ahead P(1) b by (auto simp: s' word_of_def sent_defs set_word_apply)
    next
      case False
      then have "wiped s d (signal_index I (Suc (launch_no s d)) p l)" using that by (auto simp: s' split: if_splits)
      from P(6) [OF l this] False show ?thesis by (auto simp: s' word_of_def sent_defs set_word_apply)
    qed
  qed (use P wiped in \<open>auto simp: s' reached_def arrived_def\<close>)
qed

text \<open>A rank that has not signalled yet is not behind, and nothing of its launch is on the way.\<close>

lemma not_sentD:
  assumes "launches_inv I s" "r < n_ranks I" "d < n_ranks I" "l < n_local I" and "\<not> sent_to s r d l"
  shows "launch_no s d \<le> launch_no s r" and "\<not> in_flight s r d l (launch_no s r)"
    and "\<not> reached s r d l (launch_no s r)"
  using pair_invD(1,3) [OF assms(1-3)] pair_invD(8) [OF assms(1,3,2)] assms(4,5)
  by (auto simp: reached_def le_Suc_eq)

text \<open>A word that becomes the signal of its launch, when it was clear before, and becomes so when the signal arrives.\<close>

lemma word_step:
  assumes old: "word_of I s d k p l = expected I s d k p l" and l: "l < n_local I" "l0 < n_local I"
    and p: "p < n_ranks I" "p0 < n_ranks I"
    and words: "sig_words s' = set_word d0 (k0 mod 2) (signal_index I k0 p0 l0) v (sig_words s)"
    and v: "word_of I s d0 k0 p0 l0 = 0 \<Longrightarrow> v = signal_word I k0 p0 d0 l0"
    and new: "\<not> arrived s p0 d0 l0 k0" and now: "arrived s' p0 d0 l0 k0"
    and rest: "(d, p, l, k) \<noteq> (d0, p0, l0, k0) \<Longrightarrow> arrived s' p d l k = arrived s p d l k"
    and near: "d = d0 \<Longrightarrow> p = p0 \<Longrightarrow> k mod 2 = k0 mod 2 \<Longrightarrow> k = k0"
  shows "word_of I s' d k p l = expected I s' d k p l"
proof (cases "(d, p, l, k) = (d0, p0, l0, k0)")
  case True
  then have "v = signal_word I k0 p0 d0 l0" using v old new by (simp add: expected_def)
  then show ?thesis using True now by (simp add: expected_def word_of_def words set_word_apply)
next
  case False
  then have "\<not> (d = d0 \<and> k mod 2 = k0 mod 2 \<and> signal_index I k p l = signal_index I k0 p0 l0)"
    using near signal_index_inj [OF p l, of k k0] by (auto simp: parity)
  then have "word_of I s' d k p l = word_of I s d k p l" by (auto simp: word_of_def words set_word_apply)
  then show ?thesis using old rest [OF False] by (simp add: expected_def)
qed

lemma store_keeps:
  assumes inv: "launches_inv I s" and r: "r < n_ranks I" "d0 < n_ranks I" "l0 < n_local I"
    and w: "all_wiped I s r" and new: "\<not> sent_to s r d0 l0"
    and s': "s' = s\<lparr>
      sig_words := set_word d0 (launch_no s r mod 2) (signal_index I (launch_no s r) r l0) (signal_word I (launch_no s r) r d0 l0) (sig_words s),
      sent_to := (sent_to s)(r := (sent_to s r)(d0 := (sent_to s r d0)(l0 := True)))\<rparr>"
  shows "launches_inv I s'"
  unfolding launches_inv_def
proof (intro allI impI)
  fix d p assume dp: "d < n_ranks I" "p < n_ranks I"
  note P = pair_invD [OF inv dp]
  note N = not_sentD [OF inv r new]
  have sent': "sent_to s' x y l \<longleftrightarrow> sent_to s x y l \<or> x = r \<and> y = d0 \<and> l = l0" for x y l by (auto simp: s')
  have same: "launch_no s' = launch_no s" "wiped s' = wiped s" "seen s' = seen s" "in_flight s' = in_flight s" "all_wiped I s' = all_wiped I s"
    by (auto simp: s' all_wiped_def fun_eq_iff)
  have mono: "reached s x y l k \<Longrightarrow> reached s' x y l k" "arrived s x y l k \<Longrightarrow> arrived s' x y l k" for x y l k
    by (auto simp: reached_def arrived_def sent' same)
  have step: "word_of I s' d k p l = expected I s' d k p l"
    if k: "k = launch_no s d \<or> k = Suc (launch_no s d)" and l: "l < n_local I" and old: "word_of I s d k p l = expected I s d k p l" for k l
  proof (rule word_step [OF old l r(3) dp(2) r(1)])
    show "sig_words s' = set_word d0 (launch_no s r mod 2) (signal_index I (launch_no s r) r l0) (signal_word I (launch_no s r) r d0 l0) (sig_words s)"
      by (simp add: s')
    show "arrived s' p d l k = arrived s p d l k" if "(d, p, l, k) \<noteq> (d0, r, l0, launch_no s r)"
      using that by (auto simp: arrived_def reached_def sent' same)
    show "k = launch_no s r" if "d = d0" "p = r" "k mod 2 = launch_no s r mod 2"
      using that k N(1) P(1) by (auto simp: parity le_Suc_eq)
  qed (use N in \<open>auto simp: arrived_def reached_def sent' same\<close>)
  show "pair_inv I s' d p"
    by (rule pair_invI) (use P w step mono in \<open>auto simp: same sent'\<close>)
qed

lemma post_keeps:
  assumes inv: "launches_inv I s" and r: "r < n_ranks I" "d0 < n_ranks I" "l0 < n_local I"
    and w: "all_wiped I s r" and new: "\<not> sent_to s r d0 l0"
    and s': "s' = s\<lparr>sent_to := (sent_to s)(r := (sent_to s r)(d0 := (sent_to s r d0)(l0 := True))),
      in_flight := (in_flight s)(r := (in_flight s r)(d0 := (in_flight s r d0)(l0 := (in_flight s r d0 l0)(launch_no s r := True))))\<rparr>"
  shows "launches_inv I s'"
  unfolding launches_inv_def
proof (intro allI impI)
  fix d p assume dp: "d < n_ranks I" "p < n_ranks I"
  note P = pair_invD [OF inv dp]
  note N = not_sentD [OF inv r new]
  have sent': "sent_to s' x y l \<longleftrightarrow> sent_to s x y l \<or> x = r \<and> y = d0 \<and> l = l0" for x y l by (auto simp: s')
  have flight': "in_flight s' x y l k \<longleftrightarrow> in_flight s x y l k \<or> x = r \<and> y = d0 \<and> l = l0 \<and> k = launch_no s r" for x y l k
    by (auto simp: s')
  have same: "launch_no s' = launch_no s" "wiped s' = wiped s" "seen s' = seen s" "all_wiped I s' = all_wiped I s" "word_of I s' = word_of I s"
    by (auto simp: s' all_wiped_def word_of_def fun_eq_iff)
  have arr: "arrived s' x y l k = arrived s x y l k" for x y l k
    using N(3) by (auto simp: arrived_def reached_def sent' flight' same)
  have reach: "reached s' x y l k \<longleftrightarrow> reached s x y l k \<or> x = r \<and> y = d0 \<and> l = l0 \<and> k = launch_no s r" for x y l k
    by (auto simp: reached_def sent' same)
  show "pair_inv I s' d p"
    by (rule pair_invI) (use P w N(1) in \<open>auto simp: same sent' flight' arr reach expected_def\<close>)
qed

lemma deliver_keeps:
  assumes inv: "launches_inv I s" and r: "p0 < n_ranks I" "d0 < n_ranks I" "l0 < n_local I" and fl: "in_flight s p0 d0 l0 k0"
    and s': "s' = s\<lparr>
      sig_words := set_word d0 (k0 mod 2) (signal_index I k0 p0 l0)
        (sig_words s d0 (k0 mod 2) (signal_index I k0 p0 l0) + signal_word I k0 p0 d0 l0) (sig_words s),
      in_flight := (in_flight s)(p0 := (in_flight s p0)(d0 := (in_flight s p0 d0)(l0 := (in_flight s p0 d0 l0)(k0 := False))))\<rparr>"
  shows "launches_inv I s'"
  unfolding launches_inv_def
proof (intro allI impI)
  fix d p assume dp: "d < n_ranks I" "p < n_ranks I"
  note P = pair_invD [OF inv dp]
  have F: "launch_no s d0 \<le> k0" "reached s p0 d0 l0 k0" "launch_no s p0 \<le> Suc (launch_no s d0)"
    using pair_invD(8) [OF inv r(2,1) fl r(3)] pair_invD(1) [OF inv r(2,1)] by auto
  have k0: "k0 = launch_no s d0 \<or> k0 = Suc (launch_no s d0)" using F by (auto simp: reached_def)
  have flight': "in_flight s' x y l k \<longleftrightarrow> in_flight s x y l k \<and> (x, y, l, k) \<noteq> (p0, d0, l0, k0)" for x y l k by (auto simp: s')
  have same: "launch_no s' = launch_no s" "wiped s' = wiped s" "seen s' = seen s" "sent_to s' = sent_to s"
    "all_wiped I s' = all_wiped I s" "reached s' = reached s"
    by (auto simp: s' all_wiped_def reached_def fun_eq_iff)
  have step: "word_of I s' d k p l = expected I s' d k p l"
    if k: "k = launch_no s d \<or> k = Suc (launch_no s d)" and l: "l < n_local I" and old: "word_of I s d k p l = expected I s d k p l" for k l
  proof (rule word_step [OF old l r(3) dp(2) r(1)])
    show "sig_words s' = set_word d0 (k0 mod 2) (signal_index I k0 p0 l0)
        (sig_words s d0 (k0 mod 2) (signal_index I k0 p0 l0) + signal_word I k0 p0 d0 l0) (sig_words s)"
      by (simp add: s')
    show "arrived s' p d l k = arrived s p d l k" if "(d, p, l, k) \<noteq> (d0, p0, l0, k0)"
      using that by (auto simp: arrived_def same flight')
    show "k = k0" if "d = d0" "p = p0" "k mod 2 = k0 mod 2"
      using that k k0 by (auto simp: parity)
  qed (use F fl in \<open>auto simp: arrived_def same flight' word_of_def\<close>)
  show "pair_inv I s' d p"
    by (rule pair_invI) (use P step in \<open>auto simp: same flight' arrived_def\<close>)
qed

lemma see_keeps:
  assumes inv: "launches_inv I s" and r: "r < n_ranks I" "p0 < n_ranks I" "l0 < n_local I"
    and w: "w = word_of I s r (launch_no s r) p0 l0" "w \<noteq> 0"
    and s': "s' = s\<lparr>seen := (seen s)(r := (seen s r)(p0 := (seen s r p0)(l0 := Some w)))\<rparr>"
  shows "launches_inv I s'"
  unfolding launches_inv_def
proof (intro allI impI)
  fix d p assume dp: "d < n_ranks I" "p < n_ranks I"
  note P = pair_invD [OF inv dp]
  have same: "launch_no s' = launch_no s" "wiped s' = wiped s" "sent_to s' = sent_to s" "all_wiped I s' = all_wiped I s"
    "word_of I s' = word_of I s" "in_flight s' = in_flight s" "reached s' = reached s" "arrived s' = arrived s" "expected I s' = expected I s"
    by (simp_all add: s' all_wiped_def word_of_def sent_defs fun_eq_iff)
  have now: "w = signal_word I (launch_no s r) p0 r l0 \<and> arrived s p0 r l0 (launch_no s r)"
    using pair_invD(5) [OF inv r(1,2) r(3)] w by (auto simp: expected_def split: if_splits)
  show "pair_inv I s' d p"
  proof (rule pair_invI)
    fix l x
    assume "seen s' d p l = Some x" "l < n_local I"
    then show "x = signal_word I (launch_no s' d) p d l \<and> arrived s' p d l (launch_no s' d)"
      using P(7) [of l x] now unfolding same by (auto simp: s' split: if_splits)
  qed (use P in \<open>simp_all only: same\<close>)
qed

lemma finish_keeps:
  assumes alt: "alternating I" and inv: "launches_inv I s" and r: "r < n_ranks I"
    and sent: "all_sent I s r" and all: "\<forall>p<n_ranks I. \<forall>l<n_local I. seen s r p l \<noteq> None"
    and s': "s' = s\<lparr>launch_no := (launch_no s)(r := Suc (launch_no s r)), wiped := (wiped s)(r := (\<lambda>_. False)),
      sent_to := (sent_to s)(r := (\<lambda>_ _. False)), seen := (seen s)(r := (\<lambda>_ _. None))\<rparr>"
  shows "launches_inv I s'"
  unfolding launches_inv_def
proof (intro allI impI)
  fix d p assume dp: "d < n_ranks I" "p < n_ranks I"
  note P = pair_invD [OF inv dp]
  have L: "0 < n_local I" using alt by (simp add: alternating_def)
  have sr: "sent_to s r x l" if "x < n_ranks I" "l < n_local I" for x l using sent that by (simp add: all_sent_def)
  have wr: "all_wiped I s r" using pair_invD(4) [OF inv r r, of 0] sr [OF r] L by blast
  have from_r: "arrived s x r l (launch_no s r)" if "x < n_ranks I" "l < n_local I" for x l
    using all that pair_invD(7) [OF inv r that(1)] by fastforce
  have near: "launch_no s r \<le> launch_no s x \<and> launch_no s x \<le> Suc (launch_no s r)" if "x < n_ranks I" for x
    using from_r [OF that L] pair_invD(1) [OF inv r that] by (auto simp: arrived_def reached_def)
  have words: "word_of I s' = word_of I s" "in_flight s' = in_flight s" by (simp_all add: s' word_of_def fun_eq_iff)
  have no: "launch_no s' x = (if x = r then Suc (launch_no s r) else launch_no s x)" for x by (simp add: s')
  have fl: "wiped s' x i \<longleftrightarrow> x \<noteq> r \<and> wiped s x i" "sent_to s' x y l \<longleftrightarrow> x \<noteq> r \<and> sent_to s x y l"
    "seen s' x y l = (if x = r then None else seen s x y l)" for x y l i by (simp_all add: s')
  have aw: "x \<noteq> r \<Longrightarrow> all_wiped I s' x = all_wiped I s x" for x by (simp add: all_wiped_def fl)
  have reach: "reached s' x y l k = reached s x y l k" if "y < n_ranks I" "l < n_local I" for x y l k
    using sr [OF that] by (auto simp: reached_def no fl)
  have arr: "arrived s' x y l k = arrived s x y l k" if "y < n_ranks I" "l < n_local I" for x y l k
    using reach [OF that] by (simp add: arrived_def words)
  have exp: "expected I s' y k p l = expected I s y k p l" if "y < n_ranks I" "l < n_local I" for y k l
    using arr [OF that] by (simp add: expected_def)
  have next_word: "word_of I s r (Suc (launch_no s r)) p l = expected I s r (Suc (launch_no s r)) p l" if "l < n_local I" for l
    using pair_invD(6) [OF inv r dp(2) that] wr signal_index_less [OF dp(2) that] by (simp add: all_wiped_def)
  have later: "Suc (launch_no s r) \<le> k" if "in_flight s p r l k" "l < n_local I" for l k
    using pair_invD(8) [OF inv r dp(2) that] from_r [OF dp(2) that(2)] that(1)
    by (metis arrived_def le_antisym not_less_eq_eq)
  show "pair_inv I s' d p"
  proof (cases "d = r")
    case True
    then show ?thesis
      by (intro pair_invI) (use near [OF dp(2)] P(4,8) next_word later in \<open>auto simp: no fl aw words exp [OF r] reach [OF r] split: if_splits\<close>)
  next
    case d: False
    have sd: "sent_to s d r l" "all_wiped I s d" if "launch_no s d = launch_no s r" "l < n_local I" for l
      using from_r [OF dp(1) that(2)] that pair_invD(4) [OF inv r dp(1)] by (auto simp: arrived_def reached_def)
    show ?thesis
      by (rule pair_invI) (use P d near [OF dp(1)] sd L in \<open>auto simp: no fl aw words exp [OF dp(1)] reach [OF dp(1)] arr [OF dp(1)] split: if_splits\<close>)
  qed
qed

lemma launches_step_inv:
  assumes alt: "alternating I" and inv: "launches_inv I s" and step: "launches_step I s s'"
  shows "launches_inv I s'"
proof -
  have [simp]: "buffer_of I k = k mod 2" "clears I k = Some (Suc k mod 2)" for k using alt by (simp_all add: alternating_def)
  from step show ?thesis
  proof cases
    case (wipe r b i)
    then show ?thesis using wipe_keeps [OF alt inv wipe(2,5,6) _ wipe(1)] by simp
  next
    case (store r d l b i)
    then show ?thesis using store_keeps [OF inv store(2,4,5) _ store(7)] by simp
  next
    case (post r d l)
    then show ?thesis using post_keeps [OF inv post(2,4,5) _ post(7,1)] by simp
  next
    case (deliver p d l k b i)
    then show ?thesis using deliver_keeps [OF inv deliver(2,3,4,6)] by simp
  next
    case (see r p l w)
    then show ?thesis using see_keeps [OF inv see(2,4,5) _ see(9,1)] by (simp add: word_of_def)
  next
    case (finish r)
    then show ?thesis using finish_keeps [OF alt inv finish(2,4,5,1)] by blast
  qed
qed

lemma launches_inv_init:
  assumes "\<forall>r<n_ranks I. \<forall>i<n_words I. W r 0 i = 0"
  shows "launches_inv I (launches_init W)"
  using assms by (simp add: launches_inv_def pair_inv_def launches_init_def word_of_def sent_defs signal_index_less)

interpretation launches: step_system "launches_step I" "\<lambda>s. alternating I \<and> (\<exists>W. s = launches_init W \<and> (\<forall>r<n_ranks I. \<forall>i<n_words I. W r 0 i = 0))"
  "\<lambda>s. alternating I \<and> launches_inv I s" for I
  by unfold_locales (auto intro: launches_step_inv launches_inv_init)

section \<open>Progress\<close>

text \<open>
  Words to clear, signals to send (two accesses when the NIC makes the second) and words to see in the current
  launch, additions on the way, and launches to come.
\<close>

definition rank_left :: "launches_in \<Rightarrow> launches_state \<Rightarrow> nat \<Rightarrow> nat" where
  "rank_left I s r = (\<Sum>i<n_words I. of_bool (\<not> wiped s r i)) +
     2 * (\<Sum>d<n_ranks I. \<Sum>l<n_local I. of_bool (\<not> sent_to s r d l)) + (\<Sum>p<n_ranks I. \<Sum>l<n_local I. of_bool (seen s r p l = None))"

definition on_way :: "launches_in \<Rightarrow> launches_state \<Rightarrow> nat \<Rightarrow> (nat \<times> nat \<times> nat) set" where
  "on_way I s p = {(d, l, k). d < n_ranks I \<and> l < n_local I \<and> k < n_launches I \<and> in_flight s p d l k}"

definition rank_work :: "launches_in \<Rightarrow> launches_state \<Rightarrow> nat \<Rightarrow> nat" where
  "rank_work I s r = (n_launches I - launch_no s r) * (4 * n_words I + 1) + rank_left I s r + card (on_way I s r)"

definition launches_work :: "launches_in \<Rightarrow> launches_state \<Rightarrow> nat" where
  "launches_work I s = (\<Sum>r<n_ranks I. rank_work I s r)"

lemma rank_left_le: "rank_left I s r \<le> 4 * n_words I"
proof -
  have one: "(\<Sum>i<n. of_bool (P i)) \<le> n" for P and n :: nat
    using sum_bounded_above [of "{..<n}" "\<lambda>i. of_bool (P i)" "1 :: nat"] by simp
  have two: "(\<Sum>i<A. \<Sum>j<B. of_bool (P i j)) \<le> A * B" for P and A B :: nat
    using sum_bounded_above [of "{..<A}" "\<lambda>i. \<Sum>j<B. of_bool (P i j)" B] one [where n = B] by simp
  show ?thesis
    using one [of "\<lambda>i. \<not> wiped s r i" "n_words I"] two [of "\<lambda>d l. \<not> sent_to s r d l" "n_local I" "n_ranks I"]
      two [of "\<lambda>d l. seen s r d l = None" "n_local I" "n_ranks I"]
    unfolding rank_left_def by linarith
qed

lemma finite_on_way: "finite (on_way I s p)"
  by (rule finite_subset [of _ "{..<n_ranks I} \<times> {..<n_local I} \<times> {..<n_launches I}"]) (auto simp: on_way_def)

lemma launches_step_work:
  assumes "launches_step I s s'"
  shows "launches_work I s' < launches_work I s"
  using assms
proof cases
  case (wipe r b i)
  have "(\<Sum>j<n_words I. of_bool (\<not> (if j = i then True else wiped s r j)) :: nat) < (\<Sum>j<n_words I. of_bool (\<not> wiped s r j))"
    by (rule sum_less_at [OF wipe(5)]) (use wipe(6) in auto)
  then show ?thesis unfolding launches_work_def
    by (intro sum_less_at [OF wipe(2)]) (simp_all add: wipe(1) rank_work_def rank_left_def on_way_def fun_upd_def)
next
  case (store r d l b i)
  have "(\<Sum>x<n_ranks I. \<Sum>y<n_local I. of_bool (\<not> (if x = d then if y = l then True else sent_to s r d y else sent_to s r x y)) :: nat) <
      (\<Sum>x<n_ranks I. \<Sum>y<n_local I. of_bool (\<not> sent_to s r x y))"
    by (rule double_sum_at [OF store(4,5)]) (use store(7) in auto)
  then show ?thesis unfolding launches_work_def
    by (intro sum_less_at [OF store(2)]) (simp_all add: store(1) rank_work_def rank_left_def on_way_def fun_upd_def if_distrib [of "\<lambda>f. f _"])
next
  case (post r d l)
  have "(\<Sum>x<n_ranks I. \<Sum>y<n_local I. of_bool (\<not> (if x = d then if y = l then True else sent_to s r d y else sent_to s r x y)) :: nat) <
      (\<Sum>x<n_ranks I. \<Sum>y<n_local I. of_bool (\<not> sent_to s r x y))"
    by (rule double_sum_at [OF post(4,5)]) (use post(7) in auto)
  then have "rank_left I s' r + 2 \<le> rank_left I s r"
    by (simp add: post(1) rank_left_def fun_upd_def if_distrib [of "\<lambda>f. f _"])
  moreover have "on_way I s' r \<subseteq> insert (d, l, launch_no s r) (on_way I s r)" by (auto simp: on_way_def post(1) split: if_splits)
  then have "card (on_way I s' r) \<le> Suc (card (on_way I s r))"
    using card_mono [of "insert (d, l, launch_no s r) (on_way I s r)" "on_way I s' r"] finite_on_way [of I s r]
    by (simp add: card_insert_if split: if_splits)
  moreover have "launch_no s' = launch_no s" by (simp add: post(1))
  ultimately have "rank_work I s' r < rank_work I s r" by (simp add: rank_work_def)
  then show ?thesis unfolding launches_work_def
    by (intro sum_less_at [OF post(2)]) (simp_all add: post(1) rank_work_def rank_left_def on_way_def)
next
  case (deliver p d l k b i)
  have "on_way I s' p = on_way I s p - {(d, l, k)}" by (auto simp: on_way_def deliver(1) split: if_splits)
  moreover have "(d, l, k) \<in> on_way I s p" using deliver(3-6) by (simp add: on_way_def)
  ultimately have "card (on_way I s' p) < card (on_way I s p)" using card_Diff1_less [OF finite_on_way] by simp
  then have "rank_work I s' p < rank_work I s p" by (simp add: rank_work_def rank_left_def deliver(1))
  then show ?thesis unfolding launches_work_def
    by (intro sum_less_at [OF deliver(2)]) (simp_all add: deliver(1) rank_work_def rank_left_def on_way_def)
next
  case (see r p l w)
  have "(\<Sum>x<n_ranks I. \<Sum>y<n_local I. of_bool ((if x = p then if y = l then Some w else seen s r p y else seen s r x y) = None) :: nat) <
      (\<Sum>x<n_ranks I. \<Sum>y<n_local I. of_bool (seen s r x y = None))"
    by (rule double_sum_at [OF see(4,5)]) (use see(6) in auto)
  then show ?thesis unfolding launches_work_def
    by (intro sum_less_at [OF see(2)]) (simp_all add: see(1) rank_work_def rank_left_def on_way_def fun_upd_def if_distrib [of "\<lambda>f. f _"])
next
  case (finish r)
  obtain n where n: "n_launches I - launch_no s r = Suc n" using finish(3) by (metis Suc_diff_Suc)
  then have "n_launches I - launch_no s' r = n" by (simp add: finish(1))
  moreover have "on_way I s' = on_way I s" by (simp add: finish(1) on_way_def fun_eq_iff)
  ultimately have "rank_work I s' r < rank_work I s r" using rank_left_le [of I s' r] n by (simp add: rank_work_def)
  moreover have "rank_work I s' i = rank_work I s i" if "i \<noteq> r" for i
    using that by (simp add: finish(1) rank_work_def rank_left_def on_way_def)
  ultimately show ?thesis unfolding launches_work_def by (intro sum_less_at [OF finish(2)])
qed

interpretation launches: draining "launches_step I" "launches_work I" for I
  by unfold_locales (rule launches_step_work)

lemma not_trapped_many: "8 < n_words I \<Longrightarrow> not_trapped I k"
  using one_block_iff [of "n_words I"] by (simp add: not_trapped_def)

text \<open>A rank that is behind no other and has not finished can always do something.\<close>

lemma launches_stuck:
  assumes alt: "alternating I" and many: "8 < n_words I" and inv: "launches_inv I s" and st: "\<forall>s'. \<not> launches_step I s s'" and r: "r < n_ranks I"
  shows "n_launches I \<le> launch_no s r"
proof (rule ccontr)
  assume less: "\<not> n_launches I \<le> launch_no s r"
  note go = not_trapped_many [OF many]
  define Q where "Q = {x. x < n_ranks I}"
  define q where "q = arg_min_on (launch_no s) Q"
  have fin: "finite Q" "Q \<noteq> {}" using r by (auto simp: Q_def)
  have q: "q < n_ranks I" using arg_min_if_finite(1) [OF fin, of "launch_no s"] by (simp add: q_def Q_def)
  have least: "launch_no s q \<le> launch_no s p" if "p < n_ranks I" for p
    using arg_min_least [OF fin, of p "launch_no s"] that by (simp add: q_def Q_def)
  have qN: "launch_no s q < n_launches I" using least [OF r] less by linarith
  have wiped: "all_wiped I s p" if "p < n_ranks I" "launch_no s p < n_launches I" for p
    using st launches_step.wipe [OF that] alt go by (auto simp: all_wiped_def alternating_def)
  have sent: "sent_to s p d l" if p: "p < n_ranks I" "launch_no s p < n_launches I" and d: "d < n_ranks I" "l < n_local I" for p d l
    using st launches_step.store [OF p d] launches_step.post [OF p d] wiped [OF p] go by blast
  then have qs: "all_sent I s q" using q qN by (simp add: all_sent_def)
  have "seen s q p l \<noteq> None" if p: "p < n_ranks I" "l < n_local I" for p l
  proof -
    have "launch_no s p = launch_no s q \<Longrightarrow> sent_to s p q l" using sent [OF p(1) _ q p(2)] qN by simp
    then have "reached s p q l (launch_no s q)" using least [OF p(1)] by (auto simp: reached_def)
    moreover have "\<not> in_flight s p q l (launch_no s q)" using st launches_step.deliver [OF p(1) q p(2) qN] by blast
    ultimately have "word_of I s q (launch_no s q) p l \<noteq> 0"
      using pair_invD(5) [OF inv q p] alt by (simp add: alternating_def expected_def arrived_def)
    then have "sig_words s q (buffer_of I (launch_no s q)) (signal_index I (launch_no s q) p l) \<noteq> 0"
      using alt by (simp add: word_of_def alternating_def)
    then show ?thesis using st launches_step.see [OF q qN p] qs by blast
  qed
  then show False using st launches_step.finish [OF q qN qs] by blast
qed

interpretation launch_count: step_system "launches_step I" "\<lambda>s. \<exists>W. s = launches_init W" "\<lambda>s. \<forall>r. launch_no s r \<le> n_launches I" for I
proof
  fix s s' assume "\<forall>r. launch_no s r \<le> n_launches I" and "launches_step I s s'"
  then show "\<forall>r. launch_no s' r \<le> n_launches I" by (auto elim!: launches_step.cases)
qed (auto simp: launches_init_def)

section \<open>The words of the kernels\<close>

text \<open>The dispatch signals \<open>-n-1\<close> for the \<open>n\<close> tokens of the expert, the combine 1; \<open>D k p\<close> is the input of rank \<open>p\<close>.\<close>

definition launch_words :: "nat \<Rightarrow> (nat \<Rightarrow> nat \<Rightarrow> dispatch_in) \<Rightarrow> nat \<Rightarrow> nat \<Rightarrow> nat \<Rightarrow> nat \<Rightarrow> cint" where
  "launch_words L D k p d l = (if even k then - num_tokens_sent (D k p) (d * L + l) - 1 else 1)"

lemma launch_words_dispatch:
  assumes "launch_ok (D k p)" and "even k"
  shows "launch_words L D k p d l = - of_nat (card (items (D k p) (d * L + l))) - 1"
  using num_tokens_sent_eq [OF launch_okD(1) [OF assms(1)]] assms(2) by (simp add: launch_words_def)

lemma launch_words_nonzero:
  assumes "launch_ok (D k p)"
  shows "launch_words L D k p d l \<noteq> 0"
proof (cases "even k")
  case True
  let ?n = "card (items (D k p) (d * L + l))"
  have "?n + 1 < 2 ^ 32" using launch_okD(2) [OF assms, of "d * L + l"] by simp
  then have "unat (of_nat (?n + 1) :: cint) = ?n + 1" by (simp add: unat_of_nat del: of_nat_add of_nat_Suc)
  then have "of_nat (?n + 1) \<noteq> (0 :: cint)" by (metis Suc_eq_plus1 nat.distinct(1) unat_0)
  moreover have "launch_words L D k p d l = - of_nat (?n + 1)" using launch_words_dispatch [of D k p L d l, OF assms True] by simp
  ultimately show ?thesis by (metis neg_equal_0_iff_equal)
qed (simp add: launch_words_def)

text \<open>The words are those of dispatches that fit the ranks and whose entries name experts that exist.\<close>

definition launch_inputs :: "launches_in \<Rightarrow> (nat \<Rightarrow> nat \<Rightarrow> dispatch_in) \<Rightarrow> bool" where
  "launch_inputs I D \<longleftrightarrow> signal_word I = launch_words (n_local I) D \<and>
     (\<forall>k p. launch_ok (D k p) \<and> entries_ok (D k p) \<and> num_experts (D k p) = n_words I \<and> num_ranks (D k p) = n_ranks I)"

lemma launch_inputs_alternate:
  assumes "launch_inputs I D" and "8 < n_words I" and "buffer_of I = (\<lambda>k. k mod 2)" and "clears I = (\<lambda>k. Some (Suc k mod 2))"
  shows "alternating I"
  using assms launch_words_nonzero [of D _ _ "n_local I"]
  by (cases "n_local I") (auto simp: alternating_def launch_inputs_def)

section \<open>Properties\<close>

text \<open>
  C8. When the launches use the two buffers in turn and clear the next one, and the words of the first buffer are 0
  at the start (those of the second may be anything), a rank only ever sees words of its
  current launch, by stores and by RDMA additions alike, whenever the NIC makes them: a dispatch reads the number
  of tokens its source has for the expert, a combine reads 1, the source has reached the launch, and no rank
  is more than one launch ahead of another.
\<close>

theorem launches_see_current:
  assumes "(launches_step I)\<^sup>*\<^sup>* (launches_init W) s" and "\<forall>r<n_ranks I. \<forall>i<n_words I. W r 0 i = 0"
    and "buffer_of I = (\<lambda>k. k mod 2)" and "clears I = (\<lambda>k. Some (Suc k mod 2))" and "0 < n_local I"
    and "signal_word I = launch_words (n_local I) D" and "\<And>k p. launch_ok (D k p)"
    and "r < n_ranks I" and "p < n_ranks I" and "l < n_local I" and "seen s r p l = Some x"
  shows "(if even (launch_no s r) then num_recv_tokens x = of_nat (card (items (D (launch_no s r) p) (r * n_local I + l))) else x = 1) \<and>
    launch_no s r \<le> launch_no s p \<and> (\<forall>q<n_ranks I. launch_no s q \<le> Suc (launch_no s r))"
proof -
  have alt: "alternating I" using assms(3-7) launch_words_nonzero by (simp add: alternating_def)
  have inv: "launches_inv I s" using launches.reachable_inv [OF assms(1)] alt assms(2) by blast
  note P = pair_invD [OF inv assms(8)]
  have "x = launch_words (n_local I) D (launch_no s r) p r l" and "launch_no s r \<le> launch_no s p"
    using P(7) [OF assms(9,11,10)] assms(6) by (auto simp: arrived_def reached_def)
  moreover have "num_recv_tokens (- of_nat n - 1) = of_nat n" for n by (simp add: num_recv_tokens_def)
  ultimately show ?thesis
    using P(1) launch_words_dispatch [of D "launch_no s r" p "n_local I" r l, OF assms(7)]
    by (cases "even (launch_no s r)") (auto simp: launch_words_def)
qed

text \<open>Two ranks with five experts each, every rank with the same two tokens.\<close>

definition demo_inputs :: "nat \<Rightarrow> nat \<Rightarrow> dispatch_in" where
  "demo_inputs k p = demo_dispatch\<lparr>num_experts := 10, num_ranks := 2, rank := p\<rparr>"

definition demo_launches :: "(nat \<Rightarrow> nat) \<Rightarrow> (nat \<Rightarrow> nat option) \<Rightarrow> launches_in" where
  "demo_launches buf clr = \<lparr>n_ranks = 2, n_local = 5, n_launches = 2, signal_word = launch_words 5 demo_inputs,
     by_rdma = (\<noteq>), buffer_of = buf, clears = clr\<rparr>"

lemma demo_launches_sel [simp]:
  "n_ranks (demo_launches buf clr) = 2" "n_local (demo_launches buf clr) = 5" "n_launches (demo_launches buf clr) = 2"
  "signal_word (demo_launches buf clr) = launch_words 5 demo_inputs" "buffer_of (demo_launches buf clr) = buf"
  "clears (demo_launches buf clr) = clr"
  by (simp_all add: demo_launches_def)

lemma demo_inputs_ok: "launch_ok (demo_inputs k p)" "launch_inputs (demo_launches buf clr) demo_inputs"
  by (auto simp: launch_inputs_def demo_inputs_def launch_ok_def entries_ok_def demo_dispatch_def dst_expert_idx_def
      less_2_cases_iff)

text \<open>Before a rank leaves its first launch it has seen a word from every rank and expert.\<close>

lemma seen_before_finish:
  assumes "(launches_step I)\<^sup>*\<^sup>* s0 s" and "launch_no s0 r = 0" and "launch_no s r \<noteq> 0"
  shows "\<exists>s1. (launches_step I)\<^sup>*\<^sup>* s0 s1 \<and> launch_no s1 r = 0 \<and> (\<forall>p<n_ranks I. \<forall>l<n_local I. seen s1 r p l \<noteq> None)"
  using assms(1,3)
proof (induction rule: rtranclp_induct)
  case (step y z)
  show ?case
  proof (cases "launch_no y r = 0")
    case True
    have "\<forall>p<n_ranks I. \<forall>l<n_local I. seen y r p l \<noteq> None" using step(2) True step.prems by cases (auto split: if_splits)
    then show ?thesis using step(1) True by blast
  qed (use step.IH in blast)
qed (use assms(2) in simp)

theorem launches_see_current_witness:
  "\<exists>s x. (launches_step (demo_launches (\<lambda>k. k mod 2) (\<lambda>k. Some (Suc k mod 2))))\<^sup>*\<^sup>* (launches_init (\<lambda>_ b _. of_nat b)) s \<and>
     seen s 0 1 3 = Some x \<and> num_recv_tokens x = of_nat (card (items (demo_inputs 0 1) 3))"
proof -
  let ?I = "demo_launches (\<lambda>k. k mod 2) (\<lambda>k. Some (Suc k mod 2))"
  let ?i = "launches_init (\<lambda>_ b _. of_nat b)"
  have alt: "alternating ?I" using launch_words_nonzero [OF demo_inputs_ok(1)] by (simp add: alternating_def)
  obtain s where s: "(launches_step ?I)\<^sup>*\<^sup>* ?i s" "\<forall>s'. \<not> launches_step ?I s s'" using launches.reaches_end by blast
  have "\<exists>W. ?i = launches_init W \<and> (\<forall>r<n_ranks ?I. \<forall>j<n_words ?I. W r 0 j = 0)"
    by (rule exI [of _ "\<lambda>_ b _. of_nat b"]) simp
  then have inv: "launches_inv ?I s" using launches.reachable_inv [OF s(1)] alt by blast
  have "n_launches ?I \<le> launch_no s 0" by (rule launches_stuck [OF alt _ inv s(2)]) simp_all
  then obtain s1 where run: "(launches_step ?I)\<^sup>*\<^sup>* ?i s1" and no: "launch_no s1 0 = 0"
    and sn: "\<forall>p<n_ranks ?I. \<forall>l<n_local ?I. seen s1 0 p l \<noteq> None"
    using seen_before_finish [OF s(1), of 0] by (auto simp: launches_init_def)
  have "seen s1 0 1 3 \<noteq> None" using sn by simp
  then obtain x where x: "seen s1 0 1 3 = Some x" by blast
  have "num_recv_tokens x = of_nat (card (items (demo_inputs 0 1) 3))"
    using launches_see_current [OF run, where D = demo_inputs and r = 0 and p = 1 and l = 3 and x = x] demo_inputs_ok(1) x no by simp
  then show ?thesis using run x by blast
qed

text \<open>
  C9. A sequence of launches for more than 8 experts, whose entries name experts that exist, with alternating
  buffers takes at most \<open>4 E + 1\<close> accesses per launch and \<open>4 E\<close> more
  on each of the ranks, for \<open>E\<close> words, and whenever no rank can go on every rank has finished all launches.
\<close>

theorem launches_all_finish:
  assumes "(launches_step I ^^ n) (launches_init W) s" and "\<forall>r<n_ranks I. \<forall>i<n_words I. W r 0 i = 0"
    and "buffer_of I = (\<lambda>k. k mod 2)" and "clears I = (\<lambda>k. Some (Suc k mod 2))" and "launch_inputs I D" and "8 < n_words I"
  shows "n \<le> n_ranks I * (n_launches I * (4 * n_words I + 1) + 4 * n_words I) \<and>
    ((\<forall>s'. \<not> launches_step I s s') \<longrightarrow> (\<forall>r<n_ranks I. launch_no s r = n_launches I))"
proof
  have "rank_work I (launches_init W) r \<le> n_launches I * (4 * n_words I + 1) + 4 * n_words I" for r
  proof -
    have "on_way I (launches_init W) r = {}" "launch_no (launches_init W) r = 0" by (simp_all add: on_way_def launches_init_def)
    then show ?thesis using rank_left_le [of I "launches_init W" r] by (simp add: rank_work_def)
  qed
  then have "launches_work I (launches_init W) \<le> n_ranks I * (n_launches I * (4 * n_words I + 1) + 4 * n_words I)"
    using sum_bounded_above [of "{..<n_ranks I}" "rank_work I (launches_init W)" "n_launches I * (4 * n_words I + 1) + 4 * n_words I"]
    by (simp add: launches_work_def)
  then show "n \<le> n_ranks I * (n_launches I * (4 * n_words I + 1) + 4 * n_words I)"
    using launches.run_bounded [OF assms(1)] by linarith
  have alt: "alternating I" by (rule launch_inputs_alternate [OF assms(5,6,3,4)])
  have run: "(launches_step I)\<^sup>*\<^sup>* (launches_init W) s" using assms(1) by (rule relpowp_imp_rtranclp)
  then have inv: "launches_inv I s" using launches.reachable_inv [OF run] alt assms(2) by blast
  show "(\<forall>s'. \<not> launches_step I s s') \<longrightarrow> (\<forall>r<n_ranks I. launch_no s r = n_launches I)"
    using launches_stuck [OF alt assms(6) inv] launch_count.reachable_inv [OF run] by (auto intro: le_antisym)
qed

theorem launches_all_finish_witness:
  "\<exists>s. (launches_step (demo_launches (\<lambda>k. k mod 2) (\<lambda>k. Some (Suc k mod 2))))\<^sup>*\<^sup>* (launches_init (\<lambda>_ _ _. 0)) s \<and>
     launch_no s 0 = 2 \<and> launch_no s 1 = 2"
proof -
  let ?I = "demo_launches (\<lambda>k. k mod 2) (\<lambda>k. Some (Suc k mod 2))"
  obtain s where s: "(launches_step ?I)\<^sup>*\<^sup>* (launches_init (\<lambda>_ _ _. 0)) s" "\<forall>s'. \<not> launches_step ?I s s'"
    using launches.reaches_end by blast
  then obtain n where "(launches_step ?I ^^ n) (launches_init (\<lambda>_ _ _. 0)) s" by (auto simp: rtranclp_power)
  from launches_all_finish [OF this _ _ _ demo_inputs_ok(2)] s(2) have "\<forall>r<2. launch_no s r = 2" by simp
  then have "launch_no s 0 = 2 \<and> launch_no s 1 = 2" by simp
  then show ?thesis using s(1) by blast
qed

section \<open>One buffer for all launches\<close>

text \<open>The same buffer for all launches and nothing cleared, with more than eight experts.\<close>

definition one_buffer :: "launches_in \<Rightarrow> nat \<Rightarrow> bool" where
  "one_buffer I b \<longleftrightarrow> 8 < n_words I \<and> 2 \<le> n_launches I \<and> buffer_of I = (\<lambda>_. b) \<and> clears I = (\<lambda>_. None)"

lemma one_bufferD:
  assumes "one_buffer I b"
  shows "0 < n_ranks I" "0 < n_local I" "0 < n_launches I" "Suc 0 < n_launches I" "not_trapped I k" "buffer_of I k = b" "clears I k = None"
proof -
  have w: "8 < n_words I" using assms by (simp add: one_buffer_def)
  show "0 < n_ranks I" using w by (cases "n_ranks I") simp_all
  show "0 < n_local I" using w by (cases "n_local I") simp_all
  show "not_trapped I k" by (rule not_trapped_many [OF w])
qed (use assms in \<open>simp_all add: one_buffer_def\<close>)

text \<open>
  A moment in the first launch: the signals of \<open>P\<close> (source, destination, expert) have been sent and have
  arrived, rank 0 has seen the words of \<open>Q\<close> (source, expert), and the words held \<open>W\<close> before.
\<close>

definition landed :: "launches_in \<Rightarrow> nat \<Rightarrow> (nat \<Rightarrow> nat \<Rightarrow> nat \<Rightarrow> cint) \<Rightarrow> nat \<Rightarrow> nat \<Rightarrow> nat \<Rightarrow> cint" where
  "landed I b W p d l = (if by_rdma I p d then W d b (signal_index I 0 p l) else 0) + signal_word I 0 p d l"

definition first_launch :: "launches_in \<Rightarrow> nat \<Rightarrow> (nat \<Rightarrow> nat \<Rightarrow> nat \<Rightarrow> cint) \<Rightarrow> launches_state \<Rightarrow> (nat \<times> nat \<times> nat) set \<Rightarrow>
    (nat \<times> nat) set \<Rightarrow> bool" where
  "first_launch I b W s P Q \<longleftrightarrow> launch_no s = (\<lambda>_. 0) \<and> in_flight s = (\<lambda>_ _ _ _. False) \<and>
     (\<forall>p d l. sent_to s p d l \<longleftrightarrow> (p, d, l) \<in> P) \<and>
     (\<forall>p<n_ranks I. \<forall>d<n_ranks I. \<forall>l<n_local I.
        sig_words s d b (signal_index I 0 p l) = (if (p, d, l) \<in> P then landed I b W p d l else W d b (signal_index I 0 p l))) \<and>
     (\<forall>p l. seen s 0 p l = (if (p, l) \<in> Q then Some (sig_words s 0 b (signal_index I 0 p l)) else None))"

lemma first_launchD:
  assumes "first_launch I b W s P Q"
  shows "launch_no s = (\<lambda>_. 0)" "in_flight s = (\<lambda>_ _ _ _. False)" "sent_to s p d l \<longleftrightarrow> (p, d, l) \<in> P"
    and "p < n_ranks I \<Longrightarrow> d < n_ranks I \<Longrightarrow> l < n_local I \<Longrightarrow>
      sig_words s d b (signal_index I 0 p l) = (if (p, d, l) \<in> P then landed I b W p d l else W d b (signal_index I 0 p l))"
    and "seen s 0 p l = (if (p, l) \<in> Q then Some (sig_words s 0 b (signal_index I 0 p l)) else None)"
  using assms by (simp_all add: first_launch_def)

lemma first_launch_init: "first_launch I b W (launches_init W) {} {}"
  by (simp add: first_launch_def launches_init_def)

text \<open>A signal is sent and arrives: a store, or a post that the NIC carries out at once.\<close>

lemma send_one:
  assumes I: "one_buffer I b" and fl: "first_launch I b W s P {}" and v: "p < n_ranks I" "d < n_ranks I" "l < n_local I" "(p, d, l) \<notin> P"
  shows "\<exists>s'. (launches_step I)\<^sup>*\<^sup>* s s' \<and> first_launch I b W s' (insert (p, d, l) P) {}"
proof -
  note D = one_bufferD [OF I] and F = first_launchD [OF fl]
  let ?i = "signal_index I 0 p l"
  define sent where "sent = (sent_to s)(p := (sent_to s p)(d := (sent_to s p d)(l := True)))"
  define s' where "s' = s\<lparr>sig_words := set_word d b ?i (landed I b W p d l) (sig_words s), sent_to := sent\<rparr>"
  have old: "sig_words s d b ?i = W d b ?i" using F(4) [OF v(1-3)] v(4) by simp
  have "(launches_step I)\<^sup>*\<^sup>* s s'"
  proof (cases "by_rdma I p d")
    case False
    have "launches_step I s s'" unfolding s'_def sent_def
      using launches_step.store [of p I s d l b ?i] D F v False by (simp add: landed_def)
    then show ?thesis by blast
  next
    case True
    let ?t = "s\<lparr>sent_to := sent,
      in_flight := (in_flight s)(p := (in_flight s p)(d := (in_flight s p d)(l := (in_flight s p d l)(0 := True))))\<rparr>"
    have t: "launches_step I s ?t" unfolding sent_def using launches_step.post [of p I s d l] D F v True by simp
    have "?t\<lparr>sig_words := set_word d b ?i (sig_words ?t d b ?i + signal_word I 0 p d l) (sig_words ?t),
        in_flight := (in_flight ?t)(p := (in_flight ?t p)(d := (in_flight ?t p d)(l := (in_flight ?t p d l)(0 := False))))\<rparr> = s'"
      using F(2) old True by (cases s) (simp add: s'_def landed_def fun_eq_iff)
    then have "launches_step I ?t s'" using launches_step.deliver [of p I d l 0 ?t b ?i] D v by simp
    with t show ?thesis by (meson converse_rtranclp_into_rtranclp r_into_rtranclp)
  qed
  moreover have "first_launch I b W s' (insert (p, d, l) P) {}"
    unfolding first_launch_def
  proof (intro conjI allI impI)
    fix x y z assume xyz: "x < n_ranks I" "y < n_ranks I" "z < n_local I"
    have "signal_index I 0 x z = ?i \<longleftrightarrow> x = p \<and> z = l" using xyz v signal_index_inj [of x I p z l 0 0] by simp
    then show "sig_words s' y b (signal_index I 0 x z) =
        (if (x, y, z) \<in> insert (p, d, l) P then landed I b W x y z else W y b (signal_index I 0 x z))"
      using F(4) [OF xyz] by (auto simp: s'_def set_word_apply)
  qed (use F in \<open>simp_all add: s'_def sent_def\<close>)
  ultimately show ?thesis by blast
qed

lemma send_many:
  assumes I: "one_buffer I b" and "finite P" and "P \<subseteq> {..<n_ranks I} \<times> {..<n_ranks I} \<times> {..<n_local I}"
  shows "\<exists>s. (launches_step I)\<^sup>*\<^sup>* (launches_init W) s \<and> first_launch I b W s P {}"
  using assms(2,3)
proof (induction P)
  case (insert x P)
  obtain p d l where x: "x = (p, d, l)" by (cases x)
  obtain s where s: "(launches_step I)\<^sup>*\<^sup>* (launches_init W) s" "first_launch I b W s P {}" using insert by auto
  then show ?case using send_one [OF I s(2), of p d l] insert x by (auto intro: rtranclp_trans)
qed (use first_launch_init in blast)

lemma all_sent_first:
  assumes "first_launch I b W s P Q" and "{0} \<times> {..<n_ranks I} \<times> {..<n_local I} \<subseteq> P"
  shows "all_sent I s 0"
  using assms first_launchD(3) [OF assms(1)] by (auto simp: all_sent_def)

lemma see_one:
  assumes I: "one_buffer I b" and fl: "first_launch I b W s P Q" and P: "{0} \<times> {..<n_ranks I} \<times> {..<n_local I} \<subseteq> P"
    and v: "p < n_ranks I" "l < n_local I" "(p, l) \<notin> Q" "sig_words s 0 b (signal_index I 0 p l) \<noteq> 0"
  shows "\<exists>s'. launches_step I s s' \<and> first_launch I b W s' P (insert (p, l) Q)"
proof -
  note D = one_bufferD [OF I] and F = first_launchD [OF fl]
  let ?s = "s\<lparr>seen := (seen s)(0 := (seen s 0)(p := (seen s 0 p)(l := Some (sig_words s 0 b (signal_index I 0 p l)))))\<rparr>"
  have "launches_step I s ?s"
    by (rule launches_step.see) (use D F v all_sent_first [OF fl P] in simp_all)
  moreover have "first_launch I b W ?s P (insert (p, l) Q)"
    using F unfolding first_launch_def by auto
  ultimately show ?thesis by blast
qed

lemma see_many:
  assumes I: "one_buffer I b" and fl: "first_launch I b W s P {}" and P: "{0} \<times> {..<n_ranks I} \<times> {..<n_local I} \<subseteq> P"
    and "finite Q" and "Q \<subseteq> {..<n_ranks I} \<times> {..<n_local I}"
    and nz: "\<And>p l. (p, l) \<in> Q \<Longrightarrow> (if (p, 0, l) \<in> P then landed I b W p 0 l else W 0 b (signal_index I 0 p l)) \<noteq> 0"
  shows "\<exists>s'. (launches_step I)\<^sup>*\<^sup>* s s' \<and> first_launch I b W s' P Q"
  using assms(4-)
proof (induction Q)
  case (insert x Q)
  obtain p l where x: "x = (p, l)" by (cases x)
  obtain s1 where s1: "(launches_step I)\<^sup>*\<^sup>* s s1" "first_launch I b W s1 P Q" using insert by auto
  have v: "p < n_ranks I" "l < n_local I" "(p, l) \<notin> Q" using insert x by auto
  have "sig_words s1 0 b (signal_index I 0 p l) \<noteq> 0"
    using first_launchD(4) [OF s1(2) v(1) one_bufferD(1) [OF I] v(2)] insert.prems(2) [of p l] x by simp
  from see_one [OF I s1(2) P v this] s1(1) x show ?case by (auto intro: rtranclp.rtrancl_into_rtrancl)
qed (use fl in blast)

text \<open>
  C25. When every launch uses the same buffer and none of them clears its words, the combine of a rank takes the
  words of a dispatch for its own: rank 0 leaves its dispatch, and its combine ends its wait for expert \<open>l\<close> of
  any rank \<open>p\<close>, while all other ranks are still in the dispatch, with the number of tokens that some rank
  dispatched to one of its experts.
\<close>

theorem one_buffer_sees_dispatch:
  assumes "one_buffer I b" and "\<And>k p d l. signal_word I k p d l \<noteq> 0" and "p < n_ranks I" and "l < n_local I"
  defines "i \<equiv> signal_index I 1 p l"
  shows "\<exists>s. (launches_step I)\<^sup>*\<^sup>* (launches_init (\<lambda>_ _ _. 0)) s \<and> launch_no s 0 = 1 \<and> (\<forall>r. r \<noteq> 0 \<longrightarrow> launch_no s r = 0) \<and>
    seen s 0 p l = Some (signal_word I 0 (i mod n_ranks I) 0 (i div n_ranks I))"
proof -
  let ?W = "\<lambda>_ _ _. 0" and ?P = "{..<n_ranks I} \<times> {..<n_ranks I} \<times> {..<n_local I}" and ?Q = "{..<n_ranks I} \<times> {..<n_local I}"
  note I = one_bufferD [OF assms(1)]
  have P: "{0} \<times> {..<n_ranks I} \<times> {..<n_local I} \<subseteq> ?P" using I by auto
  obtain s1 where s1: "(launches_step I)\<^sup>*\<^sup>* (launches_init ?W) s1" "first_launch I b ?W s1 ?P {}"
    using send_many [OF assms(1), of ?P ?W] by auto
  have "\<exists>s2. (launches_step I)\<^sup>*\<^sup>* s1 s2 \<and> first_launch I b ?W s2 ?P ?Q"
    by (rule see_many [OF assms(1) s1(2) P]) (use assms(2) in \<open>auto simp: landed_def\<close>)
  then obtain s2 where s2: "(launches_step I)\<^sup>*\<^sup>* s1 s2" "first_launch I b ?W s2 ?P ?Q" by blast
  note F = first_launchD [OF s2(2)]
  define s3 where "s3 = s2\<lparr>launch_no := (launch_no s2)(0 := Suc (launch_no s2 0)), wiped := (wiped s2)(0 := (\<lambda>_. False)),
      sent_to := (sent_to s2)(0 := (\<lambda>_ _. False)), seen := (seen s2)(0 := (\<lambda>_ _. None))\<rparr>"
  have s3: "launches_step I s2 s3"
    unfolding s3_def by (rule launches_step.finish) (use I F all_sent_first [OF s2(2) P] in simp_all)
  have less: "i < n_local I * n_ranks I"
    using signal_index_less [OF assms(3,4), of 1] by (simp add: i_def mult.commute)
  then have pl: "i mod n_ranks I < n_ranks I" "i div n_ranks I < n_local I"
    using I(1) by (simp_all add: less_mult_imp_div_less)
  have "i = signal_index I 0 (i mod n_ranks I) (i div n_ranks I)" by (simp add: signal_index_def)
  then have w: "sig_words s2 0 b i = signal_word I 0 (i mod n_ranks I) 0 (i div n_ranks I)"
    using F(4) [OF pl(1) I(1) pl(2)] pl I(1) by (simp add: landed_def)
  define s4 where "s4 = s3\<lparr>seen := (seen s3)(0 := (seen s3 0)(p := (seen s3 0 p)(l := Some (sig_words s2 0 b i))))\<rparr>"
  have "launches_step I s3 s4"
    unfolding s4_def by (rule launches_step.see) (use I F assms w in \<open>simp_all add: s3_def i_def\<close>)
  then have "(launches_step I)\<^sup>*\<^sup>* (launches_init ?W) s4" using s1(1) s2(1) s3 by (meson rtranclp.rtrancl_into_rtrancl rtranclp_trans)
  then show ?thesis using F(1) w by (intro exI [of _ s4]) (simp add: s4_def s3_def)
qed

theorem one_buffer_sees_dispatch_witness:
  "\<exists>s. (launches_step (demo_launches (\<lambda>_. 0) (\<lambda>_. None)))\<^sup>*\<^sup>* (launches_init (\<lambda>_ _ _. 0)) s \<and> launch_no s 0 = 1 \<and>
     launch_no s 1 = 0 \<and> seen s 0 1 2 = Some (launch_words 5 demo_inputs 0 1 0 3)"
proof -
  let ?I = "demo_launches (\<lambda>_. 0) (\<lambda>_. None)"
  have "one_buffer ?I 0" by (simp add: one_buffer_def)
  from one_buffer_sees_dispatch [OF this, of 1 2] launch_words_nonzero [OF demo_inputs_ok(1)]
  show ?thesis by (auto simp: signal_index_def)
qed

text \<open>
  When the words of the first buffer are not 0 at the start, a rank ends its first wait with what happens to be
  there, although the source has not sent anything.
\<close>

lemma dirty_buffer_seen:
  assumes I: "one_buffer I b" and p: "p < n_ranks I" "p \<noteq> 0" "l < n_local I" and W: "W 0 b (signal_index I 0 p l) \<noteq> 0"
  shows "\<exists>s. (launches_step I)\<^sup>*\<^sup>* (launches_init W) s \<and> seen s 0 p l = Some (W 0 b (signal_index I 0 p l)) \<and> (\<forall>d l. \<not> sent_to s p d l)"
proof -
  let ?P = "{0} \<times> {..<n_ranks I} \<times> {..<n_local I}"
  note D = one_bufferD [OF I]
  have sub: "?P \<subseteq> {..<n_ranks I} \<times> {..<n_ranks I} \<times> {..<n_local I}" using D(1) by auto
  obtain s1 where s1: "(launches_step I)\<^sup>*\<^sup>* (launches_init W) s1" "first_launch I b W s1 ?P {}"
    using send_many [OF I _ sub, of W] by auto
  have "\<exists>s2. (launches_step I)\<^sup>*\<^sup>* s1 s2 \<and> first_launch I b W s2 ?P {(p, l)}"
    by (rule see_many [OF I s1(2) order_refl]) (use p W in auto)
  then obtain s2 where s2: "(launches_step I)\<^sup>*\<^sup>* s1 s2" "first_launch I b W s2 ?P {(p, l)}" by blast
  note F = first_launchD [OF s2(2)]
  have "seen s2 0 p l = Some (W 0 b (signal_index I 0 p l))" using F(4) [OF p(1) D(1) p(3)] F(5) [of p l] p(2) by simp
  moreover have "\<not> sent_to s2 p d l'" for d l' using F(3) [of p d l'] p(2) by simp
  ultimately show ?thesis using s1(1) s2(1) by (meson rtranclp_trans)
qed

end
