(* ===== verification/Dispatch_Stray.thy ===== *)
theory Dispatch_Stray
  imports Dispatch_Protocol
begin

text \<open>
  What an entry of \<^verbatim>\<open>topk_idx\<close> does that names no expert (\<^verbatim>\<open>dispatch\<close> of \<^verbatim>\<open>src/ep_kernel.cu\<close>): the kernel does not
  compare it with the number of experts, so the slot for the entry \<open>num_experts + e\<close> is taken from the finish counter
  of expert \<open>e\<close>, which then never has the value its responsible thread waits for. The accounting of the finish
  counters here needs no hypothesis on the entries.
\<close>

section \<open>The finish counters with stray entries\<close>

definition stray_items :: "dispatch_in \<Rightarrow> nat \<Rightarrow> item set" where
  "stray_items D e = items D (num_experts D + e)"

definition finish_account :: "dispatch_in \<Rightarrow> dispatch_state \<Rightarrow> nat \<Rightarrow> bool" where
  "finish_account D s e \<longleftrightarrow> (resp_at s e \<noteq> Reset \<longrightarrow>
     finish_counter D s e = of_nat (card (done_items D s e)) + (if tagged s e then FINISHED_SUM_TAG else 0) +
       (if counted s e = None then 0 else FINISHED_SUM_TAG - of_nat (card (items D e))) +
       of_nat (card (started D s (num_experts D + e))))"

lemma card_started_take:
  assumes "w \<in> items D e" and "send_at s w = Start"
  shows "card (started D (s\<lparr>send_at := (send_at s)(w := Slot v), workspace_words := ws\<rparr>) i) = card (started D s i) + of_bool (i = e)"
proof (cases "i = e")
  case True
  have "started D (s\<lparr>send_at := (send_at s)(w := Slot v), workspace_words := ws\<rparr>) i = insert w (started D s i)"
    using assms True by (auto simp: started_def)
  moreover have "w \<notin> started D s i" "finite (started D s i)" using assms by (auto simp: started_def)
  ultimately show ?thesis using True by simp
next
  case False
  then have "w \<notin> items D i" using items_disjoint [OF assms(1)] by blast
  then have "started D (s\<lparr>send_at := (send_at s)(w := Slot v), workspace_words := ws\<rparr>) i = started D s i" by (auto simp: started_def)
  then show ?thesis using False by simp
qed

lemma card_done_finish:
  assumes "w \<in> items D e" and "send_at s w = Written v"
  shows "card (done_items D (s\<lparr>send_at := (send_at s)(w := Finished v), workspace_words := ws\<rparr>) i) =
    card (done_items D s i) + of_bool (i = e)"
proof (cases "i = e")
  case True
  have "done_items D (s\<lparr>send_at := (send_at s)(w := Finished v), workspace_words := ws\<rparr>) i = insert w (done_items D s i)"
    using assms True by (auto simp: done_items_def)
  moreover have "w \<notin> done_items D s i" "finite (done_items D s i)" using assms by (auto simp: done_items_def)
  ultimately show ?thesis using True by simp
next
  case False
  then have "w \<notin> items D i" using items_disjoint [OF assms(1)] by blast
  then have "done_items D (s\<lparr>send_at := (send_at s)(w := Finished v), workspace_words := ws\<rparr>) i = done_items D s i"
    by (auto simp: done_items_def)
  then show ?thesis using False by simp
qed

text \<open>The moves of an item that do not change whether it has started or finished.\<close>

lemma started_same:
  assumes "\<And>w. w \<in> items D i \<Longrightarrow> (send_at s' w = Start) = (send_at s w = Start)"
  shows "started D s' i = started D s i"
  using assms by (auto simp: started_def)

lemma done_same:
  assumes "\<And>w. w \<in> items D i \<Longrightarrow> has_finished (send_at s' w) = has_finished (send_at s w)"
  shows "done_items D s' i = done_items D s i"
  using assms by (auto simp: done_items_def)

lemma finish_account_step:
  assumes "dispatch_step D s s'" and acc: "finish_account D s e" and e: "e < num_experts D" and topk: "num_topk D \<le> 31"
  shows "finish_account D s' e"
  using assms(1)
proof cases
  case (take_slot w i)
  have "done_items D s' e = done_items D s e" using take_slot(1,3) by (intro done_same) auto
  moreover have "card (started D s' (num_experts D + e)) = card (started D s (num_experts D + e)) + of_bool (num_experts D + e = i)"
    unfolding take_slot(1) by (rule card_started_take [OF take_slot(2,3)])
  moreover have "finish_counter D s' e = finish_counter D s e + of_bool (num_experts D + e = i)"
    by (simp add: take_slot(1) add_word_apply finish_word_def atomic_word_def)
  moreover have "tagged s' = tagged s" "counted s' = counted s" "resp_at s' = resp_at s" by (simp_all add: take_slot(1))
  ultimately show ?thesis using acc by (simp add: finish_account_def)
next
  case (write_msg w i v)
  have "done_items D s' e = done_items D s e" using write_msg(1,3) by (intro done_same) auto
  moreover have "started D s' (num_experts D + e) = started D s (num_experts D + e)"
    using write_msg(1,3) by (intro started_same) auto
  ultimately show ?thesis using acc unfolding write_msg(1) by (simp add: finish_account_def)
next
  case (finish w i v)
  have "started D s' (num_experts D + e) = started D s (num_experts D + e)" using finish(1,3) by (intro started_same) auto
  moreover have "card (done_items D s' e) = card (done_items D s e) + of_bool (e = i)"
    unfolding finish(1) by (rule card_done_finish [OF finish(2,3)])
  moreover have "finish_counter D s' e = finish_counter D s e + of_bool (e = i)" by (simp add: finish(1) add_word_apply)
  moreover have "tagged s' = tagged s" "counted s' = counted s" "resp_at s' = resp_at s" by (simp_all add: finish(1))
  ultimately show ?thesis using acc by (simp add: finish_account_def)
next
  case (zero i)
  then show ?thesis using acc by (simp add: finish_account_def started_def done_items_def)
next
  case (tag i)
  then show ?thesis using acc by (auto simp: finish_account_def started_def done_items_def add_word_apply)
next
  case (count i)
  then show ?thesis using acc
    by (auto simp: finish_account_def started_def done_items_def add_word_apply num_tokens_sent_eq [OF topk])
next
  case (signal i n)
  have "done_items D s' e = done_items D s e" "started D s' (num_experts D + e) = started D s (num_experts D + e)"
    by (simp_all add: signal(1) done_items_def started_def)
  moreover have "tagged s' = tagged s" "counted s' = counted s" "workspace_words s' = workspace_words s" "resp_at s' e \<noteq> Reset \<longrightarrow> resp_at s e \<noteq> Reset"
    using signal(4) by (auto simp: signal(1))
  ultimately show ?thesis using acc unfolding finish_account_def by simp
next
  case (reset i)
  then show ?thesis using acc e by (auto simp: finish_account_def started_def done_items_def)
qed

interpretation dispatch_account: step_system "dispatch_step D" "\<lambda>s. num_topk D \<le> 31 \<and> (\<exists>counts. s = dispatch_init counts)"
  "\<lambda>s. num_topk D \<le> 31 \<and> (\<forall>e<num_experts D. finish_account D s e)" for D
proof
  show "num_topk D \<le> 31 \<and> (\<forall>e<num_experts D. finish_account D s e)"
    if "num_topk D \<le> 31 \<and> (\<exists>counts. s = dispatch_init counts)" for s
    using that by (auto simp: dispatch_init_def finish_account_def started_def done_items_def)
qed (blast intro: finish_account_step)

interpretation dispatch_signals: step_system "dispatch_step D" "\<lambda>s. \<exists>counts. s = dispatch_init counts"
  "\<lambda>s. \<forall>e v. Signal e v \<in> set (acts s) \<longrightarrow> resp_at s e \<noteq> Waiting" for D
proof
  fix s s' assume inv: "\<forall>e v. Signal e v \<in> set (acts s) \<longrightarrow> resp_at s e \<noteq> Waiting" and step: "dispatch_step D s s'"
  show "\<forall>e v. Signal e v \<in> set (acts s') \<longrightarrow> resp_at s' e \<noteq> Waiting"
  proof (intro allI impI)
    fix e v assume "Signal e v \<in> set (acts s')"
    with step show "resp_at s' e \<noteq> Waiting" using inv [rule_format, of e v] by cases auto
  qed
qed (auto simp: dispatch_init_def)

section \<open>A run in which the expert is not signalled\<close>

definition keeps_waiting :: "dispatch_in \<Rightarrow> nat \<Rightarrow> dispatch_state \<Rightarrow> dispatch_state \<Rightarrow> bool" where
  "keeps_waiting D e s s' \<longleftrightarrow> dispatch_step D s s' \<and> resp_at s' e = Waiting"

interpretation keeps_waiting: draining "keeps_waiting D e" "work_left D" for D e
  by unfold_locales (auto simp: keeps_waiting_def dest: dispatch_step_work)

lemma keeps_waiting_run:
  assumes "(keeps_waiting D e)\<^sup>*\<^sup>* s s'" and "resp_at s e = Waiting"
  shows "(dispatch_step D)\<^sup>*\<^sup>* s s' \<and> resp_at s' e = Waiting"
  using assms
proof (induction rule: rtranclp_induct)
  case (step y z)
  then show ?case by (auto simp: keeps_waiting_def intro: rtranclp.rtrancl_into_rtrancl)
qed simp

text \<open>Everything reported and the thread still waiting: the counter is off by the number of stray entries.\<close>

lemma finish_off_by_strays:
  assumes ok: "launch_ok D" "8 < num_experts D" and s: "dispatch_reachable D counts s" "idle D s" and e: "e < num_experts D"
    and w: "resp_at s e = Waiting"
  shows "finish_counter D s e = FINISHED_SUM_TAG * 2 + of_nat (card (stray_items D e))"
proof -
  have sms: "1 < num_sms (num_experts D)" using ok(2) one_block_iff [of "num_experts D"] by simp
  have "finish_account D s e"
    using dispatch_account.reachable_inv [OF s(1)] launch_okD(1) [OF ok(1)] e by blast
  moreover have "started D s (num_experts D + e) = stray_items D e"
    using idle_items [OF s(2)] by (fastforce simp: started_def stray_items_def)
  ultimately show ?thesis
    using w idle_done [OF s(2)] idle_clean [OF s(2) sms e] by (simp add: finish_account_def)
qed

section \<open>Properties\<close>

text \<open>
  C28. An entry of \<^verbatim>\<open>topk_idx\<close> that names no expert can hang the launch. When some entry holds the number
  \<open>num_experts + e\<close>, there is a run at whose end no access can be made any more and expert \<open>e\<close> has not been
  signalled: its finish counter is above the value that the responsible thread waits for, by the number of these
  entries, since their slots were taken from it. (The rank such an entry goes to does not exist either; the steps
  assume that its message can be written somewhere.)
\<close>

theorem stray_entry_hangs:
  assumes "launch_ok D" and "8 < num_experts D" and "e < num_experts D" and "items D (num_experts D + e) \<noteq> {}"
  shows "\<exists>s. dispatch_reachable D counts s \<and> (\<forall>s'. \<not> dispatch_step D s s') \<and> (\<forall>v. Signal e v \<notin> set (acts s)) \<and>
    finish_counter D s e = FINISHED_SUM_TAG * 2 + of_nat (card (items D (num_experts D + e)))"
proof -
  let ?m = "card (items D (num_experts D + e))"
  obtain s where s: "(keeps_waiting D e)\<^sup>*\<^sup>* (dispatch_init counts) s" and last: "\<forall>s'. \<not> keeps_waiting D e s s'"
    using keeps_waiting.reaches_end by blast
  then have r: "dispatch_reachable D counts s" and w: "resp_at s e = Waiting"
    using keeps_waiting_run [OF s] by (simp_all add: dispatch_init_def)
  have id: "idle D s" using last w by (auto simp: idle_def keeps_waiting_def)
  have fin: "finish_counter D s e = FINISHED_SUM_TAG * 2 + of_nat ?m"
    using finish_off_by_strays [OF assms(1,2) r id assms(3) w] by (simp add: stray_items_def)
  have "?m < 2 ^ 31" by (rule launch_okD(2) [OF assms(1)])
  then have "unat (of_nat ?m :: cint) = ?m" by (simp add: unat_of_nat)
  moreover have "?m \<noteq> 0" using assms(4) by simp
  ultimately have "of_nat ?m \<noteq> (0 :: cint)" by (metis unat_0)
  then have off: "finish_counter D s e \<noteq> FINISHED_SUM_TAG * 2" using fin by simp
  have "\<not> dispatch_step D s s'" for s'
  proof
    assume st: "dispatch_step D s s'"
    then have "resp_at s' e \<noteq> Waiting" using last by (simp add: keeps_waiting_def)
    with st show False using w off by cases (auto split: if_splits)
  qed
  moreover have "Signal e v \<notin> set (acts s)" for v using dispatch_signals.reachable_inv [OF r] w by blast
  ultimately show ?thesis using r fin by blast
qed

text \<open>The launch of two tokens, with the entry 12 in place of the entry 3 of nine experts.\<close>

theorem stray_entry_hangs_witness:
  "\<exists>s. dispatch_reachable (demo_dispatch\<lparr>topk_idx := (\<lambda>i. if i = 1 then 12 else 8)\<rparr>) (\<lambda>_. 0) s \<and> (\<forall>v. Signal 3 v \<notin> set (acts s))"
proof -
  let ?D = "demo_dispatch\<lparr>topk_idx := (\<lambda>i. if i = 1 then 12 else 8)\<rparr>"
  have "(0, 1) \<in> items ?D (num_experts ?D + 3)" by (simp add: items_def dst_expert_idx_def demo_dispatch_def)
  then have "items ?D (num_experts ?D + 3) \<noteq> {}" by blast
  moreover have "launch_ok ?D" "8 < num_experts ?D" "3 < num_experts ?D" by (simp_all add: launch_ok_def demo_dispatch_def)
  ultimately show ?thesis using stray_entry_hangs [of ?D 3 "\<lambda>_. 0"] by blast
qed

end
