(* ===== verification/End_To_End.thy ===== *)
theory End_To_End
  imports Kernel_Launch
begin

text \<open>
  The kernels together: from the tokens of every rank through the slots and the packed output of every
  expert to the combined rows. The contents of the receive regions are read off the actions of the send
  phases; the slot addresses behind them do not overlap (\<^theory_text>\<open>Buffer_Layout\<close>) and are where the
  transfers go (\<^theory_text>\<open>Kernel_Messages\<close>).
\<close>

section \<open>A cluster\<close>

text \<open>
  All ranks run the dispatch with the same shape: the ranks share the experts evenly, every entry that is not
  negative names an expert, no token names an expert twice, the ranks keep to the number of tokens the buffers
  are made for, and the row numbers of the combine are in the range of \<^verbatim>\<open>int\<close>, with room for the four warps of
  a group.
\<close>

definition cluster_ok :: "nat \<Rightarrow> nat \<Rightarrow> nat \<Rightarrow> (nat \<Rightarrow> dispatch_in) \<Rightarrow> bool" where
  "cluster_ok R E M D \<longleftrightarrow> 8 < E \<and> R dvd E \<and> E * M + 3 < 2 ^ 31 \<and>
     (\<forall>r<R. num_ranks (D r) = R \<and> num_experts (D r) = E \<and> rank (D r) = r \<and> launch_ok (D r) \<and> entries_ok (D r) \<and>
       distinct_experts (D r) \<and> num_tokens (D r) \<le> M)"

lemma cluster_rows:
  assumes "cluster_ok R E M D"
  shows "R * M + 3 < 2 ^ 31" and "R * M < 2 ^ 31" and "E * M < 2 ^ 31"
proof -
  have "R \<le> E" using assms by (intro dvd_imp_le) (simp_all add: cluster_ok_def)
  then have "R * M \<le> E * M" by simp
  moreover have "E * M + 3 < 2 ^ 31" using assms by (simp add: cluster_ok_def)
  ultimately show "R * M + 3 < 2 ^ 31" "R * M < 2 ^ 31" "E * M < 2 ^ 31" by linarith+
qed

text \<open>The item in a slot of an expert, after the messages of one source rank, and the message it stands for.\<close>

fun land :: "nat \<Rightarrow> act \<Rightarrow> (nat \<Rightarrow> item option) \<Rightarrow> nat \<Rightarrow> item option" where
  "land e (Msg e' w v) slots = (if e' = e then slots(unat v \<mapsto> w) else slots)"
| "land e (Signal e' v) slots = slots"

definition slot_items :: "act list \<Rightarrow> nat \<Rightarrow> nat \<Rightarrow> item option" where
  "slot_items as e = fold (land e) as (\<lambda>_. None)"

definition message :: "(nat \<Rightarrow> 'row) \<Rightarrow> item \<Rightarrow> cint \<times> 'row" where
  "message rows w = (of_nat (fst w), rows (fst w))"

text \<open>
  One run: \<open>s r\<close> is the end of rank \<open>r\<close>'s send phase and \<open>v e r\<close> the word it signalled for expert \<open>e\<close>;
  \<open>order e\<close> is the order in which the ranges of expert \<open>e\<close> were taken and \<open>copies e\<close> the copies into its
  packed rows, in any order.
\<close>

record 'row run =
  final :: "nat \<Rightarrow> dispatch_state"
  word :: "nat \<Rightarrow> nat \<Rightarrow> cint"
  order :: "nat \<Rightarrow> nat list"
  copies :: "nat \<Rightarrow> (nat \<times> (cint \<times> 'row)) list"

definition recv_slots :: "(nat \<Rightarrow> nat \<Rightarrow> 'row) \<Rightarrow> 'row run \<Rightarrow> nat \<Rightarrow> nat \<Rightarrow> nat \<Rightarrow> cint \<times> 'row" where
  "recv_slots rows X e r i = message (rows r) (the (slot_items (acts (final X r)) e i))"

definition range_start :: "'row run \<Rightarrow> nat \<Rightarrow> nat \<Rightarrow> cint" where
  "range_start X e = snd (take_ranges (\<lambda>r. num_recv_tokens (word X e r)) (order X e) 0 (\<lambda>_. 0))"

definition dispatched :: "nat \<Rightarrow> nat \<Rightarrow> (nat \<Rightarrow> dispatch_in) \<Rightarrow> (nat \<Rightarrow> nat \<Rightarrow> 'row) \<Rightarrow> 'row run \<Rightarrow> bool" where
  "dispatched R E D rows X \<longleftrightarrow>
     (\<forall>r<R. (\<exists>counts. dispatch_reachable (D r) counts (final X r)) \<and> stuck (D r) (final X r)) \<and>
     (\<forall>e<E. distinct (order X e) \<and> set (order X e) = {..<R} \<and>
       (\<forall>r<R. Signal e (word X e r) \<in> set (acts (final X r))) \<and>
       set (copies X e) = (\<Union>r<R. set (rank_rows (num_recv_tokens (word X e r)) (range_start X e r) (recv_slots rows X e r))))"

definition packed :: "'row run \<Rightarrow> (nat \<Rightarrow> cint \<times> 'row) \<Rightarrow> nat \<Rightarrow> nat \<Rightarrow> cint \<times> 'row" where
  "packed X old e = store_all (copies X e) old"

text \<open>The rows that rank \<open>r\<close> gets back when expert \<open>e\<close> computes \<open>F e\<close> on each of its packed rows.\<close>

definition returned :: "nat \<Rightarrow> nat \<Rightarrow> 'row run \<Rightarrow> (nat \<Rightarrow> cint \<times> 'row) \<Rightarrow> (nat \<Rightarrow> 'row \<Rightarrow> 'out) \<Rightarrow> nat \<Rightarrow> (nat \<times> 'out) list \<Rightarrow> bool" where
  "returned M E X old F r stores \<longleftrightarrow>
     set stores = (\<Union>e<E. set (combine_stores (of_nat M) (of_nat e)
       (snd (unpack2 (recv_range (\<lambda>r. num_recv_tokens (word X e r)) (range_start X e) r)))
       (fst (unpack2 (recv_range (\<lambda>r. num_recv_tokens (word X e r)) (range_start X e) r)))
       (\<lambda>i. fst (packed X old e i)) (\<lambda>i. F e (snd (packed X old e i)))))"

section \<open>Slots\<close>

lemma slot_items_cong:
  assumes "\<forall>a\<in>set as. act_expert a \<noteq> e \<longrightarrow> land e a = id"
  shows "slot_items as e = slot_items (filter (\<lambda>a. act_expert a = e) as) e"
proof -
  have "fold (land e) as f = fold (land e) (filter (\<lambda>a. act_expert a = e) as) f" for f
    using assms by (induction as arbitrary: f) auto
  then show ?thesis by (simp add: slot_items_def)
qed

lemma land_other: "act_expert a \<noteq> e \<Longrightarrow> land e a = id"
  by (cases a) (auto simp: fun_eq_iff)

lemma slot_items_msgs:
  assumes "distinct (map snd ms)" and "\<forall>i\<in>set (map snd ms). i < 2 ^ 32" and "(w, i) \<in> set ms"
  shows "slot_items (map (\<lambda>(w, i). Msg e w (of_nat i)) ms @ [Signal e v]) e i = Some w"
proof -
  have "fold (land e) (map (\<lambda>(w, i). Msg e w (of_nat i)) ms) f i = (if i \<in> set (map snd ms) then Some w else f i)"
    if "(w, i) \<in> set ms \<or> i \<notin> set (map snd ms)" for f
    using assms(1,2) that
  proof (induction ms arbitrary: f)
    case (Cons m ms)
    obtain w' i' where m: "m = (w', i')" by (cases m)
    have i': "unat (of_nat i' :: cint) = i'" using Cons.prems(2) m by (simp add: unat_of_nat)
    have "(w, i) \<in> set ms \<or> i \<notin> set (map snd ms)" using Cons.prems m by force
    moreover have "i = i' \<Longrightarrow> w = w' \<or> i \<notin> set (map snd (m # ms))" using Cons.prems m by force
    ultimately show ?case using Cons.IH Cons.prems m i' by auto
  qed simp
  then show ?thesis using assms(3) by (force simp: slot_items_def)
qed

text \<open>At the end of a send phase the slots of an expert hold its items, one each.\<close>

lemma slots_filled:
  assumes "cluster_ok R E M D" and "dispatched R E D rows X" and r: "r < R" and e: "e < E"
  shows "\<exists>f. bij_betw f {..<card (items (D r) e)} (items (D r) e) \<and>
      (\<forall>i<card (items (D r) e). slot_items (acts (final X r)) e i = Some (f i))"
    and "num_recv_tokens (word X e r) = of_nat (card (items (D r) e))"
proof -
  have D: "launch_ok (D r)" "entries_ok (D r)" "8 < num_experts (D r)" "e < num_experts (D r)"
    using assms by (auto simp: cluster_ok_def)
  obtain counts where s: "dispatch_reachable (D r) counts (final X r)" "stuck (D r) (final X r)"
    using assms(2) r by (auto simp: dispatched_def)
  note fin = stuck_final [OF D(1-3) s D(4)]
  let ?n = "card (items (D r) e)"
  obtain ms where ms: "filter (\<lambda>a. act_expert a = e) (acts (final X r)) =
      map (\<lambda>(w, i). Msg e w (of_nat i)) ms @ [Signal e (- of_nat ?n - 1)]"
    "distinct (map fst ms)" "set (map fst ms) = items (D r) e" "distinct (map snd ms)" "set (map snd ms) = {..<?n}"
    using expert_actions [OF fin(2) launch_okD(2) [OF D(1)]] fin(1) by auto
  have small: "?n < 2 ^ 31" by (rule launch_okD(2) [OF D(1)])
  define f where "f i = (THE w. (w, i) \<in> set ms)" for i
  have f: "(f i, i) \<in> set ms \<and> f i = w" if "(w, i) \<in> set ms" for w i
  proof -
    have "inj_on snd (set ms)" using ms(4) by (simp add: distinct_map)
    then have "w' = w" if "(w', i) \<in> set ms" for w'
      using inj_onD [of snd "set ms" "(w', i)" "(w, i)"] that \<open>(w, i) \<in> set ms\<close> by simp
    then have "f i = w" unfolding f_def using that by (intro the_equality)
    then show ?thesis using that by simp
  qed
  have fi: "(f i, i) \<in> set ms" if "i < ?n" for i
  proof -
    have "i \<in> set (map snd ms)" using ms(5) that by simp
    then obtain w where "(w, i) \<in> set ms" by auto
    then show ?thesis using f by blast
  qed
  have bij: "bij_betw f {..<?n} (items (D r) e)"
  proof (rule bij_betwI')
    show "(f i = f j) = (i = j)" if "i \<in> {..<?n}" "j \<in> {..<?n}" for i j
    proof
      assume "f i = f j"
      moreover have "inj_on fst (set ms)" using ms(2) by (simp add: distinct_map)
      ultimately show "i = j" using inj_onD [of fst "set ms" "(f i, i)" "(f j, j)"] fi [of i] fi [of j] that by simp
    qed simp
    show "f i \<in> items (D r) e" if "i \<in> {..<?n}" for i using fi [of i] that ms(3) by force
    show "\<exists>i\<in>{..<?n}. w = f i" if "w \<in> items (D r) e" for w
    proof -
      have "w \<in> set (map fst ms)" using that ms(3) by simp
      then obtain i where i: "(w, i) \<in> set ms" by auto
      then have "i < ?n" using ms(5) by force
      then show ?thesis using f [OF i] by auto
    qed
  qed
  have "slot_items (acts (final X r)) e i = Some (f i)" if "i < ?n" for i
  proof -
    have "slot_items (acts (final X r)) e = slot_items (filter (\<lambda>a. act_expert a = e) (acts (final X r))) e"
      by (rule slot_items_cong) (auto simp: land_other)
    moreover have "slot_items (map (\<lambda>(w, i). Msg e w (of_nat i)) ms @ [Signal e (- of_nat ?n - 1)]) e i = Some (f i)"
      by (rule slot_items_msgs) (use ms(4,5) small fi that in auto)
    ultimately show ?thesis using ms(1) by simp
  qed
  with bij show "\<exists>f. bij_betw f {..<?n} (items (D r) e) \<and> (\<forall>i<?n. slot_items (acts (final X r)) e i = Some (f i))" by blast
  have "Signal e (word X e r) \<in> set (filter (\<lambda>a. act_expert a = e) (acts (final X r)))"
    using assms(2) r e by (simp add: dispatched_def)
  then have "word X e r = - of_nat ?n - 1" unfolding ms(1) by auto
  then show "num_recv_tokens (word X e r) = of_nat ?n" by (simp add: num_recv_tokens_def)
qed

section \<open>Delivery\<close>

lemma sum_list_perm:
  assumes "distinct xs" and "set xs = {..<n}"
  shows "(\<Sum>r\<leftarrow>xs. N r) = (\<Sum>r<n. N r :: nat)"
  using assms by (simp add: sum_list_distinct_conv_sum_set)

lemma range_start_eq:
  assumes "cluster_ok R E M D" and "dispatched R E D rows X" and e: "e < E"
  shows "range_start X e = snd (take_ranges (\<lambda>r. of_nat (if r < R then card (items (D r) e) else 0)) (order X e) 0 (\<lambda>_. 0))"
proof -
  have "take_ranges m ys c b = take_ranges m' ys c b" if "\<forall>r\<in>set ys. m r = m' r" for m m' ys c b
    using that by (induction ys arbitrary: c b) auto
  from this [of "order X e" "\<lambda>r. num_recv_tokens (word X e r)" "\<lambda>r. of_nat (if r < R then card (items (D r) e) else 0)" 0]
  show ?thesis
    unfolding range_start_def using assms(2) e slots_filled(2) [OF assms(1,2) _ e] by (simp add: dispatched_def)
qed

lemma expert_packed:
  assumes ok: "cluster_ok R E M D" and run: "dispatched R E D rows X" and e: "e < E"
  defines "N \<equiv> \<lambda>r. card (items (D r) e)" and "b \<equiv> range_start X e"
  shows "bij_betw (\<lambda>(r, i). unat (b r) + i) (SIGMA r:{..<R}. {..<N r}) {..<\<Sum>r<R. N r}"
    and "r < R \<Longrightarrow> i < N r \<Longrightarrow> packed X old e (unat (b r) + i) = recv_slots rows X e r i"
    and "r < R \<Longrightarrow> unpack2 (recv_range (\<lambda>r. num_recv_tokens (word X e r)) b r) = (of_nat (N r), b r)"
    and "r < R \<Longrightarrow> unat (b r) + N r \<le> R * M"
proof -
  define N' where "N' r = (if r < R then card (items (D r) e) else 0)" for r
  have ord: "distinct (order X e)" "set (order X e) = {..<R}" using run e by (simp_all add: dispatched_def)
  have NM: "N' r \<le> M" for r
    using ok card_items_distinct [of "D r" e] by (force simp: N'_def cluster_ok_def)
  have tot: "(\<Sum>r\<leftarrow>order X e. N' r) = (\<Sum>r<R. N' r)" by (rule sum_list_perm [OF ord])
  also have le: "(\<Sum>r<R. N' r) \<le> R * M" using sum_bounded_above [of "{..<R}" N' M] NM by simp
  finally have small: "(\<Sum>r\<leftarrow>order X e. N' r) < 2 ^ 31" using cluster_rows(2) [OF ok] by linarith
  have b: "b = snd (take_ranges (\<lambda>r. of_nat (N' r)) (order X e) 0 (\<lambda>_. 0))"
    unfolding b_def N'_def by (rule range_start_eq [OF ok run e])
  have n: "num_recv_tokens (word X e r) = of_nat (N' r)" if "r < R" for r
    using slots_filled(2) [OF ok run that e] that by (simp add: N'_def)
  have cp: "set (copies X e) = (\<Union>r\<in>set (order X e). set (rank_rows (of_nat (N' r)) (b r) (recv_slots rows X e r)))"
    using run e n ord(2) by (simp add: dispatched_def b_def)
  note pk = packed_rows [OF ord(1) small b cp, unfolded tot ord(2)]
  have NN: "(SIGMA r:{..<R}. {..<N' r}) = (SIGMA r:{..<R}. {..<N r})" "(\<Sum>r<R. N' r) = (\<Sum>r<R. N r)"
    by (auto simp: N'_def N_def)
  show "bij_betw (\<lambda>(r, i). unat (b r) + i) (SIGMA r:{..<R}. {..<N r}) {..<\<Sum>r<R. N r}" using pk(1) unfolding NN .
  show "packed X old e (unat (b r) + i) = recv_slots rows X e r i" if "r < R" "i < N r"
    using pk(2) [of r i old] that by (simp add: N'_def N_def packed_def)
  show "unpack2 (recv_range (\<lambda>r. num_recv_tokens (word X e r)) b r) = (of_nat (N r), b r)" if "r < R"
    using pk(3) [of r] that n [OF that] by (simp add: N'_def N_def recv_range_def)
  show "unat (b r) + N r \<le> R * M" if "r < R" using pk(4) [of r] that le by (simp add: N'_def N_def)
qed

text \<open>Every packed row of an expert is the message of an item of some rank that names it, and each item has one.\<close>

lemma packed_items:
  assumes ok: "cluster_ok R E M D" and run: "dispatched R E D rows X" and e: "e < E"
  shows "\<exists>f. bij_betw f {..<\<Sum>r<R. card (items (D r) e)} (SIGMA r:{..<R}. items (D r) e) \<and>
    (\<forall>i<\<Sum>r<R. card (items (D r) e). packed X old e i = message (rows (fst (f i))) (snd (f i)))"
proof -
  let ?N = "\<lambda>r. card (items (D r) e)" and ?b = "range_start X e"
  let ?S = "SIGMA r:{..<R}. {..<?N r}" and ?T = "{..<\<Sum>r<R. ?N r}"
  note pk = expert_packed [OF ok run e]
  have "\<forall>r\<in>{..<R}. \<exists>f. bij_betw f {..<?N r} (items (D r) e) \<and>
      (\<forall>i<?N r. slot_items (acts (final X r)) e i = Some (f i))"
    using slots_filled(1) [OF ok run _ e] by simp
  from bchoice [OF this] obtain g where "\<forall>r\<in>{..<R}. bij_betw (g r) {..<?N r} (items (D r) e) \<and>
      (\<forall>i<?N r. slot_items (acts (final X r)) e i = Some (g r i))" by blast
  then have g: "bij_betw (g r) {..<?N r} (items (D r) e)"
    "\<forall>i<?N r. slot_items (acts (final X r)) e i = Some (g r i)" if "r < R" for r using that by simp_all
  define h where "h = the_inv_into ?S (\<lambda>(r, i). unat (?b r) + i)"
  have h: "bij_betw h ?T ?S" unfolding h_def by (rule bij_betw_the_inv_into [OF pk(1)])
  have G: "bij_betw (\<lambda>(r, i). (r, g r i)) ?S (SIGMA r:{..<R}. items (D r) e)"
    unfolding bij_betw_def
  proof
    show "inj_on (\<lambda>(r, i). (r, g r i)) ?S"
    proof (rule inj_onI)
      fix p q assume p: "p \<in> ?S" and q: "q \<in> ?S" and eq: "(\<lambda>(r, i). (r, g r i)) p = (\<lambda>(r, i). (r, g r i)) q"
      then have r: "fst p < R" "fst q = fst p" "g (fst p) (snd p) = g (fst p) (snd q)" by auto
      have "snd p = snd q"
        using inj_onD [OF bij_betw_imp_inj_on [OF g(1) [OF r(1)]] r(3)] p q r(2) by auto
      then show "p = q" using r(2) by (simp add: prod_eq_iff)
    qed
    show "(\<lambda>(r, i). (r, g r i)) ` ?S = (SIGMA r:{..<R}. items (D r) e)"
    proof (intro set_eqI iffI)
      fix p assume "p \<in> (SIGMA r:{..<R}. items (D r) e)"
      then obtain r w where p: "p = (r, w)" "r < R" "w \<in> items (D r) e" by auto
      then obtain i where "i < ?N r" "w = g r i" using g(1) [OF p(2)] by (auto simp: bij_betw_def)
      then show "p \<in> (\<lambda>(r, i). (r, g r i)) ` ?S" using p by (intro image_eqI [of _ _ "(r, i)"]) auto
    next
      fix p assume "p \<in> (\<lambda>(r, i). (r, g r i)) ` ?S"
      then show "p \<in> (SIGMA r:{..<R}. items (D r) e)" using g(1) by (auto simp: bij_betw_def)
    qed
  qed
  define f where "f = (\<lambda>(r, i). (r, g r i)) \<circ> h"
  have "packed X old e k = message (rows (fst (f k))) (snd (f k))" if k: "k \<in> ?T" for k
  proof -
    obtain r i where ri: "h k = (r, i)" by (cases "h k")
    moreover have "h k \<in> ?S" by (rule bspec [OF bij_betwE [OF h] k])
    ultimately have "(r, i) \<in> ?S" by simp
    then have r: "r < R" "i < ?N r" by auto
    have "(\<lambda>(r, i). unat (?b r) + i) (h k) = k"
      unfolding h_def by (rule f_the_inv_into_f_bij_betw [OF pk(1)]) (use k in simp)
    then have "k = unat (?b r) + i" using ri by simp
    then have "packed X old e k = message (rows r) (g r i)"
      using pk(2) [OF r, of old] g(2) [OF r(1)] r(2) by (simp add: recv_slots_def)
    then show ?thesis by (simp add: f_def ri)
  qed
  moreover have "bij_betw f ?T (SIGMA r:{..<R}. items (D r) e)" unfolding f_def by (rule bij_betw_trans [OF h G])
  ultimately show ?thesis by blast
qed

section \<open>Return\<close>

text \<open>The row of a token that an expert returns lands where the sum reads it, and nothing else lands there.\<close>

lemma returned_row:
  assumes ok: "cluster_ok R E M D" and run: "dispatched R E D rows X" and ret: "returned M E X old F r stores"
    and r: "r < R" and e: "e < E" and w: "(t, k) \<in> items (D r) e"
  shows "store_all stores dst (combine_row_no (of_nat e) (of_nat M) (of_nat t)) = F e (rows r t)"
proof (rule store_all_any_order)
  let ?N = "\<lambda>e. card (items (D r) e)" and ?b = "\<lambda>e. range_start X e r"
  have tm: "t' < M" and t31: "t' < 2 ^ 31" if "(t', k') \<in> items (D r) e'" for t' k' e'
  proof -
    have "num_tokens (D r) \<le> M" "R * M < 2 ^ 31" using ok r cluster_rows [OF ok] by (simp_all add: cluster_ok_def)
    then show "t' < M" using that by (auto simp: items_def)
    moreover have "M \<le> R * M" using r by simp
    ultimately show "t' < 2 ^ 31" using \<open>R * M < 2 ^ 31\<close> by linarith
  qed
  have no: "combine_row_no (of_nat e') (of_nat M) (of_nat t') = e' * M + t'" if "(t', k') \<in> items (D r) e'" "e' < E" for t' k' e'
    by (rule combine_row_no_nat [OF that(2) tm [OF that(1)] cluster_rows(3) [OF ok]])
  have n: "unat (of_nat (?N e') :: cint) = ?N e'" for e'
  proof -
    have "?N e' < 2 ^ 31" using ok r launch_okD(2) [of "D r" e'] by (simp add: cluster_ok_def)
    then show ?thesis by (simp add: unat_of_nat)
  qed
  have row: "packed X old e' (unat (?b e') + i) = message (rows r) (the (slot_items (acts (final X r)) e' i))"
    if "e' < E" "i < ?N e'" for e' i
    using expert_packed(2) [OF ok run that(1) r that(2), of old] by (simp add: recv_slots_def)
  have mem: "(j, v) \<in> set stores \<longleftrightarrow> (\<exists>e'<E. \<exists>i<?N e'.
      j = combine_row_no (of_nat e') (of_nat M) (fst (packed X old e' (unat (?b e') + i))) \<and> v = F e' (snd (packed X old e' (unat (?b e') + i))))" for j v
  proof -
    have up: "unpack2 (recv_range (\<lambda>r. num_recv_tokens (word X e' r)) (range_start X e') r) = (of_nat (?N e'), ?b e')"
      if "e' < E" for e' by (rule expert_packed(3) [OF ok run that r])
    have "set (combine_stores (of_nat M) (of_nat e') (?b e') (of_nat (?N e')) (\<lambda>i. fst (packed X old e' i)) (\<lambda>i. F e' (snd (packed X old e' i)))) =
        (\<lambda>i. (combine_row_no (of_nat e') (of_nat M) (fst (packed X old e' i)), F e' (snd (packed X old e' i)))) `
        {unat (?b e')..<unat (?b e') + ?N e'}" if "e' < E" for e'
    proof -
      have "unat (?b e') + ?N e' \<le> R * M" by (rule expert_packed(4) [OF ok run that r])
      then have "unat (?b e') + unat (of_nat (?N e') :: cint) + 3 < 2 ^ 31" using cluster_rows(1) [OF ok] n [of e'] by linarith
      from set_combine_stores [OF this] show ?thesis by (simp only: n)
    qed
    then have "set stores = (\<Union>e'<E. (\<lambda>i. (combine_row_no (of_nat e') (of_nat M) (fst (packed X old e' i)), F e' (snd (packed X old e' i)))) `
        {unat (?b e')..<unat (?b e') + ?N e'})"
      using ret up by (simp add: returned_def)
    moreover have "{unat (?b e')..<unat (?b e') + ?N e'} = (\<lambda>i. unat (?b e') + i) ` {..<?N e'}" for e'
      by (simp add: lessThan_atLeast0 add.commute)
    ultimately show ?thesis by auto
  qed
  obtain f where f: "bij_betw f {..<?N e} (items (D r) e)" "\<forall>i<?N e. slot_items (acts (final X r)) e i = Some (f i)"
    using slots_filled(1) [OF ok run r e] by blast
  have "(t, k) \<in> f ` {..<?N e}" using w bij_betw_imp_surj_on [OF f(1)] by simp
  then obtain i where i: "i < ?N e" "f i = (t, k)" by auto
  then have "packed X old e (unat (?b e) + i) = (of_nat t, rows r t)" using row [OF e i(1)] f(2) by (simp add: message_def)
  then show "(combine_row_no (of_nat e) (of_nat M) (of_nat t), F e (rows r t)) \<in> set stores" using mem e i(1) by force
  fix v assume "(combine_row_no (of_nat e) (of_nat M) (of_nat t), v) \<in> set stores"
  then obtain e' i' where e': "e' < E" "i' < ?N e'"
    "combine_row_no (of_nat e) (of_nat M) (of_nat t) =
      combine_row_no (of_nat e') (of_nat M) (fst (packed X old e' (unat (?b e') + i')))"
    "v = F e' (snd (packed X old e' (unat (?b e') + i')))" using mem by blast
  obtain f' where f': "bij_betw f' {..<?N e'} (items (D r) e')" "\<forall>i<?N e'. slot_items (acts (final X r)) e' i = Some (f' i)"
    using slots_filled(1) [OF ok run r e'(1)] by blast
  obtain t' k' where w': "f' i' = (t', k')" by (cases "f' i'")
  then have it: "(t', k') \<in> items (D r) e'" using bij_betwE [OF f'(1)] e'(2) by force
  have p': "packed X old e' (unat (?b e') + i') = (of_nat t', rows r t')"
    using row [OF e'(1,2)] f'(2) e'(2) w' by (simp add: message_def)
  then have "e * M + t = e' * M + t'" using e'(3) no [OF it e'(1)] no [OF w e] by simp
  then have "e = e' \<and> t = t'" using mixed_radix_inj [of t M t' e e'] tm [OF w] tm [OF it] by simp
  then show "v = F e (rows r t)" using e'(4) p' by simp
qed

text \<open>Every stuck end of the send phases has a run, and every run can be returned.\<close>

lemma dispatched_exists:
  fixes rows :: "nat \<Rightarrow> nat \<Rightarrow> 'row"
  assumes ok: "cluster_ok R E M D"
  shows "\<exists>X. dispatched R E D rows X"
proof -
  have "\<exists>s. (\<exists>counts. dispatch_reachable (D r) counts s) \<and> stuck (D r) s" for r
    using dispatch_reaches_stuck [of "D r" "dispatch_init (\<lambda>_. 0)"] by blast
  then obtain s where s: "\<And>r. (\<exists>counts. dispatch_reachable (D r) counts (s r)) \<and> stuck (D r) (s r)" by metis
  define X0 :: "'row run" where "X0 = \<lparr>final = s, word = (\<lambda>e r. - of_nat (card (items (D r) e)) - 1), order = (\<lambda>_. [0..<R]), copies = (\<lambda>_. [])\<rparr>"
  define X :: "'row run" where "X = X0\<lparr>copies := (\<lambda>e. concat (map (\<lambda>r. rank_rows (num_recv_tokens (word X0 e r)) (range_start X0 e r)
      (recv_slots rows X0 e r)) [0..<R]))\<rparr>"
  have sel: "final X = s" "word X = word X0" "order X = order X0" "range_start X = range_start X0" "recv_slots rows X = recv_slots rows X0"
    by (simp_all add: X_def X0_def range_start_def recv_slots_def fun_eq_iff)
  have "Signal e (word X e r) \<in> set (acts (final X r))" if "e < E" "r < R" for e r
  proof -
    have D: "launch_ok (D r)" "entries_ok (D r)" "8 < num_experts (D r)" "e < num_experts (D r)"
      using ok that by (auto simp: cluster_ok_def)
    obtain counts where c: "dispatch_reachable (D r) counts (s r)" "stuck (D r) (s r)" using s by blast
    note fin = stuck_final [OF D(1-3) c D(4)]
    show ?thesis using final_signal [OF fin(2) launch_okD(2) [OF D(1)] fin(1)] by (simp add: sel X0_def)
  qed
  moreover have "set (copies X e) = (\<Union>r<R. set (rank_rows (num_recv_tokens (word X e r)) (range_start X e r) (recv_slots rows X e r)))" for e
    unfolding sel by (simp add: X_def atLeast0LessThan)
  ultimately have "dispatched R E D rows X"
    unfolding dispatched_def using s by (simp add: sel X0_def atLeast0LessThan)
  then show ?thesis ..
qed

lemma returned_exists: "\<exists>stores. returned M E X old F r stores"
proof -
  let ?rw = "\<lambda>e. unpack2 (recv_range (\<lambda>r. num_recv_tokens (word X e r)) (range_start X e) r)"
  have "returned M E X old F r (concat (map (\<lambda>e. combine_stores (of_nat M) (of_nat e) (snd (?rw e)) (fst (?rw e))
      (\<lambda>i. fst (packed X old e i)) (\<lambda>i. F e (snd (packed X old e i)))) [0..<E]))"
    by (simp add: returned_def atLeast0LessThan)
  then show ?thesis ..
qed

lemma demo_cluster: "cluster_ok 1 9 2 (\<lambda>_. demo_dispatch)"
  using demo_dispatch_ok by (simp add: cluster_ok_def) (simp add: demo_dispatch_def)

end
