(* ===== verification/Spec2Isabelle.thy ===== *)
theory Spec2Isabelle
  imports Memheap Warp_Utils Buffer_Layout Ifc_Header Mlx5gda Device_Post Ep_Connect Device_Barrier Os_Io
    Launch_Macros Kernel_Interface Packed_Output Message_Path Async_Copy Launch_Sequence Dispatch_Stray End_To_End
begin

text \<open>
  Verification library for the expert-parallel communication demo \<^verbatim>\<open>ep-demo\<close>: token dispatch to experts
  on other ranks and combination of their results, over NVLink or by RDMA writes that the GPU posts itself.

  \<^bold>\<open>The program.\<close> A host object \<^verbatim>\<open>EpBuffer\<close> allocates the data buffer that peers write to, opens a NIC,
  creates 256 queue pairs (rounded to the ranks) whose rings live in a GPU control buffer served by a
  small allocator, connects them to the peers and exchanges NVLink handles. The kernel \<^verbatim>\<open>dispatch\<close> sends
  each token to the experts it names and, on the other side, packs what arrived by expert; the kernel
  \<^verbatim>\<open>combine\<close> sends the rows of the experts back and sums them by weight. Kernels and host share the
  control buffer (queue pairs), the tables of addresses, keys and NVLink flags, and a workspace of
  counters; ranks share the regions of \<^verbatim>\<open>BufferPair\<close>: signal words and data, for two batches in turn.

  \<^bold>\<open>Theories and sources.\<close> Each theory names its sources at its head; record fields and definitions keep
  the names of the code, up to a prefix where a name is taken.

  \<^item> \<^theory_text>\<open>EP_Prelude\<close>: machine integers as words, \<^verbatim>\<open>errno\<close>, facts shared by all components.
    \<^theory_text>\<open>Step_Systems\<close>: the two contracts of step relations, an invariant and work that is used up.
  \<^item> \<^theory_text>\<open>Memheap\<close> (\<^verbatim>\<open>include/ep_ibgda/memheap.h\<close>): state is the heap record, operations are create,
    aligned_alloc, alloc, free, errors are the value -1 with an \<^verbatim>\<open>errno\<close>. Invariant, alignment, bounds and
    disjointness without frees, the overlap that a free makes possible, when an allocation fails.
  \<^item> \<^theory_text>\<open>Ifc_Layout\<close>, \<^theory_text>\<open>Ifc_Caps\<close>, \<^theory_text>\<open>Ifc_Steering\<close>, \<^theory_text>\<open>Ifc_Objects\<close>, \<^theory_text>\<open>Ifc_Commands\<close>, \<^theory_text>\<open>Ifc_Header\<close>
    (\<^verbatim>\<open>mlx5_ifc.h\<close>, \<^verbatim>\<open>mlx5_prm.h\<close>): a language of bit-field layouts, all 288 layouts in it, the laws of the
    access macros (the macros are of \<^verbatim>\<open>mlx5dv.h\<close>, so a parameter with a big-endian instance), and that
    every field, those of anonymous unions included, can be accessed by them.
  \<^item> \<^theory_text>\<open>Mlx5gda_Cmd\<close>, \<^theory_text>\<open>Mlx5gda_Readback\<close>, \<^theory_text>\<open>Mlx5gda\<close> (\<^verbatim>\<open>src/ep_ibgda/mlx5gda.cpp\<close>): the commands as the
    device reads them back, and creation, destruction and state changes of queues with every failure path;
    every acquisition and release is an event of a trace, so a leak is an unbalanced trace.
  \<^item> \<^theory_text>\<open>Spin_Lock\<close>, \<^theory_text>\<open>Device_Qp\<close>, \<^theory_text>\<open>Device_Post\<close> (\<^verbatim>\<open>src/ep_kernel.cu\<close> 1--138): the lock word as a step relation over
    any number of threads, work-queue entries, doorbell and completion poll; posts under the lock are serial
    (a refinement of whole posts), never lost, and fill the ring in the order the NIC reads.
  \<^item> \<^theory_text>\<open>Warp_Utils\<close>, \<^theory_text>\<open>Device_Barrier\<close> (\<^verbatim>\<open>include/ep_utils.cuh\<close>): the warp copy, reductions, packing and
    division helpers; the barrier over the ranks with all its warps, its assertion and its trap. \<^theory_text>\<open>Device_Memory\<close>, \<^theory_text>\<open>Memory_Copy\<close>: every load, store
    and atomic wrapper as an instruction over a memory of bytes, and the warp copy with them, which refines the
    copy of arrays; when the copies of a message can be made, and which signals are ordered. \<^theory_text>\<open>Async_Copy\<close>: fences,
    the templates, the broadcast, and the bulk copies with their barrier, which no kernel calls.
  \<^item> \<^theory_text>\<open>Buffer_Layout\<close> (\<^verbatim>\<open>include/ep_buffer.h\<close>, addresses of \<^verbatim>\<open>ep_kernel.cu\<close>): the eight regions tile the buffer,
    slots and signals lie in their regions and never overlap. \<^theory_text>\<open>Packed_Output\<close>: the outputs of the receive
    phase are filled exactly. \<^theory_text>\<open>Message_Path\<close>: staging, carrying and unpacking of messages over the memory of bytes.
  \<^item> \<^theory_text>\<open>Ep_Helpers\<close>, \<^theory_text>\<open>Ep_Buffer\<close>, \<^theory_text>\<open>Ep_Lifecycle\<close>, \<^theory_text>\<open>Ep_Connect\<close> (\<^verbatim>\<open>src/ep_buffer.cpp\<close>): the object as a record,
    each method a function of the record and of an environment that answers the library calls.
  \<^item> \<^theory_text>\<open>Dispatch_Send\<close>, \<^theory_text>\<open>Dispatch_Protocol\<close>, \<^theory_text>\<open>Dispatch_Stray\<close>, \<^theory_text>\<open>Kernel_Messages\<close>, \<^theory_text>\<open>Dispatch_Recv\<close>
    (\<^verbatim>\<open>dispatch\<close>): the send phase as a step relation over its atomic accesses to one workspace with its invariant, what an
    entry does that names no expert, the transports and contents of messages, the wait with its time limit and the
    packing.
  \<^item> \<^theory_text>\<open>Combine\<close> (\<^verbatim>\<open>combine\<close>), \<^theory_text>\<open>Kernel_Launch\<close>, \<^theory_text>\<open>Kernel_Interface\<close>, \<^theory_text>\<open>Launch_Macros\<close> (the host functions, the
    assertions of the kernels, the arguments by position, and \<^verbatim>\<open>ep_launch.cuh\<close>, \<^verbatim>\<open>ep_exception.cuh\<close>), \<^theory_text>\<open>Os_Io\<close> (\<^verbatim>\<open>os.h\<close>, \<^verbatim>\<open>compiler.h\<close>).
  \<^item> \<^theory_text>\<open>Launch_Sequence\<close>: launches one after the other on all ranks, with the signal words of two buffers; what a
    single launch guarantees are the guards of its steps, and a dispatch of one block does nothing. Which words a launch sees, and that all end.
  \<^item> \<^theory_text>\<open>End_To_End\<close> and this theory: all ranks together. A run consists of an end of every rank's send phase,
    the order in which the ranges were taken and the copies in any order; the first two properties state
    what dispatch and combine compute on it.

  \<^bold>\<open>Interfaces.\<close> \<^verbatim>\<open>region_allocator\<close> (interpreted on the heap), \<^verbatim>\<open>devx_macros\<close> (on the big-endian accesses),
  \<^verbatim>\<open>critical_section\<close> (on the posts of a queue pair), \<^verbatim>\<open>region_ops\<close> (on the staging of messages and on the copies), \<^verbatim>\<open>step_system\<close> and \<^verbatim>\<open>draining\<close> (on the send phases of
  both kernels, on the sequence of launches, on the barrier and on the copy engine).

  \<^bold>\<open>Bounds and loops.\<close> Integers keep their width; a product of \<^verbatim>\<open>int\<close>s is taken at 32 bits before it is
  widened. Hypotheses such as \<^verbatim>\<open>sizes_ok\<close> and \<^verbatim>\<open>launch_ok\<close> say that the counts fit; \<^verbatim>\<open>entries_ok\<close> and
  \<^verbatim>\<open>cluster_ok\<close> say what neither host nor kernel checks: the ranks share the experts evenly, and every entry that is
  not negative names an expert. The demonstration inputs of the witnesses meet them. Loops that wait (for a signal, a completion, a slot, a system call)
  take the list of what their rounds see and return None while they still wait; for each there is a lemma
  on when they return. \<^verbatim>\<open>round_up_pow2\<close> is a partial function, None where its loop does not end, and the
  arguments for which it returns are characterised. No definition carries fuel; all other recursions are
  total, with a measure where they are not structural.

  \<^bold>\<open>Idealisations.\<close> In the step relations, accesses with release and acquire semantics are steps on one shared
  memory, in any interleaving of any number of threads; accesses that the code separates by a fence or a
  barrier stay in that order. Where the scopes of two accesses do not justify this (the signal to an NVLink
  peer), \<^theory_text>\<open>Device_Memory\<close> says so. Operations on floats and the conversions to BF16 and FP8 are parameters. The CUDA runtime and
  driver, libibverbs, libmlx5 and the NIC are parameters: functions of an environment record.

  \<^bold>\<open>Behaviour worth knowing.\<close> The combine sums a token's rows whether or not their rank is still active.
  The counters of the dispatch and the flag of the combine share the workspace, which is sound because
  each kernel leaves its words at 0. An entry that names no expert takes its slot from a finish counter, and the
  launch can hang. A dispatch of eight experts or fewer traps, the only assertion a launch of the host can fail. In the
  barrier only the first warp of a rank is held. The two buffers alternate only if the caller of the kernels makes them:
  \<^verbatim>\<open>buffer_idx\<close> never changes, and with one buffer a combine takes the signals of a dispatch for its own.
  Nothing clears the signal words before the first launch, which needs them to be 0.

  \<^bold>\<open>Not modelled.\<close> The 8-byte stores and the scales of an FP8 message byte by byte (they are modelled as values in
  \<^theory_text>\<open>Kernel_Messages\<close>), accessors that return a member, the repeated definitions of three macros of \<^verbatim>\<open>ep_launch.cuh\<close>,
  printed and logged output, and the test programs, which only drive the library.
\<close>

section \<open>Properties that span the kernels\<close>

text \<open>
  C1. When the ranks share the experts evenly and no entry names an expert that does not exist: after the
  dispatch, the packed rows of every expert are exactly the tokens that name it, over all
  ranks, each once, with the token's index on its rank and its row: whatever the interleavings in
  the send phases, the order in which the ranges were taken and the order of the copies.
\<close>

theorem dispatch_delivers:
  assumes "cluster_ok R E M D" and "dispatched R E D rows X" and "e < E"
  shows "\<exists>f. bij_betw f {..<\<Sum>r<R. card (items (D r) e)} (SIGMA r:{..<R}. items (D r) e) \<and>
    (\<forall>i<\<Sum>r<R. card (items (D r) e). packed X old e i = message (rows (fst (f i))) (snd (f i)))"
  by (rule packed_items [OF assms])

theorem dispatch_delivers_witness:
  "\<exists>X f. dispatched 1 9 (\<lambda>_. demo_dispatch) (\<lambda>r t. 10 * t) X \<and>
     bij_betw f {..<\<Sum>r<1::nat. card (items demo_dispatch 8)} (SIGMA r:{..<1::nat}. items demo_dispatch 8)"
proof -
  obtain X where X: "dispatched 1 9 (\<lambda>_. demo_dispatch) (\<lambda>r t. 10 * t) X" using dispatched_exists [OF demo_cluster] by blast
  have "8 < (9 :: nat)" by simp
  from dispatch_delivers [where old = "\<lambda>_. (0, 0)", OF demo_cluster X this]
  obtain f where "bij_betw f {..<\<Sum>r<1::nat. card (items demo_dispatch 8)} (SIGMA r:{..<1::nat}. items demo_dispatch 8)"
    by (elim exE conjE) (rule that, assumption)
  then show ?thesis using X by (intro exI conjI)
qed

text \<open>
  C2. Dispatch, experts and combine together compute what the tokens ask for: the combined element of a token
  is the sum over its entries, in order, of the entry's weight times what the entry's expert makes of
  the token's row. No row of another token, expert or rank gets into the sum.
\<close>

theorem combine_inverts_dispatch:
  assumes "cluster_ok R E M D" and "dispatched R E D rows X" and "returned M E X old F r rets"
    and "r < R" and "t < num_tokens (D r)"
  shows "combined_value add mul zero (store_all rets dst) (of_nat M) (num_topk (D r)) (reg_topk_idx (D r) t) w (of_nat t) j =
    fold (\<lambda>k acc. if 0 \<le> dst_expert_idx (D r) t k
      then add acc (mul (F (nat (dst_expert_idx (D r) t k)) (rows r t) j) (w k)) else acc) [0..<num_topk (D r)] zero"
  unfolding combined_value_def
proof (rule fold_cong [OF refl refl], rule ext)
  fix k acc assume "k \<in> set [0..<num_topk (D r)]"
  then have k: "k < num_topk (D r)" by simp
  let ?e = "nat (dst_expert_idx (D r) t k)"
  have D: "entries_ok (D r)" "launch_ok (D r)" "num_experts (D r) = E" using assms(1,4) by (simp_all add: cluster_ok_def)
  then have "k < 31" using k by (simp add: launch_ok_def)
  have idx: "sint (reg_topk_idx (D r) t k) = dst_expert_idx (D r) t k" by (rule sint_reg_topk_idx [OF k])
  have "store_all rets dst (combine_row_no (reg_topk_idx (D r) t k) (of_nat M) (of_nat t)) = F ?e (rows r t)"
    if pos: "0 \<le> dst_expert_idx (D r) t k"
  proof -
    have item: "(t, k) \<in> items (D r) ?e" using pos k \<open>k < 31\<close> assms(5) by (simp add: items_def)
    have "?e < E" using items_in_range [OF D(1) item] D(3) by simp
    moreover have "word_of_int (sint (reg_topk_idx (D r) t k)) = (of_nat ?e :: cint)" using idx pos by simp
    then have "reg_topk_idx (D r) t k = of_nat ?e" by simp
    ultimately show ?thesis using returned_row [OF assms(1-4) _ item] by simp
  qed
  then show "(if 0 \<le> sint (reg_topk_idx (D r) t k)
        then add acc (mul (store_all rets dst (combine_row_no (reg_topk_idx (D r) t k) (of_nat M) (of_nat t)) j) (w k)) else acc) =
      (if 0 \<le> dst_expert_idx (D r) t k then add acc (mul (F ?e (rows r t) j) (w k)) else acc)" by (simp add: idx)
qed

theorem combine_inverts_dispatch_witness:
  "\<exists>X rets. dispatched 1 9 (\<lambda>_. demo_dispatch) (\<lambda>r t. 10 + t) X \<and>
     returned 2 9 X (\<lambda>_. (0, 0)) (\<lambda>e x (j::nat). int e * int x) 0 rets \<and>
     combined_value (+) (*) 0 (store_all rets (\<lambda>_ _. 0)) 2 2 (reg_topk_idx demo_dispatch 0) (\<lambda>_. 1) 0 5 = 110"
proof -
  let ?D = "\<lambda>_. demo_dispatch"
  obtain X where X: "dispatched 1 9 ?D (\<lambda>r t. 10 + t) X" using dispatched_exists [OF demo_cluster] by blast
  obtain rets where st: "returned 2 9 X (\<lambda>_. (0, 0)) (\<lambda>e x (j::nat). int e * int x) 0 rets" using returned_exists by blast
  have "combined_value (+) (*) 0 (store_all rets (\<lambda>_ _. 0)) (of_nat 2) (num_topk demo_dispatch) (reg_topk_idx demo_dispatch 0)
      (\<lambda>_. 1) (of_nat 0) 5 =
    fold (\<lambda>k acc. if 0 \<le> dst_expert_idx demo_dispatch 0 k
      then acc + int (nat (dst_expert_idx demo_dispatch 0 k)) * int (10 + 0) * 1 else acc) [0..<num_topk demo_dispatch] 0"
    by (rule combine_inverts_dispatch [OF demo_cluster X st]) (simp_all add: demo_dispatch_def)
  also have "\<dots> = 110" by (simp add: demo_dispatch_def dst_expert_idx_def upt_rec)
  finally show ?thesis using X st by (auto simp: demo_dispatch_def)
qed

end
